(* ===== verification/Prelude.thy ===== *)
theory Prelude
  imports Main "HOL-Library.Word"
begin

text \<open>
  Shared ground of the development: the types every component uses, Go errors as values,
  byte and string conversions, big-endian words, the readers the wire layer consumes
  (\<open>bytes.Reader\<close> and \<open>bufio.Reader\<close>), and the generic locales for codecs and for
  state machines.

  Go's integers are modelled by \<open>int\<close> (or \<open>nat\<close> for unsigned ids); every place where
  the width matters goes through \<open>wrap32\<close>, \<open>wrap64\<close> or a \<open>word\<close>. Go strings are byte
  sequences, here \<open>string\<close>, whose characters are bytes. IEEE floats are their bit
  patterns (\<open>32 word\<close>, \<open>64 word\<close>).
\<close>

unbundle bit_operations_syntax

type_synonym byte = "8 word"

named_theorems wire_simps \<open>equations that evaluate the wire writers and readers\<close>
named_theorems result_simps \<open>equations of the error-result combinators\<close>

section \<open>Errors\<close>

text \<open>
  The arguments of a formatted error message: \<open>%d\<close> and \<open>%s\<close>/\<open>%q\<close> verbs. A formatted error
  keeps its format string and arguments instead of the rendered text.
\<close>

datatype fmt_arg = FD int | FS string

text \<open>
  Rich text is a third-party type: the code builds plain text components and otherwise hands
  components to the codec unseen. A nil component is \<open>None\<close>.
\<close>

datatype component = TextC string | Rich nat

datatype go_error =
    EOF | ErrUnexpectedEOF | ErrClosedPipe | NetErrClosed | ErrWrite
  | ErrMissingProtocolRouter | ErrMissingWorldProvider | ErrMissingSpawnResolver
  | ErrInvalidLogin | ErrSessionUnavailable | ErrProtocolRejected | ErrMissingWorld
  | ErrUnsupportedCapability | ErrInvalidSessionControl | ErrWorldNotFound
  | ErrInvalidSchematic
  | Errorf string "fmt_arg list"
  | Wrapf go_error string "fmt_arg list"
  | ProtocolRejectError "component option"
  | External nat

text \<open>
  \<open>errors.Is\<close>: the error itself or one it wraps with \<open>%w\<close>; a protocol rejection
  (protocol_policy.go) unwraps to its sentinel.
\<close>

fun errors_is :: "go_error \<Rightarrow> go_error \<Rightarrow> bool" where
  "errors_is (Wrapf e m as) t \<longleftrightarrow> Wrapf e m as = t \<or> errors_is e t"
| "errors_is (ProtocolRejectError r) t \<longleftrightarrow> ProtocolRejectError r = t \<or> t = ErrProtocolRejected"
| "errors_is e t \<longleftrightarrow> e = t"

text \<open>A Go function that returns \<open>(T, error)\<close>: \<open>Inl\<close> the error, \<open>Inr\<close> the value.\<close>

type_synonym 'a result = "go_error + 'a"

fun bindR :: "'a result \<Rightarrow> ('a \<Rightarrow> 'b result) \<Rightarrow> 'b result" where
  "bindR (Inl e) f = Inl e"
| "bindR (Inr x) f = f x"

lemma bindR_Inr_conv [result_simps]:
  "bindR m f = Inr y \<longleftrightarrow> (\<exists>x. m = Inr x \<and> f x = Inr y)"
  by (cases m) auto

lemma bindR_Inl_conv [result_simps]:
  "bindR m f = Inl e \<longleftrightarrow> m = Inl e \<or> (\<exists>x. m = Inr x \<and> f x = Inl e)"
  by (cases m) auto

lemma bindR_assoc: "bindR (bindR m f) g = bindR m (\<lambda>x. bindR (f x) g)"
  by (cases m) auto

lemma bindR_cong [fundef_cong]:
  "m = n \<Longrightarrow> (\<And>x. n = Inr x \<Longrightarrow> f x = g x) \<Longrightarrow> bindR m f = bindR n g"
  by (cases n) auto

section \<open>Machine integers\<close>

definition wrap32 :: "int \<Rightarrow> int" where
  "wrap32 n = sint (word_of_int n :: 32 word)"

definition wrap64 :: "int \<Rightarrow> int" where
  "wrap64 n = sint (word_of_int n :: 64 word)"

definition is_int32 :: "int \<Rightarrow> bool" where
  "is_int32 n \<longleftrightarrow> - (2 ^ 31) \<le> n \<and> n < 2 ^ 31"

definition is_int64 :: "int \<Rightarrow> bool" where
  "is_int64 n \<longleftrightarrow> - (2 ^ 63) \<le> n \<and> n < 2 ^ 63"

lemma wrap32_id: "is_int32 n \<Longrightarrow> wrap32 n = n"
  by (simp add: wrap32_def is_int32_def signed_of_int signed_take_bit_int_eq_self)

lemma wrap64_id: "is_int64 n \<Longrightarrow> wrap64 n = n"
  by (simp add: wrap64_def is_int64_def signed_of_int signed_take_bit_int_eq_self)

lemma is_int32_wrap32: "is_int32 (wrap32 n)"
proof -
  have "- (2 ^ 31) \<le> sint (word_of_int n :: 32 word)"
    using sint_ge [of "word_of_int n :: 32 word"] by simp
  moreover have "sint (word_of_int n :: 32 word) < 2 ^ 31"
    using sint_lt [of "word_of_int n :: 32 word"] by simp
  ultimately show ?thesis by (simp add: is_int32_def wrap32_def)
qed

lemma unat_less_32: "unat w < 2 ^ 32" for w :: "32 word"
  using unsigned_less [of w] by simp

text \<open>Go's \<open>/\<close> and \<open>%\<close> truncate towards zero.\<close>

definition go_div :: "int \<Rightarrow> int \<Rightarrow> int" where
  "go_div a b = sgn a * sgn b * (\<bar>a\<bar> div \<bar>b\<bar>)"

definition go_mod :: "int \<Rightarrow> int \<Rightarrow> int" where
  "go_mod a b = a - b * go_div a b"

lemma go_div_nonneg: "0 \<le> a \<Longrightarrow> 0 < b \<Longrightarrow> go_div a b = a div b"
  by (cases "a = 0") (simp_all add: go_div_def)

lemma go_mod_nonneg: "0 \<le> a \<Longrightarrow> 0 < b \<Longrightarrow> go_mod a b = a mod b"
  by (simp add: go_mod_def go_div_nonneg minus_mult_div_eq_mod)

section \<open>Bytes and strings\<close>

definition byte_of_char :: "char \<Rightarrow> byte" where
  "byte_of_char c = word_of_nat (of_char c)"

definition char_of_byte :: "byte \<Rightarrow> char" where
  "char_of_byte b = char_of (unat b)"

definition bytes_of :: "string \<Rightarrow> byte list" where
  "bytes_of s = map byte_of_char s"

definition string_of :: "byte list \<Rightarrow> string" where
  "string_of bs = map char_of_byte bs"

lemma char_of_byte_of_char [simp]: "char_of_byte (byte_of_char c) = c"
proof -
  have "(of_char c :: nat) < 256" by simp
  then have "unat (word_of_nat (of_char c) :: byte) = of_char c"
    by (simp add: unat_of_nat)
  then show ?thesis by (simp add: char_of_byte_def byte_of_char_def)
qed

lemma byte_of_char_of_byte [simp]: "byte_of_char (char_of_byte b) = b"
proof -
  have "unat b < 256" using unsigned_less [of b] by simp
  then have "of_char (char_of (unat b)) = unat b" by simp
  then show ?thesis by (simp add: char_of_byte_def byte_of_char_def)
qed

lemma string_of_bytes_of [simp]: "string_of (bytes_of s) = s"
  by (simp add: string_of_def bytes_of_def comp_def)

lemma bytes_of_string_of [simp]: "bytes_of (string_of bs) = bs"
  by (simp add: string_of_def bytes_of_def comp_def)

lemma length_bytes_of [simp]: "length (bytes_of s) = length s"
  by (simp add: bytes_of_def)

lemma length_string_of [simp]: "length (string_of bs) = length bs"
  by (simp add: string_of_def)

section \<open>Big-endian words\<close>

text \<open>\<open>binary.BigEndian.PutUintN\<close> and \<open>UintN\<close> for \<open>n\<close> bytes.\<close>

definition put_be :: "nat \<Rightarrow> 'a::len word \<Rightarrow> byte list" where
  "put_be n w = map (\<lambda>i. ucast (drop_bit (8 * i) w)) (rev [0..<n])"

definition get_be :: "byte list \<Rightarrow> 'a::len word" where
  "get_be bs = foldl (\<lambda>acc b. push_bit 8 acc OR ucast b) 0 bs"

lemma length_put_be [simp]: "length (put_be n w) = n"
  by (simp add: put_be_def)

lemma put_be_Suc: "put_be (Suc n) w = ucast (drop_bit (8 * n) w) # put_be n w"
  by (simp add: put_be_def)

lemma put_be_0 [simp]: "put_be 0 w = []"
  by (simp add: put_be_def)

lemma get_be_foldl_put_be:
  fixes w :: "'a::len word"
  shows "foldl (\<lambda>acc b. push_bit 8 acc OR ucast b) a (put_be n w)
    = push_bit (8 * n) a OR take_bit (8 * n) w"
proof (induction n arbitrary: a)
  case 0
  show ?case by simp
next
  case (Suc n)
  show ?case
    unfolding put_be_Suc foldl_Cons Suc.IH
    by (rule bit_eqI)
      (auto simp: bit_or_iff bit_push_bit_iff bit_take_bit_iff bit_ucast_iff
        bit_drop_bit_eq not_less le_add_diff_inverse2 add.commute
        intro: bit_imp_le_length dest: bit_imp_le_length)
qed

lemma get_put_be:
  fixes w :: "'a::len word"
  assumes "8 * n = LENGTH('a)"
  shows "get_be (put_be n w) = w"
  using get_be_foldl_put_be [of 0 n w] assms by (simp add: get_be_def)

section \<open>Readers\<close>

text \<open>
  A reader is the bytes it has buffered, the segments its source will still deliver (one per
  \<open>Read\<close> of the underlying connection) and the error the source returns after the last one.
  A \<open>bytes.Reader\<close> has all its bytes buffered and ends with \<open>EOF\<close>. \<open>flat\<close> is everything
  still to be read.
\<close>

datatype stream = Stream (sbuf: "byte list") (ssegs: "byte list list") (serr: go_error)

definition flat :: "stream \<Rightarrow> byte list" where
  "flat s = sbuf s @ concat (ssegs s)"

definition bytes_reader :: "byte list \<Rightarrow> stream" where
  "bytes_reader d = Stream d [] EOF"

text \<open>\<open>ReadByte\<close>: an empty buffer is refilled with the next segment.\<close>

fun refill_byte :: "byte list list \<Rightarrow> go_error \<Rightarrow> (byte \<times> stream) result" where
  "refill_byte [] e = Inl e"
| "refill_byte ([] # segs) e = refill_byte segs e"
| "refill_byte ((b # bs) # segs) e = Inr (b, Stream bs segs e)"

definition readByte :: "stream \<Rightarrow> (byte \<times> stream) result" where
  "readByte s = (case sbuf s of
       b # bs \<Rightarrow> Inr (b, Stream bs (ssegs s) (serr s))
     | [] \<Rightarrow> refill_byte (ssegs s) (serr s))"

text \<open>\<open>io.ReadFull\<close>: no byte gives the source's error, too few give \<open>ErrUnexpectedEOF\<close>.\<close>

fun read_upto :: "nat \<Rightarrow> stream \<Rightarrow> byte list \<times> stream" where
  "read_upto 0 s = ([], s)"
| "read_upto (Suc n) s = (case readByte s of
       Inl e \<Rightarrow> ([], s)
     | Inr (b, s1) \<Rightarrow> (let (bs, s2) = read_upto n s1 in (b # bs, s2)))"

definition readFull :: "nat \<Rightarrow> stream \<Rightarrow> (byte list \<times> stream) result" where
  "readFull n s = (let (bs, s') = read_upto n s in
     if length bs = n then Inr (bs, s')
     else if bs = [] then Inl (serr s)
     else Inl (if serr s = EOF then ErrUnexpectedEOF else serr s))"

text \<open>The reader after \<open>n\<close> more bytes.\<close>

fun advance :: "nat \<Rightarrow> stream \<Rightarrow> stream" where
  "advance 0 s = s"
| "advance (Suc n) s = (case readByte s of Inl e \<Rightarrow> s | Inr (b, s') \<Rightarrow> advance n s')"

lemma flat_bytes_reader [simp]: "flat (bytes_reader d) = d"
  by (simp add: flat_def bytes_reader_def)

lemma refill_byte_Nil: "concat segs = [] \<Longrightarrow> refill_byte segs e = Inl e"
  by (induction segs e rule: refill_byte.induct) simp_all

lemma refill_byte_Cons:
  "concat segs = b # r \<Longrightarrow>
    \<exists>s'. refill_byte segs e = Inr (b, s') \<and> flat s' = r \<and> serr s' = e"
  by (induction segs e rule: refill_byte.induct) (simp_all add: flat_def)

lemma readByte_Nil: "flat s = [] \<Longrightarrow> readByte s = Inl (serr s)"
  by (simp add: flat_def readByte_def refill_byte_Nil)

lemma readByte_Cons:
  assumes "flat s = b # r"
  obtains s' where "readByte s = Inr (b, s')" "flat s' = r" "serr s' = serr s"
proof (cases "sbuf s")
  case Nil
  with assms have "concat (ssegs s) = b # r" by (simp add: flat_def)
  then obtain s' where "refill_byte (ssegs s) (serr s) = Inr (b, s')" "flat s' = r" "serr s' = serr s"
    using refill_byte_Cons [of "ssegs s" b r "serr s"] by blast
  with Nil that show ?thesis by (simp add: readByte_def)
next
  case (Cons c bs)
  with assms have "c = b" "bs @ concat (ssegs s) = r" by (simp_all add: flat_def)
  with Cons that [of "Stream bs (ssegs s) (serr s)"] show ?thesis
    by (simp add: readByte_def flat_def)
qed

lemma readByte_advance:
  assumes "flat s = b # r"
  shows "readByte s = Inr (b, advance 1 s)"
proof -
  obtain s' where "readByte s = Inr (b, s')" by (rule readByte_Cons [OF assms])
  then show ?thesis by simp
qed

lemma readByte_Inr_flat:
  assumes "readByte s = Inr (b, s')"
  shows "flat s = b # flat s' \<and> serr s' = serr s \<and> s' = advance 1 s"
proof (cases "flat s")
  case Nil
  with assms show ?thesis by (simp add: readByte_Nil)
next
  case (Cons c r)
  obtain s1 where s1: "readByte s = Inr (c, s1)" "flat s1 = r" "serr s1 = serr s"
    by (rule readByte_Cons [OF Cons])
  from s1(1) assms have "c = b" "s1 = s'" by simp_all
  moreover have "s' = advance 1 s" using assms by simp
  ultimately show ?thesis using s1 Cons by blast
qed

lemma readByte_Inl_iff: "readByte s = Inl e \<longleftrightarrow> flat s = [] \<and> e = serr s"
proof (cases "flat s")
  case Nil
  then show ?thesis by (auto simp: readByte_Nil)
next
  case (Cons c r)
  obtain s' where "readByte s = Inr (c, s')" by (rule readByte_Cons [OF Cons])
  with Cons show ?thesis by simp
qed

lemma flat_advance [simp]: "flat (advance n s) = drop n (flat s)"
proof (induction n arbitrary: s)
  case 0
  show ?case by simp
next
  case (Suc n)
  show ?case
  proof (cases "flat s")
    case Nil
    then show ?thesis by (simp add: readByte_Nil)
  next
    case (Cons b r)
    then obtain s' where "readByte s = Inr (b, s')" "flat s' = r"
      by (rule readByte_Cons)
    with Cons Suc.IH [of s'] show ?thesis by simp
  qed
qed

lemma serr_advance [simp]: "serr (advance n s) = serr s"
proof (induction n arbitrary: s)
  case 0
  show ?case by simp
next
  case (Suc n)
  then show ?case
    by (auto split: sum.splits dest!: readByte_Inr_flat)
qed

lemma advance_end: "flat s = [] \<Longrightarrow> advance n s = s"
  by (cases n) (simp_all add: readByte_Nil)

lemma advance_advance [simp]: "advance m (advance n s) = advance (n + m) s"
proof (induction n arbitrary: s)
  case 0
  show ?case by simp
next
  case (Suc n)
  show ?case
  proof (cases "flat s")
    case Nil
    then show ?thesis by (simp add: advance_end del: advance.simps)
  next
    case (Cons b r)
    then obtain s' where "readByte s = Inr (b, s')" by (rule readByte_Cons)
    with Suc.IH [of s'] show ?thesis by simp
  qed
qed

lemma advance_bytes_reader [simp]: "advance n (bytes_reader d) = bytes_reader (drop n d)"
proof (induction n arbitrary: d)
  case 0
  show ?case by simp
next
  case (Suc n)
  have "readByte (bytes_reader d) = (case d of [] \<Rightarrow> Inl EOF | b # bs \<Rightarrow> Inr (b, bytes_reader bs))"
    by (cases d) (simp_all add: readByte_def bytes_reader_def)
  with Suc show ?case by (cases d) simp_all
qed

lemma read_upto_eq: "read_upto n s = (take n (flat s), advance n s)"
proof (induction n arbitrary: s)
  case 0
  show ?case by simp
next
  case (Suc n)
  show ?case
  proof (cases "flat s")
    case Nil
    then show ?thesis by (simp add: readByte_Nil)
  next
    case (Cons b r)
    then obtain s' where "readByte s = Inr (b, s')" "flat s' = r"
      by (rule readByte_Cons)
    with Cons Suc.IH [of s'] show ?thesis by simp
  qed
qed

lemma readFull_eq:
  "readFull n s =
    (if n \<le> length (flat s) then Inr (take n (flat s), advance n s)
     else if flat s = [] then Inl (serr s)
     else Inl (if serr s = EOF then ErrUnexpectedEOF else serr s))"
  by (cases n) (auto simp: readFull_def read_upto_eq)

declare advance.simps(2) [simp del]

text \<open>The stream an error-free decoder leaves; decoders never read past what they return.\<close>

definition consumes :: "stream \<Rightarrow> stream \<Rightarrow> bool" where
  "consumes s s' \<longleftrightarrow> (\<exists>n. s' = advance n s)"

lemma consumes_refl [simp, intro]: "consumes s s"
  unfolding consumes_def by (metis advance.simps(1))

lemma consumes_trans: "consumes s t \<Longrightarrow> consumes t u \<Longrightarrow> consumes s u"
  by (auto simp: consumes_def)

lemma consumes_advance [simp, intro]: "consumes s (advance n s)"
  by (auto simp: consumes_def)

lemma consumes_length: "consumes s s' \<Longrightarrow> length (flat s') \<le> length (flat s)"
  by (auto simp: consumes_def)

lemma readByte_consumes:
  "readByte s = Inr (b, t) \<Longrightarrow> consumes s t \<and> length (flat s) = Suc (length (flat t))"
  using readByte_Inr_flat [of s b t] unfolding consumes_def by (metis length_Cons)

lemma readFull_consumes: "readFull n s = Inr (bs, t) \<Longrightarrow> consumes s t \<and> length bs = n"
  by (auto simp: readFull_eq split: if_splits)

lemma consumes_less:
  "consumes s b \<Longrightarrow> length (flat b) < length (flat s) \<Longrightarrow> consumes b s' \<Longrightarrow>
    consumes s s' \<and> length (flat s') < length (flat s)"
  by (auto intro: consumes_trans dest: consumes_length)

section \<open>Codecs\<close>

text \<open>
  The contract between a writer and its reader: on any stream that starts with what the
  writer produced, the reader returns the value and leaves exactly the rest. The wire
  layer provides interpretations; the packet layouts above it are clients.
\<close>

locale codec =
  fixes enc :: "'a \<Rightarrow> byte list"
    and dec :: "stream \<Rightarrow> ('a \<times> stream) result"
    and ok :: "'a \<Rightarrow> bool"
  assumes dec_enc: "ok x \<Longrightarrow> flat s = enc x @ rest \<Longrightarrow> dec s = Inr (x, advance (length (enc x)) s)"
begin

lemma dec_bytes: "ok x \<Longrightarrow> dec (bytes_reader (enc x @ rest)) = Inr (x, bytes_reader rest)"
  using dec_enc [of x "bytes_reader (enc x @ rest)" rest] by simp

lemma dec_bytes_all: "ok x \<Longrightarrow> dec (bytes_reader (enc x)) = Inr (x, bytes_reader [])"
  using dec_bytes [of x "[]"] by simp

lemma enc_unique: "ok x \<Longrightarrow> ok y \<Longrightarrow> enc x @ r = enc y @ r' \<Longrightarrow> x = y \<and> r = r'"
proof -
  assume "ok x" "ok y" and e: "enc x @ r = enc y @ r'"
  then have "dec (bytes_reader (enc x @ r)) = Inr (x, bytes_reader r)"
    and "dec (bytes_reader (enc x @ r)) = Inr (y, bytes_reader r')"
    using dec_bytes [of x r] dec_bytes [of y r'] by simp_all
  then show ?thesis by (auto simp: bytes_reader_def)
qed

end

section \<open>State and error together\<close>

text \<open>
  A Go function that acts on some state and returns \<open>(T, error)\<close>. \<open>seqE\<close> is a block of
  \<open>if err := step(); err != nil { return err }\<close> statements.
\<close>

type_synonym ('s, 'a) act = "'s \<Rightarrow> 'a result \<times> 's"

definition retE :: "'a \<Rightarrow> ('s, 'a) act" where
  "retE x s = (Inr x, s)"

definition failE :: "go_error \<Rightarrow> ('s, 'a) act" where
  "failE e s = (Inl e, s)"

definition liftE :: "'a result \<Rightarrow> ('s, 'a) act" where
  "liftE r s = (r, s)"

definition bindE :: "('s, 'a) act \<Rightarrow> ('a \<Rightarrow> ('s, 'b) act) \<Rightarrow> ('s, 'b) act" where
  "bindE m f s = (case m s of (Inl e, s') \<Rightarrow> (Inl e, s') | (Inr x, s') \<Rightarrow> f x s')"

fun seqE :: "('s, unit) act list \<Rightarrow> ('s, unit) act" where
  "seqE [] s = (Inr (), s)"
| "seqE (m # ms) s = (case m s of (Inl e, s') \<Rightarrow> (Inl e, s') | (Inr _, s') \<Rightarrow> seqE ms s')"

definition whenE :: "bool \<Rightarrow> ('s, unit) act \<Rightarrow> ('s, unit) act" where
  "whenE b m = (if b then m else retE ())"

lemma bindE_Inr_conv:
  "bindE m f s = (Inr y, t) \<longleftrightarrow> (\<exists>x s1. m s = (Inr x, s1) \<and> f x s1 = (Inr y, t))"
  by (auto simp: bindE_def split: sum.splits prod.splits)

lemma bindE_retE [result_simps]: "bindE (retE x) f = f x"
  by (simp add: bindE_def retE_def fun_eq_iff)

lemma bindE_failE [result_simps]: "bindE (failE e) f = failE e"
  by (simp add: bindE_def failE_def fun_eq_iff)

lemma bindE_liftE_Inr [result_simps]: "bindE (liftE (Inr x)) f = f x"
  by (simp add: bindE_def liftE_def fun_eq_iff)

lemma bindE_liftE_Inl [result_simps]: "bindE (liftE (Inl e)) f = failE e"
  by (simp add: bindE_def liftE_def failE_def fun_eq_iff)

lemma bindE_assoc: "bindE (bindE m f) g = bindE m (\<lambda>x. bindE (f x) g)"
  by (auto simp: bindE_def fun_eq_iff split: prod.splits sum.splits)

lemma seqE_append:
  "seqE (ms @ ns) s = (case seqE ms s of (Inl e, s') \<Rightarrow> (Inl e, s') | (Inr _, s') \<Rightarrow> seqE ns s')"
  by (induction ms arbitrary: s) (auto split: prod.splits sum.splits)

lemma whenE_simps [result_simps]: "whenE True m = m" "whenE False m = retE ()"
  by (simp_all add: whenE_def)

section \<open>State machines\<close>

text \<open>
  The contract a component with state keeps: its initial states satisfy an invariant and
  every labelled step preserves it. Each component with a step relation interprets it.
\<close>

inductive path :: "('s \<Rightarrow> 'l \<Rightarrow> 's \<Rightarrow> bool) \<Rightarrow> 's \<Rightarrow> 'l list \<Rightarrow> 's \<Rightarrow> bool"
  for step where
  path_Nil: "path step s [] s"
| path_Cons: "step s l s' \<Longrightarrow> path step s' ls t \<Longrightarrow> path step s (l # ls) t"

inductive_simps path_Nil_iff [simp]: "path step s [] t"
inductive_simps path_Cons_iff: "path step s (l # ls) t"

lemma path_append: "path step s ls t \<Longrightarrow> path step t ms u \<Longrightarrow> path step s (ls @ ms) u"
  by (induction rule: path.induct) (auto intro: path.intros)

lemma path_single: "step s l t \<Longrightarrow> path step s [l] t"
  by (auto intro: path.intros)

locale state_machine =
  fixes init :: "'s \<Rightarrow> bool"
    and step :: "'s \<Rightarrow> 'l \<Rightarrow> 's \<Rightarrow> bool"
    and inv :: "'s \<Rightarrow> bool"
  assumes inv_init: "init s \<Longrightarrow> inv s"
    and inv_step: "inv s \<Longrightarrow> step s l s' \<Longrightarrow> inv s'"
begin

lemma inv_path: "path step s ls t \<Longrightarrow> inv s \<Longrightarrow> inv t"
  by (induction rule: path.induct) (blast intro: inv_step)+

lemma inv_reachable: "init s \<Longrightarrow> path step s ls t \<Longrightarrow> inv t"
  by (blast intro: inv_init inv_path)

end

end
