(* ===== verification/Wire.thy ===== *)
theory Wire
  imports Prelude
begin

text \<open>
  The wire layer, \<open>internal/protocol/wire\<close>: VarInts, length-prefixed strings, fixed-width
  numbers, packed positions and packet frames. Writers into a \<open>bytes.Buffer\<close> cannot fail and
  are the bytes they append; readers are functions of a stream. Each writer/reader pair is
  shown to be a \<open>codec\<close>.
\<close>

section \<open>VarInt (varint.go)\<close>

definition MaxVarIntBytes :: nat where
  "MaxVarIntBytes = 5"

function readVarInt_loop :: "nat \<Rightarrow> 32 word \<Rightarrow> stream \<Rightarrow> (32 word \<times> stream) result" where
  "readVarInt_loop shift value s =
     (if shift < 35 then
        (case readByte s of
           Inl e \<Rightarrow> Inl e
         | Inr (b, s') \<Rightarrow>
             (let value' = value OR push_bit shift (ucast (b AND 0x7f)) in
              if b AND 0x80 = 0 then Inr (value', s')
              else readVarInt_loop (shift + 7) value' s'))
      else Inl (Errorf ''minecraft varint exceeds %d bytes'' [FD (int MaxVarIntBytes)]))"
  by pat_completeness auto
termination
  by (relation "measure (\<lambda>(shift, _, _). 35 - shift)") auto

declare readVarInt_loop.simps [simp del]

definition readVarInt :: "stream \<Rightarrow> (int \<times> stream) result" where
  "readVarInt s = (case readVarInt_loop 0 0 s of
      Inl e \<Rightarrow> Inl e | Inr (v, s') \<Rightarrow> Inr (sint v, s'))"

function writeVarInt_loop :: "32 word \<Rightarrow> byte list" where
  "writeVarInt_loop u =
     (if u AND NOT 0x7f = 0 then [ucast u]
      else ucast (u AND 0x7f OR 0x80) # writeVarInt_loop (drop_bit 7 u))"
  by pat_completeness auto

text \<open>Bit facts of the VarInt loops: seven payload bits per byte, the top bit continues.\<close>

lemma mask_7f: "0x7f = (mask 7 :: 'a::len word)"
  by (simp add: mask_eq_exp_minus_1)

lemma bit_0x80_byte: "bit (0x80 :: byte) n \<longleftrightarrow> n = 7"
proof -
  have "(0x80 :: byte) = push_bit 7 1" by simp
  then show ?thesis by (simp only: bit_push_bit_iff bit_1_iff) auto
qed

lemma bit_0x80_32: "bit (0x80 :: 32 word) n \<longleftrightarrow> n = 7"
proof -
  have "(0x80 :: 32 word) = push_bit 7 1" by simp
  then show ?thesis by (simp only: bit_push_bit_iff bit_1_iff) auto
qed

lemmas varint_bits = mask_7f bit_0x80_byte bit_0x80_32 bit_and_iff bit_or_iff bit_not_iff
  bit_push_bit_iff bit_drop_bit_eq bit_mask_iff bit_ucast_iff

lemma and_not_7f_eq: "u AND NOT 0x7f = push_bit 7 (drop_bit 7 u)" for u :: "32 word"
  by (rule bit_word_eqI) (auto simp: varint_bits not_less le_add_diff_inverse2)

lemma unat_drop_7: "unat (drop_bit 7 u) = unat u div 128" for u :: "32 word"
  by (simp only: unat_drop_bit_eq) (simp add: drop_bit_eq_div)

lemma and_not_7f_eq_0_iff: "u AND - 128 = 0 \<longleftrightarrow> unat u < 128" for u :: "32 word"
proof -
  have d: "drop_bit 7 (push_bit 7 (drop_bit 7 u)) = drop_bit 7 u"
    by (rule bit_word_eqI) (auto simp: varint_bits dest: bit_imp_le_length)
  have "u AND NOT 0x7f = 0 \<longleftrightarrow> drop_bit 7 u = 0"
    unfolding and_not_7f_eq by (metis d drop_bit_of_0 push_bit_of_0)
  also have "\<dots> \<longleftrightarrow> unat (drop_bit 7 u) = 0" by (simp only: unat_eq_zero)
  also have "\<dots> \<longleftrightarrow> unat u < 128" unfolding unat_drop_7 by auto
  finally show ?thesis by simp
qed

termination writeVarInt_loop
  by (relation "measure unat") (auto simp: and_not_7f_eq_0_iff unat_drop_7)

declare writeVarInt_loop.simps [simp del]

definition writeVarInt :: "int \<Rightarrow> byte list" where
  "writeVarInt value = writeVarInt_loop (word_of_int value)"

fun varIntLen_loop :: "nat \<Rightarrow> 32 word \<Rightarrow> nat" where
  "varIntLen_loop 0 u = MaxVarIntBytes"
| "varIntLen_loop (Suc k) u =
     (if u AND NOT 0x7f = 0 then MaxVarIntBytes - Suc k
      else varIntLen_loop k (drop_bit 7 u))"

text \<open>The loop \<open>for i := 1; i < MaxVarIntBytes; i++\<close>: \<open>k\<close> counts the rounds left.\<close>

definition varIntLen :: "int \<Rightarrow> nat" where
  "varIntLen value = varIntLen_loop (MaxVarIntBytes - 1) (word_of_int value)"

lemma varint_last_byte:
  fixes u :: "32 word"
  assumes "unat u < 128"
  shows "ucast (ucast u AND 0x7f :: byte) = u" "(ucast u :: byte) AND 0x80 = 0"
proof -
  have small: "\<not> bit u n" if "7 \<le> n" for n
  proof -
    have "drop_bit 7 u = 0"
      using assms by (simp add: unat_eq_zero [symmetric] unat_drop_7)
    then have "\<not> bit (drop_bit 7 u) (n - 7)" by simp
    with that show ?thesis by (simp add: bit_drop_bit_eq)
  qed
  show "ucast (ucast u AND 0x7f :: byte) = u"
    by (rule bit_word_eqI, unfold varint_bits) (use small [of _] in \<open>auto intro: ccontr simp: not_less\<close>)
  show "(ucast u :: byte) AND 0x80 = 0"
    by (rule bit_word_eqI, unfold varint_bits) (use small in auto)
qed

lemma varint_more_byte:
  fixes u :: "32 word"
  shows "ucast ((ucast (u AND 0x7f OR 0x80) :: byte) AND 0x7f) = u AND 0x7f"
    and "(ucast (u AND 0x7f OR 0x80) :: byte) AND 0x80 \<noteq> 0"
proof -
  show "ucast ((ucast (u AND 0x7f OR 0x80) :: byte) AND 0x7f) = u AND 0x7f"
    by (rule bit_word_eqI, unfold varint_bits) auto
  have "bit ((ucast (u AND 0x7f OR 0x80) :: byte) AND 0x80) 7"
    by (unfold varint_bits) simp
  then show "(ucast (u AND 0x7f OR 0x80) :: byte) AND 0x80 \<noteq> 0" by auto
qed

lemma push_bit_split_7:
  "push_bit n (u AND 0x7f) OR push_bit (n + 7) (drop_bit 7 u) = push_bit n u" for u :: "32 word"
proof (rule bit_word_eqI)
  fix i assume "i < LENGTH(32)"
  show "bit (push_bit n (u AND 0x7f) OR push_bit (n + 7) (drop_bit 7 u)) i = bit (push_bit n u) i"
  proof (cases "i < n + 7")
    case True
    then show ?thesis by (unfold varint_bits) auto
  next
    case False
    then have "7 + (i - (n + 7)) = i - n" by simp
    with False show ?thesis by (unfold varint_bits) auto
  qed
qed

lemma readVarInt_loop_write:
  "flat s = writeVarInt_loop u @ rest \<Longrightarrow> shift \<le> 28 \<Longrightarrow> shift mod 7 = 0 \<Longrightarrow>
    unat u < 2 ^ (32 - shift) \<Longrightarrow>
    readVarInt_loop shift v s
      = Inr (v OR push_bit shift u, advance (length (writeVarInt_loop u)) s)"
proof (induction u arbitrary: s shift v rule: writeVarInt_loop.induct)
  case (1 u)
  show ?case
  proof (cases "unat u < 128")
    case True
    then have w: "writeVarInt_loop u = [ucast u]"
      by (simp add: writeVarInt_loop.simps [of u] and_not_7f_eq_0_iff)
    with "1.prems"(1) have "readByte s = Inr (ucast u, advance 1 s)"
      by (simp add: readByte_advance)
    with True w "1.prems"(2) show ?thesis
      by (simp add: readVarInt_loop.simps [of shift] varint_last_byte [simplified])
  next
    case False
    have w: "writeVarInt_loop u = ucast (u AND 0x7f OR 0x80) # writeVarInt_loop (drop_bit 7 u)"
      using False by (simp add: writeVarInt_loop.simps [of u] and_not_7f_eq_0_iff)
    with "1.prems"(1) have rb: "readByte s = Inr (ucast (u AND 0x7f OR 0x80), advance 1 s)"
      and fl: "flat (advance 1 s) = writeVarInt_loop (drop_bit 7 u) @ rest"
      by (simp_all add: readByte_advance)
    have "(2::nat) ^ 7 < 2 ^ (32 - shift)" using False "1.prems"(4) by simp
    then have sh: "shift < 25" using power_less_imp_less_exp [of "2::nat" 7 "32 - shift"] by simp
    with "1.prems"(3) have sh7: "shift + 7 \<le> 28" by presburger
    have "unat u < 2 ^ (25 - shift) * 128"
    proof -
      have "32 - shift = 25 - shift + 7" using sh by simp
      then have "(2::nat) ^ (32 - shift) = 2 ^ (25 - shift) * 2 ^ 7" by (simp only: power_add)
      with "1.prems"(4) show ?thesis by simp
    qed
    then have "unat (drop_bit 7 u) < 2 ^ (32 - (shift + 7))"
      by (simp add: unat_drop_7 div_less_iff_less_mult)
    then have "readVarInt_loop (shift + 7) (v OR push_bit shift (u AND 0x7f)) (advance 1 s)
        = Inr ((v OR push_bit shift (u AND 0x7f)) OR push_bit (shift + 7) (drop_bit 7 u),
            advance (length (writeVarInt_loop (drop_bit 7 u))) (advance 1 s))"
      by (intro "1.IH") (use False fl sh7 "1.prems"(3) in \<open>simp_all add: and_not_7f_eq_0_iff\<close>)
    then have "readVarInt_loop (shift + 7) (v OR push_bit shift (u AND 0x7f)) (advance 1 s)
        = Inr (v OR push_bit shift u, advance (Suc (length (writeVarInt_loop (drop_bit 7 u)))) s)"
      by (simp only: or.assoc push_bit_split_7 advance_advance plus_1_eq_Suc)
    with rb sh show ?thesis
      unfolding readVarInt_loop.simps [of shift v s] w
      by (simp only: varint_more_byte sum.case prod.case Let_def) simp
  qed
qed

text \<open>Reading back a written VarInt; the encoding is at most five bytes.\<close>

lemma readVarInt_writeVarInt:
  assumes "is_int32 v" "flat s = writeVarInt v @ rest"
  shows "readVarInt s = Inr (v, advance (length (writeVarInt v)) s)"
proof -
  have "unat (word_of_int v :: 32 word) < 2 ^ (32 - 0)"
    using unat_less_32 [of "word_of_int v"] by simp
  with assms(2) have "readVarInt_loop 0 0 s
      = Inr (word_of_int v, advance (length (writeVarInt v)) s)"
    using readVarInt_loop_write [of s "word_of_int v" rest 0 0] by (simp add: writeVarInt_def)
  moreover have "sint (word_of_int v :: 32 word) = v"
    using wrap32_id [OF assms(1)] by (simp add: wrap32_def)
  ultimately show ?thesis by (simp add: readVarInt_def)
qed

interpretation varint: codec writeVarInt readVarInt is_int32
  by unfold_locales (rule readVarInt_writeVarInt)

lemma writeVarInt_loop_length:
  "length (writeVarInt_loop u) =
    (if unat u < 2 ^ 7 then 1 else if unat u < 2 ^ 14 then 2 else if unat u < 2 ^ 21 then 3
     else if unat u < 2 ^ 28 then 4 else 5)"
proof (induction u rule: writeVarInt_loop.induct)
  case (1 u)
  note top = unat_less_32 [of u]
  show ?case
  proof (cases "unat u < 128")
    case True
    then show ?thesis by (simp add: writeVarInt_loop.simps [of u] and_not_7f_eq_0_iff)
  next
    case False
    then have "length (writeVarInt_loop u) = Suc (length (writeVarInt_loop (drop_bit 7 u)))"
      by (simp add: writeVarInt_loop.simps [of u] and_not_7f_eq_0_iff)
    with False "1.IH" top show ?thesis
      by (simp add: and_not_7f_eq_0_iff unat_drop_7 div_less_iff_less_mult)
  qed
qed

lemma writeVarInt_length_bounds: "1 \<le> length (writeVarInt v)" "length (writeVarInt v) \<le> 5"
  by (simp_all add: writeVarInt_def writeVarInt_loop_length)

lemma varIntLen_loop_length:
  "k \<le> 4 \<Longrightarrow> unat u < 128 ^ Suc k \<Longrightarrow> varIntLen_loop k u + k = 4 + length (writeVarInt_loop u)"
proof (induction k arbitrary: u)
  case 0
  then show ?case
    by (simp add: MaxVarIntBytes_def writeVarInt_loop.simps [of u] and_not_7f_eq_0_iff)
next
  case (Suc k)
  show ?case
  proof (cases "unat u < 128")
    case True
    with Suc.prems(1) show ?thesis
      by (simp add: MaxVarIntBytes_def writeVarInt_loop.simps [of u] and_not_7f_eq_0_iff)
  next
    case False
    have "unat (drop_bit 7 u) < 128 ^ Suc k"
      using Suc.prems(2) by (simp add: unat_drop_7 div_less_iff_less_mult mult.commute)
    with Suc.IH [of "drop_bit 7 u"] Suc.prems(1) False show ?thesis
      by (simp add: writeVarInt_loop.simps [of u] and_not_7f_eq_0_iff)
  qed
qed

lemma varIntLen_writeVarInt: "varIntLen v = length (writeVarInt v)"
  using varIntLen_loop_length [of 4 "word_of_int v"] unat_less_32 [of "word_of_int v"]
  by (simp add: varIntLen_def writeVarInt_def MaxVarIntBytes_def)

text \<open>Five continuation bytes in a row are refused, whatever follows them.\<close>

lemma readVarInt_loop_overlong:
  "\<forall>b \<in> set bs. b AND 0x80 \<noteq> 0 \<Longrightarrow> flat s = bs @ rest \<Longrightarrow> shift + 7 * length bs = 35 \<Longrightarrow>
    readVarInt_loop shift v s = Inl (Errorf ''minecraft varint exceeds %d bytes'' [FD 5])"
proof (induction bs arbitrary: s shift v)
  case Nil
  then show ?case by (simp add: readVarInt_loop.simps [of 35] MaxVarIntBytes_def)
next
  case (Cons b bs)
  have "readVarInt_loop (shift + 7) x (advance 1 s)
      = Inl (Errorf ''minecraft varint exceeds %d bytes'' [FD 5])" for x
    by (rule Cons.IH) (use Cons.prems in simp_all)
  with Cons.prems readByte_advance [of s b "bs @ rest"] show ?case
    by (simp add: readVarInt_loop.simps [of shift] Let_def)
qed

lemma readVarInt_overlong:
  "\<forall>b \<in> set bs. b AND 0x80 \<noteq> 0 \<Longrightarrow> flat s = bs @ rest \<Longrightarrow> length bs = 5 \<Longrightarrow>
    readVarInt s = Inl (Errorf ''minecraft varint exceeds %d bytes'' [FD 5])"
  by (simp add: readVarInt_def readVarInt_loop_overlong)

lemma writeVarInt_not_Nil [simp]: "writeVarInt v \<noteq> []"
  using writeVarInt_length_bounds(1) [of v] by auto

lemma readVarInt_loop_consumes:
  "readVarInt_loop shift v s = Inr (x, s') \<Longrightarrow>
     consumes s s' \<and> length (flat s') < length (flat s)"
proof (induction shift v s rule: readVarInt_loop.induct)
  case (1 shift v s)
  have sh: "shift < 35"
    by (rule ccontr) (use "1.prems" in \<open>simp add: readVarInt_loop.simps [of shift]\<close>)
  have "flat s \<noteq> []"
    using "1.prems" sh by (auto simp: readVarInt_loop.simps [of shift v s] readByte_Nil)
  then obtain b r where "flat s = b # r" by (cases "flat s") auto
  then obtain t where rb: "readByte s = Inr (b, t)" by (rule readByte_Cons)
  from readByte_consumes [OF rb] have t: "consumes s t" "length (flat t) < length (flat s)"
    by simp_all
  show ?case
  proof (cases "b AND 0x80 = 0")
    case True
    with "1.prems" rb sh t show ?thesis
      by (simp add: readVarInt_loop.simps [of shift] Let_def)
  next
    case False
    with "1.prems" rb sh have "readVarInt_loop (shift + 7)
        (v OR push_bit shift (ucast (b AND 0x7f))) t = Inr (x, s')"
      by (simp add: readVarInt_loop.simps [of shift] Let_def)
    with "1.IH" rb sh False have "consumes t s' \<and> length (flat s') < length (flat t)"
      by (simp add: Let_def)
    with t show ?thesis by (auto intro: consumes_trans)
  qed
qed

lemma readVarInt_consumes:
  "readVarInt s = Inr (x, s') \<Longrightarrow> consumes s s' \<and> length (flat s') < length (flat s)"
  by (auto simp: readVarInt_def split: sum.splits prod.splits dest: readVarInt_loop_consumes)

lemma readVarInt_is_int32: "readVarInt s = Inr (x, s') \<Longrightarrow> is_int32 x"
  using is_int32_wrap32 by (auto simp: readVarInt_def wrap32_def split: sum.splits)
    (metis word_of_int_uint)

section \<open>Numbers (number.go)\<close>

definition writeByte :: "int \<Rightarrow> byte list" where
  "writeByte value = [word_of_int value]"

definition writeBool :: "bool \<Rightarrow> byte list" where
  "writeBool value = (if value then writeByte 1 else writeByte 0)"

definition writeShort :: "int \<Rightarrow> byte list" where
  "writeShort value = put_be 2 (word_of_int value :: 16 word)"

definition writeUnsignedShort :: "int \<Rightarrow> byte list" where
  "writeUnsignedShort value = put_be 2 (word_of_int value :: 16 word)"

definition writeInt :: "int \<Rightarrow> byte list" where
  "writeInt value = put_be 4 (word_of_int value :: 32 word)"

definition readUnsignedShort :: "stream \<Rightarrow> (int \<times> stream) result" where
  "readUnsignedShort s = (case readFull 2 s of
      Inl e \<Rightarrow> Inl e | Inr (buf, s') \<Rightarrow> Inr (uint (get_be buf :: 16 word), s'))"

text \<open>Floats travel as their IEEE bit pattern (\<open>math.Float32bits\<close>, \<open>math.Float64bits\<close>).\<close>

definition writeFloat :: "32 word \<Rightarrow> byte list" where
  "writeFloat value = put_be 4 value"

definition writeDouble :: "64 word \<Rightarrow> byte list" where
  "writeDouble value = put_be 8 value"

definition writeLong :: "int \<Rightarrow> byte list" where
  "writeLong value = put_be 8 (word_of_int value :: 64 word)"

definition readLong :: "stream \<Rightarrow> (int \<times> stream) result" where
  "readLong s = (case readFull 8 s of
      Inl e \<Rightarrow> Inl e | Inr (buf, s') \<Rightarrow> Inr (sint (get_be buf :: 64 word), s'))"

definition packPosition :: "int \<Rightarrow> int \<Rightarrow> int \<Rightarrow> 64 word" where
  "packPosition x y z =
     push_bit 38 (word_of_int (x AND 0x3ffffff)) OR
     push_bit 12 (word_of_int (z AND 0x3ffffff)) OR word_of_int (y AND 0xfff)"

definition writePosition :: "int \<Rightarrow> int \<Rightarrow> int \<Rightarrow> byte list" where
  "writePosition x y z = writeLong (sint (packPosition x y z))"

lemma readFull_append:
  "flat s = bs @ rest \<Longrightarrow> length bs = n \<Longrightarrow> readFull n s = Inr (bs, advance n s)"
  by (simp add: readFull_eq)

lemma length_writers [simp]:
  "length (writeByte v) = 1" "length (writeBool b) = 1" "length (writeShort v) = 2"
  "length (writeUnsignedShort v) = 2" "length (writeInt v) = 4" "length (writeFloat f) = 4"
  "length (writeDouble d) = 8" "length (writeLong v) = 8" "length (writePosition x y z) = 8"
  by (simp_all add: writeByte_def writeBool_def writeShort_def writeUnsignedShort_def
    writeInt_def writeFloat_def writeDouble_def writeLong_def writePosition_def)

interpretation ushort: codec writeUnsignedShort readUnsignedShort "\<lambda>v. 0 \<le> v \<and> v < 65536"
proof
  fix v s rest
  assume "0 \<le> v \<and> v < (65536::int)" "flat s = writeUnsignedShort v @ rest"
  then show "readUnsignedShort s = Inr (v, advance (length (writeUnsignedShort v)) s)"
    by (simp add: readUnsignedShort_def readFull_append writeUnsignedShort_def get_put_be
      unsigned_of_int take_bit_int_eq_self)
qed

interpretation long: codec writeLong readLong is_int64
proof
  fix v s rest
  assume "is_int64 v" "flat s = writeLong v @ rest"
  then show "readLong s = Inr (v, advance (length (writeLong v)) s)"
    using wrap64_id [of v]
    by (simp add: readLong_def readFull_append writeLong_def get_put_be wrap64_def)
qed

text \<open>
  What a client that uses the packed layout reads back: 26 signed bits of \<open>x\<close>, 26 of \<open>z\<close>,
  12 of \<open>y\<close>, from the top.
\<close>

definition unpackPosition :: "64 word \<Rightarrow> int \<times> int \<times> int" where
  "unpackPosition w =
    (signed_take_bit 25 (uint (drop_bit 38 w)),
     signed_take_bit 11 (uint w),
     signed_take_bit 25 (uint (drop_bit 12 w)))"

lemma and_position_masks:
  "x AND 0x3ffffff = take_bit 26 x" "y AND 0xfff = take_bit 12 y" for x y :: int
  by (simp_all add: take_bit_eq_mask mask_eq_exp_minus_1)

lemma bit_packPosition:
  "bit (packPosition x y z) n \<longleftrightarrow> n < 64 \<and>
     (if 38 \<le> n then bit x (n - 38) else if 12 \<le> n then bit z (n - 12) else bit y n)"
  unfolding packPosition_def and_position_masks
  by (auto simp: bit_or_iff bit_push_bit_iff bit_word_of_int_iff bit_take_bit_iff)

lemma signed_take_bit_range:
  "- (2 ^ n) \<le> x \<Longrightarrow> x < 2 ^ n \<Longrightarrow> signed_take_bit n x = x" for x :: int
  by (rule signed_take_bit_int_eq_self)

lemma unpack_packPosition:
  assumes "- (2 ^ 25) \<le> x" "x < 2 ^ 25" "- (2 ^ 11) \<le> y" "y < 2 ^ 11"
    "- (2 ^ 25) \<le> z" "z < 2 ^ 25"
  shows "unpackPosition (packPosition x y z) = (x, y, z)"
proof -
  have "signed_take_bit 25 (uint (drop_bit 38 (packPosition x y z))) = signed_take_bit 25 x"
    by (rule bit_eqI) (auto simp: bit_signed_take_bit_iff bit_uint_iff bit_drop_bit_eq
        bit_packPosition min_def)
  moreover have "signed_take_bit 25 (uint (drop_bit 12 (packPosition x y z))) = signed_take_bit 25 z"
    by (rule bit_eqI) (auto simp: bit_signed_take_bit_iff bit_uint_iff bit_drop_bit_eq
        bit_packPosition min_def)
  moreover have "signed_take_bit 11 (uint (packPosition x y z)) = signed_take_bit 11 y"
    by (rule bit_eqI) (auto simp: bit_signed_take_bit_iff bit_uint_iff bit_packPosition min_def)
  ultimately show ?thesis
    using assms by (simp add: unpackPosition_def signed_take_bit_range)
qed

section \<open>Strings (string.go)\<close>

definition readString :: "int \<Rightarrow> stream \<Rightarrow> (string \<times> stream) result" where
  "readString maxChars r = (case readVarInt r of
      Inl e \<Rightarrow> Inl e
    | Inr (len, r1) \<Rightarrow>
        if len < 0 \<or> wrap32 (maxChars * 4) < len then
          Inl (Errorf ''minecraft string byte length %d outside limit'' [FD len])
        else (case readFull (nat len) r1 of
            Inl e \<Rightarrow> Inl e
          | Inr (data, r2) \<Rightarrow> Inr (string_of data, r2)))"

definition writeString :: "string \<Rightarrow> byte list" where
  "writeString value = writeVarInt (int (length value)) @ bytes_of value"

definition string_ok :: "int \<Rightarrow> string \<Rightarrow> bool" where
  "string_ok maxChars s \<longleftrightarrow>
     0 \<le> maxChars \<and> maxChars * 4 < 2 ^ 31 \<and> int (length s) \<le> maxChars * 4"

lemma readString_writeString:
  assumes ok: "string_ok m s" and fl: "flat r = writeString s @ rest"
  shows "readString m r = Inr (s, advance (length (writeString s)) r)"
proof -
  have lim: "wrap32 (m * 4) = m * 4" "is_int32 (int (length s))"
    using ok by (auto simp: string_ok_def is_int32_def intro!: wrap32_id)
  from fl have "flat r = writeVarInt (int (length s)) @ (bytes_of s @ rest)"
    by (simp add: writeString_def)
  from readVarInt_writeVarInt [OF lim(2) this]
  show ?thesis using fl ok lim(1)
    by (simp add: readString_def string_ok_def writeString_def readFull_append add.commute)
qed

interpretation wire_string: codec writeString "readString m" "string_ok m" for m
  by unfold_locales (rule readString_writeString)

lemma readString_consumes:
  assumes "readString m s = Inr (x, s')"
  shows "consumes s s' \<and> length (flat s') < length (flat s)"
proof -
  from assms obtain len r1 data where v: "readVarInt s = Inr (len, r1)"
    and f: "readFull (nat len) r1 = Inr (data, s')"
    by (auto simp: readString_def split: sum.splits if_splits)
  from readVarInt_consumes [OF v] readFull_consumes [OF f] show ?thesis
    by (intro consumes_less [of s r1 s']) simp_all
qed

section \<open>Packet frames (packet.go)\<close>

record packet =
  pkt_id :: int
  pkt_data :: "byte list"

definition DefaultMaxPacketSize :: int where
  "DefaultMaxPacketSize = 2 * 2 ^ 20"

definition readPacket :: "stream \<Rightarrow> int \<Rightarrow> (packet \<times> stream) result" where
  "readPacket r maxSize =
    (let limit = (if maxSize \<le> 0 then DefaultMaxPacketSize else maxSize) in
     case readVarInt r of
       Inl e \<Rightarrow> Inl e
     | Inr (len, r1) \<Rightarrow>
         if len < 0 \<or> limit < len then
           Inl (Errorf ''minecraft packet length %d outside limit %d'' [FD len, FD limit])
         else (case readFull (nat len) r1 of
             Inl e \<Rightarrow> Inl e
           | Inr (frame, r2) \<Rightarrow>
               (case readVarInt (bytes_reader frame) of
                  Inl e \<Rightarrow> Inl e
                | Inr (ident, body) \<Rightarrow> Inr (\<lparr>pkt_id = ident, pkt_data = flat body\<rparr>, r2))))"

definition packetBody :: "packet \<Rightarrow> byte list" where
  "packetBody p = writeVarInt (pkt_id p) @ pkt_data p"

text \<open>The single buffer \<open>WritePacket\<close> hands to the connection.\<close>

definition packetFrame :: "packet \<Rightarrow> byte list" where
  "packetFrame p = writeVarInt (int (length (packetBody p))) @ packetBody p"

definition packet_ok :: "packet \<Rightarrow> bool" where
  "packet_ok p \<longleftrightarrow> is_int32 (pkt_id p) \<and> int (length (packetBody p)) \<le> DefaultMaxPacketSize"

lemma readPacket_packetFrame:
  assumes ok: "packet_ok p" and fl: "flat r = packetFrame p @ rest"
  shows "readPacket r 0 = Inr (p, advance (length (packetFrame p)) r)"
proof -
  have len: "is_int32 (int (length (packetBody p)))"
    using ok by (simp add: packet_ok_def DefaultMaxPacketSize_def is_int32_def)
  have fl': "flat r = writeVarInt (int (length (packetBody p))) @ (packetBody p @ rest)"
    using fl by (simp add: packetFrame_def)
  have body: "readVarInt (bytes_reader (packetBody p)) = Inr (pkt_id p, bytes_reader (pkt_data p))"
    using ok varint.dec_bytes [of "pkt_id p" "pkt_data p"] by (simp add: packet_ok_def packetBody_def)
  from readVarInt_writeVarInt [OF len fl'] show ?thesis
    using ok fl' body
    by (simp add: readPacket_def packet_ok_def packetFrame_def readFull_append add.commute)
qed

interpretation wire_packet: codec packetFrame "\<lambda>r. readPacket r 0" packet_ok
  by unfold_locales (rule readPacket_packetFrame)

lemma readPacket_consumes:
  assumes "readPacket s m = Inr (p, s')"
  shows "consumes s s' \<and> length (flat s') < length (flat s)"
proof -
  from assms obtain len r1 frame where v: "readVarInt s = Inr (len, r1)"
    and f: "readFull (nat len) r1 = Inr (frame, s')"
    by (auto simp: readPacket_def Let_def split: sum.splits if_splits)
  from readVarInt_consumes [OF v] readFull_consumes [OF f] show ?thesis
    by (intro consumes_less [of s r1 s']) simp_all
qed

text \<open>
  A frame of length zero, or one whose packet id is cut off, ends in the \<open>EOF\<close> of the inner
  \<open>bytes.Reader\<close>: the caller cannot tell it from a closed connection.
\<close>

lemma readPacket_empty_frame:
  assumes "flat r = 0 # rest"
  shows "readPacket r 0 = Inl EOF"
proof -
  have "writeVarInt 0 = [0]" by (simp add: writeVarInt_def writeVarInt_loop.simps)
  then have "readVarInt r = Inr (0, advance 1 r)"
    using readVarInt_writeVarInt [of 0 r rest] assms by (simp add: is_int32_def)
  then show ?thesis
    by (simp add: readPacket_def readFull_eq readVarInt_def readVarInt_loop.simps [of 0]
      readByte_Nil DefaultMaxPacketSize_def) (simp add: bytes_reader_def)
qed

end
