(* ===== verification/Nbt.thy ===== *)
theory Nbt
  imports Wire
begin

text \<open>
  NBT: the writer of \<open>protocol/limbo/modern_nbt.go\<close>, and the specification it is checked
  against, a tree of tags with its encoding and a decoder that inverts it. A method of
  \<open>nbtWriter\<close> is the bytes it appends; a compound's closure is the bytes it writes.
\<close>

section \<open>The writer (modern_nbt.go)\<close>

definition nbtEnd :: byte where "nbtEnd = 0"
definition nbtByte :: byte where "nbtByte = 1"
definition nbtShort :: byte where "nbtShort = 2"
definition nbtInt :: byte where "nbtInt = 3"
definition nbtLong :: byte where "nbtLong = 4"
definition nbtFloat :: byte where "nbtFloat = 5"
definition nbtDouble :: byte where "nbtDouble = 6"
definition nbtString :: byte where "nbtString = 8"
definition nbtList :: byte where "nbtList = 9"
definition nbtCompound :: byte where "nbtCompound = 10"
definition nbtLongArray :: byte where "nbtLongArray = 12"

lemmas nbt_tags = nbtEnd_def nbtByte_def nbtShort_def nbtInt_def nbtLong_def nbtFloat_def
  nbtDouble_def nbtString_def nbtList_def nbtCompound_def nbtLongArray_def

definition w_rawString :: "string \<Rightarrow> byte list" where
  "w_rawString value = put_be 2 (word_of_nat (length value) :: 16 word) @ bytes_of value"

definition w_rawInt :: "int \<Rightarrow> byte list" where
  "w_rawInt value = put_be 4 (word_of_int value :: 32 word)"

definition w_namedHeader :: "byte \<Rightarrow> string \<Rightarrow> byte list" where
  "w_namedHeader tag name = tag # w_rawString name"

definition w_byte :: "string \<Rightarrow> byte \<Rightarrow> byte list" where
  "w_byte name value = w_namedHeader nbtByte name @ [value]"

definition w_int :: "string \<Rightarrow> int \<Rightarrow> byte list" where
  "w_int name value = w_namedHeader nbtInt name @ put_be 4 (word_of_int value :: 32 word)"

definition w_long :: "string \<Rightarrow> int \<Rightarrow> byte list" where
  "w_long name value = w_namedHeader nbtLong name @ put_be 8 (word_of_int value :: 64 word)"

definition w_float :: "string \<Rightarrow> 32 word \<Rightarrow> byte list" where
  "w_float name value = w_namedHeader nbtFloat name @ put_be 4 value"

definition w_double :: "string \<Rightarrow> 64 word \<Rightarrow> byte list" where
  "w_double name value = w_namedHeader nbtDouble name @ put_be 8 value"

definition w_string :: "string \<Rightarrow> string \<Rightarrow> byte list" where
  "w_string name value = w_namedHeader nbtString name @ w_rawString value"

definition w_stringList :: "string \<Rightarrow> string list \<Rightarrow> byte list" where
  "w_stringList name values = w_namedHeader nbtList name @ [nbtString] @
     w_rawInt (int (length values)) @ concat (map w_rawString values)"

definition w_longArray :: "string \<Rightarrow> int list \<Rightarrow> byte list" where
  "w_longArray name values = w_namedHeader nbtLongArray name @ w_rawInt (int (length values)) @
     concat (map (\<lambda>v. put_be 8 (word_of_int v :: 64 word)) values)"

definition w_compound :: "string \<Rightarrow> byte list \<Rightarrow> byte list" where
  "w_compound name body = w_namedHeader nbtCompound name @ body @ [nbtEnd]"

definition w_anonymousCompound :: "byte list \<Rightarrow> byte list" where
  "w_anonymousCompound body = [nbtCompound] @ body @ [nbtEnd]"

definition writeOptionAnonymousNBT :: "bool \<Rightarrow> byte list \<Rightarrow> byte list" where
  "writeOptionAnonymousNBT present data = writeBool present @ (if present then data else [])"

text \<open>Full NBT: the anonymous form with an empty root name after the tag.\<close>

definition fullNBT :: "byte list \<Rightarrow> byte list" where
  "fullNBT anonymous = (case anonymous of [] \<Rightarrow> [] | t # rest \<Rightarrow> [t, 0, 0] @ rest)"

lemmas nbt_writer_defs = w_namedHeader_def w_byte_def w_int_def w_long_def w_float_def w_double_def
  w_string_def w_stringList_def w_longArray_def w_compound_def w_anonymousCompound_def w_rawInt_def

section \<open>NBT trees\<close>

datatype nbt =
    NByte byte
  | NInt "32 word"
  | NLong "64 word"
  | NFloat "32 word"
  | NDouble "64 word"
  | NString string
  | NList byte "nbt list"
  | NCompound "(string \<times> nbt) list"
  | NLongArray "64 word list"

fun tag_of :: "nbt \<Rightarrow> byte" where
  "tag_of (NByte _) = nbtByte"
| "tag_of (NInt _) = nbtInt"
| "tag_of (NLong _) = nbtLong"
| "tag_of (NFloat _) = nbtFloat"
| "tag_of (NDouble _) = nbtDouble"
| "tag_of (NString _) = nbtString"
| "tag_of (NList _ _) = nbtList"
| "tag_of (NCompound _) = nbtCompound"
| "tag_of (NLongArray _) = nbtLongArray"

fun payload :: "nbt \<Rightarrow> byte list" where
  "payload (NByte b) = [b]"
| "payload (NInt w) = put_be 4 w"
| "payload (NLong w) = put_be 8 w"
| "payload (NFloat w) = put_be 4 w"
| "payload (NDouble w) = put_be 8 w"
| "payload (NString s) = w_rawString s"
| "payload (NList t xs) = t # put_be 4 (word_of_nat (length xs) :: 32 word) @ concat (map payload xs)"
| "payload (NCompound fs) =
     concat (map (\<lambda>(n, v). tag_of v # w_rawString n @ payload v) fs) @ [nbtEnd]"
| "payload (NLongArray ws) =
     put_be 4 (word_of_nat (length ws) :: 32 word) @ concat (map (put_be 8) ws)"

definition anonymous :: "nbt \<Rightarrow> byte list" where
  "anonymous v = tag_of v # payload v"

text \<open>
  A tree the encoding can carry: names and strings under 65536 bytes, lists and arrays under
  \<open>2^31\<close> elements, the elements of a list of the list's tag, an empty list of any tag.
\<close>

fun wf_nbt :: "nbt \<Rightarrow> bool" where
  "wf_nbt (NString s) \<longleftrightarrow> length s < 65536"
| "wf_nbt (NList t xs) \<longleftrightarrow> length xs < 2 ^ 31 \<and> (\<forall>x \<in> set xs. tag_of x = t \<and> wf_nbt x)"
| "wf_nbt (NCompound fs) \<longleftrightarrow> (\<forall>(n, v) \<in> set fs. length n < 65536 \<and> wf_nbt v)"
| "wf_nbt (NLongArray ws) \<longleftrightarrow> length ws < 2 ^ 31"
| "wf_nbt _ \<longleftrightarrow> True"

section \<open>The decoder\<close>

definition split_at :: "nat \<Rightarrow> byte list \<Rightarrow> (byte list \<times> byte list) option" where
  "split_at n bs = (if n \<le> length bs then Some (take n bs, drop n bs) else None)"

definition d_string :: "byte list \<Rightarrow> (string \<times> byte list) option" where
  "d_string bs = (case split_at 2 bs of None \<Rightarrow> None
     | Some (l, r) \<Rightarrow> (case split_at (unat (get_be l :: 16 word)) r of None \<Rightarrow> None
        | Some (s, r') \<Rightarrow> Some (string_of s, r')))"

fun d_longs :: "nat \<Rightarrow> byte list \<Rightarrow> (64 word list \<times> byte list) option" where
  "d_longs 0 bs = Some ([], bs)"
| "d_longs (Suc n) bs = (case split_at 8 bs of None \<Rightarrow> None
     | Some (l, r) \<Rightarrow> (case d_longs n r of None \<Rightarrow> None
        | Some (ws, r') \<Rightarrow> Some (get_be l # ws, r')))"

fun d_items :: "(byte list \<Rightarrow> (nbt \<times> byte list) option) \<Rightarrow> nat \<Rightarrow> byte list \<Rightarrow>
    (nbt list \<times> byte list) option" where
  "d_items dec 0 bs = Some ([], bs)"
| "d_items dec (Suc n) bs = (case dec bs of None \<Rightarrow> None
     | Some (x, r) \<Rightarrow> (case d_items dec n r of None \<Rightarrow> None | Some (xs, r') \<Rightarrow> Some (x # xs, r')))"

fun d_fields :: "(byte \<Rightarrow> byte list \<Rightarrow> (nbt \<times> byte list) option) \<Rightarrow> nat \<Rightarrow> byte list \<Rightarrow>
    ((string \<times> nbt) list \<times> byte list) option" where
  "d_fields dec k [] = None"
| "d_fields dec 0 (t # r) = (if t = nbtEnd then Some ([], r) else None)"
| "d_fields dec (Suc k) (t # r) =
     (if t = nbtEnd then Some ([], r)
      else (case d_string r of None \<Rightarrow> None
        | Some (n, r1) \<Rightarrow> (case dec t r1 of None \<Rightarrow> None
           | Some (v, r2) \<Rightarrow> (case d_fields dec k r2 of None \<Rightarrow> None
              | Some (fs, r3) \<Rightarrow> Some ((n, v) # fs, r3)))))"

text \<open>
  The fuel of \<open>d_payload\<close> bounds the nesting depth; the number of fields of a compound is
  bounded by the bytes left.
\<close>

primrec d_payload :: "nat \<Rightarrow> byte \<Rightarrow> byte list \<Rightarrow> (nbt \<times> byte list) option" where
  "d_payload 0 t bs = None"
| "d_payload (Suc f) t bs =
    (if t = nbtByte then (case bs of [] \<Rightarrow> None | b # r \<Rightarrow> Some (NByte b, r))
     else if t = nbtInt then map_option (\<lambda>(w, r). (NInt (get_be w), r)) (split_at 4 bs)
     else if t = nbtLong then map_option (\<lambda>(w, r). (NLong (get_be w), r)) (split_at 8 bs)
     else if t = nbtFloat then map_option (\<lambda>(w, r). (NFloat (get_be w), r)) (split_at 4 bs)
     else if t = nbtDouble then map_option (\<lambda>(w, r). (NDouble (get_be w), r)) (split_at 8 bs)
     else if t = nbtString then map_option (\<lambda>(s, r). (NString s, r)) (d_string bs)
     else if t = nbtList then
       (case bs of [] \<Rightarrow> None
        | et # r \<Rightarrow> (case split_at 4 r of None \<Rightarrow> None
            | Some (n, r1) \<Rightarrow> map_option (\<lambda>(xs, r2). (NList et xs, r2))
                (d_items (d_payload f et) (unat (get_be n :: 32 word)) r1)))
     else if t = nbtCompound then
       map_option (\<lambda>(fs, r). (NCompound fs, r)) (d_fields (d_payload f) (length bs) bs)
     else if t = nbtLongArray then
       (case split_at 4 bs of None \<Rightarrow> None
        | Some (n, r) \<Rightarrow> map_option (\<lambda>(ws, r1). (NLongArray ws, r1))
            (d_longs (unat (get_be n :: 32 word)) r))
     else None)"

fun nbt_depth :: "nbt \<Rightarrow> nat" where
  "nbt_depth (NList t xs) = Suc (foldr max (map nbt_depth xs) 0)"
| "nbt_depth (NCompound fs) = Suc (foldr max (map (\<lambda>(n, v). nbt_depth v) fs) 0)"
| "nbt_depth _ = 1"

definition d_anonymous :: "nat \<Rightarrow> byte list \<Rightarrow> (nbt \<times> byte list) option" where
  "d_anonymous fuel bs = (case bs of [] \<Rightarrow> None | t # r \<Rightarrow> d_payload fuel t r)"

section \<open>Decoding what was encoded\<close>

lemma split_at_append: "length bs = n \<Longrightarrow> split_at n (bs @ rest) = Some (bs, rest)"
  by (simp add: split_at_def)

lemma split_at_put_be [simp]: "split_at n (put_be n w @ rest) = Some (put_be n w, rest)"
  by (simp add: split_at_append)

lemma get_put_be_widths [simp]:
  "get_be (put_be 2 w2) = (w2 :: 16 word)" "get_be (put_be 4 w4) = (w4 :: 32 word)"
  "get_be (put_be 8 w8) = (w8 :: 64 word)"
  by (simp_all add: get_put_be)

lemma d_string_w_rawString: "length s < 65536 \<Longrightarrow> d_string (w_rawString s @ rest) = Some (s, rest)"
proof -
  assume "length s < 65536"
  then have "unat (word_of_nat (length s) :: 16 word) = length s" by (simp add: unat_of_nat)
  then show ?thesis by (simp add: d_string_def w_rawString_def split_at_append)
qed

lemma d_longs_put: "d_longs (length ws) (concat (map (put_be 8) ws) @ rest) = Some (ws, rest)"
  by (induction ws) simp_all

lemma d_items_concat:
  "(\<And>x r. x \<in> set xs \<Longrightarrow> dec (payload x @ r) = Some (x, r)) \<Longrightarrow>
    d_items dec (length xs) (concat (map payload xs) @ rest) = Some (xs, rest)"
  by (induction xs) simp_all

lemma tag_of_not_end [simp]: "tag_of v \<noteq> nbtEnd"
  by (cases v) (simp_all add: nbt_tags)

lemma d_fields_concat:
  "(\<And>n v r. (n, v) \<in> set fs \<Longrightarrow> dec (tag_of v) (payload v @ r) = Some (v, r)) \<Longrightarrow>
   (\<And>n v. (n, v) \<in> set fs \<Longrightarrow> length n < 65536) \<Longrightarrow> length fs \<le> k \<Longrightarrow>
    d_fields dec k (concat (map (\<lambda>(n, v). tag_of v # w_rawString n @ payload v) fs) @ nbtEnd # rest)
      = Some (fs, rest)"
proof (induction fs arbitrary: k)
  case Nil
  then show ?case by (cases k) simp_all
next
  case (Cons p fs)
  obtain n v where p: "p = (n, v)" by (cases p)
  obtain k' where k: "k = Suc k'" using Cons.prems(3) by (cases k) auto
  have "d_fields dec k' (concat (map (\<lambda>(n, v). tag_of v # w_rawString n @ payload v) fs) @ nbtEnd # rest)
      = Some (fs, rest)"
  proof (rule Cons.IH)
    show "dec (tag_of v) (payload v @ r) = Some (v, r)" if "(n, v) \<in> set fs" for n v r
      by (rule Cons.prems(1) [of n]) (simp add: that)
    show "length n < 65536" if "(n, v) \<in> set fs" for n v
      using Cons.prems(2) [of n v] that by simp
  qed (use Cons.prems(3) k in simp)
  moreover have "length n < 65536" using Cons.prems(2) [of n v] p by simp
  moreover have "dec (tag_of v) (payload v @ r) = Some (v, r)" for r
    by (rule Cons.prems(1) [of n]) (simp add: p)
  ultimately show ?case
    by (simp add: p k d_string_w_rawString)
qed

lemma foldr_max_ge: "x \<in> set xs \<Longrightarrow> x \<le> foldr max xs (0::nat)"
  by (induction xs) auto

lemma length_fields: "length fs \<le> length (concat (map (\<lambda>(n, v). tag_of v # w_rawString n @ payload v) fs))"
  by (induction fs) auto

lemma unat_of_nat_31: "n < 2 ^ 31 \<Longrightarrow> unat (word_of_nat n :: 32 word) = n"
  by (simp add: unat_of_nat)

lemma d_payload_payload:
  "wf_nbt v \<Longrightarrow> nbt_depth v \<le> f \<Longrightarrow> d_payload f (tag_of v) (payload v @ rest) = Some (v, rest)"
proof (induction v arbitrary: f rest)
  case (NList t xs)
  then obtain g where f: "f = Suc g" by (cases f) auto
  have "d_payload g t (payload x @ r) = Some (x, r)" if "x \<in> set xs" for x r
  proof -
    have "nbt_depth x \<le> g"
      using NList.prems(2) f that foldr_max_ge [of "nbt_depth x" "map nbt_depth xs"] by auto
    then show ?thesis using NList.IH [OF that] NList.prems(1) that by auto
  qed
  then have "d_items (d_payload g t) (length xs) (concat (map payload xs) @ rest) = Some (xs, rest)"
    by (rule d_items_concat)
  with NList.prems(1) show ?case by (simp add: f nbt_tags unat_of_nat_31)
next
  case (NCompound fs)
  then obtain g where f: "f = Suc g" by (cases f) auto
  have "d_payload g (tag_of v) (payload v @ r) = Some (v, r)" if "(n, v) \<in> set fs" for n v r
  proof -
    have "nbt_depth v \<in> set (map (\<lambda>(n, v). nbt_depth v) fs)" using that by force
    then have "nbt_depth v \<le> g" using NCompound.prems(2) f foldr_max_ge by fastforce
    then show ?thesis using NCompound.IH [OF that] NCompound.prems(1) that by auto
  qed
  then have "d_fields (d_payload g) (length (payload (NCompound fs) @ rest))
      (concat (map (\<lambda>(n, v). tag_of v # w_rawString n @ payload v) fs) @ nbtEnd # rest) = Some (fs, rest)"
    using NCompound.prems(1) length_fields [of fs] by (intro d_fields_concat) auto
  then show ?case by (simp add: f nbt_tags)
next
  case (NLongArray ws)
  then obtain g where f: "f = Suc g" by (cases f) auto
  with NLongArray show ?case by (simp add: nbt_tags unat_of_nat_31 d_longs_put)
qed (auto simp: nbt_tags d_string_w_rawString gr0_conv_Suc Suc_le_eq)

lemma d_anonymous_anonymous:
  "wf_nbt v \<Longrightarrow> nbt_depth v \<le> f \<Longrightarrow> d_anonymous f (anonymous v @ rest) = Some (v, rest)"
  by (simp add: d_anonymous_def anonymous_def d_payload_payload)

lemma fullNBT_anonymous: "fullNBT (anonymous v) = tag_of v # 0 # 0 # payload v"
  by (simp add: fullNBT_def anonymous_def)

text \<open>The writer's methods produce the encoding of the corresponding field.\<close>

definition field :: "string \<Rightarrow> nbt \<Rightarrow> byte list" where
  "field n v = tag_of v # w_rawString n @ payload v"

lemma writer_fields:
  "w_byte n b = field n (NByte b)" "w_int n i = field n (NInt (word_of_int i))"
  "w_long n i = field n (NLong (word_of_int i))" "w_float n f = field n (NFloat f)"
  "w_double n d = field n (NDouble d)" "w_string n s = field n (NString s)"
  "w_longArray n ls = field n (NLongArray (map word_of_int ls))"
  by (simp_all add: nbt_writer_defs field_def comp_def)

lemma payload_compound: "payload (NCompound fs) = concat (map (\<lambda>(n, v). field n v) fs) @ [nbtEnd]"
  by (simp add: field_def)

lemma w_compound_field:
  "w_compound n (concat (map (\<lambda>(n, v). field n v) fs)) = field n (NCompound fs)"
  by (simp add: nbt_writer_defs field_def)

lemma w_anonymousCompound_anonymous:
  "w_anonymousCompound (concat (map (\<lambda>(n, v). field n v) fs)) = anonymous (NCompound fs)"
  by (simp add: nbt_writer_defs anonymous_def field_def)

section \<open>A program of writer calls\<close>

text \<open>
  What the code builds with an \<open>nbtWriter\<close>: a sequence of method calls, compounds nested in
  closures. \<open>run_call\<close> runs the methods, \<open>call_field\<close> is the field each one is to write.
\<close>

datatype nbt_call =
    WByte string byte
  | WInt string int
  | WLong string int
  | WFloat string "32 word"
  | WDouble string "64 word"
  | WString string string
  | WStringList string "string list"
  | WLongArray string "int list"
  | WCompound string "nbt_call list"

fun run_call :: "nbt_call \<Rightarrow> byte list" where
  "run_call (WByte n b) = w_byte n b"
| "run_call (WInt n i) = w_int n i"
| "run_call (WLong n i) = w_long n i"
| "run_call (WFloat n f) = w_float n f"
| "run_call (WDouble n d) = w_double n d"
| "run_call (WString n s) = w_string n s"
| "run_call (WStringList n ss) = w_stringList n ss"
| "run_call (WLongArray n ls) = w_longArray n ls"
| "run_call (WCompound n cs) = w_compound n (concat (map run_call cs))"

fun call_field :: "nbt_call \<Rightarrow> string \<times> nbt" where
  "call_field (WByte n b) = (n, NByte b)"
| "call_field (WInt n i) = (n, NInt (word_of_int i))"
| "call_field (WLong n i) = (n, NLong (word_of_int i))"
| "call_field (WFloat n f) = (n, NFloat f)"
| "call_field (WDouble n d) = (n, NDouble d)"
| "call_field (WString n s) = (n, NString s)"
| "call_field (WStringList n ss) = (n, NList nbtString (map NString ss))"
| "call_field (WLongArray n ls) = (n, NLongArray (map word_of_int ls))"
| "call_field (WCompound n cs) = (n, NCompound (map call_field cs))"

lemma w_stringList_field: "w_stringList n ss = field n (NList nbtString (map NString ss))"
  by (simp add: nbt_writer_defs field_def comp_def)

lemma run_call_field: "run_call c = (case call_field c of (n, v) \<Rightarrow> field n v)"
proof (induction c)
  case (WCompound n cs)
  then have "map run_call cs = map (\<lambda>(n, v). field n v) (map call_field cs)" by simp
  then show ?case using w_compound_field [of n "map call_field cs"] by (simp del: map_map)
qed (simp_all add: writer_fields w_stringList_field)

lemma run_calls_anonymous:
  "w_anonymousCompound (concat (map run_call cs)) = anonymous (NCompound (map call_field cs))"
proof -
  have "map run_call cs = map (\<lambda>(n, v). field n v) (map call_field cs)" by (simp add: run_call_field)
  then show ?thesis by (simp only: w_anonymousCompound_anonymous)
qed

end
