(* ===== verification/Go_Float.thy ===== *)
theory Go_Float
  imports Prelude Complex_Main
begin

text \<open>
  Go's \<open>float64\<close> as its IEEE 754 bit pattern, with the operations the code uses on it:
  conversion to \<open>int32\<close>, comparison with zero and with a converted integer, and
  \<open>chunkCoord\<close> of \<open>protocol/limbo/protocol47.go\<close>. \<open>f64_val\<close> is the rational the
  pattern denotes. The conversion of a value outside \<open>int32\<close> is implementation dependent in
  Go; the model takes the amd64 result, the most negative integer.
\<close>

type_synonym f64 = "64 word"
type_synonym f32 = "32 word"

definition f64_exp :: "f64 \<Rightarrow> int" where
  "f64_exp w = uint (drop_bit 52 w) mod 2048"

definition f64_frac :: "f64 \<Rightarrow> int" where
  "f64_frac w = uint w mod 2 ^ 52"

definition f64_sign :: "f64 \<Rightarrow> bool" where
  "f64_sign w \<longleftrightarrow> bit w 63"

definition f64_finite :: "f64 \<Rightarrow> bool" where
  "f64_finite w \<longleftrightarrow> f64_exp w \<noteq> 2047"

text \<open>Mantissa and binary exponent of a finite pattern: the magnitude is \<open>m * 2 ^ e\<close>.\<close>

definition f64_mant :: "f64 \<Rightarrow> int" where
  "f64_mant w = (if f64_exp w = 0 then f64_frac w else f64_frac w + 2 ^ 52)"

definition f64_scale :: "f64 \<Rightarrow> int" where
  "f64_scale w = (if f64_exp w = 0 then - 1074 else f64_exp w - 1075)"

definition f64_mag :: "f64 \<Rightarrow> rat" where
  "f64_mag w = (if 0 \<le> f64_scale w then of_int (f64_mant w * 2 ^ nat (f64_scale w))
     else of_int (f64_mant w) / of_int (2 ^ nat (- f64_scale w)))"

definition f64_val :: "f64 \<Rightarrow> rat" where
  "f64_val w = (if f64_sign w then - f64_mag w else f64_mag w)"

text \<open>Truncation towards zero, and whether a fractional part was cut off.\<close>

definition f64_trunc :: "f64 \<Rightarrow> int" where
  "f64_trunc w =
    (let mag = (if 0 \<le> f64_scale w then f64_mant w * 2 ^ nat (f64_scale w)
                else f64_mant w div 2 ^ nat (- f64_scale w))
     in if f64_sign w then - mag else mag)"

definition f64_has_frac :: "f64 \<Rightarrow> bool" where
  "f64_has_frac w \<longleftrightarrow> f64_scale w < 0 \<and> f64_mant w mod 2 ^ nat (- f64_scale w) \<noteq> 0"

definition f64_to_int32 :: "f64 \<Rightarrow> int" where
  "f64_to_int32 w = (if f64_finite w \<and> is_int32 (f64_trunc w) then f64_trunc w else - (2 ^ 31))"

definition f64_less_0 :: "f64 \<Rightarrow> bool" where
  "f64_less_0 w \<longleftrightarrow> f64_sign w \<and> (f64_finite w \<longrightarrow> f64_mant w \<noteq> 0)
     \<and> (\<not> f64_finite w \<longrightarrow> f64_frac w = 0)"

text \<open>\<open>float64(n) == w\<close> for an \<open>int32\<close> \<open>n\<close>, which converts exactly.\<close>

definition f64_eq_int :: "int \<Rightarrow> f64 \<Rightarrow> bool" where
  "f64_eq_int n w \<longleftrightarrow> f64_finite w \<and> f64_trunc w = n \<and> \<not> f64_has_frac w"

definition f64_is_0 :: "f64 \<Rightarrow> bool" where
  "f64_is_0 w \<longleftrightarrow> f64_eq_int 0 w"

definition chunkCoord :: "f64 \<Rightarrow> int" where
  "chunkCoord value =
    (let block0 = f64_to_int32 value;
         block = (if f64_less_0 value \<and> \<not> f64_eq_int block0 value then wrap32 (block0 - 1) else block0)
     in if 0 \<le> block then go_div block 16
        else wrap32 (- go_div (wrap32 (wrap32 (- block) + 15)) 16))"

section \<open>Relating truncation to the value\<close>

lemma f64_mant_nonneg: "0 \<le> f64_mant w"
  by (simp add: f64_mant_def f64_frac_def)

lemma f64_mag_nonneg: "0 \<le> f64_mag w"
  by (simp add: f64_mag_def f64_mant_nonneg)

lemma f64_mag_floor:
  "\<lfloor>f64_mag w\<rfloor> = (if 0 \<le> f64_scale w then f64_mant w * 2 ^ nat (f64_scale w)
     else f64_mant w div 2 ^ nat (- f64_scale w))"
  by (simp only: f64_mag_def floor_of_int floor_divide_of_int_eq split: if_split) simp

lemma f64_mag_int_iff: "f64_mag w = of_int \<lfloor>f64_mag w\<rfloor> \<longleftrightarrow> \<not> f64_has_frac w"
proof (cases "0 \<le> f64_scale w")
  case True
  then have "f64_mag w = of_int (f64_mant w * 2 ^ nat (f64_scale w))" by (simp add: f64_mag_def)
  with True show ?thesis by (simp only: floor_of_int f64_has_frac_def) simp
next
  case False
  define m :: int where "m = f64_mant w"
  define d :: int where "d = 2 ^ nat (- f64_scale w)"
  have d: "0 < d" by (simp add: d_def)
  have mag: "f64_mag w = of_int m / of_int d" using False by (simp add: f64_mag_def m_def d_def)
  then have fl: "\<lfloor>f64_mag w\<rfloor> = m div d" by (simp only: floor_divide_of_int_eq)
  have "f64_mag w = of_int (m div d) \<longleftrightarrow> of_int m = (of_int (d * (m div d)) :: rat)"
    using d by (simp add: mag field_simps)
  also have "\<dots> \<longleftrightarrow> m = d * (m div d)" by (simp only: of_int_eq_iff)
  also have "\<dots> \<longleftrightarrow> m mod d = 0"
    using mult_div_mod_eq [of d m] by linarith
  finally show ?thesis using False fl by (simp add: f64_has_frac_def m_def d_def)
qed

lemma f64_trunc_eq: "f64_trunc w = (if f64_sign w then - \<lfloor>f64_mag w\<rfloor> else \<lfloor>f64_mag w\<rfloor>)"
  by (simp only: f64_trunc_def f64_mag_floor Let_def)

lemma f64_mag_0_iff: "f64_mag w = 0 \<longleftrightarrow> f64_mant w = 0"
  by (auto simp: f64_mag_def)

text \<open>Truncate, then step down when a fraction was cut off a negative value: the floor.\<close>

lemma f64_floor:
  assumes "f64_finite w"
  shows "\<lfloor>f64_val w\<rfloor> =
    (if f64_less_0 w \<and> f64_has_frac w then f64_trunc w - 1 else f64_trunc w)"
proof (cases "f64_sign w")
  case False
  then show ?thesis by (simp add: f64_val_def f64_trunc_eq f64_less_0_def)
next
  case True
  show ?thesis
  proof (cases "f64_has_frac w")
    case False
    then have "f64_mag w = of_int \<lfloor>f64_mag w\<rfloor>" by (simp only: f64_mag_int_iff) simp
    then have "\<lfloor>- f64_mag w\<rfloor> = - \<lfloor>f64_mag w\<rfloor>" by (metis floor_of_int of_int_minus)
    with True False show ?thesis by (simp add: f64_val_def f64_trunc_eq)
  next
    case frac: True
    then have ne: "f64_mag w \<noteq> of_int \<lfloor>f64_mag w\<rfloor>" by (simp only: f64_mag_int_iff) simp
    then have "f64_mag w \<noteq> 0" by auto
    then have "f64_less_0 w" using True assms by (simp add: f64_less_0_def f64_mag_0_iff)
    moreover have "\<lfloor>- f64_mag w\<rfloor> = - \<lfloor>f64_mag w\<rfloor> - 1"
      using ne by linarith
    ultimately show ?thesis using True frac by (simp add: f64_val_def f64_trunc_eq)
  qed
qed

text \<open>
  \<open>chunkCoord\<close> is the floor of a sixteenth wherever the arithmetic on the block
  coordinate does not wrap.
\<close>

lemma div16_neg: "- ((- b + 15) div 16) = b div 16" for b :: int
proof -
  have "- b + 15 = (15 - b mod 16) + - (b div 16) * 16"
    using div_mult_mod_eq [of b 16] by linarith
  then have "(- b + 15) div 16 = (15 - b mod 16 + - (b div 16) * 16) div 16" by (simp only:)
  also have "\<dots> = - (b div 16) + (15 - b mod 16) div 16" by (subst div_mult_self1) simp_all
  also have "(15 - b mod 16) div 16 = 0" by (rule div_pos_pos_trivial) (simp_all add: pos_mod_bound)
  finally show ?thesis by simp
qed

lemma floor_div_16: "\<lfloor>v / 16\<rfloor> = \<lfloor>v\<rfloor> div 16" for v :: rat
proof (rule floor_unique)
  have lo: "16 * (\<lfloor>v\<rfloor> div 16) \<le> \<lfloor>v\<rfloor>" and hi: "\<lfloor>v\<rfloor> + 1 \<le> 16 * (\<lfloor>v\<rfloor> div 16) + 16"
    by presburger+
  from lo have "(of_int (16 * (\<lfloor>v\<rfloor> div 16)) :: rat) \<le> of_int \<lfloor>v\<rfloor>" by (simp only: of_int_le_iff)
  then have "16 * (of_int (\<lfloor>v\<rfloor> div 16) :: rat) \<le> of_int \<lfloor>v\<rfloor>" by simp
  then show "of_int (\<lfloor>v\<rfloor> div 16) \<le> v / 16" using of_int_floor_le [of v] by linarith
  from hi have "(of_int (\<lfloor>v\<rfloor> + 1) :: rat) \<le> of_int (16 * (\<lfloor>v\<rfloor> div 16) + 16)"
    by (simp only: of_int_le_iff)
  then show "v / 16 < of_int (\<lfloor>v\<rfloor> div 16) + 1" using floor_less_iff [of v "\<lfloor>v\<rfloor> + 1"] by simp
qed

lemma chunkCoord_floor:
  assumes "f64_finite w" "- (2 ^ 31) + 16 \<le> \<lfloor>f64_val w\<rfloor>" "\<lfloor>f64_val w\<rfloor> < 2 ^ 31"
  shows "chunkCoord w = \<lfloor>f64_val w / 16\<rfloor>"
proof -
  define b where "b = \<lfloor>f64_val w\<rfloor>"
  have b: "- (2 ^ 31) + 16 \<le> b" "b < 2 ^ 31" using assms by (simp_all add: b_def)
  have fl: "b = (if f64_less_0 w \<and> f64_has_frac w then f64_trunc w - 1 else f64_trunc w)"
    unfolding b_def by (rule f64_floor [OF assms(1)])
  have "f64_less_0 w \<Longrightarrow> f64_trunc w \<le> 0"
    using f64_mag_nonneg [of w] by (simp add: f64_less_0_def f64_trunc_eq)
  with fl have "is_int32 (f64_trunc w)" using b by (auto simp: is_int32_def split: if_splits)
  then have conv: "f64_to_int32 w = f64_trunc w" using assms(1) by (simp add: f64_to_int32_def)
  have eq: "f64_eq_int (f64_trunc w) w \<longleftrightarrow> \<not> f64_has_frac w"
    using assms(1) by (simp add: f64_eq_int_def)
  have blk: "(if f64_less_0 w \<and> \<not> f64_eq_int (f64_to_int32 w) w
      then wrap32 (f64_to_int32 w - 1) else f64_to_int32 w) = b"
    using fl b by (auto simp: conv eq wrap32_id is_int32_def)
  have "chunkCoord w = b div 16"
  proof (cases "0 \<le> b")
    case True
    then show ?thesis unfolding chunkCoord_def Let_def blk by (simp add: go_div_nonneg)
  next
    case False
    then have "wrap32 (wrap32 (- b) + 15) = - b + 15"
      using b by (simp add: wrap32_id is_int32_def)
    moreover have "go_div (- b + 15) 16 = (- b + 15) div 16" using False by (simp add: go_div_nonneg)
    moreover have "wrap32 (- ((- b + 15) div 16)) = b div 16"
      using False b div16_neg [of b] by (subst wrap32_id) (auto simp: is_int32_def)
    ultimately show ?thesis using False unfolding chunkCoord_def Let_def blk by simp
  qed
  then show ?thesis by (simp add: b_def floor_div_16)
qed

end
