(* ===== verification/Go_Number.thy ===== *)
theory Go_Number
  imports Go_Float
begin

text \<open>
  The number parsing \<open>strconv\<close> does for \<open>json.Number\<close>: \<open>ParseInt(s, 10, 64)\<close>, and
  \<open>ParseFloat(s, 64)\<close> on decimal texts, the only ones a JSON number literal can be. Floats are
  rounded to nearest, ties to even, as a number of units in the last place.
\<close>

section \<open>Integers\<close>

definition isDigit :: "char \<Rightarrow> bool" where
  "isDigit c \<longleftrightarrow> 48 \<le> (of_char c :: nat) \<and> (of_char c :: nat) \<le> 57"

definition digit :: "char \<Rightarrow> nat" where
  "digit c = of_char c - 48"

definition digits :: "string \<Rightarrow> nat" where
  "digits s = foldl (\<lambda>n c. 10 * n + digit c) 0 s"

text \<open>An optional sign and what follows it.\<close>

definition splitSign :: "string \<Rightarrow> bool \<times> string" where
  "splitSign s = (case s of [] \<Rightarrow> (False, [])
     | c # r \<Rightarrow> if c = CHR ''-'' then (True, r) else if c = CHR ''+'' then (False, r) else (False, s))"

definition ErrSyntax :: go_error where "ErrSyntax = Errorf ''invalid syntax'' []"
definition ErrRange :: go_error where "ErrRange = Errorf ''value out of range'' []"

definition signed :: "bool \<Rightarrow> int \<Rightarrow> int" where
  "signed neg n = (if neg then - n else n)"

definition parseInt64 :: "string \<Rightarrow> int result" where
  "parseInt64 s = (case splitSign s of (neg, ds) \<Rightarrow>
     if ds = [] \<or> \<not> list_all isDigit ds then Inl ErrSyntax
     else let n = signed neg (int (digits ds)) in if is_int64 n then Inr n else Inl ErrRange)"

text \<open>\<open>ParseInt(s, 10, 32)\<close>.\<close>

definition parseInt32 :: "string \<Rightarrow> int result" where
  "parseInt32 s = bindR (parseInt64 s) (\<lambda>n. if is_int32 n then Inr n else Inl ErrRange)"

text \<open>\<open>strconv.Itoa\<close>.\<close>

fun showNat :: "nat \<Rightarrow> string" where
  "showNat n = (if n < 10 then [char_of (48 + n)] else showNat (n div 10) @ [char_of (48 + n mod 10)])"

declare showNat.simps [simp del]

definition itoa :: "int \<Rightarrow> string" where
  "itoa n = (if n < 0 then CHR ''-'' # showNat (nat (- n)) else showNat (nat n))"

lemma isDigit_char_of: "d < 10 \<Longrightarrow> isDigit (char_of (48 + d))" for d :: nat
  by (simp add: isDigit_def)

lemma digit_char_of: "d < 10 \<Longrightarrow> digit (char_of (48 + d)) = d" for d :: nat
  by (simp add: digit_def)

lemma digits_append_single: "digits (s @ [c]) = 10 * digits s + digit c"
  by (simp add: digits_def)

lemma digits_showNat: "digits (showNat n) = n"
proof (induction n rule: showNat.induct)
  case (1 n)
  show ?case
  proof (cases "n < 10")
    case True
    then show ?thesis by (subst showNat.simps) (simp add: digits_def digit_char_of del: of_char_of)
  next
    case False
    with 1 show ?thesis
      by (subst showNat.simps) (simp add: digits_append_single digit_char_of del: of_char_of)
  qed
qed

lemma isDigit_showNat: "list_all isDigit (showNat n) \<and> showNat n \<noteq> []"
proof (induction n rule: showNat.induct)
  case (1 n)
  then show ?case by (subst (1 2) showNat.simps) (simp add: isDigit_char_of)
qed

lemma splitSign_showNat: "splitSign (showNat n) = (False, showNat n)"
proof (cases "showNat n")
  case Nil
  then show ?thesis using isDigit_showNat [of n] by simp
next
  case (Cons c r)
  then have "isDigit c" using isDigit_showNat [of n] by simp
  then have "c \<noteq> CHR ''-''" "c \<noteq> CHR ''+''" by (auto simp: isDigit_def)
  with Cons show ?thesis by (simp add: splitSign_def)
qed

lemma parseInt64_itoa: "is_int64 n \<Longrightarrow> parseInt64 (itoa n) = Inr n"
proof (cases "n < 0")
  case True
  then have "splitSign (itoa n) = (True, showNat (nat (- n)))" by (simp add: itoa_def splitSign_def)
  moreover assume "is_int64 n"
  ultimately show ?thesis using True isDigit_showNat [of "nat (- n)"]
    by (simp add: parseInt64_def digits_showNat signed_def)
next
  case False
  then have "splitSign (itoa n) = (False, showNat (nat n))" by (simp add: itoa_def splitSign_showNat)
  moreover assume "is_int64 n"
  ultimately show ?thesis using False isDigit_showNat [of "nat n"]
    by (simp add: parseInt64_def digits_showNat signed_def)
qed

section \<open>Floats\<close>

fun bit_len :: "nat \<Rightarrow> nat" where
  "bit_len n = (if n = 0 then 0 else Suc (bit_len (n div 2)))"

declare bit_len.simps [simp del]

definition two_pow :: "int \<Rightarrow> rat" where
  "two_pow e = (if 0 \<le> e then of_int (2 ^ nat e) else 1 / of_int (2 ^ nat (- e)))"

definition round_even :: "rat \<Rightarrow> int" where
  "round_even x = (let f = \<lfloor>x\<rfloor>; d = x - of_int f in
     if d < 1 / 2 then f else if d > 1 / 2 then f + 1 else if even f then f else f + 1)"

text \<open>
  The pattern, without its sign, of a positive rational \<open>p / q\<close> in a format with \<open>prec\<close> bits
  of precision and smallest exponent \<open>emin\<close>; a carry out of the mantissa raises the exponent.
\<close>

definition round_pattern :: "nat \<Rightarrow> int \<Rightarrow> nat \<Rightarrow> nat \<Rightarrow> int" where
  "round_pattern prec emin p q =
    (let x = of_nat p / of_nat q :: rat;
         e0 = int (bit_len p) - int (bit_len q) - int prec;
         e1 = (if x * two_pow (- e0) \<ge> of_int (2 ^ prec) then e0 + 1 else e0);
         e = max emin e1;
         m = round_even (x * two_pow (- e))
     in if m < 2 ^ (prec - 1) then m else (e - emin + 1) * 2 ^ (prec - 1) + (m - 2 ^ (prec - 1)))"

definition f64_inf :: int where "f64_inf = 0x7FF0000000000000"
definition f32_inf :: int where "f32_inf = 0x7F800000"

text \<open>\<open>float32(x)\<close>: rounded, infinite when too large, a NaN stays a (quiet) NaN.\<close>

definition f32_of_f64 :: "f64 \<Rightarrow> f32" where
  "f32_of_f64 w =
    (let mag = (if \<not> f64_finite w then (if f64_frac w = 0 then f32_inf
                  else f32_inf + 0x400000 + (f64_frac w div 2 ^ 29) mod 0x400000)
                else if f64_mant w = 0 then 0
                else let (p, q) = (if 0 \<le> f64_scale w then (nat (f64_mant w) * 2 ^ nat (f64_scale w), 1)
                                   else (nat (f64_mant w), 2 ^ nat (- f64_scale w)))
                     in min f32_inf (round_pattern 24 (- 149) p q))
     in word_of_int (mag + (if f64_sign w then 2 ^ 31 else 0)))"

text \<open>\<open>ParseFloat(s, 64)\<close>: sign, digits with an optional point, an optional exponent.\<close>

definition spanDigits :: "string \<Rightarrow> string \<times> string" where
  "spanDigits s = (takeWhile isDigit s, dropWhile isDigit s)"

definition parseExponent :: "string \<Rightarrow> int result" where
  "parseExponent s = (case s of [] \<Rightarrow> Inr 0
     | c # r \<Rightarrow> if c = CHR ''e'' \<or> c = CHR ''E''
         then (case splitSign r of (neg, ds) \<Rightarrow>
                 if ds = [] \<or> \<not> list_all isDigit ds then Inl ErrSyntax else Inr (signed neg (int (digits ds))))
         else Inl ErrSyntax)"

definition f64_round :: "bool \<Rightarrow> nat \<Rightarrow> int \<Rightarrow> f64 result" where
  "f64_round neg m e =
    (let mag = (if m = 0 then 0
                else if 0 \<le> e then round_pattern 53 (- 1074) (m * 10 ^ nat e) 1
                else round_pattern 53 (- 1074) m (10 ^ nat (- e)))
     in if mag < f64_inf then Inr (word_of_int (mag + (if neg then 2 ^ 63 else 0))) else Inl ErrRange)"

definition parseFloat64 :: "string \<Rightarrow> f64 result" where
  "parseFloat64 s = (case splitSign s of (neg, s1) \<Rightarrow>
     case spanDigits s1 of (ip, s2) \<Rightarrow>
     case (case s2 of [] \<Rightarrow> ([], []) | c # r \<Rightarrow> if c = CHR ''.'' then spanDigits r else ([], s2)) of (fp, s3) \<Rightarrow>
       if ip = [] \<and> fp = [] then Inl ErrSyntax
       else bindR (parseExponent s3) (\<lambda>e. f64_round neg (digits (ip @ fp)) (e - int (length fp))))"

end
