(* ===== verification/Json_Nbt.thy ===== *)
theory Json_Nbt
  imports Nbt Go_Number
begin

text \<open>
  The conversion of text components from JSON to NBT at the end of
  \<open>protocol/limbo/play_events.go\<close>. A decoded JSON value (\<open>UseNumber\<close>) is a \<open>json\<close>; the fields
  of an object stand in the order the map is ranged over.
\<close>

datatype json =
    JNull
  | JBool bool
  | JNum string
  | JStr string
  | JArr "json list"
  | JObj "(string \<times> json) list"

section \<open>Tags\<close>

definition jsonNumberNBTTag :: "string \<Rightarrow> byte result" where
  "jsonNumberNBTTag text =
    (if (\<exists>c \<in> set text. c \<in> {CHR ''.'', CHR ''e'', CHR ''E''})
     then bindR (parseFloat64 text) (\<lambda>_. Inr nbtFloat)
     else bindR (parseInt64 text) (\<lambda>_. Inr nbtInt))"

fun jsonNBTTag :: "json \<Rightarrow> byte" where
  "jsonNBTTag (JObj _) = nbtCompound"
| "jsonNBTTag (JArr _) = nbtList"
| "jsonNBTTag (JBool _) = nbtByte"
| "jsonNBTTag (JNum n) = (case jsonNumberNBTTag n of Inr tag \<Rightarrow> tag | Inl _ \<Rightarrow> nbtString)"
| "jsonNBTTag _ = nbtString"

text \<open>The type assertions \<open>x, _ := value.(T)\<close>: the zero value when the type differs.\<close>

fun as_object :: "json \<Rightarrow> (string \<times> json) list" where
  "as_object (JObj fs) = fs" | "as_object _ = []"

fun as_array :: "json \<Rightarrow> json list" where
  "as_array (JArr vs) = vs" | "as_array _ = []"

fun as_string :: "json \<Rightarrow> string" where
  "as_string (JStr s) = s" | "as_string _ = []"

fun as_bool :: "json \<Rightarrow> bool" where
  "as_bool (JBool b) = b" | "as_bool _ = False"

fun as_number :: "json \<Rightarrow> string" where
  "as_number (JNum n) = n" | "as_number _ = []"

section \<open>Writers\<close>

definition writeRawNBTString :: "string \<Rightarrow> byte list" where
  "writeRawNBTString value = writeUnsignedShort (int (length value) mod 2 ^ 16) @ bytes_of value"

definition writeRawNBTInt :: "int \<Rightarrow> byte list" where
  "writeRawNBTInt value = writeInt value"

definition writeRawNBTFloat :: "f32 \<Rightarrow> byte list" where
  "writeRawNBTFloat value = writeInt (sint value)"

text \<open>The bytes of a sequence of writes: the first error stops it.\<close>

fun concatR :: "byte list result list \<Rightarrow> byte list result" where
  "concatR [] = Inr []"
| "concatR (r # rs) = bindR r (\<lambda>bs. bindR (concatR rs) (\<lambda>bs'. Inr (bs @ bs')))"

lemma size_as_object: "(k, c) \<in> set (as_object v) \<Longrightarrow> size c < size v"
  by (cases v) (auto dest!: size_list_estimation' [where f = "size_prod (\<lambda>_. 0) size", OF _ order_refl])

lemma size_as_array: "c \<in> set (as_array v) \<Longrightarrow> size c < size v"
  by (cases v) (auto dest!: size_list_estimation' [where f = size, OF _ order_refl])

function writeJSONNBTPayload :: "byte \<Rightarrow> json \<Rightarrow> byte list result"
  and writeNamedJSONNBT :: "string \<Rightarrow> json \<Rightarrow> byte list result" where
  "writeJSONNBTPayload tag value =
    (if tag = nbtCompound then
       bindR (concatR (map (\<lambda>(key, child). writeNamedJSONNBT key child) (as_object value)))
         (\<lambda>bs. Inr (bs @ [nbtEnd]))
     else if tag = nbtList then
       (let values = as_array value;
            childTag = (case values of [] \<Rightarrow> nbtEnd | v # _ \<Rightarrow> jsonNBTTag v)
        in bindR (concatR (map (writeJSONNBTPayload childTag) values))
             (\<lambda>bs. Inr (childTag # writeRawNBTInt (int (length values)) @ bs)))
     else if tag = nbtString then Inr (writeRawNBTString (as_string value))
     else if tag = nbtByte then Inr (if as_bool value then [1] else [0])
     else if tag = nbtInt then
       bindR (parseInt64 (as_number value)) (\<lambda>integer. Inr (writeRawNBTInt (wrap32 integer)))
     else if tag = nbtFloat then
       bindR (parseFloat64 (as_number value)) (\<lambda>floatValue. Inr (writeRawNBTFloat (f32_of_f64 floatValue)))
     else Inr [])"
| "writeNamedJSONNBT name value =
    bindR (writeJSONNBTPayload (jsonNBTTag value) value)
      (\<lambda>bs. Inr (jsonNBTTag value # writeRawNBTString name @ bs))"
  by pat_completeness auto
termination
  by (relation "measure (case_sum (\<lambda>(tag, v). 2 * size v) (\<lambda>(n, v). 2 * size v + 1))")
    (auto dest: size_as_object size_as_array)

declare writeJSONNBTPayload.simps [simp del]

definition writeJSONListPayload :: "json list \<Rightarrow> byte list result" where
  "writeJSONListPayload values = writeJSONNBTPayload nbtList (JArr values)"

definition writeAnonymousJSONListNBT :: "json list \<Rightarrow> byte list result" where
  "writeAnonymousJSONListNBT values =
    bindR (writeJSONListPayload values) (\<lambda>bs. Inr (nbtList # bs))"

definition writeJSONNumberNBTPayload :: "byte \<Rightarrow> string \<Rightarrow> byte list result" where
  "writeJSONNumberNBTPayload tag value =
    (if tag = nbtInt then bindR (parseInt64 value) (\<lambda>integer. Inr (writeRawNBTInt (wrap32 integer)))
     else if tag = nbtFloat then
       bindR (parseFloat64 value) (\<lambda>floatValue. Inr (writeRawNBTFloat (f32_of_f64 floatValue)))
     else Inl (Errorf ''unsupported json number nbt tag %d'' [FD (uint tag)]))"

fun writeAnonymousJSONNBT :: "json \<Rightarrow> byte list result" where
  "writeAnonymousJSONNBT (JObj fs) =
     bindR (concatR (map (\<lambda>(key, child). writeNamedJSONNBT key child) fs))
       (\<lambda>bs. Inr (nbtCompound # bs @ [nbtEnd]))"
| "writeAnonymousJSONNBT (JArr values) = writeAnonymousJSONListNBT values"
| "writeAnonymousJSONNBT (JStr s) = Inr (nbtString # writeRawNBTString s)"
| "writeAnonymousJSONNBT (JBool b) = Inr (nbtByte # (if b then [1] else [0]))"
| "writeAnonymousJSONNBT (JNum n) =
     bindR (jsonNumberNBTTag n) (\<lambda>tag. bindR (writeJSONNumberNBTPayload tag n) (\<lambda>bs. Inr (tag # bs)))"
| "writeAnonymousJSONNBT JNull = Inr [nbtCompound, nbtEnd]"

text \<open>\<open>decode\<close> is \<open>json.Decoder.Decode\<close> with \<open>UseNumber\<close>.\<close>

definition componentJSONToAnonymousNBT :: "(byte list \<Rightarrow> json result) \<Rightarrow> byte list \<Rightarrow> byte list result" where
  "componentJSONToAnonymousNBT decode raw = bindR (decode raw) writeAnonymousJSONNBT"

section \<open>What the conversion means\<close>

text \<open>The NBT tree of a JSON value, written without the tag-directed dispatch of the code.\<close>

definition num_tree :: "string \<Rightarrow> nbt" where
  "num_tree n = (case jsonNumberNBTTag n of Inl _ \<Rightarrow> NString []
     | Inr tag \<Rightarrow> if tag = nbtFloat then (case parseFloat64 n of Inr f \<Rightarrow> NFloat (f32_of_f64 f) | Inl _ \<Rightarrow> NString [])
         else (case parseInt64 n of Inr i \<Rightarrow> NInt (word_of_int i) | Inl _ \<Rightarrow> NString []))"

fun tree_of :: "json \<Rightarrow> nbt" where
  "tree_of JNull = NString []"
| "tree_of (JBool b) = NByte (if b then 1 else 0)"
| "tree_of (JNum n) = num_tree n"
| "tree_of (JStr s) = NString s"
| "tree_of (JArr vs) = NList (case vs of [] \<Rightarrow> nbtEnd | v # _ \<Rightarrow> tag_of (tree_of v)) (map tree_of vs)"
| "tree_of (JObj fs) = NCompound (map (\<lambda>(k, v). (k, tree_of v)) fs)"

text \<open>Values the conversion carries: numbers in range, lists of one kind of element, sizes in range.\<close>

fun json_ok :: "json \<Rightarrow> bool" where
  "json_ok (JNum n) \<longleftrightarrow> (case jsonNumberNBTTag n of Inr _ \<Rightarrow> True | Inl _ \<Rightarrow> False)"
| "json_ok (JStr s) \<longleftrightarrow> length s < 65536"
| "json_ok (JArr vs) \<longleftrightarrow> length vs < 2 ^ 31 \<and>
     (\<forall>v \<in> set vs. json_ok v \<and> jsonNBTTag v = jsonNBTTag (hd vs))"
| "json_ok (JObj fs) \<longleftrightarrow> (\<forall>(k, v) \<in> set fs. length k < 65536 \<and> json_ok v)"
| "json_ok (JBool _) \<longleftrightarrow> True"
| "json_ok JNull \<longleftrightarrow> False"

lemma jsonNumberNBTTag_cases:
  "jsonNumberNBTTag n = Inr t \<Longrightarrow>
    (t = nbtFloat \<and> (\<exists>f. parseFloat64 n = Inr f)) \<or> (t = nbtInt \<and> (\<exists>i. parseInt64 n = Inr i))"
  by (auto simp: jsonNumberNBTTag_def result_simps split: if_splits)

lemma tag_of_tree: "json_ok v \<Longrightarrow> tag_of (tree_of v) = jsonNBTTag v"
proof (cases v)
  case (JNum n)
  assume "json_ok v"
  with JNum obtain t where "jsonNumberNBTTag n = Inr t" by (auto split: sum.splits)
  with jsonNumberNBTTag_cases [OF this] JNum show ?thesis
    by (auto simp: num_tree_def nbt_tags)
qed auto

lemma word16_mod: "(word_of_int (int n mod 65536) :: 16 word) = word_of_nat n"
  using word_of_int_eq_iff [where 'a = 16, of "int n mod 65536" "int n"]
  by (simp add: take_bit_eq_mod)

lemma writeRawNBTString_raw: "writeRawNBTString s = w_rawString s"
  by (simp add: writeRawNBTString_def w_rawString_def writeUnsignedShort_def word16_mod)

lemma writeRawNBTInt_raw: "writeRawNBTInt i = put_be 4 (word_of_int i :: 32 word)"
  by (simp add: writeRawNBTInt_def writeInt_def)

lemma writeRawNBTFloat_raw: "writeRawNBTFloat w = put_be 4 w"
  by (simp add: writeRawNBTFloat_def writeInt_def)

lemma word_of_int_wrap32 [simp]: "(word_of_int (wrap32 i) :: 32 word) = word_of_int i"
  by (simp add: wrap32_def)

lemma concatR_map: "(\<And>x. x \<in> set xs \<Longrightarrow> f x = Inr (g x)) \<Longrightarrow> concatR (map f xs) = Inr (concat (map g xs))"
  by (induction xs) auto

lemma writeJSONNBTPayload_tree:
  "json_ok v \<Longrightarrow> writeJSONNBTPayload (jsonNBTTag v) v = Inr (payload (tree_of v))"
proof (induction v)
  case (JNum n)
  then obtain t where "jsonNumberNBTTag n = Inr t" by (auto split: sum.splits)
  with jsonNumberNBTTag_cases [OF this] show ?case
    by (auto simp: writeJSONNBTPayload.simps num_tree_def nbt_tags writeRawNBTInt_raw writeRawNBTFloat_raw)
next
  case (JArr vs)
  let ?t = "case vs of [] \<Rightarrow> nbtEnd | v # _ \<Rightarrow> jsonNBTTag v"
  have "concatR (map (writeJSONNBTPayload ?t) vs) = Inr (concat (map (\<lambda>v. payload (tree_of v)) vs))"
  proof (rule concatR_map)
    fix v assume v: "v \<in> set vs"
    then have "?t = jsonNBTTag v" using JArr.prems by (cases vs) auto
    then show "writeJSONNBTPayload ?t v = Inr (payload (tree_of v))" using JArr v by simp
  qed
  moreover have "(case vs of [] \<Rightarrow> nbtEnd | v # _ \<Rightarrow> tag_of (tree_of v)) = ?t"
    using JArr.prems by (cases vs) (auto simp: tag_of_tree)
  moreover have "(word_of_int (int (length vs)) :: 32 word) = word_of_nat (length vs)" by simp
  ultimately show ?case
    by (simp add: writeJSONNBTPayload.simps nbt_tags writeRawNBTInt_raw comp_def Let_def)
next
  case (JObj fs)
  have "concatR (map (\<lambda>(k, c). writeNamedJSONNBT k c) fs)
      = Inr (concat (map (\<lambda>(k, c). field k (tree_of c)) fs))"
  proof (rule concatR_map)
    fix x assume x: "x \<in> set fs"
    obtain k c where xkc: "x = (k, c)" by (cases x)
    with JObj.prems x have "json_ok c" by auto
    moreover from JObj.IH [OF x, of c] xkc this
    have "writeJSONNBTPayload (jsonNBTTag c) c = Inr (payload (tree_of c))" by simp
    ultimately show "(case x of (k, c) \<Rightarrow> writeNamedJSONNBT k c)
        = Inr (case x of (k, c) \<Rightarrow> field k (tree_of c))"
      by (simp add: xkc field_def tag_of_tree writeRawNBTString_raw)
  qed
  then show ?case
    by (simp add: writeJSONNBTPayload.simps nbt_tags comp_def case_prod_unfold field_def)
qed (auto simp: writeJSONNBTPayload.simps nbt_tags writeRawNBTString_raw)

lemma writeAnonymousJSONNBT_tree:
  assumes "json_ok v"
  shows "writeAnonymousJSONNBT v = Inr (anonymous (tree_of v))"
proof (cases v)
  case (JObj fs)
  with writeJSONNBTPayload_tree [OF assms] show ?thesis
    by (auto simp: writeJSONNBTPayload.simps nbtCompound_def anonymous_def result_simps simp del: payload.simps)
next
  case (JArr vs)
  with writeJSONNBTPayload_tree [OF assms] show ?thesis
    by (simp add: writeAnonymousJSONListNBT_def writeJSONListPayload_def anonymous_def)
next
  case (JNum n)
  with assms obtain t where "jsonNumberNBTTag n = Inr t" by (auto split: sum.splits)
  with jsonNumberNBTTag_cases [OF this] show ?thesis using JNum
    by (auto simp: num_tree_def nbt_tags writeRawNBTInt_raw writeRawNBTFloat_raw
        writeJSONNumberNBTPayload_def anonymous_def)
qed (use assms in \<open>auto simp: anonymous_def nbt_tags writeRawNBTString_raw\<close>)

lemma wf_tree_of: "json_ok v \<Longrightarrow> wf_nbt (tree_of v)"
proof (induction v)
  case (JNum n)
  then show ?case by (auto simp: num_tree_def split: sum.splits)
next
  case (JArr vs)
  then show ?case by (cases vs) (auto simp: tag_of_tree)
next
  case (JObj fs)
  then show ?case by fastforce
qed auto

text \<open>Converting a carried value and decoding the result gives its tree.\<close>

lemma writeAnonymousJSONNBT_decodes:
  assumes "json_ok v" "nbt_depth (tree_of v) \<le> fuel"
  shows "\<exists>bs. writeAnonymousJSONNBT v = Inr bs \<and> d_anonymous fuel bs = Some (tree_of v, [])"
  using d_anonymous_anonymous [OF wf_tree_of [OF assms(1)] assms(2), of "[]"] assms
  by (simp add: writeAnonymousJSONNBT_tree)

end
