(* ===== verification/World.thy ===== *)
theory World
  imports Go_Float
begin

text \<open>
  The version-neutral world of \<open>world.go\<close>: dimensions and their presets, chunks and
  sections, the built-in one-block world and the in-memory providers. A \<open>world\<close> record is what
  the protocol adapters see of the \<open>World\<close> interface.
\<close>

section \<open>Dimensions\<close>

record dimension =
  dm_Name :: string
  dm_Environment :: string
  dm_MinY :: int
  dm_Height :: int
  dm_LogicalHeight :: int
  dm_Natural :: bool
  dm_HasSkylight :: bool
  dm_HasCeiling :: bool
  dm_UltraWarm :: bool
  dm_AmbientLight :: f32
  dm_FixedTime :: "int option"
  dm_TimeOfDay :: "int option"
  dm_WorldAge :: int
  dm_CoordinateScale :: f64
  dm_Effects :: string

text \<open>The zero value \<open>Dimension{}\<close>.\<close>

definition zero_dimension :: dimension where
  "zero_dimension = \<lparr>dm_Name = '''', dm_Environment = '''', dm_MinY = 0, dm_Height = 0,
     dm_LogicalHeight = 0, dm_Natural = False, dm_HasSkylight = False, dm_HasCeiling = False,
     dm_UltraWarm = False, dm_AmbientLight = 0, dm_FixedTime = None, dm_TimeOfDay = None,
     dm_WorldAge = 0, dm_CoordinateScale = 0, dm_Effects = ''''\<rparr>"

definition DimensionOverworld :: string where "DimensionOverworld = ''overworld''"
definition DimensionNether :: string where "DimensionNether = ''nether''"
definition DimensionEnd :: string where "DimensionEnd = ''end''"

lemmas environment_defs = DimensionOverworld_def DimensionNether_def DimensionEnd_def

text \<open>The float constants of the presets: \<open>float32(0.1)\<close>, \<open>float64(1)\<close>, \<open>float64(8)\<close>.\<close>

definition f32_0_1 :: f32 where "f32_0_1 = 0x3dcccccd"
definition f64_1 :: f64 where "f64_1 = 0x3ff0000000000000"
definition f64_8 :: f64 where "f64_8 = 0x4020000000000000"

definition normalizeDimensionHeight :: "int \<Rightarrow> int" where
  "normalizeDimensionHeight height =
    (if height \<le> 0 then 0
     else let remainder = go_mod height 16 in
       if remainder \<noteq> 0 then wrap32 (height + (16 - remainder)) else height)"

definition fallbackHeight :: "int \<Rightarrow> int \<Rightarrow> int" where
  "fallbackHeight height fallback = (if 0 < height then height else fallback)"

definition inferDimensionEnvironment :: "string \<Rightarrow> string" where
  "inferDimensionEnvironment name =
    (if name = ''minecraft:the_nether'' then DimensionNether
     else if name = ''minecraft:the_end'' then DimensionEnd
     else DimensionOverworld)"

definition dimensionPreset :: "string \<Rightarrow> int \<Rightarrow> dimension" where
  "dimensionPreset environment height0 =
    (let height = normalizeDimensionHeight height0 in
     if environment = DimensionNether then
       \<lparr>dm_Name = ''minecraft:the_nether'', dm_Environment = DimensionNether, dm_MinY = 0,
        dm_Height = fallbackHeight height 256, dm_LogicalHeight = 128, dm_Natural = False,
        dm_HasSkylight = False, dm_HasCeiling = True, dm_UltraWarm = True,
        dm_AmbientLight = f32_0_1, dm_FixedTime = Some 18000, dm_TimeOfDay = None,
        dm_WorldAge = 0, dm_CoordinateScale = f64_8, dm_Effects = ''minecraft:the_nether''\<rparr>
     else if environment = DimensionEnd then
       (let resolvedHeight = fallbackHeight height 256 in
       \<lparr>dm_Name = ''minecraft:the_end'', dm_Environment = DimensionEnd, dm_MinY = 0,
        dm_Height = resolvedHeight, dm_LogicalHeight = resolvedHeight, dm_Natural = False,
        dm_HasSkylight = False, dm_HasCeiling = False, dm_UltraWarm = False,
        dm_AmbientLight = 0, dm_FixedTime = Some 6000, dm_TimeOfDay = None,
        dm_WorldAge = 0, dm_CoordinateScale = f64_1, dm_Effects = ''minecraft:the_end''\<rparr>)
     else
       (let resolvedHeight = fallbackHeight height 256 in
       \<lparr>dm_Name = ''minecraft:overworld'', dm_Environment = DimensionOverworld, dm_MinY = 0,
        dm_Height = resolvedHeight, dm_LogicalHeight = resolvedHeight, dm_Natural = True,
        dm_HasSkylight = True, dm_HasCeiling = False, dm_UltraWarm = False,
        dm_AmbientLight = 0, dm_FixedTime = None, dm_TimeOfDay = None,
        dm_WorldAge = 0, dm_CoordinateScale = f64_1, dm_Effects = ''minecraft:overworld''\<rparr>))"

definition normalizeDimension :: "dimension \<Rightarrow> int \<Rightarrow> dimension" where
  "normalizeDimension d0 schematicHeight =
    (let d1 = (if dm_Environment d0 = '''' then
                 d0\<lparr>dm_Environment := inferDimensionEnvironment (dm_Name d0)\<rparr> else d0) in
     if dm_Name d1 = '''' then dimensionPreset (dm_Environment d1) schematicHeight
     else
       (let d2 = (if dm_Height d1 = 0 then d1\<lparr>dm_Height := normalizeDimensionHeight schematicHeight\<rparr> else d1);
            d3 = (if dm_Height d2 = 0 then d2\<lparr>dm_Height := 256\<rparr> else d2);
            d4 = (if dm_LogicalHeight d3 = 0 then d3\<lparr>dm_LogicalHeight := dm_Height d3\<rparr> else d3);
            d5 = (if f64_is_0 (dm_CoordinateScale d4) then d4\<lparr>dm_CoordinateScale := f64_1\<rparr> else d4);
            d6 = (if dm_Effects d5 = '''' then
                    d5\<lparr>dm_Effects := dm_Effects (dimensionPreset (dm_Environment d5) (dm_Height d5))\<rparr> else d5)
        in d6))"

section \<open>Chunks and worlds\<close>

record chunkSection =
  cs_Y :: int
  cs_BlockStateIDs :: "nat list"
  cs_BiomeIDs :: "nat list"

record chunk =
  ch_X :: int
  ch_Z :: int
  ch_MinY :: int
  ch_Sections :: "chunkSection list"

record blockState =
  bs_Name :: string
  bs_Properties :: "(string \<times> string) list"

record world =
  w_ID :: string
  w_Dimension :: dimension
  w_BlockPalette :: "blockState list"
  w_Chunk :: "int \<Rightarrow> int \<Rightarrow> chunk option"

record memoryWorld =
  mw_WorldID :: string
  mw_WorldDimension :: dimension
  mw_Palette :: "blockState list"
  mw_Chunks :: "((int \<times> int) \<times> chunk) list"

text \<open>The methods of \<open>MemoryWorld\<close>: the interface value of an in-memory world.\<close>

definition memory_world :: "memoryWorld \<Rightarrow> world" where
  "memory_world w = \<lparr>w_ID = mw_WorldID w, w_Dimension = mw_WorldDimension w,
     w_BlockPalette = mw_Palette w, w_Chunk = (\<lambda>x z. map_of (mw_Chunks w) (x, z))\<rparr>"

definition DefaultWorldID :: string where "DefaultWorldID = ''default''"
definition DefaultBedrockY :: int where "DefaultBedrockY = 64"

definition defaultWorldWithDimension :: "string \<Rightarrow> dimension \<Rightarrow> memoryWorld" where
  "defaultWorldWithDimension ident0 dimension0 =
    (let ident = (if ident0 = '''' then DefaultWorldID else ident0);
         dimension = normalizeDimension dimension0 256;
         blocks = (replicate (16 * 16 * 16) 0)[0 := 1];
         sectionY = go_div DefaultBedrockY 16
     in \<lparr>mw_WorldID = ident, mw_WorldDimension = dimension,
         mw_Palette = [\<lparr>bs_Name = ''minecraft:air'', bs_Properties = []\<rparr>,
                       \<lparr>bs_Name = ''minecraft:bedrock'', bs_Properties = []\<rparr>],
         mw_Chunks = [((0, 0), \<lparr>ch_X = 0, ch_Z = 0, ch_MinY = dm_MinY dimension,
           ch_Sections = [\<lparr>cs_Y = sectionY, cs_BlockStateIDs = blocks, cs_BiomeIDs = []\<rparr>]\<rparr>)]\<rparr>)"

definition defaultWorld :: "string \<Rightarrow> memoryWorld" where
  "defaultWorld ident = defaultWorldWithDimension ident zero_dimension"

type_synonym worldProvider = "(string \<times> world) list"

definition static_world :: "worldProvider \<Rightarrow> string \<Rightarrow> world result" where
  "static_world p ident = (case map_of p ident of None \<Rightarrow> Inl ErrWorldNotFound | Some w \<Rightarrow> Inr w)"

section \<open>Spawn targets (types.go)\<close>

record vec3 =
  v_X :: f64
  v_Y :: f64
  v_Z :: f64

record rotation =
  rot_Yaw :: f32
  rot_Pitch :: f32

definition GameModeAdventure :: int where "GameModeAdventure = 2"

record spawnTarget =
  sp_World :: string
  sp_Position :: vec3
  sp_Rotation :: rotation
  sp_GameMode :: int

text \<open>\<open>float64(DefaultBedrockY + 1)\<close> is the pattern of 65.\<close>

definition f64_65 :: f64 where "f64_65 = 0x4050400000000000"

definition defaultSpawn :: "string \<Rightarrow> spawnTarget" where
  "defaultSpawn worldID0 =
    (let worldID = (if worldID0 = '''' then DefaultWorldID else worldID0) in
     \<lparr>sp_World = worldID, sp_Position = \<lparr>v_X = 0, v_Y = f64_65, v_Z = 0\<rparr>,
      sp_Rotation = \<lparr>rot_Yaw = 0, rot_Pitch = 0\<rparr>, sp_GameMode = GameModeAdventure\<rparr>)"

section \<open>What normalisation establishes\<close>

lemma go_mod_16: "0 < h \<Longrightarrow> go_mod h 16 = h mod 16"
  by (simp add: go_mod_nonneg)

text \<open>Rounding up to a whole number of sections, short of the top sixteen \<open>int32\<close> values.\<close>

lemma normalizeDimensionHeight_up:
  assumes "0 < h" "h \<le> 2 ^ 31 - 16"
  shows "normalizeDimensionHeight h mod 16 = 0 \<and> h \<le> normalizeDimensionHeight h
    \<and> normalizeDimensionHeight h < h + 16 \<and> is_int32 (normalizeDimensionHeight h)"
proof (cases "h mod 16 = 0")
  case True
  with assms show ?thesis by (simp add: normalizeDimensionHeight_def go_mod_16 is_int32_def)
next
  case False
  then have "normalizeDimensionHeight h = wrap32 (h + (16 - h mod 16))"
    using assms by (simp add: normalizeDimensionHeight_def go_mod_16)
  moreover have "is_int32 (h + (16 - h mod 16))" unfolding is_int32_def
    using assms False by (simp; presburger)
  moreover have "(h + (16 - h mod 16)) mod 16 = 0" by presburger
  moreover have "h \<le> h + (16 - h mod 16)" "h + (16 - h mod 16) < h + 16"
    using False by presburger+
  ultimately show ?thesis by (simp add: wrap32_id)
qed

lemma normalizeDimensionHeight_0_iff:
  "h \<le> 2 ^ 31 - 16 \<Longrightarrow> normalizeDimensionHeight h = 0 \<longleftrightarrow> h \<le> 0"
  using normalizeDimensionHeight_up [of h] by (cases "0 < h") (auto simp: normalizeDimensionHeight_def)

definition dimension_complete :: "dimension \<Rightarrow> bool" where
  "dimension_complete d \<longleftrightarrow> dm_Name d \<noteq> '''' \<and> dm_Environment d \<noteq> '''' \<and> dm_Height d \<noteq> 0
     \<and> dm_LogicalHeight d \<noteq> 0 \<and> \<not> f64_is_0 (dm_CoordinateScale d) \<and> dm_Effects d \<noteq> ''''"

lemma f64_consts_nonzero: "\<not> f64_is_0 f64_1" "\<not> f64_is_0 f64_8"
  by code_simp+

lemma dimensionPreset_complete: "dimension_complete (dimensionPreset env h)"
  by (auto simp: dimension_complete_def dimensionPreset_def Let_def environment_defs
      fallbackHeight_def f64_consts_nonzero)

lemma dimensionPreset_Effects: "dm_Effects (dimensionPreset env h) \<noteq> ''''"
  using dimensionPreset_complete [of env h] by (simp add: dimension_complete_def)

lemma inferDimensionEnvironment_nonempty: "inferDimensionEnvironment n \<noteq> ''''"
  by (simp add: inferDimensionEnvironment_def environment_defs)

lemma normalizeDimension_complete: "dimension_complete (normalizeDimension d h)"
proof (cases "dm_Name d = ''''")
  case True
  then show ?thesis by (simp add: normalizeDimension_def Let_def dimensionPreset_complete)
next
  case False
  then show ?thesis
    by (simp add: normalizeDimension_def dimension_complete_def Let_def dimensionPreset_Effects
        inferDimensionEnvironment_nonempty f64_consts_nonzero)
qed

text \<open>Values that are already set survive, so normalising twice changes nothing.\<close>

lemma normalizeDimension_id: "dimension_complete d \<Longrightarrow> normalizeDimension d h = d"
  by (simp add: normalizeDimension_def dimension_complete_def Let_def)

lemma normalizeDimension_idem [simp]:
  "normalizeDimension (normalizeDimension d h) h' = normalizeDimension d h"
  by (rule normalizeDimension_id [OF normalizeDimension_complete])

end
