(* ===== verification/Packet_Id.thy ===== *)
theory Packet_Id
  imports Prelude
begin

text \<open>
  Packet ids (\<open>protocol/packetid\<close>): the lookup, its protocol aliases, and the hand-written
  table of protocol 775. The tables generated into \<open>packetid_gen.go\<close> are the parameter
  \<open>byProtocol\<close> of the lookup. \<open>aliased\<close> is the contract of a table with aliases, which the
  block-state tables share.
\<close>

section \<open>Tables with aliases\<close>

locale aliased =
  fixes direct :: "int \<Rightarrow> 'a option"
    and alt :: "int \<Rightarrow> int option"
    and find :: "int \<Rightarrow> 'a option"
  assumes find_direct: "direct p = Some t \<Longrightarrow> find p = Some t"
    and find_alias: "direct p = None \<Longrightarrow> alt p = Some q \<Longrightarrow> find p = direct q"
    and find_none: "direct p = None \<Longrightarrow> alt p = None \<Longrightarrow> find p = None"
begin

lemma find_domain: "find p \<noteq> None \<longleftrightarrow> direct p \<noteq> None \<or> (\<exists>q. alt p = Some q \<and> direct q \<noteq> None)"
  by (cases "direct p"; cases "alt p") (auto simp: find_direct find_alias find_none)

lemma find_shared: "direct p = None \<Longrightarrow> alt p = Some q \<Longrightarrow> direct q \<noteq> None \<Longrightarrow> find p = find q"
  by (auto simp: find_alias find_direct)

end

section \<open>Packet tables (packetid.go)\<close>

datatype pstate = StateLogin | StateConfiguration | StatePlay

datatype direction = ToClient | ToServer

record entry =
  en_State :: pstate
  en_Direction :: direction
  en_Name :: string
  en_ID :: int

record versionPackets =
  vp_MinecraftVersion :: string
  vp_Protocol :: int
  vp_Entries :: "entry list"

type_synonym packetTable = "int \<Rightarrow> versionPackets option"

fun aliasProtocol :: "int \<Rightarrow> int option" where
  "aliasProtocol protocol =
    (if protocol = 316 then Some 315
     else if protocol \<in> {753, 754} then Some 751
     else None)"

definition packet_lookup :: "packetTable \<Rightarrow> int \<Rightarrow> versionPackets option" where
  "packet_lookup byProtocol protocol =
    (case byProtocol protocol of
       Some packets \<Rightarrow> Some packets
     | None \<Rightarrow> (case aliasProtocol protocol of None \<Rightarrow> None | Some q \<Rightarrow> byProtocol q))"

fun find_entry :: "entry list \<Rightarrow> pstate \<Rightarrow> direction \<Rightarrow> string \<Rightarrow> int option" where
  "find_entry [] st dir name = None"
| "find_entry (e # es) st dir name =
     (if en_State e = st \<and> en_Direction e = dir \<and> en_Name e = name then Some (en_ID e)
      else find_entry es st dir name)"

definition packet_ID :: "packetTable \<Rightarrow> int \<Rightarrow> pstate \<Rightarrow> direction \<Rightarrow> string \<Rightarrow> int option" where
  "packet_ID byProtocol protocol st dir name =
    (case packet_lookup byProtocol protocol of
       None \<Rightarrow> None
     | Some packets \<Rightarrow> find_entry (vp_Entries packets) st dir name)"

interpretation packets: aliased byProtocol aliasProtocol "packet_lookup byProtocol" for byProtocol
  by unfold_locales (simp_all add: packet_lookup_def del: aliasProtocol.simps)

lemma find_entry_Some:
  "find_entry es st dir name = Some i \<Longrightarrow>
    \<exists>e \<in> set es. en_State e = st \<and> en_Direction e = dir \<and> en_Name e = name \<and> en_ID e = i"
  by (induction es) (auto split: if_splits)

lemma find_entry_None:
  "find_entry es st dir name = None \<longleftrightarrow>
    (\<forall>e \<in> set es. \<not> (en_State e = st \<and> en_Direction e = dir \<and> en_Name e = name))"
  by (induction es) auto

lemma packet_ID_alias:
  "byProtocol p = None \<Longrightarrow> aliasProtocol p = Some q \<Longrightarrow> byProtocol q \<noteq> None \<Longrightarrow>
    packet_ID byProtocol p st dir name = packet_ID byProtocol q st dir name"
  using packets.find_shared [of byProtocol p q] by (simp add: packet_ID_def del: aliasProtocol.simps)

section \<open>Protocol 775 (packetid_775.go)\<close>

abbreviation mk_entry :: "pstate \<Rightarrow> direction \<Rightarrow> string \<Rightarrow> int \<Rightarrow> entry" where
  "mk_entry st dir name i \<equiv> \<lparr>en_State = st, en_Direction = dir, en_Name = name, en_ID = i\<rparr>"

definition entries_775 :: "entry list" where
  "entries_775 = [
    mk_entry StateLogin ToClient ''disconnect'' 0,
    mk_entry StateLogin ToClient ''encryption_begin'' 1,
    mk_entry StateLogin ToClient ''success'' 2,
    mk_entry StateLogin ToClient ''compress'' 3,
    mk_entry StateLogin ToClient ''login_plugin_request'' 4,
    mk_entry StateLogin ToClient ''cookie_request'' 5,
    mk_entry StateLogin ToServer ''login_start'' 0,
    mk_entry StateLogin ToServer ''encryption_begin'' 1,
    mk_entry StateLogin ToServer ''login_plugin_response'' 2,
    mk_entry StateLogin ToServer ''login_acknowledged'' 3,
    mk_entry StateLogin ToServer ''cookie_response'' 4,
    mk_entry StateConfiguration ToClient ''cookie_request'' 0,
    mk_entry StateConfiguration ToClient ''custom_payload'' 1,
    mk_entry StateConfiguration ToClient ''disconnect'' 2,
    mk_entry StateConfiguration ToClient ''finish_configuration'' 3,
    mk_entry StateConfiguration ToClient ''keep_alive'' 4,
    mk_entry StateConfiguration ToClient ''ping'' 5,
    mk_entry StateConfiguration ToClient ''reset_chat'' 6,
    mk_entry StateConfiguration ToClient ''registry_data'' 7,
    mk_entry StateConfiguration ToClient ''remove_resource_pack'' 8,
    mk_entry StateConfiguration ToClient ''add_resource_pack'' 9,
    mk_entry StateConfiguration ToClient ''store_cookie'' 10,
    mk_entry StateConfiguration ToClient ''transfer'' 11,
    mk_entry StateConfiguration ToClient ''feature_flags'' 12,
    mk_entry StateConfiguration ToClient ''tags'' 13,
    mk_entry StateConfiguration ToClient ''select_known_packs'' 14,
    mk_entry StateConfiguration ToClient ''custom_report_details'' 15,
    mk_entry StateConfiguration ToClient ''server_links'' 16,
    mk_entry StateConfiguration ToClient ''clear_dialog'' 17,
    mk_entry StateConfiguration ToClient ''show_dialog'' 18,
    mk_entry StateConfiguration ToClient ''code_of_conduct'' 19,
    mk_entry StateConfiguration ToServer ''settings'' 0,
    mk_entry StateConfiguration ToServer ''cookie_response'' 1,
    mk_entry StateConfiguration ToServer ''custom_payload'' 2,
    mk_entry StateConfiguration ToServer ''finish_configuration'' 3,
    mk_entry StateConfiguration ToServer ''keep_alive'' 4,
    mk_entry StateConfiguration ToServer ''pong'' 5,
    mk_entry StateConfiguration ToServer ''resource_pack_receive'' 6,
    mk_entry StateConfiguration ToServer ''select_known_packs'' 7,
    mk_entry StateConfiguration ToServer ''custom_click_action'' 8,
    mk_entry StateConfiguration ToServer ''accept_code_of_conduct'' 9,
    mk_entry StatePlay ToClient ''difficulty'' 10,
    mk_entry StatePlay ToClient ''chunk_batch_finished'' 11,
    mk_entry StatePlay ToClient ''chunk_batch_start'' 12,
    mk_entry StatePlay ToClient ''clear_titles'' 14,
    mk_entry StatePlay ToClient ''custom_payload'' 24,
    mk_entry StatePlay ToClient ''kick_disconnect'' 32,
    mk_entry StatePlay ToClient ''keep_alive'' 44,
    mk_entry StatePlay ToClient ''map_chunk'' 45,
    mk_entry StatePlay ToClient ''update_light'' 48,
    mk_entry StatePlay ToClient ''login'' 49,
    mk_entry StatePlay ToClient ''position'' 72,
    mk_entry StatePlay ToClient ''remove_resource_pack'' 80,
    mk_entry StatePlay ToClient ''add_resource_pack'' 81,
    mk_entry StatePlay ToClient ''action_bar'' 87,
    mk_entry StatePlay ToClient ''update_view_position'' 94,
    mk_entry StatePlay ToClient ''update_view_distance'' 95,
    mk_entry StatePlay ToClient ''simulation_distance'' 111,
    mk_entry StatePlay ToClient ''set_title_subtitle'' 112,
    mk_entry StatePlay ToClient ''update_time'' 113,
    mk_entry StatePlay ToClient ''set_title_text'' 114,
    mk_entry StatePlay ToClient ''set_title_time'' 115,
    mk_entry StatePlay ToClient ''store_cookie'' 120,
    mk_entry StatePlay ToClient ''system_chat'' 121,
    mk_entry StatePlay ToClient ''transfer'' 129,
    mk_entry StatePlay ToClient ''clear_dialog'' 139,
    mk_entry StatePlay ToClient ''show_dialog'' 140,
    mk_entry StatePlay ToServer ''chat_command'' 7,
    mk_entry StatePlay ToServer ''chat_message'' 9,
    mk_entry StatePlay ToServer ''chunk_batch_received'' 11,
    mk_entry StatePlay ToServer ''configuration_acknowledged'' 16,
    mk_entry StatePlay ToServer ''cookie_response'' 21,
    mk_entry StatePlay ToServer ''custom_payload'' 22,
    mk_entry StatePlay ToServer ''keep_alive'' 28,
    mk_entry StatePlay ToServer ''resource_pack_receive'' 49,
    mk_entry StatePlay ToServer ''custom_click_action'' 68
  ]"

definition packets_775 :: versionPackets where
  "packets_775 = \<lparr>vp_MinecraftVersion = ''26.1.2'', vp_Protocol = 775, vp_Entries = entries_775\<rparr>"

text \<open>\<open>init()\<close> adds the table to the generated ones.\<close>

definition with_775 :: "packetTable \<Rightarrow> packetTable" where
  "with_775 gen = gen(775 \<mapsto> packets_775)"

text \<open>Within one state and direction the 775 table gives every packet its own id.\<close>

definition ids_distinct :: "entry list \<Rightarrow> bool" where
  "ids_distinct es \<longleftrightarrow> distinct (map (\<lambda>e. (en_State e, en_Direction e, en_ID e)) es)
     \<and> distinct (map (\<lambda>e. (en_State e, en_Direction e, en_Name e)) es)"

lemma ids_distinct_inj:
  assumes "ids_distinct es" "find_entry es st dir n = Some i" "find_entry es st dir m = Some i"
  shows "n = m"
proof -
  from find_entry_Some [OF assms(2)] find_entry_Some [OF assms(3)]
  obtain e f where "e \<in> set es" "f \<in> set es" "en_State e = st" "en_State f = st"
    "en_Direction e = dir" "en_Direction f = dir" "en_Name e = n" "en_Name f = m"
    "en_ID e = i" "en_ID f = i" by blast
  moreover from this assms(1) have "e = f"
    by (auto simp: ids_distinct_def distinct_map dest: inj_onD)
  ultimately show ?thesis by simp
qed

lemma packet_ID_775: "packet_ID (with_775 gen) 775 st dir name = find_entry entries_775 st dir name"
  by (simp add: packet_ID_def packet_lookup_def with_775_def packets_775_def)

lemma ids_distinct_775: "ids_distinct entries_775"
  unfolding ids_distinct_def by code_simp

end
