(* ===== verification/Go_Net.thy ===== *)
theory Go_Net
  imports Prelude
begin

text \<open>
  The parts of Go's \<open>strings\<close> and \<open>net\<close> packages the program uses: index and prefix
  functions, trimming, splitting, and \<open>net.SplitHostPort\<close>. A \<open>net.Addr\<close> is its
  \<open>String()\<close>; a nil address is \<open>None\<close>.
\<close>

type_synonym net_addr = "string option"

fun indexByte :: "string \<Rightarrow> char \<Rightarrow> nat option" where
  "indexByte [] c = None"
| "indexByte (x # xs) c = (if x = c then Some 0 else map_option Suc (indexByte xs c))"

definition lastIndexByte :: "string \<Rightarrow> char \<Rightarrow> nat option" where
  "lastIndexByte s c = map_option (\<lambda>i. length s - 1 - i) (indexByte (rev s) c)"

definition containsByte :: "string \<Rightarrow> char \<Rightarrow> bool" where
  "containsByte s c \<longleftrightarrow> c \<in> set s"

fun hasPrefix :: "string \<Rightarrow> string \<Rightarrow> bool" where
  "hasPrefix s [] \<longleftrightarrow> True"
| "hasPrefix [] (p # ps) \<longleftrightarrow> False"
| "hasPrefix (x # xs) (p # ps) \<longleftrightarrow> x = p \<and> hasPrefix xs ps"

definition hasSuffix :: "string \<Rightarrow> string \<Rightarrow> bool" where
  "hasSuffix s suf \<longleftrightarrow> hasPrefix (rev s) (rev suf)"

definition trimPrefix :: "string \<Rightarrow> string \<Rightarrow> string" where
  "trimPrefix s p = (if hasPrefix s p then drop (length p) s else s)"

definition trimSuffix :: "string \<Rightarrow> string \<Rightarrow> string" where
  "trimSuffix s suf = (if hasSuffix s suf then take (length s - length suf) s else s)"

text \<open>\<open>strings.TrimRight\<close> with a one-character cutset, \<open>ReplaceAll\<close> of one character by nothing.\<close>

definition trimRightByte :: "string \<Rightarrow> char \<Rightarrow> string" where
  "trimRightByte s c = rev (dropWhile (\<lambda>x. x = c) (rev s))"

definition removeByte :: "string \<Rightarrow> char \<Rightarrow> string" where
  "removeByte s c = filter (\<lambda>x. x \<noteq> c) s"

text \<open>ASCII lower case, \<open>strings.ToLower\<close> on the identifiers the code lowers.\<close>

definition lowerChar :: "char \<Rightarrow> char" where
  "lowerChar c = (let n = (of_char c :: nat) in
     if 65 \<le> n \<and> n \<le> 90 then char_of (n + 32) else c)"

definition toLower :: "string \<Rightarrow> string" where
  "toLower s = map lowerChar s"

fun splitByte :: "string \<Rightarrow> char \<Rightarrow> string list" where
  "splitByte [] c = [[]]"
| "splitByte (x # xs) c =
     (if x = c then [] # splitByte xs c
      else (case splitByte xs c of [] \<Rightarrow> [[x]] | p # ps \<Rightarrow> (x # p) # ps))"

lemma hasPrefix_iff: "hasPrefix s p \<longleftrightarrow> (\<exists>r. s = p @ r)"
  by (induction s p rule: hasPrefix.induct) auto

lemma hasPrefix_append [simp]: "hasPrefix (p @ r) p"
  by (auto simp: hasPrefix_iff)

lemma trimPrefix_append [simp]: "trimPrefix (p @ r) p = r"
  by (simp add: trimPrefix_def)

lemma indexByte_None_iff: "indexByte s c = None \<longleftrightarrow> c \<notin> set s"
  by (induction s) auto

lemma indexByte_append:
  "c \<notin> set xs \<Longrightarrow> indexByte (xs @ c # ys) c = Some (length xs)"
  by (induction xs) auto

lemma lastIndexByte_append:
  "c \<notin> set ys \<Longrightarrow> lastIndexByte (xs @ c # ys) c = Some (length xs)"
  using indexByte_append [of c "rev ys" "rev xs"] by (simp add: lastIndexByte_def)

section \<open>net.SplitHostPort\<close>

definition addrErr :: "string \<Rightarrow> string \<Rightarrow> (string \<times> string) result" where
  "addrErr hostport why = Inl (Errorf why [FS hostport])"

definition splitHostPort :: "string \<Rightarrow> (string \<times> string) result" where
  "splitHostPort hostport =
    (case lastIndexByte hostport (CHR '':'') of
       None \<Rightarrow> addrErr hostport ''missing port in address''
     | Some i \<Rightarrow>
        (let finish = (\<lambda>host j k.
            if containsByte (drop j hostport) (CHR ''['') then addrErr hostport ''unexpected left bracket in address''
            else if containsByte (drop k hostport) (CHR '']'') then addrErr hostport ''unexpected right bracket in address''
            else Inr (host, drop (i + 1) hostport))
         in if hd hostport = CHR ''['' then
           (case indexByte hostport (CHR '']'') of
              None \<Rightarrow> addrErr hostport ''missing right bracket in address''
            | Some end \<Rightarrow>
                if end + 1 = length hostport then addrErr hostport ''missing port in address''
                else if end + 1 = i then finish (take (end - 1) (drop 1 hostport)) 1 (end + 1)
                else if hostport ! (end + 1) = CHR '':'' then addrErr hostport ''too many colons in address''
                else addrErr hostport ''missing port in address'')
           else if containsByte (take i hostport) (CHR '':'') then
             addrErr hostport ''too many colons in address''
           else finish (take i hostport) 0 0))"

lemma splitHostPort_plain:
  assumes "CHR '':'' \<notin> set host" "CHR ''['' \<notin> set host" "CHR '']'' \<notin> set host"
    "CHR '':'' \<notin> set port" "CHR ''['' \<notin> set port" "CHR '']'' \<notin> set port"
  shows "splitHostPort (host @ '':'' @ port) = Inr (host, port)"
proof -
  have "hd (host @ '':'' @ port) \<noteq> CHR ''[''" using assms(2) by (cases host) auto
  then show ?thesis
    using assms lastIndexByte_append [of "CHR '':''" port host]
    by (simp add: splitHostPort_def containsByte_def)
qed

lemma splitHostPort_no_colon: "CHR '':'' \<notin> set s \<Longrightarrow> \<exists>e. splitHostPort s = Inl e"
proof -
  assume "CHR '':'' \<notin> set s"
  then have "lastIndexByte s (CHR '':'') = None" by (simp add: lastIndexByte_def indexByte_None_iff)
  then show ?thesis by (simp add: splitHostPort_def addrErr_def)
qed

end
