(* ===== verification/Block_State.thy ===== *)
theory Block_State
  imports World Packet_Id Go_Net
begin

text \<open>
  Block-state translation (\<open>protocol/blockstate/blockstate.go\<close>): the default state id of a
  block name in a protocol's table. The generated tables are the parameter \<open>blocks\<close>.
\<close>

type_synonym blockTable = "int \<Rightarrow> (string \<Rightarrow> nat option) option"

fun block_aliasProtocol :: "int \<Rightarrow> int option" where
  "block_aliasProtocol protocol = (if protocol = 775 then Some 774 else None)"

definition block_lookup :: "blockTable \<Rightarrow> int \<Rightarrow> (string \<Rightarrow> nat option) option" where
  "block_lookup blocks protocol =
    (case blocks protocol of
       Some t \<Rightarrow> Some t
     | None \<Rightarrow> (case block_aliasProtocol protocol of None \<Rightarrow> None | Some q \<Rightarrow> blocks q))"

definition defaultState :: "blockTable \<Rightarrow> int \<Rightarrow> blockState \<Rightarrow> nat option" where
  "defaultState blocks protocol state =
    (case block_lookup blocks protocol of
       None \<Rightarrow> None
     | Some t \<Rightarrow> t (trimPrefix (bs_Name state) ''minecraft:''))"

interpretation blockstates: aliased blocks block_aliasProtocol "block_lookup blocks" for blocks
  by unfold_locales (simp_all add: block_lookup_def del: block_aliasProtocol.simps)

definition blockStateForProtocol :: "blockTable \<Rightarrow> int \<Rightarrow> blockState list \<Rightarrow> nat \<Rightarrow> nat" where
  "blockStateForProtocol blocks protocol palette paletteID =
    (if length palette \<le> paletteID then 0
     else (case defaultState blocks protocol (palette ! paletteID) of None \<Rightarrow> 0 | Some s \<Rightarrow> s))"

lemma defaultState_775:
  "blocks 775 = None \<Longrightarrow> blocks 774 \<noteq> None \<Longrightarrow> defaultState blocks 775 b = defaultState blocks 774 b"
  using blockstates.find_shared [of blocks 775 774] by (simp add: defaultState_def)

lemma blockStateForProtocol_outside: "length palette \<le> i \<Longrightarrow> blockStateForProtocol blocks p palette i = 0"
  by (simp add: blockStateForProtocol_def)

end
