(* ===== verification/Env.thy ===== *)
theory Env
  imports Json_Nbt Block_State
begin

text \<open>
  What the protocol adapters get from outside the modelled code, in one record: the generated
  tables, the component codec, the JSON decoder, UUID parsing and printing, hash functions, the
  choice a map iteration makes; and the component serialisation built on it
  (\<open>text.go\<close>, \<open>marshalComponentJSON\<close>, \<open>writeUUID\<close>).
\<close>

section \<open>The parameters\<close>

record codecFlags =
  cf_UseLegacyFieldNames :: bool
  cf_UseLegacyClickEventStructure :: bool
  cf_UseLegacyHoverEventStructure :: bool
  cf_EmitChangePageClickEventPageAsString :: bool
  cf_EmitCompactTextComponent :: bool
  cf_EmitHoverShowEntityIdAsIntArray :: bool
  cf_EmitHoverShowEntityKeyAsTypeAndUuidAsId :: bool
  cf_EmitDefaultItemHoverQuantity :: bool
  cf_NoDownsampleColor :: bool
  cf_StdJson :: bool

text \<open>
  What the code hands to \<open>json.Marshal\<close>: maps (encoded with sorted keys) and structs as
  associations, \<open>json.RawMessage\<close>, nil, floats, the components a dialog wraps, and values of a caller's
  \<open>map[string]any\<close>.
\<close>

datatype jval =
    VStr string
  | VInt int
  | VBool bool
  | VRaw "byte list"
  | VNull
  | VFloat f64
  | VComponent component
  | VArr "jval list"
  | VObj "(string \<times> jval) list"
  | VAny nat

record env =
  ev_packets :: packetTable
  ev_blocks :: blockTable
  ev_marshal :: "codecFlags \<Rightarrow> component \<Rightarrow> byte list result"
  ev_jsonDecode :: "byte list \<Rightarrow> json result"
  ev_jsonMarshal :: "jval \<Rightarrow> byte list result"
  ev_uuidString :: "byte list \<Rightarrow> string"
  ev_uuidParse :: "string \<Rightarrow> byte list result"
  ev_sha1 :: "byte list \<Rightarrow> byte list"
  ev_md5 :: "byte list \<Rightarrow> byte list"
  ev_pick :: "string list \<Rightarrow> string"

section \<open>Component JSON\<close>

definition emptyText :: component where "emptyText = TextC ''''"

definition or_empty :: "component option \<Rightarrow> component" where
  "or_empty m = (case m of None \<Rightarrow> emptyText | Some c \<Rightarrow> c)"

text \<open>\<open>limbgo.MarshalComponentJSON\<close> (text.go).\<close>

definition text_flags :: "int \<Rightarrow> codecFlags" where
  "text_flags protocol =
    \<lparr>cf_UseLegacyFieldNames = protocol < 770,
     cf_UseLegacyClickEventStructure = protocol < 770,
     cf_UseLegacyHoverEventStructure = protocol < 770,
     cf_EmitChangePageClickEventPageAsString = protocol < 771,
     cf_EmitCompactTextComponent = False,
     cf_EmitHoverShowEntityIdAsIntArray = 764 \<le> protocol,
     cf_EmitHoverShowEntityKeyAsTypeAndUuidAsId = protocol < 770,
     cf_EmitDefaultItemHoverQuantity = 766 \<le> protocol,
     cf_NoDownsampleColor = True,
     cf_StdJson = True\<rparr>"

definition limbgo_MarshalComponentJSON :: "env \<Rightarrow> int \<Rightarrow> component option \<Rightarrow> byte list result" where
  "limbgo_MarshalComponentJSON E protocol message = ev_marshal E (text_flags protocol) (or_empty message)"

text \<open>\<open>marshalComponentJSON\<close> (play_events.go): the same flags without the change-page one.\<close>

definition play_flags :: "int \<Rightarrow> codecFlags" where
  "play_flags protocol =
    \<lparr>cf_UseLegacyFieldNames = protocol < 770,
     cf_UseLegacyClickEventStructure = protocol < 770,
     cf_UseLegacyHoverEventStructure = protocol < 770,
     cf_EmitChangePageClickEventPageAsString = False,
     cf_EmitCompactTextComponent = False,
     cf_EmitHoverShowEntityIdAsIntArray = 764 \<le> protocol,
     cf_EmitHoverShowEntityKeyAsTypeAndUuidAsId = protocol < 770,
     cf_EmitDefaultItemHoverQuantity = 766 \<le> protocol,
     cf_NoDownsampleColor = True,
     cf_StdJson = True\<rparr>"

definition marshalComponentJSON :: "env \<Rightarrow> int \<Rightarrow> component \<Rightarrow> byte list result" where
  "marshalComponentJSON E protocol message = ev_marshal E (play_flags protocol) message"

text \<open>The two serialisations agree from protocol 771 on.\<close>

lemma play_flags_text: "play_flags p = text_flags p \<longleftrightarrow> 771 \<le> p"
  by (auto simp: play_flags_def text_flags_def)

section \<open>Hexadecimal and UUIDs\<close>

definition hexVal :: "char \<Rightarrow> nat option" where
  "hexVal c = (let n = of_char c :: nat in
     if 48 \<le> n \<and> n \<le> 57 then Some (n - 48)
     else if 97 \<le> n \<and> n \<le> 102 then Some (n - 87)
     else if 65 \<le> n \<and> n \<le> 70 then Some (n - 55)
     else None)"

definition hexDigit :: "nat \<Rightarrow> char" where
  "hexDigit v = char_of (if v < 10 then v + 48 else v + 87)"

text \<open>\<open>hex.DecodeString\<close> and the \<open>%x\<close> verb on bytes.\<close>

fun hexDecode :: "string \<Rightarrow> byte list result" where
  "hexDecode [] = Inr []"
| "hexDecode [c] = (case hexVal c of None \<Rightarrow> Inl (Errorf ''encoding/hex: invalid byte'' [])
     | Some _ \<Rightarrow> Inl (Errorf ''encoding/hex: odd length hex string'' []))"
| "hexDecode (a # b # r) = (case (hexVal a, hexVal b) of
       (Some x, Some y) \<Rightarrow> bindR (hexDecode r) (\<lambda>bs. Inr (word_of_nat (x * 16 + y) # bs))
     | _ \<Rightarrow> Inl (Errorf ''encoding/hex: invalid byte'' []))"

definition hexByte :: "byte \<Rightarrow> string" where
  "hexByte b = [hexDigit (unat b div 16), hexDigit (unat b mod 16)]"

definition hexString :: "byte list \<Rightarrow> string" where
  "hexString bs = concat (map hexByte bs)"

definition writeUUID :: "string \<Rightarrow> byte list result" where
  "writeUUID uuid = (case hexDecode (removeByte uuid (CHR ''-'')) of
      Inl e \<Rightarrow> Inl (Wrapf e ''decode uuid %q: %w'' [FS uuid])
    | Inr raw \<Rightarrow>
        if length raw \<noteq> 16 then Inl (Errorf ''uuid %q decoded to %d bytes'' [FS uuid, FD (int (length raw))])
        else Inr raw)"

text \<open>The dashed form of sixteen bytes, as \<open>OfflineUUID\<close> prints it.\<close>

definition dashed :: "byte list \<Rightarrow> string" where
  "dashed s = hexString (take 4 s) @ ''-'' @ hexString (take 2 (drop 4 s)) @ ''-'' @
     hexString (take 2 (drop 6 s)) @ ''-'' @ hexString (take 2 (drop 8 s)) @ ''-'' @
     hexString (take 6 (drop 10 s))"

lemma hexVal_hexDigit: "v < 16 \<Longrightarrow> hexVal (hexDigit v) = Some v"
  unfolding hexVal_def hexDigit_def Let_def by auto

lemma hexDigit_no_dash: "v < 16 \<Longrightarrow> hexDigit v \<noteq> CHR ''-''"
  using hexVal_hexDigit [of v] by (auto simp: hexVal_def)

lemma unat_less_8: "unat b < 256" for b :: byte
  using unsigned_less [of b] by simp

lemma byte_nibbles: "unat b div 16 < 16" "unat b mod 16 < 16"
  "(word_of_nat (unat b div 16 * 16 + unat b mod 16) :: byte) = b" for b :: byte
  using unat_less_8 [of b] by simp_all

lemma hexDecode_hexString: "hexDecode (hexString bs @ s) = bindR (hexDecode s) (\<lambda>r. Inr (bs @ r))"
proof (induction bs)
  case Nil
  show ?case by (cases "hexDecode s") (simp_all add: hexString_def)
next
  case (Cons b bs)
  then show ?case
    by (cases "hexDecode s") (simp_all add: hexString_def hexByte_def hexVal_hexDigit byte_nibbles)
qed

lemma hexDecode_hexString_Nil [simp]: "hexDecode (hexString bs) = Inr bs"
  using hexDecode_hexString [of bs "[]"] by simp

lemma removeByte_hexString: "removeByte (hexString bs) (CHR ''-'') = hexString bs"
  by (induction bs) (simp_all add: removeByte_def hexString_def hexByte_def hexDigit_no_dash byte_nibbles)

lemma hexString_append: "hexString xs @ hexString ys = hexString (xs @ ys)"
  by (simp add: hexString_def)

lemma removeByte_append: "removeByte (a @ b) c = removeByte a c @ removeByte b c"
  by (simp add: removeByte_def)

lemma split_16: "length s = 16 \<Longrightarrow>
  take 4 s @ take 2 (drop 4 s) @ take 2 (drop 6 s) @ take 2 (drop 8 s) @ take 6 (drop 10 s) = s"
  by (auto simp: numeral_eq_Suc length_Suc_conv)

lemma removeByte_Cons_same: "removeByte (c # s) c = removeByte s c"
  by (simp add: removeByte_def)

lemma removeByte_dashed: "length s = 16 \<Longrightarrow> removeByte (dashed s) (CHR ''-'') = hexString s"
  unfolding dashed_def
  by (simp only: removeByte_append removeByte_Cons_same append.simps removeByte_hexString
      hexString_append split_16)

lemma writeUUID_dashed: "length s = 16 \<Longrightarrow> writeUUID (dashed s) = Inr s"
  by (simp add: writeUUID_def removeByte_dashed)

end
