(* ===== verification/Player.thy ===== *)
theory Player
  imports Env
begin

text \<open>
  Player identities (\<open>types.go\<close>, \<open>session_auth.go\<close> of the root package): login requests and
  modes, the offline UUID, the players built for offline and verified logins, and the
  sessionserver verifier with its HTTP exchange as a parameter.
\<close>

section \<open>Types\<close>

definition LoginModeOffline :: string where "LoginModeOffline = ''offline''"
definition LoginModeOnline :: string where "LoginModeOnline = ''online''"
definition LoginModeHybrid :: string where "LoginModeHybrid = ''hybrid''"

lemmas login_modes = LoginModeOffline_def LoginModeOnline_def LoginModeHybrid_def

definition AuthSourceOffline :: string where "AuthSourceOffline = ''offline''"
definition AuthSourceMojang :: string where "AuthSourceMojang = ''mojang''"
definition AuthSourceCustomYggdrasil :: string where "AuthSourceCustomYggdrasil = ''custom-yggdrasil''"
definition DefaultYggdrasilSessionServer :: string where
  "DefaultYggdrasilSessionServer = ''https://sessionserver.mojang.com''"

record profileProperty =
  pp_Name :: string
  pp_Value :: string
  pp_Signature :: string

record loginRequest =
  lr_Username :: string
  lr_ClaimedUUID :: string
  lr_ProtocolVersion :: int
  lr_RemoteAddr :: net_addr
  lr_RequestedHost :: string

record loginProfile =
  lp_Name :: string
  lp_UUID :: string
  lp_Properties :: "profileProperty list"

record loginDecision =
  ld_Mode :: string
  ld_Profile :: "loginProfile option"

record sessionProof =
  pf_Username :: string
  pf_ServerID :: string
  pf_RemoteIP :: string
  pf_ProtocolVersion :: int
  pf_RequestedHost :: string

record verifiedProfile =
  vf_UUID :: string
  vf_Name :: string
  vf_Properties :: "profileProperty list"
  vf_Source :: string
  vf_Verified :: bool

record player =
  pl_Name :: string
  pl_UUID :: string
  pl_ProtocolVersion :: int
  pl_RemoteAddr :: net_addr
  pl_RequestedHost :: string
  pl_LoginMode :: string
  pl_AuthSource :: string
  pl_Verified :: bool
  pl_Properties :: "string \<rightharpoonup> string"
  pl_ProfileProperties :: "profileProperty list"

section \<open>Identities\<close>

text \<open>The version and variant bits of a name-based UUID: bytes 6 and 8.\<close>

definition stamp_uuid :: "byte \<Rightarrow> byte list \<Rightarrow> byte list" where
  "stamp_uuid version sum0 =
    (let sum1 = sum0[6 := (sum0 ! 6 AND 0x0f) OR version] in sum1[8 := (sum1 ! 8 AND 0x3f) OR 0x80])"

definition OfflineUUID :: "(byte list \<Rightarrow> byte list) \<Rightarrow> string \<Rightarrow> string" where
  "OfflineUUID md5 username = dashed (stamp_uuid 0x30 (md5 (bytes_of (''OfflinePlayer:'' @ username))))"

text \<open>A later property with the same name overwrites an earlier one.\<close>

definition profilePropertiesMap :: "profileProperty list \<Rightarrow> (string \<rightharpoonup> string)" where
  "profilePropertiesMap properties = foldl (\<lambda>out p. out(pp_Name p \<mapsto> pp_Value p)) Map.empty properties"

definition OfflineLoginPlayer :: "(byte list \<Rightarrow> byte list) \<Rightarrow> loginRequest \<Rightarrow> player" where
  "OfflineLoginPlayer md5 req =
    \<lparr>pl_Name = lr_Username req, pl_UUID = OfflineUUID md5 (lr_Username req),
     pl_ProtocolVersion = lr_ProtocolVersion req, pl_RemoteAddr = lr_RemoteAddr req,
     pl_RequestedHost = lr_RequestedHost req, pl_LoginMode = LoginModeOffline,
     pl_AuthSource = AuthSourceOffline, pl_Verified = False, pl_Properties = Map.empty,
     pl_ProfileProperties = []\<rparr>"

definition OfflineLoginPlayerWithProfile ::
  "(byte list \<Rightarrow> byte list) \<Rightarrow> loginRequest \<Rightarrow> loginProfile \<Rightarrow> player" where
  "OfflineLoginPlayerWithProfile md5 req profile =
    (let nm = (if lp_Name profile = '''' then lr_Username req else lp_Name profile);
         uuid = (if lp_UUID profile = '''' then OfflineUUID md5 nm else lp_UUID profile);
         properties = lp_Properties profile
     in \<lparr>pl_Name = nm, pl_UUID = uuid,
         pl_ProtocolVersion = lr_ProtocolVersion req, pl_RemoteAddr = lr_RemoteAddr req,
         pl_RequestedHost = lr_RequestedHost req, pl_LoginMode = LoginModeOffline,
         pl_AuthSource = AuthSourceOffline, pl_Verified = False,
         pl_Properties = profilePropertiesMap properties, pl_ProfileProperties = properties\<rparr>)"

definition VerifiedLoginPlayer :: "loginRequest \<Rightarrow> verifiedProfile \<Rightarrow> player" where
  "VerifiedLoginPlayer req profile =
    \<lparr>pl_Name = vf_Name profile, pl_UUID = vf_UUID profile,
     pl_ProtocolVersion = lr_ProtocolVersion req, pl_RemoteAddr = lr_RemoteAddr req,
     pl_RequestedHost = lr_RequestedHost req, pl_LoginMode = LoginModeOnline,
     pl_AuthSource = vf_Source profile, pl_Verified = vf_Verified profile,
     pl_Properties = profilePropertiesMap (vf_Properties profile),
     pl_ProfileProperties = vf_Properties profile\<rparr>"

definition formatUndashedUUID :: "string \<Rightarrow> string" where
  "formatUndashedUUID value =
    (let clean = removeByte (toLower value) (CHR ''-'') in
     if length clean \<noteq> 32 then value
     else take 8 clean @ ''-'' @ take 4 (drop 8 clean) @ ''-'' @ take 4 (drop 12 clean) @ ''-'' @
       take 4 (drop 16 clean) @ ''-'' @ take 12 (drop 20 clean))"

section \<open>The sessionserver verifier\<close>

record yggdrasilVerifier =
  yv_baseURL :: string
  yv_source :: string

definition NewYggdrasilVerifier :: "string \<Rightarrow> yggdrasilVerifier" where
  "NewYggdrasilVerifier cfgBaseURL =
    (let baseURL = trimRightByte cfgBaseURL (CHR ''/'') in
     if baseURL = '''' then \<lparr>yv_baseURL = DefaultYggdrasilSessionServer, yv_source = AuthSourceMojang\<rparr>
     else \<lparr>yv_baseURL = baseURL, yv_source = AuthSourceCustomYggdrasil\<rparr>)"

record hasJoinedResponse =
  hj_ID :: string
  hj_Name :: string
  hj_Properties :: "profileProperty list"

record httpResponse =
  ht_StatusCode :: int
  ht_Body :: "hasJoinedResponse result"

text \<open>
  The request is the endpoint and its query parameters; \<open>exchange\<close> parses the URL, performs the
  request and decodes the body.
\<close>

definition VerifySession :: "(string \<Rightarrow> (string \<times> string) list \<Rightarrow> httpResponse result) \<Rightarrow>
    yggdrasilVerifier \<Rightarrow> sessionProof \<Rightarrow> verifiedProfile result" where
  "VerifySession exchange v proof =
    bindR (exchange (yv_baseURL v @ ''/session/minecraft/hasJoined'')
        ([(''username'', pf_Username proof), (''serverId'', pf_ServerID proof)] @
         (if pf_RemoteIP proof \<noteq> '''' then [(''ip'', pf_RemoteIP proof)] else [])))
      (\<lambda>res.
        if ht_StatusCode res = 204 \<or> ht_StatusCode res = 404 then
          Inl (Wrapf ErrInvalidLogin ''%w: session not joined'' [])
        else if ht_StatusCode res < 200 \<or> 300 \<le> ht_StatusCode res then
          Inl (Wrapf ErrSessionUnavailable ''%w: sessionserver status %d'' [FD (ht_StatusCode res)])
        else bindR (ht_Body res) (\<lambda>payload.
          let profile = \<lparr>vf_UUID = formatUndashedUUID (hj_ID payload), vf_Name = hj_Name payload,
                vf_Properties = hj_Properties payload, vf_Source = yv_source v, vf_Verified = True\<rparr>
          in if vf_UUID profile = '''' \<or> vf_Name profile = '''' then
               Inl (Wrapf ErrInvalidLogin ''%w: incomplete sessionserver profile'' [])
             else Inr profile))"

section \<open>Facts\<close>

lemma length_stamp_uuid [simp]: "length (stamp_uuid v s) = length s"
  by (simp add: stamp_uuid_def Let_def)

lemma and_0f_3f:
  "(b AND 0x0f) OR 0x30 = or (take_bit 4 b) 0x30" "(b AND 0x3f) OR 0x80 = or (take_bit 6 b) 0x80"
  for b :: byte
  by (simp_all add: take_bit_eq_mask mask_eq_exp_minus_1)

text \<open>
  The offline UUID is a version 3 UUID of the RFC variant, whatever the sixteen bytes of the
  digest are, and the join packets can write it.
\<close>

lemma drop_bit_version: "drop_bit 4 ((b AND 0x0f) OR 0x30) = (3 :: byte)"
  "drop_bit 6 ((b AND 0x3f) OR 0x80) = (2 :: byte)" for b :: byte
proof -
  have d: "drop_bit 4 (0x30 :: byte) = 3" "drop_bit 6 (0x80 :: byte) = 2" by code_simp+
  have "drop_bit 4 (take_bit 4 b) = 0" "drop_bit 6 (take_bit 6 b) = 0"
    by (auto intro!: bit_word_eqI simp: bit_drop_bit_eq bit_take_bit_iff)
  then show "drop_bit 4 ((b AND 0x0f) OR 0x30) = (3 :: byte)"
    "drop_bit 6 ((b AND 0x3f) OR 0x80) = (2 :: byte)"
    unfolding and_0f_3f by (simp_all add: d)
qed

lemma OfflineUUID_writes:
  assumes "length (md5 (bytes_of (''OfflinePlayer:'' @ username))) = 16"
  shows "writeUUID (OfflineUUID md5 username)
    = Inr (stamp_uuid 0x30 (md5 (bytes_of (''OfflinePlayer:'' @ username))))"
  using assms by (simp add: OfflineUUID_def writeUUID_dashed)

lemma stamp_uuid_bits:
  assumes "length s = 16"
  shows "drop_bit 4 (stamp_uuid 0x30 s ! 6) = 3 \<and> drop_bit 6 (stamp_uuid v s ! 8) = 2
    \<and> (\<forall>i < 16. i \<noteq> 6 \<longrightarrow> i \<noteq> 8 \<longrightarrow> stamp_uuid v s ! i = s ! i)"
  using assms by (simp add: stamp_uuid_def Let_def drop_bit_version)

lemma profilePropertiesMap_last:
  "profilePropertiesMap ps n = map_option pp_Value (List.find (\<lambda>p. pp_Name p = n) (rev ps))"
proof -
  have "foldl (\<lambda>out p. out(pp_Name p \<mapsto> pp_Value p)) m ps n
    = (case List.find (\<lambda>p. pp_Name p = n) (rev ps) of None \<Rightarrow> m n | Some p \<Rightarrow> Some (pp_Value p))" for m
  proof (induction ps rule: rev_induct)
    case Nil
    then show ?case by simp
  next
    case (snoc p ps)
    then show ?case by simp
  qed
  then show ?thesis by (simp add: profilePropertiesMap_def split: option.split)
qed

text \<open>A verifier only vouches for complete profiles, and names its own source.\<close>

lemma VerifySession_sound:
  "VerifySession exchange v proof = Inr profile \<Longrightarrow>
    vf_Verified profile \<and> vf_UUID profile \<noteq> '''' \<and> vf_Name profile \<noteq> '''' \<and> vf_Source profile = yv_source v"
  by (auto simp: VerifySession_def result_simps Let_def split: if_splits)

lemma NewYggdrasilVerifier_source:
  "yv_source (NewYggdrasilVerifier u) = AuthSourceMojang \<longleftrightarrow> (\<forall>c \<in> set u. c = CHR ''/'')"
  by (auto simp: NewYggdrasilVerifier_def Let_def trimRightByte_def AuthSourceMojang_def
      AuthSourceCustomYggdrasil_def)

lemma VerifySession_Inr:
  "VerifySession exchange v prf = Inr profile \<Longrightarrow> \<exists>res payload.
     exchange (yv_baseURL v @ ''/session/minecraft/hasJoined'')
        ([(''username'', pf_Username prf), (''serverId'', pf_ServerID prf)] @
         (if pf_RemoteIP prf \<noteq> '''' then [(''ip'', pf_RemoteIP prf)] else [])) = Inr res
    \<and> 200 \<le> ht_StatusCode res \<and> ht_StatusCode res < 300 \<and> ht_StatusCode res \<noteq> 204
    \<and> ht_Body res = Inr payload \<and> vf_Name profile = hj_Name payload \<and> vf_Name profile \<noteq> ''''
    \<and> vf_UUID profile \<noteq> '''' \<and> vf_Verified profile \<and> vf_Source profile = yv_source v"
  unfolding VerifySession_def bindR_Inr_conv by (auto simp: Let_def bindR_Inr_conv split: if_splits)

end
