(* ===== verification/Cfb8.thy ===== *)
theory Cfb8
  imports Prelude
begin

text \<open>
  The CFB8 stream cipher of \<open>protocol/limbo/session_auth.go\<close>. The block cipher (AES) is the
  field \<open>cf_block\<close>: everything here holds for any block function. \<open>stream_cipher\<close> is the
  contract an encrypted connection relies on.
\<close>

section \<open>The interface\<close>

locale stream_cipher =
  fixes encr :: "'e \<Rightarrow> byte list \<Rightarrow> byte list \<times> 'e"
    and decr :: "'d \<Rightarrow> byte list \<Rightarrow> byte list \<times> 'd"
    and sync :: "'e \<Rightarrow> 'd \<Rightarrow> bool"
  assumes decr_encr: "sync e d \<Longrightarrow> encr e p = (c, e') \<Longrightarrow>
      fst (decr d c) = p \<and> sync e' (snd (decr d c))"
    and decr_Nil: "decr d [] = ([], d)"
    and decr_append: "decr d (c1 @ c2) =
      (fst (decr d c1) @ fst (decr (snd (decr d c1)) c2), snd (decr (snd (decr d c1)) c2))"
begin

text \<open>Messages written one after the other are read back in order, however they are cut.\<close>

fun encr_all :: "'e \<Rightarrow> byte list list \<Rightarrow> byte list list" where
  "encr_all e [] = []"
| "encr_all e (p # ps) = (case encr e p of (c, e') \<Rightarrow> c # encr_all e' ps)"

lemma decr_encr_all: "sync e d \<Longrightarrow> fst (decr d (concat (encr_all e ps))) = concat ps"
proof (induction ps arbitrary: e d)
  case Nil
  then show ?case by (simp add: decr_Nil)
next
  case (Cons p ps)
  obtain c e' where c: "encr e p = (c, e')" by (cases "encr e p")
  from decr_encr [OF Cons.prems c] Cons.IH [of e' "snd (decr d c)"]
  show ?case by (simp add: c decr_append [of d c])
qed

end

section \<open>CFB8 (session_auth.go)\<close>

record cfb8 =
  cf_block :: "byte list \<Rightarrow> byte list"
  cf_iv :: "byte list"
  cf_encrypt :: bool

definition newCFB8 :: "(byte list \<Rightarrow> byte list) \<Rightarrow> byte list \<Rightarrow> bool \<Rightarrow> cfb8" where
  "newCFB8 block iv encrypt = \<lparr>cf_block = block, cf_iv = iv, cf_encrypt = encrypt\<rparr>"

text \<open>One byte: encrypt the register, mix, shift the ciphertext byte in.\<close>

definition cfb8_byte :: "cfb8 \<Rightarrow> byte \<Rightarrow> byte \<times> cfb8" where
  "cfb8_byte s value =
    (let out = value XOR hd (cf_block s (cf_iv s))
     in (out, s\<lparr>cf_iv := tl (cf_iv s) @ [if cf_encrypt s then out else value]\<rparr>))"

fun xorKeyStream :: "cfb8 \<Rightarrow> byte list \<Rightarrow> byte list \<times> cfb8" where
  "xorKeyStream s [] = ([], s)"
| "xorKeyStream s (v # vs) =
     (let (out, s1) = cfb8_byte s v; (outs, s2) = xorKeyStream s1 vs in (out # outs, s2))"

text \<open>The two ends agree: same block function, same register, opposite directions.\<close>

definition cfb8_sync :: "cfb8 \<Rightarrow> cfb8 \<Rightarrow> bool" where
  "cfb8_sync e d \<longleftrightarrow> cf_block e = cf_block d \<and> cf_iv e = cf_iv d \<and> cf_encrypt e \<and> \<not> cf_encrypt d"

lemma cfb8_sync_new: "cfb8_sync (newCFB8 b iv True) (newCFB8 b iv False)"
  by (simp add: cfb8_sync_def newCFB8_def)

lemma xorKeyStream_append:
  "xorKeyStream s (xs @ ys) =
    (fst (xorKeyStream s xs) @ fst (xorKeyStream (snd (xorKeyStream s xs)) ys),
     snd (xorKeyStream (snd (xorKeyStream s xs)) ys))"
  by (induction xs arbitrary: s) (simp_all add: Let_def case_prod_unfold)

lemma length_xorKeyStream [simp]: "length (fst (xorKeyStream s xs)) = length xs"
  by (induction xs arbitrary: s) (simp_all add: Let_def case_prod_unfold)

lemma xorKeyStream_sync:
  "cfb8_sync e d \<Longrightarrow>
    fst (xorKeyStream d (fst (xorKeyStream e p))) = p \<and>
    cfb8_sync (snd (xorKeyStream e p)) (snd (xorKeyStream d (fst (xorKeyStream e p))))"
proof (induction p arbitrary: e d)
  case Nil
  then show ?case by simp
next
  case (Cons v vs)
  have "cfb8_sync (snd (cfb8_byte e v)) (snd (cfb8_byte d (fst (cfb8_byte e v))))"
    and "fst (cfb8_byte d (fst (cfb8_byte e v))) = v"
    using Cons.prems by (simp_all add: cfb8_sync_def cfb8_byte_def Let_def xor.assoc)
  with Cons.IH [of "snd (cfb8_byte e v)" "snd (cfb8_byte d (fst (cfb8_byte e v)))"]
  show ?case by (simp add: Let_def case_prod_unfold)
qed

interpretation cfb8: stream_cipher xorKeyStream xorKeyStream cfb8_sync
proof
  fix e d p c e'
  assume "cfb8_sync e d" "xorKeyStream e p = (c, e')"
  then show "fst (xorKeyStream d c) = p \<and> cfb8_sync e' (snd (xorKeyStream d c))"
    using xorKeyStream_sync [of e d p] by simp
qed (simp, rule xorKeyStream_append)

section \<open>The bytes on the wire\<close>

lemma encr_all_concat: "concat (cfb8.encr_all k ps) = fst (xorKeyStream k (concat ps))"
  by (induction ps arbitrary: k) (auto simp: xorKeyStream_append split: prod.split)

text \<open>
  The mode as it is standardised: a ciphertext byte is the plaintext byte mixed with the first byte of the
  encrypted register, and the register holds the last bytes of the IV and the ciphertext so far.
\<close>

lemma cfb8_nth:
  assumes "cf_encrypt k" "cf_iv k \<noteq> []" "i < length ps"
  shows "fst (xorKeyStream k ps) ! i
    = ps ! i XOR hd (cf_block k (take (length (cf_iv k)) (drop i (cf_iv k @ fst (xorKeyStream k ps)))))"
  using assms
proof (induction ps arbitrary: k i)
  case (Cons p ps)
  let ?c = "p XOR hd (cf_block k (cf_iv k))"
  let ?k = "k\<lparr>cf_iv := tl (cf_iv k) @ [?c]\<rparr>"
  have x: "fst (xorKeyStream k (p # ps)) = ?c # fst (xorKeyStream ?k ps)"
    using Cons.prems by (simp add: cfb8_byte_def Let_def case_prod_unfold)
  show ?case
  proof (cases i)
    case (Suc j)
    have "drop i (cf_iv k @ ?c # cs) = drop j (cf_iv ?k @ cs)" "length (cf_iv ?k) = length (cf_iv k)" for cs
      using Cons.prems(2) Suc by (cases "cf_iv k"; simp)+
    then show ?thesis using Cons.IH [of ?k j] Cons.prems Suc x by simp
  qed (simp del: xorKeyStream.simps add: x)
qed simp

end
