(* ===== verification/Net_IO.thy ===== *)
theory Net_IO
  imports Wire Cfb8
begin

text \<open>
  A client connection: the reader in use (its \<open>bufio\<close> buffer and the segments the peer still
  sends), the buffers handed to \<open>Write\<close> so far, a script of how the coming writes end, and the
  write side of an encrypted connection. Actions on it are \<open>(conn, 'a) act\<close>.
\<close>

record conn =
  c_reader :: stream
  c_out :: "byte list list"
  c_script :: "(nat \<times> go_error) option list"
  c_closed :: bool
  c_enc :: "cfb8 option"

text \<open>
  \<open>Write\<close>: on a closed connection it fails; otherwise the script says whether it succeeds
  (\<open>None\<close>, and for every write past its end) or fails after some bytes. An encrypted
  connection (\<open>encryptedConn.Write\<close>) passes the bytes through its cipher first.
\<close>

definition connWrite :: "byte list \<Rightarrow> (conn, unit) act" where
  "connWrite p c =
    (let (out, enc') = (case c_enc c of
           None \<Rightarrow> (p, None)
         | Some k \<Rightarrow> (case xorKeyStream k p of (q, k') \<Rightarrow> (q, Some k')));
         c1 = c\<lparr>c_enc := enc'\<rparr>
     in if c_closed c then (Inl NetErrClosed, c1)
        else (case c_script c of
            [] \<Rightarrow> (Inr (), c1\<lparr>c_out := c_out c @ [out]\<rparr>)
          | None # sc \<Rightarrow> (Inr (), c1\<lparr>c_out := c_out c @ [out], c_script := sc\<rparr>)
          | Some (n, e) # sc \<Rightarrow> (Inl e, c1\<lparr>c_out := c_out c @ [take n out], c_script := sc\<rparr>)))"

definition connClose :: "conn \<Rightarrow> conn" where
  "connClose c = c\<lparr>c_closed := True, c_reader := Stream (sbuf (c_reader c)) [] NetErrClosed\<rparr>"

text \<open>\<open>bufio.NewReader(conn)\<close>: what the previous reader had buffered is not seen again.\<close>

definition newBufReader :: "(conn, unit) act" where
  "newBufReader c =
    (Inr (), c\<lparr>c_reader := Stream [] (ssegs (c_reader c)) (serr (c_reader c))\<rparr>)"

definition connReadPacket :: "(conn, packet) act" where
  "connReadPacket c = (case readPacket (c_reader c) 0 of
      Inl e \<Rightarrow> (Inl e, c)
    | Inr (p, r) \<Rightarrow> (Inr p, c\<lparr>c_reader := r\<rparr>))"

definition writePacket :: "packet \<Rightarrow> (conn, unit) act" where
  "writePacket p = connWrite (packetFrame p)"

abbreviation mk_packet :: "int \<Rightarrow> byte list \<Rightarrow> packet" where
  "mk_packet i d \<equiv> \<lparr>pkt_id = i, pkt_data = d\<rparr>"

text \<open>An open, unencrypted connection whose writes succeed.\<close>

definition live :: "conn \<Rightarrow> bool" where
  "live c \<longleftrightarrow> \<not> c_closed c \<and> c_script c = [] \<and> c_enc c = None"

definition put_out :: "byte list list \<Rightarrow> conn \<Rightarrow> conn" where
  "put_out bs c = c\<lparr>c_out := c_out c @ bs\<rparr>"

lemma put_out_simps [simp]:
  "put_out [] c = c" "put_out ys (put_out xs c) = put_out (xs @ ys) c"
  "c_reader (put_out xs c) = c_reader c" "c_out (put_out xs c) = c_out c @ xs"
  "live (put_out xs c) = live c"
  by (simp_all add: put_out_def live_def)

lemma connWrite_live: "live c \<Longrightarrow> connWrite p c = (Inr (), put_out [p] c)"
  by (cases c) (simp add: live_def connWrite_def put_out_def)

lemma writePacket_live: "live c \<Longrightarrow> writePacket p c = (Inr (), put_out [packetFrame p] c)"
  by (simp add: writePacket_def connWrite_live)

text \<open>A write never touches the reader; a failed write leaves the error of the script.\<close>

lemma connWrite_reader: "c_reader (snd (connWrite p c)) = c_reader c"
  by (auto simp: connWrite_def Let_def case_prod_unfold split: list.splits option.splits)

lemma connWrite_closed: "c_closed c \<Longrightarrow> fst (connWrite p c) = Inl NetErrClosed \<and>
    c_out (snd (connWrite p c)) = c_out c"
  by (simp add: connWrite_def Let_def case_prod_unfold)

lemma connWrite_extends: "\<exists>xs. c_out (snd (connWrite p c)) = c_out c @ xs"
  by (auto simp: connWrite_def Let_def case_prod_unfold split: list.splits option.splits)

lemma flat_newBufReader:
  "flat (c_reader (snd (newBufReader c))) = concat (ssegs (c_reader c))"
  by (simp add: newBufReader_def flat_def)

text \<open>
  A block of packet writes on a live connection puts exactly those frames on the wire. Each
  writer of the protocol adapters is shown to be \<open>sends\<close> its packets.
\<close>

definition sends :: "(conn, unit) act \<Rightarrow> packet list \<Rightarrow> bool" where
  "sends m ps \<longleftrightarrow> (\<forall>c. live c \<longrightarrow> m c = (Inr (), put_out (map packetFrame ps) c))"

named_theorems sends_intros \<open>what each packet writer sends\<close>

lemma sendsD: "sends m ps \<Longrightarrow> live c \<Longrightarrow> m c = (Inr (), put_out (map packetFrame ps) c)"
  by (simp add: sends_def)

lemma sends_writePacket [sends_intros]: "sends (writePacket p) [p]"
  by (simp add: sends_def writePacket_live)

lemma sends_retE [sends_intros]: "sends (retE ()) []"
  by (simp add: sends_def retE_def)

lemma sends_whenE [sends_intros]: "(b \<Longrightarrow> sends m ps) \<Longrightarrow> sends (whenE b m) (if b then ps else [])"
  by (simp add: whenE_def sends_retE)

lemma sends_seqE_Nil [sends_intros]: "sends (seqE []) []"
  by (simp add: sends_def)

lemma sends_seqE_Cons [sends_intros]:
  "sends m ps \<Longrightarrow> sends (seqE ms) qs \<Longrightarrow> sends (seqE (m # ms)) (ps @ qs)"
  by (simp add: sends_def)

lemma sends_bindE: "sends m ps \<Longrightarrow> sends (f ()) qs \<Longrightarrow> sends (bindE m f) (ps @ qs)"
  by (simp add: sends_def bindE_def)

text \<open>
  Whatever the connection does, a block of steps stops at the first failing one: the result is
  that step's error and no later step runs.
\<close>

lemma seqE_stops:
  "seqE ms c = (Inl e, c') \<Longrightarrow>
    \<exists>pre m post c1. ms = pre @ m # post \<and> seqE pre c = (Inr (), c1) \<and> m c1 = (Inl e, c')"
proof (induction ms arbitrary: c)
  case Nil
  then show ?case by simp
next
  case (Cons m ms)
  obtain r c1 where m: "m c = (r, c1)" by (cases "m c")
  show ?case
  proof (cases r)
    case (Inl e')
    with Cons.prems m have "ms = ms" "m c = (Inl e, c')" by simp_all
    then show ?thesis by (intro exI [of _ "[]"]) auto
  next
    case (Inr u)
    with Cons.prems m have "seqE ms c1 = (Inl e, c')" by simp
    from Cons.IH [OF this] obtain pre n post c2
      where "ms = pre @ n # post" "seqE pre c1 = (Inr (), c2)" "n c2 = (Inl e, c')" by blast
    with m Inr show ?thesis by (intro exI [of _ "m # pre"]) auto
  qed
qed

end
