(* ===== verification/Protocol_Config.thy ===== *)
theory Protocol_Config
  imports Go_Number "HOL-Library.AList"
begin

text \<open>
  The version switches of the protocol adapters: the tables of \<open>protocol_legacy.go\<close>,
  \<open>protocol_flat.go\<close> and \<open>protocol_codec.go\<close>, and the modern table that
  \<open>modern_config.go\<close> loads from \<open>modern_protocols.json\<close>.
\<close>

section \<open>Legacy, flat and codec protocols\<close>

definition protocol47 :: int where "protocol47 = 47"
definition protocol340 :: int where "protocol340 = 340"
definition protocol759 :: int where "protocol759 = 759"
definition protocol760 :: int where "protocol760 = 760"
definition protocol764 :: int where "protocol764 = 764"
definition protocol765 :: int where "protocol765 = 765"
definition protocol766 :: int where "protocol766 = 766"
definition protocol768 :: int where "protocol768 = 768"
definition protocol770 :: int where "protocol770 = 770"
definition protocol771 :: int where "protocol771 = 771"

lemmas protocol_numbers = protocol47_def protocol340_def protocol759_def protocol760_def
  protocol764_def protocol765_def protocol766_def protocol768_def protocol770_def protocol771_def

record legacyProtocolConfig =
  lc_protocol :: int
  lc_loginDimensionInt :: bool
  lc_chunkBlockEntities :: bool

definition legacyProtocolConfigFor :: "int \<Rightarrow> legacyProtocolConfig option" where
  "legacyProtocolConfigFor protocol =
    (if protocol = 107 then
       Some \<lparr>lc_protocol = protocol, lc_loginDimensionInt = False, lc_chunkBlockEntities = False\<rparr>
     else if protocol \<in> {109, 110, 210, 315, 316, 335, 338} then
       Some \<lparr>lc_protocol = protocol, lc_loginDimensionInt = True, lc_chunkBlockEntities = True\<rparr>
     else None)"

record flatProtocolConfig =
  fc_protocol :: int
  fc_loginDifficulty :: bool
  fc_loginViewDistance :: bool
  fc_loginHashedSeed :: bool
  fc_loginRespawnScreen :: bool
  fc_chunkHeightmaps :: bool
  fc_chunkSectionSolid :: bool
  fc_chunkBiomesInData :: bool
  fc_chunkBiomesOuter1024 :: bool
  fc_chunkUpdateLight :: bool

definition flatProtocolConfigFor :: "int \<Rightarrow> flatProtocolConfig option" where
  "flatProtocolConfigFor protocol =
    (if protocol \<in> {393, 401, 404} then
       Some \<lparr>fc_protocol = protocol, fc_loginDifficulty = True, fc_loginViewDistance = False,
         fc_loginHashedSeed = False, fc_loginRespawnScreen = False, fc_chunkHeightmaps = False,
         fc_chunkSectionSolid = False, fc_chunkBiomesInData = True, fc_chunkBiomesOuter1024 = False,
         fc_chunkUpdateLight = False\<rparr>
     else if protocol \<in> {477, 480, 490, 498} then
       Some \<lparr>fc_protocol = protocol, fc_loginDifficulty = False, fc_loginViewDistance = True,
         fc_loginHashedSeed = False, fc_loginRespawnScreen = False, fc_chunkHeightmaps = True,
         fc_chunkSectionSolid = True, fc_chunkBiomesInData = True, fc_chunkBiomesOuter1024 = False,
         fc_chunkUpdateLight = True\<rparr>
     else if protocol \<in> {573, 575, 578} then
       Some \<lparr>fc_protocol = protocol, fc_loginDifficulty = False, fc_loginViewDistance = True,
         fc_loginHashedSeed = True, fc_loginRespawnScreen = True, fc_chunkHeightmaps = True,
         fc_chunkSectionSolid = True, fc_chunkBiomesInData = False, fc_chunkBiomesOuter1024 = True,
         fc_chunkUpdateLight = True\<rparr>
     else None)"

record codecProtocolConfig =
  cc_protocol :: int
  cc_dimensionNBT :: bool
  cc_chunkIgnoreOldData :: bool
  cc_chunkMaskLongArray :: bool
  cc_chunkBiomeFixed1024 :: bool
  cc_chunkBiomeVarInts :: bool
  cc_lightMaskLongArrays :: bool

definition codecProtocolConfigFor :: "int \<Rightarrow> codecProtocolConfig option" where
  "codecProtocolConfigFor protocol =
    (if protocol \<in> {735, 736} then
       Some \<lparr>cc_protocol = protocol, cc_dimensionNBT = False, cc_chunkIgnoreOldData = True,
         cc_chunkMaskLongArray = False, cc_chunkBiomeFixed1024 = True, cc_chunkBiomeVarInts = False,
         cc_lightMaskLongArrays = False\<rparr>
     else if protocol \<in> {751, 753, 754} then
       Some \<lparr>cc_protocol = protocol, cc_dimensionNBT = True, cc_chunkIgnoreOldData = False,
         cc_chunkMaskLongArray = False, cc_chunkBiomeFixed1024 = False, cc_chunkBiomeVarInts = True,
         cc_lightMaskLongArrays = False\<rparr>
     else if protocol \<in> {755, 756} then
       Some \<lparr>cc_protocol = protocol, cc_dimensionNBT = True, cc_chunkIgnoreOldData = False,
         cc_chunkMaskLongArray = True, cc_chunkBiomeFixed1024 = False, cc_chunkBiomeVarInts = True,
         cc_lightMaskLongArrays = True\<rparr>
     else None)"

section \<open>The modern table (modern_config.go, protocol766.go)\<close>

definition loginStartUUIDNone :: string where "loginStartUUIDNone = ''''"
definition loginStartUUIDOptional :: string where "loginStartUUIDOptional = ''optional''"
definition loginStartUUIDRequired :: string where "loginStartUUIDRequired = ''required''"

lemmas loginStartUUID_defs = loginStartUUIDNone_def loginStartUUIDOptional_def loginStartUUIDRequired_def

definition validateLoginStartUUIDMode :: "string \<Rightarrow> unit result" where
  "validateLoginStartUUIDMode m =
    (if m \<in> {loginStartUUIDNone, loginStartUUIDOptional, loginStartUUIDRequired} then Inr ()
     else Inl (Errorf ''unsupported login_start_uuid mode %q'' [FS m]))"

definition protocolAliasOrSelf :: "int \<Rightarrow> int \<Rightarrow> int" where
  "protocolAliasOrSelf alt self = (if alt \<noteq> 0 then alt else self)"

record modernProtocolConfigRecord =
  mr_PacketIDProtocol :: int
  mr_DataProtocol :: int
  mr_RegistryDataProtocol :: int
  mr_LoginStartSignature :: bool
  mr_LoginStartUUID :: string
  mr_PreConfiguration :: bool
  mr_PreConfigurationDimensionNBT :: bool
  mr_PreConfigurationDeath :: bool
  mr_PreConfigurationPortalCooldown :: bool
  mr_PositionDismountVehicle :: bool
  mr_LoginSuccessNoProperties :: bool
  mr_StrictErrorHandling :: bool
  mr_RegistryCodecNBT :: bool
  mr_LegacyPlayLogin :: bool
  mr_PositionV2 :: bool
  mr_SpawnInfoSeaLevel :: bool
  mr_PositionFlagsU32 :: bool
  mr_ChunkHeightmapArray :: bool
  mr_ChunkHeightmapFullNBT :: bool
  mr_ChunkTrustEdges :: bool
  mr_ChunkSectionFluidCount :: bool
  mr_ChunkFixedPalettedStorage :: bool

record modernProtocolConfig =
  mc_protocol :: int
  mc_packetIDProtocol :: int
  mc_dataProtocol :: int
  mc_registryDataProtocol :: int
  mc_loginStartSignature :: bool
  mc_loginStartUUID :: string
  mc_preConfiguration :: bool
  mc_preConfigurationDimensionNBT :: bool
  mc_preConfigurationDeath :: bool
  mc_preConfigurationPortalCooldown :: bool
  mc_positionDismountVehicle :: bool
  mc_loginSuccessNoProperties :: bool
  mc_strictErrorHandling :: bool
  mc_registryCodecNBT :: bool
  mc_legacyPlayLogin :: bool
  mc_positionV2 :: bool
  mc_spawnInfoSeaLevel :: bool
  mc_positionFlagsU32 :: bool
  mc_chunkHeightmapArray :: bool
  mc_chunkHeightmapFullNBT :: bool
  mc_chunkTrustEdges :: bool
  mc_chunkSectionFluidCount :: bool
  mc_chunkFixedPalettedStorage :: bool

definition packetProtocol :: "modernProtocolConfig \<Rightarrow> int" where
  "packetProtocol cfg = (if mc_packetIDProtocol cfg \<noteq> 0 then mc_packetIDProtocol cfg else mc_protocol cfg)"

definition dataProtocolID :: "modernProtocolConfig \<Rightarrow> int" where
  "dataProtocolID cfg = (if mc_dataProtocol cfg \<noteq> 0 then mc_dataProtocol cfg else mc_protocol cfg)"

definition registryDataProtocolID :: "modernProtocolConfig \<Rightarrow> int" where
  "registryDataProtocolID cfg =
    (if mc_registryDataProtocol cfg \<noteq> 0 then mc_registryDataProtocol cfg else dataProtocolID cfg)"

text \<open>One iteration of \<open>loadModernProtocolConfigs\<close>: the configuration of one record.\<close>

definition modern_config_of :: "int \<Rightarrow> modernProtocolConfigRecord \<Rightarrow> modernProtocolConfig" where
  "modern_config_of protocol r =
    \<lparr>mc_protocol = protocol,
     mc_packetIDProtocol = protocolAliasOrSelf (mr_PacketIDProtocol r) protocol,
     mc_dataProtocol = protocolAliasOrSelf (mr_DataProtocol r) protocol,
     mc_registryDataProtocol = protocolAliasOrSelf (mr_RegistryDataProtocol r)
       (protocolAliasOrSelf (mr_DataProtocol r) protocol),
     mc_loginStartSignature = mr_LoginStartSignature r,
     mc_loginStartUUID = mr_LoginStartUUID r,
     mc_preConfiguration = mr_PreConfiguration r,
     mc_preConfigurationDimensionNBT = mr_PreConfigurationDimensionNBT r,
     mc_preConfigurationDeath = mr_PreConfigurationDeath r,
     mc_preConfigurationPortalCooldown = mr_PreConfigurationPortalCooldown r,
     mc_positionDismountVehicle = mr_PositionDismountVehicle r,
     mc_loginSuccessNoProperties = mr_LoginSuccessNoProperties r,
     mc_strictErrorHandling = mr_StrictErrorHandling r,
     mc_registryCodecNBT = mr_RegistryCodecNBT r,
     mc_legacyPlayLogin = mr_LegacyPlayLogin r,
     mc_positionV2 = mr_PositionV2 r,
     mc_spawnInfoSeaLevel = mr_SpawnInfoSeaLevel r,
     mc_positionFlagsU32 = mr_PositionFlagsU32 r,
     mc_chunkHeightmapArray = mr_ChunkHeightmapArray r,
     mc_chunkHeightmapFullNBT = mr_ChunkHeightmapFullNBT r,
     mc_chunkTrustEdges = mr_ChunkTrustEdges r,
     mc_chunkSectionFluidCount = mr_ChunkSectionFluidCount r,
     mc_chunkFixedPalettedStorage = mr_ChunkFixedPalettedStorage r\<rparr>"

text \<open>
  The loop over the parsed records: the configurations are a map by protocol, the records are
  visited in the order of the list (Go ranges over the map in any order).
\<close>

text \<open>\<open>ModernProtocols\<close>: its map as an association list with distinct keys.\<close>

type_synonym modernProtocols = "(int \<times> modernProtocolConfig) list"

definition configFor :: "modernProtocols \<Rightarrow> int \<Rightarrow> modernProtocolConfig option" where
  "configFor p protocol = map_of p protocol"

definition supportedProtocols :: "modernProtocols \<Rightarrow> int list" where
  "supportedProtocols p = map fst p"

fun load_modern_records :: "(string \<times> modernProtocolConfigRecord) list \<Rightarrow>
    modernProtocols \<Rightarrow> modernProtocols result" where
  "load_modern_records [] configs = Inr configs"
| "load_modern_records ((rawProtocol, r) # rs) configs =
    (case parseInt32 rawProtocol of
       Inl e \<Rightarrow> Inl (Wrapf e ''parse protocol %q: %w'' [FS rawProtocol])
     | Inr protocol \<Rightarrow>
         (case validateLoginStartUUIDMode (mr_LoginStartUUID r) of
            Inl e \<Rightarrow> Inl (Wrapf e ''parse protocol %d: %w'' [FD protocol])
          | Inr _ \<Rightarrow> load_modern_records rs
              (AList.update protocol (modern_config_of protocol r) configs)))"

text \<open>\<open>unmarshal\<close> is \<open>json.Unmarshal\<close> into the map of records.\<close>

definition loadModernProtocolConfigs ::
  "(byte list \<Rightarrow> (string \<times> modernProtocolConfigRecord) list result) \<Rightarrow> byte list \<Rightarrow>
    modernProtocols result" where
  "loadModernProtocolConfigs unmarshal raw = (case unmarshal raw of
      Inl e \<Rightarrow> Inl (Wrapf e ''parse modern protocol configs: %w'' [])
    | Inr records \<Rightarrow> load_modern_records records [])"

definition modern_record0 :: modernProtocolConfigRecord where
  "modern_record0 = \<lparr>mr_PacketIDProtocol = 0, mr_DataProtocol = 0, mr_RegistryDataProtocol = 0,
     mr_LoginStartSignature = False, mr_LoginStartUUID = '''', mr_PreConfiguration = False,
     mr_PreConfigurationDimensionNBT = False, mr_PreConfigurationDeath = False, mr_PreConfigurationPortalCooldown = False,
     mr_PositionDismountVehicle = False, mr_LoginSuccessNoProperties = False, mr_StrictErrorHandling = False,
     mr_RegistryCodecNBT = False, mr_LegacyPlayLogin = False, mr_PositionV2 = False,
     mr_SpawnInfoSeaLevel = False, mr_PositionFlagsU32 = False, mr_ChunkHeightmapArray = False,
     mr_ChunkHeightmapFullNBT = False, mr_ChunkTrustEdges = False, mr_ChunkSectionFluidCount = False,
     mr_ChunkFixedPalettedStorage = False\<rparr>"

text \<open>The embedded \<open>modern_protocols.json\<close>, record by record.\<close>

definition modern_records :: "(string \<times> modernProtocolConfigRecord) list" where
  "modern_records = [
    (''757'', modern_record0\<lparr>mr_LoginSuccessNoProperties := True, mr_PreConfiguration := True, mr_PreConfigurationDimensionNBT := True,
       mr_PositionDismountVehicle := True, mr_ChunkHeightmapFullNBT := True, mr_ChunkTrustEdges := True\<rparr>),
    (''758'', modern_record0\<lparr>mr_LoginSuccessNoProperties := True, mr_PreConfiguration := True, mr_PreConfigurationDimensionNBT := True,
       mr_PositionDismountVehicle := True, mr_ChunkHeightmapFullNBT := True, mr_ChunkTrustEdges := True\<rparr>),
    (''759'', modern_record0\<lparr>mr_LoginStartSignature := True, mr_PreConfiguration := True, mr_PreConfigurationDeath := True,
       mr_PositionDismountVehicle := True, mr_ChunkHeightmapFullNBT := True, mr_ChunkTrustEdges := True\<rparr>),
    (''760'', modern_record0\<lparr>mr_LoginStartSignature := True, mr_LoginStartUUID := ''optional'', mr_PreConfiguration := True,
       mr_PreConfigurationDeath := True, mr_PositionDismountVehicle := True, mr_ChunkHeightmapFullNBT := True,
       mr_ChunkTrustEdges := True\<rparr>),
    (''761'', modern_record0\<lparr>mr_LoginStartUUID := ''optional'', mr_PreConfiguration := True, mr_PreConfigurationDeath := True,
       mr_PositionDismountVehicle := True, mr_ChunkHeightmapFullNBT := True, mr_ChunkTrustEdges := True\<rparr>),
    (''762'', modern_record0\<lparr>mr_LoginStartUUID := ''optional'', mr_PreConfiguration := True, mr_PreConfigurationDeath := True,
       mr_ChunkHeightmapFullNBT := True, mr_ChunkTrustEdges := True\<rparr>),
    (''763'', modern_record0\<lparr>mr_LoginStartUUID := ''optional'', mr_PreConfiguration := True, mr_PreConfigurationDeath := True,
       mr_PreConfigurationPortalCooldown := True, mr_ChunkHeightmapFullNBT := True\<rparr>),
    (''764'', modern_record0\<lparr>mr_LoginStartUUID := ''required'', mr_RegistryCodecNBT := True, mr_LegacyPlayLogin := True\<rparr>),
    (''765'', modern_record0\<lparr>mr_LoginStartUUID := ''required'', mr_RegistryCodecNBT := True, mr_LegacyPlayLogin := True\<rparr>),
    (''766'', modern_record0\<lparr>mr_LoginStartUUID := ''required'', mr_StrictErrorHandling := True\<rparr>),
    (''767'', modern_record0\<lparr>mr_LoginStartUUID := ''required'', mr_StrictErrorHandling := True\<rparr>),
    (''768'', modern_record0\<lparr>mr_LoginStartUUID := ''required'', mr_PositionV2 := True, mr_SpawnInfoSeaLevel := True,
       mr_PositionFlagsU32 := True\<rparr>),
    (''769'', modern_record0\<lparr>mr_LoginStartUUID := ''required'', mr_PositionV2 := True, mr_SpawnInfoSeaLevel := True,
       mr_PositionFlagsU32 := True\<rparr>),
    (''770'', modern_record0\<lparr>mr_LoginStartUUID := ''required'', mr_PositionV2 := True, mr_SpawnInfoSeaLevel := True,
       mr_PositionFlagsU32 := True, mr_ChunkHeightmapArray := True\<rparr>),
    (''771'', modern_record0\<lparr>mr_LoginStartUUID := ''required'', mr_PositionV2 := True, mr_SpawnInfoSeaLevel := True,
       mr_PositionFlagsU32 := True, mr_ChunkHeightmapArray := True\<rparr>),
    (''772'', modern_record0\<lparr>mr_LoginStartUUID := ''required'', mr_PositionV2 := True, mr_SpawnInfoSeaLevel := True,
       mr_PositionFlagsU32 := True, mr_ChunkHeightmapArray := True\<rparr>),
    (''773'', modern_record0\<lparr>mr_LoginStartUUID := ''required'', mr_PositionV2 := True, mr_SpawnInfoSeaLevel := True,
       mr_PositionFlagsU32 := True, mr_ChunkHeightmapArray := True\<rparr>),
    (''774'', modern_record0\<lparr>mr_LoginStartUUID := ''required'', mr_PositionV2 := True, mr_SpawnInfoSeaLevel := True,
       mr_PositionFlagsU32 := True, mr_ChunkHeightmapArray := True\<rparr>),
    (''775'', modern_record0\<lparr>mr_PacketIDProtocol := 775, mr_DataProtocol := 774, mr_RegistryDataProtocol := 775,
       mr_LoginStartUUID := ''required'', mr_PositionV2 := True, mr_SpawnInfoSeaLevel := True,
       mr_PositionFlagsU32 := True, mr_ChunkHeightmapArray := True, mr_ChunkFixedPalettedStorage := True\<rparr>)]"

section \<open>What the loaded table guarantees\<close>

definition modern_ok :: "int \<Rightarrow> modernProtocolConfig \<Rightarrow> bool" where
  "modern_ok protocol cfg \<longleftrightarrow> mc_protocol cfg = protocol
     \<and> mc_loginStartUUID cfg \<in> {loginStartUUIDNone, loginStartUUIDOptional, loginStartUUIDRequired}
     \<and> packetProtocol cfg = mc_packetIDProtocol cfg \<and> dataProtocolID cfg = mc_dataProtocol cfg
     \<and> registryDataProtocolID cfg = mc_registryDataProtocol cfg"

lemma modern_config_of_ok:
  "validateLoginStartUUIDMode (mr_LoginStartUUID r) = Inr u \<Longrightarrow> modern_ok p (modern_config_of p r)"
  by (auto simp: modern_ok_def modern_config_of_def validateLoginStartUUIDMode_def packetProtocol_def
      dataProtocolID_def registryDataProtocolID_def protocolAliasOrSelf_def split: if_splits)

lemma load_modern_records_ok:
  "load_modern_records rs configs = Inr out \<Longrightarrow>
    \<forall>p cfg. configFor configs p = Some cfg \<longrightarrow> modern_ok p cfg \<Longrightarrow>
    configFor out p = Some cfg \<Longrightarrow> modern_ok p cfg"
  by (induction rs configs rule: load_modern_records.induct)
    (auto split: sum.splits if_splits simp: modern_config_of_ok configFor_def update_conv')

text \<open>Every record with a protocol key and a known mode is loaded; the keys are those protocols.\<close>

lemma load_modern_records_dom:
  "load_modern_records rs configs = Inr out \<Longrightarrow>
    set (supportedProtocols out) = set (supportedProtocols configs)
      \<union> {p. \<exists>(k, r) \<in> set rs. parseInt32 k = Inr p}"
  by (induction rs configs rule: load_modern_records.induct)
    (auto split: sum.splits if_splits simp: supportedProtocols_def update_keys simp del: set_map)

lemma load_modern_records_distinct:
  "load_modern_records rs configs = Inr out \<Longrightarrow> distinct (supportedProtocols configs) \<Longrightarrow>
    distinct (supportedProtocols out)"
  by (induction rs configs rule: load_modern_records.induct)
    (auto split: sum.splits simp: supportedProtocols_def distinct_update)

lemma configFor_None_iff: "configFor p protocol = None \<longleftrightarrow> protocol \<notin> set (supportedProtocols p)"
  by (simp add: configFor_def supportedProtocols_def map_of_eq_None_iff)

lemma load_modern_records_total:
  "(\<exists>out. load_modern_records rs configs = Inr out) \<longleftrightarrow>
    (\<forall>(k, r) \<in> set rs. (\<exists>p. parseInt32 k = Inr p) \<and> validateLoginStartUUIDMode (mr_LoginStartUUID r) = Inr ())"
proof (induction rs configs rule: load_modern_records.induct)
  case (1 configs)
  then show ?case by simp
next
  case (2 k r rs configs)
  show ?case
    by (cases "parseInt32 k"; cases "validateLoginStartUUIDMode (mr_LoginStartUUID r)")
      (simp_all add: "2.IH")
qed

lemma config_tables_disjoint:
  "legacyProtocolConfigFor p \<noteq> None \<Longrightarrow> flatProtocolConfigFor p = None \<and> codecProtocolConfigFor p = None"
  "flatProtocolConfigFor p \<noteq> None \<Longrightarrow> codecProtocolConfigFor p = None"
  by (auto simp: legacyProtocolConfigFor_def flatProtocolConfigFor_def codecProtocolConfigFor_def
      split: if_splits)

lemma modern_keys: "map (\<lambda>(k, r). parseInt32 k) modern_records = map Inr [757..775]"
  by code_simp

lemma modern_modes: "list_all (\<lambda>(k, r). \<not> isl (validateLoginStartUUIDMode (mr_LoginStartUUID r))) modern_records"
  by code_simp

lemma keys_in_set: "(\<exists>(k, r) \<in> set xs. f k = y) \<longleftrightarrow> y \<in> set (map (\<lambda>(k, r). f k) xs)"
  by (induction xs) auto

lemma modern_keys_set: "{p. \<exists>(k, r) \<in> set modern_records. parseInt32 k = Inr p} = {757..775}"
  unfolding keys_in_set modern_keys set_map set_upto by auto

lemma modern_records_load: "\<exists>configs. load_modern_records modern_records [] = Inr configs"
  unfolding load_modern_records_total
proof clarify
  fix k r assume m: "(k, r) \<in> set modern_records"
  then have "parseInt32 k \<in> set (map (\<lambda>(k, r). parseInt32 k) modern_records)"
    unfolding keys_in_set [symmetric] by blast
  then have "\<exists>p. parseInt32 k = Inr p" unfolding modern_keys by auto
  moreover have "\<not> isl (validateLoginStartUUIDMode (mr_LoginStartUUID r))"
    using modern_modes m by (auto simp: list_all_iff)
  then have "validateLoginStartUUIDMode (mr_LoginStartUUID r) = Inr ()"
    by (cases "validateLoginStartUUIDMode (mr_LoginStartUUID r)") auto
  ultimately show "(\<exists>p. parseInt32 k = Inr p) \<and> validateLoginStartUUIDMode (mr_LoginStartUUID r) = Inr ()" by simp
qed

end
