(* ===== verification/Play_Packets.thy ===== *)
theory Play_Packets
  imports Player Net_IO Protocol_Config
begin

text \<open>
  The packets a play session sends, and the bodies of those it reads
  (\<open>protocol/limbo/play_events.go\<close>): messages, titles, dialogs, resource packs, cookies,
  transfers, disconnects and keep-alives, with the branches by protocol.
\<close>

section \<open>Adapters\<close>

record playAdapter =
  pa_protocol :: int
  pa_packetProtocol :: int

definition newPlayAdapter :: "int \<Rightarrow> playAdapter" where
  "newPlayAdapter protocol = \<lparr>pa_protocol = protocol, pa_packetProtocol = protocol\<rparr>"

definition newModernPlayAdapter :: "modernProtocolConfig \<Rightarrow> playAdapter" where
  "newModernPlayAdapter cfg = \<lparr>pa_protocol = mc_protocol cfg, pa_packetProtocol = packetProtocol cfg\<rparr>"

definition clientID :: "env \<Rightarrow> playAdapter \<Rightarrow> string \<Rightarrow> int option" where
  "clientID E ad name = packet_ID (ev_packets E) (pa_packetProtocol ad) StatePlay ToClient name"

definition hasClientboundPlayPacket :: "env \<Rightarrow> playAdapter \<Rightarrow> string \<Rightarrow> bool" where
  "hasClientboundPlayPacket E ad name \<longleftrightarrow> clientID E ad name \<noteq> None"

definition isServerboundPlayPacket :: "env \<Rightarrow> playAdapter \<Rightarrow> int \<Rightarrow> string \<Rightarrow> bool" where
  "isServerboundPlayPacket E ad got name \<longleftrightarrow>
    packet_ID (ev_packets E) (pa_packetProtocol ad) StatePlay ToServer name = Some got"

definition hasModernResourcePackID :: "env \<Rightarrow> playAdapter \<Rightarrow> bool" where
  "hasModernResourcePackID E ad = hasClientboundPlayPacket E ad ''add_resource_pack''"

record titleTimes =
  tt_FadeInTicks :: int
  tt_StayTicks :: int
  tt_FadeOutTicks :: int

record title =
  ti_Title :: "component option"
  ti_Subtitle :: "component option"
  ti_Times :: "titleTimes option"

record resourcePack =
  rp_ID :: string
  rp_URL :: string
  rp_Hash :: string
  rp_Required :: bool
  rp_Prompt :: "component option"

record sessionCapabilities =
  sc_SystemMessage :: bool
  sc_ActionBar :: bool
  sc_Title :: bool
  sc_Dialog :: bool
  sc_ResourcePack :: bool
  sc_RemoveResourcePack :: bool
  sc_StoreCookie :: bool
  sc_Transfer :: bool
  sc_Disconnect :: bool

definition sessionCapabilities_of :: "env \<Rightarrow> playAdapter \<Rightarrow> sessionCapabilities" where
  "sessionCapabilities_of E ad =
    (let has = (\<lambda>name. hasClientboundPlayPacket E ad name) in
     \<lparr>sc_SystemMessage = has ''system_chat'' \<or> has ''chat'',
      sc_ActionBar = has ''action_bar'' \<or> (protocol340 \<le> pa_protocol ad \<and> has ''title''),
      sc_Title = has ''set_title_text'' \<or> has ''title'',
      sc_Dialog = has ''show_dialog'',
      sc_ResourcePack = has ''add_resource_pack'' \<or> has ''resource_pack_send'',
      sc_RemoveResourcePack = has ''remove_resource_pack'',
      sc_StoreCookie = has ''store_cookie'',
      sc_Transfer = has ''transfer'',
      sc_Disconnect = has ''kick_disconnect''\<rparr>)"

section \<open>Component payloads\<close>

text \<open>\<open>wire.WritePacket\<close> of a body that may have failed to build.\<close>

definition emit :: "int \<Rightarrow> byte list result \<Rightarrow> (conn, unit) act" where
  "emit i body = bindE (liftE body) (\<lambda>d. writePacket (mk_packet i d))"

definition jsonNBT :: "env \<Rightarrow> byte list \<Rightarrow> byte list result" where
  "jsonNBT E raw = componentJSONToAnonymousNBT (ev_jsonDecode E) raw"

definition writeComponentPayload :: "env \<Rightarrow> playAdapter \<Rightarrow> component option \<Rightarrow> byte list result" where
  "writeComponentPayload E ad message =
    bindR (marshalComponentJSON E (pa_protocol ad) (or_empty message)) (\<lambda>raw.
      if protocol765 \<le> pa_protocol ad then jsonNBT E raw
      else Inr (writeString (string_of raw)))"

definition unsupported :: "string \<Rightarrow> fmt_arg list \<Rightarrow> (conn, unit) act" where
  "unsupported m as = failE (Wrapf ErrUnsupportedCapability m as)"

definition invalidControl :: "string \<Rightarrow> fmt_arg list \<Rightarrow> (conn, unit) act" where
  "invalidControl m as = failE (Wrapf ErrInvalidSessionControl m as)"

definition writeComponentPacket ::
  "env \<Rightarrow> playAdapter \<Rightarrow> string \<Rightarrow> component option \<Rightarrow> (conn, unit) act" where
  "writeComponentPacket E ad name message = (case clientID E ad name of
      None \<Rightarrow> unsupported ''%w: %s protocol %d'' [FS name, FD (pa_protocol ad)]
    | Some i \<Rightarrow> emit i (writeComponentPayload E ad message))"

section \<open>Messages\<close>

definition writeSystemMessageNBT :: "env \<Rightarrow> playAdapter \<Rightarrow> component \<Rightarrow> (conn, unit) act" where
  "writeSystemMessageNBT E ad message = (case clientID E ad ''system_chat'' of
      None \<Rightarrow> failE (Errorf ''missing system_chat packet id for protocol %d'' [FD (pa_protocol ad)])
    | Some i \<Rightarrow> emit i (bindR (marshalComponentJSON E (pa_protocol ad) message) (\<lambda>raw.
        bindR (jsonNBT E raw) (\<lambda>nbt. Inr (nbt @ writeBool False)))))"

definition writeSystemMessage :: "env \<Rightarrow> playAdapter \<Rightarrow> component option \<Rightarrow> (conn, unit) act" where
  "writeSystemMessage E ad message0 =
    (let message = or_empty message0 in
     if protocol765 \<le> pa_protocol ad then writeSystemMessageNBT E ad message
     else bindE (liftE (marshalComponentJSON E (pa_protocol ad) message)) (\<lambda>raw.
       case clientID E ad ''system_chat'' of
         Some i \<Rightarrow> writePacket (mk_packet i (writeString (string_of raw) @
           (if pa_protocol ad = protocol759 then writeVarInt 1 else writeBool False)))
       | None \<Rightarrow> (case clientID E ad ''chat'' of
           None \<Rightarrow> failE (Errorf ''missing chat/system_chat packet id for protocol %d'' [FD (pa_protocol ad)])
         | Some i \<Rightarrow> writePacket (mk_packet i (writeString (string_of raw) @ writeByte 0 @
             (if 757 \<le> pa_protocol ad then replicate 16 0 else []))))))"

section \<open>Titles\<close>

definition writeTitleTimesPayload :: "titleTimes option \<Rightarrow> byte list" where
  "writeTitleTimesPayload tms = (case tms of
      None \<Rightarrow> writeInt 0 @ writeInt 0 @ writeInt 0
    | Some t \<Rightarrow> writeInt (tt_FadeInTicks t) @ writeInt (tt_StayTicks t) @ writeInt (tt_FadeOutTicks t))"

definition writeTitleTimesPacket ::
  "env \<Rightarrow> playAdapter \<Rightarrow> string \<Rightarrow> titleTimes option \<Rightarrow> (conn, unit) act" where
  "writeTitleTimesPacket E ad name tms = (case clientID E ad name of
      None \<Rightarrow> unsupported ''%w: %s protocol %d'' [FS name, FD (pa_protocol ad)]
    | Some i \<Rightarrow> emit i (Inr (writeTitleTimesPayload tms)))"

definition writeLegacyTitleText ::
  "env \<Rightarrow> playAdapter \<Rightarrow> int \<Rightarrow> component option \<Rightarrow> (conn, unit) act" where
  "writeLegacyTitleText E ad action message = (case clientID E ad ''title'' of
      None \<Rightarrow> unsupported ''%w: title protocol %d'' [FD (pa_protocol ad)]
    | Some i \<Rightarrow> emit i (bindR (writeComponentPayload E ad message) (\<lambda>p. Inr (writeVarInt action @ p))))"

definition writeLegacyTitleTimes ::
  "env \<Rightarrow> playAdapter \<Rightarrow> int \<Rightarrow> titleTimes option \<Rightarrow> (conn, unit) act" where
  "writeLegacyTitleTimes E ad action tms = (case clientID E ad ''title'' of
      None \<Rightarrow> unsupported ''%w: title protocol %d'' [FD (pa_protocol ad)]
    | Some i \<Rightarrow> emit i (Inr (writeVarInt action @ writeTitleTimesPayload tms)))"

definition writeActionBar :: "env \<Rightarrow> playAdapter \<Rightarrow> component option \<Rightarrow> (conn, unit) act" where
  "writeActionBar E ad message =
    (if hasClientboundPlayPacket E ad ''action_bar'' then writeComponentPacket E ad ''action_bar'' message
     else if protocol340 \<le> pa_protocol ad then writeLegacyTitleText E ad 2 message
     else unsupported ''%w: actionbar protocol %d'' [FD (pa_protocol ad)])"

definition writeTitle :: "env \<Rightarrow> playAdapter \<Rightarrow> title \<Rightarrow> (conn, unit) act" where
  "writeTitle E ad t =
    (if ti_Title t = None \<and> ti_Subtitle t = None \<and> ti_Times t = None then
       invalidControl ''%w: title requires text or timings'' []
     else if hasClientboundPlayPacket E ad ''set_title_text'' then
       seqE [whenE (ti_Times t \<noteq> None) (writeTitleTimesPacket E ad ''set_title_time'' (ti_Times t)),
             whenE (ti_Title t \<noteq> None) (writeComponentPacket E ad ''set_title_text'' (ti_Title t)),
             whenE (ti_Subtitle t \<noteq> None) (writeComponentPacket E ad ''set_title_subtitle'' (ti_Subtitle t))]
     else if \<not> hasClientboundPlayPacket E ad ''title'' then
       unsupported ''%w: title protocol %d'' [FD (pa_protocol ad)]
     else
       seqE [whenE (ti_Times t \<noteq> None) (writeLegacyTitleTimes E ad
               (if protocol340 \<le> pa_protocol ad then 3 else 2) (ti_Times t)),
             whenE (ti_Title t \<noteq> None) (writeLegacyTitleText E ad 0 (ti_Title t)),
             whenE (ti_Subtitle t \<noteq> None) (writeLegacyTitleText E ad 1 (ti_Subtitle t))])"

definition clearTitleAction :: "playAdapter \<Rightarrow> bool \<Rightarrow> int" where
  "clearTitleAction ad reset =
    (if protocol340 \<le> pa_protocol ad then (if reset then 5 else 4) else (if reset then 4 else 3))"

definition writeClearTitle :: "env \<Rightarrow> playAdapter \<Rightarrow> bool \<Rightarrow> (conn, unit) act" where
  "writeClearTitle E ad reset = (case clientID E ad ''clear_titles'' of
      Some i \<Rightarrow> writePacket (mk_packet i (writeBool reset))
    | None \<Rightarrow> (case clientID E ad ''title'' of
        None \<Rightarrow> unsupported ''%w: clear title protocol %d'' [FD (pa_protocol ad)]
      | Some i \<Rightarrow> writePacket (mk_packet i (writeVarInt (clearTitleAction ad reset)))))"

section \<open>Dialogs\<close>

text \<open>A dialog is the outcome of \<open>json.Marshal\<close> on it; a nil dialog is \<open>None\<close>.\<close>

definition writeShowDialog :: "env \<Rightarrow> playAdapter \<Rightarrow> byte list result option \<Rightarrow> (conn, unit) act" where
  "writeShowDialog E ad dialog = (case clientID E ad ''show_dialog'' of
      None \<Rightarrow> failE (Errorf ''show_dialog is not available for protocol %d'' [FD (pa_protocol ad)])
    | Some i \<Rightarrow> (case dialog of
        None \<Rightarrow> failE (Errorf ''show_dialog requires a dialog'' [])
      | Some marshalled \<Rightarrow> emit i (bindR marshalled (\<lambda>raw.
          bindR (jsonNBT E raw) (\<lambda>nbt. Inr (writeVarInt 0 @ nbt))))))"

definition writeClearDialog :: "env \<Rightarrow> playAdapter \<Rightarrow> (conn, unit) act" where
  "writeClearDialog E ad = (case clientID E ad ''clear_dialog'' of
      None \<Rightarrow> failE (Errorf ''clear_dialog is not available for protocol %d'' [FD (pa_protocol ad)])
    | Some i \<Rightarrow> writePacket (mk_packet i []))"

section \<open>Resource packs\<close>

definition resourcePackProtocolUUID :: "env \<Rightarrow> string \<Rightarrow> string" where
  "resourcePackProtocolUUID E ident = (case ev_uuidParse E ident of
      Inr parsed \<Rightarrow> ev_uuidString E parsed
    | Inl _ \<Rightarrow> ev_uuidString E (take 16
        (stamp_uuid 0x50 (ev_sha1 E (bytes_of (''limbgo:resource-pack:'' @ ident))))))"

definition writeOptionalResourcePackPrompt ::
  "env \<Rightarrow> playAdapter \<Rightarrow> component option \<Rightarrow> byte list result" where
  "writeOptionalResourcePackPrompt E ad prompt = (case prompt of
      None \<Rightarrow> Inr (writeBool False)
    | Some p \<Rightarrow> bindR (marshalComponentJSON E (pa_protocol ad) p) (\<lambda>raw.
        bindR (jsonNBT E raw) (\<lambda>nbt. Inr (writeBool True @ nbt))))"

definition writeOptionalResourcePackPromptJSON ::
  "env \<Rightarrow> playAdapter \<Rightarrow> component option \<Rightarrow> byte list result" where
  "writeOptionalResourcePackPromptJSON E ad prompt = (case prompt of
      None \<Rightarrow> Inr (writeBool False)
    | Some p \<Rightarrow> bindR (marshalComponentJSON E (pa_protocol ad) p) (\<lambda>raw.
        Inr (writeBool True @ writeString (string_of raw))))"

definition writeResourcePack :: "env \<Rightarrow> playAdapter \<Rightarrow> resourcePack \<Rightarrow> (conn, unit) act" where
  "writeResourcePack E ad pack =
    (if rp_ID pack = '''' then invalidControl ''%w: resource pack id is required'' []
     else if rp_URL pack = '''' then invalidControl ''%w: resource pack url is required'' []
     else (case clientID E ad ''add_resource_pack'' of
         Some i \<Rightarrow> emit i
           (bindR (writeUUID (resourcePackProtocolUUID E (rp_ID pack))) (\<lambda>u.
            bindR (writeOptionalResourcePackPrompt E ad (rp_Prompt pack)) (\<lambda>pr.
            Inr (u @ writeString (rp_URL pack) @ writeString (rp_Hash pack) @
                 writeBool (rp_Required pack) @ pr))))
       | None \<Rightarrow> (case clientID E ad ''resource_pack_send'' of
           None \<Rightarrow> unsupported ''%w: resource pack protocol %d'' [FD (pa_protocol ad)]
         | Some i \<Rightarrow>
             if 757 \<le> pa_protocol ad then
               emit i (bindR (writeOptionalResourcePackPromptJSON E ad (rp_Prompt pack)) (\<lambda>pr.
                 Inr (writeString (rp_URL pack) @ writeString (rp_Hash pack) @
                   writeBool (rp_Required pack) @ pr)))
             else emit i (Inr (writeString (rp_URL pack) @ writeString (rp_Hash pack))))))"

definition writeRemoveResourcePack :: "env \<Rightarrow> playAdapter \<Rightarrow> string \<Rightarrow> (conn, unit) act" where
  "writeRemoveResourcePack E ad ident =
    (if ident = '''' then invalidControl ''%w: resource pack id is required'' []
     else (case clientID E ad ''remove_resource_pack'' of
         None \<Rightarrow> unsupported ''%w: remove_resource_pack protocol %d'' [FD (pa_protocol ad)]
       | Some i \<Rightarrow> emit i (bindR (writeUUID (resourcePackProtocolUUID E ident)) (\<lambda>u.
           Inr (writeBool True @ u)))))"

section \<open>Cookies, transfers, disconnects, keep-alives\<close>

definition writeStoreCookie :: "env \<Rightarrow> playAdapter \<Rightarrow> string \<Rightarrow> byte list \<Rightarrow> (conn, unit) act" where
  "writeStoreCookie E ad key value = (case clientID E ad ''store_cookie'' of
      None \<Rightarrow> unsupported ''%w: store_cookie protocol %d'' [FD (pa_protocol ad)]
    | Some i \<Rightarrow>
        if key = '''' then invalidControl ''%w: cookie key is required'' []
        else writePacket (mk_packet i (writeString key @ writeVarInt (int (length value)) @ value)))"

definition writeTransfer :: "env \<Rightarrow> playAdapter \<Rightarrow> string \<Rightarrow> int \<Rightarrow> (conn, unit) act" where
  "writeTransfer E ad host port = (case clientID E ad ''transfer'' of
      None \<Rightarrow> unsupported ''%w: transfer protocol %d'' [FD (pa_protocol ad)]
    | Some i \<Rightarrow>
        if host = '''' then invalidControl ''%w: transfer host is required'' []
        else if port \<le> 0 \<or> 65535 < port then
          invalidControl ''%w: transfer port %d outside 1-65535'' [FD port]
        else writePacket (mk_packet i (writeString host @ writeVarInt port)))"

definition writeKickDisconnect :: "env \<Rightarrow> playAdapter \<Rightarrow> component option \<Rightarrow> (conn, unit) act" where
  "writeKickDisconnect E ad reason = (case clientID E ad ''kick_disconnect'' of
      None \<Rightarrow> unsupported ''%w: disconnect protocol %d'' [FD (pa_protocol ad)]
    | Some i \<Rightarrow> emit i (bindR (marshalComponentJSON E (pa_protocol ad) (or_empty reason)) (\<lambda>raw.
        if protocol765 \<le> pa_protocol ad then jsonNBT E raw
        else Inr (writeString (string_of raw)))))"

definition writeKeepAlive :: "env \<Rightarrow> playAdapter \<Rightarrow> int \<Rightarrow> (conn, unit) act" where
  "writeKeepAlive E ad ident = (case clientID E ad ''keep_alive'' of
      None \<Rightarrow> retE ()
    | Some i \<Rightarrow> writePacket (mk_packet i (put_be 8 (word_of_int ident :: 64 word))))"

section \<open>Bodies read from the client\<close>

text \<open>Readers of a packet body, a \<open>bytes.Reader\<close>; its \<open>Len\<close> is what is left of \<open>flat\<close>.\<close>

definition remaining :: "stream \<Rightarrow> int" where "remaining r = int (length (flat r))"

definition readPacketUUID :: "env \<Rightarrow> stream \<Rightarrow> (string \<times> stream) result" where
  "readPacketUUID E r = bindR (readFull 16 r) (\<lambda>(raw, r1). Inr (ev_uuidString E raw, r1))"

definition readFirstPacketString :: "byte list \<Rightarrow> string result" where
  "readFirstPacketString data = bindR (readString 256 (bytes_reader data)) (\<lambda>(s, _). Inr s)"

text \<open>A nil payload is \<open>None\<close>.\<close>

definition readOptionalAnonymousNBT :: "stream \<Rightarrow> byte list option result" where
  "readOptionalAnonymousNBT r =
    (if remaining r = 0 then Inr None
     else bindR (readByte r) (\<lambda>(present, r1). Inr (if present = 0 then None else Some (flat r1))))"

definition resourcePackStatus :: "int \<Rightarrow> string" where
  "resourcePackStatus status =
    (if status = 0 then ''successfully_loaded''
     else if status = 1 then ''declined''
     else if status = 2 then ''failed_download''
     else if status = 3 then ''accepted''
     else if status = 4 then ''downloaded''
     else if status = 5 then ''invalid_url''
     else if status = 6 then ''failed_reload''
     else if status = 7 then ''discarded''
     else ''unknown_'' @ itoa status)"

section \<open>Capabilities and writers agree\<close>

text \<open>What an act can do to a connection when it only writes.\<close>

definition only_writes :: "(conn, unit) act \<Rightarrow> bool" where
  "only_writes m \<longleftrightarrow> (\<forall>c. c_reader (snd (m c)) = c_reader c \<and> c_closed (snd (m c)) = c_closed c
     \<and> (\<exists>xs. c_out (snd (m c)) = c_out c @ xs))"

named_theorems only_writes_intros \<open>acts that only write\<close>

lemma only_writes_connWrite [only_writes_intros]: "only_writes (connWrite p)"
  unfolding only_writes_def connWrite_def
  by (auto simp: Let_def case_prod_unfold split: list.splits option.splits)

lemma only_writes_writePacket [only_writes_intros]: "only_writes (writePacket p)"
  by (simp add: writePacket_def only_writes_connWrite)

lemma only_writes_const [only_writes_intros]: "only_writes (retE ())" "only_writes (failE e)"
  by (simp_all add: only_writes_def retE_def failE_def)

lemma only_writes_bind_lift: "(\<And>x. only_writes (f x)) \<Longrightarrow> only_writes (bindE (liftE r) f)"
  by (cases r) (simp_all add: result_simps only_writes_const)

lemma only_writes_emit [only_writes_intros]: "only_writes (emit i b)"
  by (simp add: emit_def only_writes_bind_lift only_writes_writePacket)

lemma only_writes_unsupported [only_writes_intros]:
  "only_writes (unsupported m as)" "only_writes (invalidControl m as)"
  by (simp_all add: unsupported_def invalidControl_def only_writes_const)

lemma only_writes_whenE [only_writes_intros]: "only_writes m \<Longrightarrow> only_writes (whenE b m)"
  by (simp add: whenE_def only_writes_const)

lemma only_writes_seqE [only_writes_intros]: "\<forall>m \<in> set ms. only_writes m \<Longrightarrow> only_writes (seqE ms)"
proof (induction ms)
  case Nil
  then show ?case by (simp add: only_writes_def)
next
  case (Cons m ms)
  then have m: "only_writes m" and ms: "only_writes (seqE ms)" by simp_all
  show ?case unfolding only_writes_def
  proof
    fix c
    obtain r c1 where 1: "m c = (r, c1)" by (cases "m c")
    obtain r' c2 where 2: "seqE ms c1 = (r', c2)" by (cases "seqE ms c1")
    from m 1 have "c_reader c1 = c_reader c" "c_closed c1 = c_closed c" "\<exists>xs. c_out c1 = c_out c @ xs"
      unfolding only_writes_def by (metis snd_conv)+
    moreover from ms 2 have "c_reader c2 = c_reader c1" "c_closed c2 = c_closed c1"
      "\<exists>xs. c_out c2 = c_out c1 @ xs"
      unfolding only_writes_def by (metis snd_conv)+
    ultimately show "c_reader (snd (seqE (m # ms) c)) = c_reader c
      \<and> c_closed (snd (seqE (m # ms) c)) = c_closed c \<and> (\<exists>xs. c_out (snd (seqE (m # ms) c)) = c_out c @ xs)"
      using 1 2 by (cases r) auto
  qed
qed

lemma only_writes_play [only_writes_intros]:
  "only_writes (writeComponentPacket E ad name msg)"
  "only_writes (writeSystemMessage E ad msg)"
  "only_writes (writeTitleTimesPacket E ad name tms)"
  "only_writes (writeLegacyTitleText E ad action msg)"
  "only_writes (writeLegacyTitleTimes E ad action tms)"
  "only_writes (writeClearTitle E ad reset)"
  "only_writes (writeShowDialog E ad dialog)"
  "only_writes (writeClearDialog E ad)"
  "only_writes (writeResourcePack E ad pack)"
  "only_writes (writeRemoveResourcePack E ad ident)"
  "only_writes (writeStoreCookie E ad key value)"
  "only_writes (writeTransfer E ad host port)"
  "only_writes (writeKickDisconnect E ad reason)"
  "only_writes (writeKeepAlive E ad ident')"
  by (auto simp: writeComponentPacket_def writeSystemMessage_def writeSystemMessageNBT_def
      writeTitleTimesPacket_def writeLegacyTitleText_def writeLegacyTitleTimes_def writeClearTitle_def
      writeShowDialog_def writeClearDialog_def writeResourcePack_def writeRemoveResourcePack_def
      writeStoreCookie_def writeTransfer_def writeKickDisconnect_def writeKeepAlive_def Let_def
      intro!: only_writes_intros only_writes_bind_lift split: option.split)

lemma only_writes_titles [only_writes_intros]:
  "only_writes (writeActionBar E ad msg)" "only_writes (writeTitle E ad t)"
  by (auto simp: writeActionBar_def writeTitle_def intro!: only_writes_intros)

text \<open>
  A capability a session reports is never answered with "unsupported" by its writer, and one it
  does not report always is.
\<close>

definition answers_unsupported :: "(conn, unit) act \<Rightarrow> bool" where
  "answers_unsupported m \<longleftrightarrow> (\<exists>msg as. m = failE (Wrapf ErrUnsupportedCapability msg as))"

lemma answers_unsupported_unsupported [simp]: "answers_unsupported (unsupported m as)"
  by (auto simp: answers_unsupported_def unsupported_def)

lemma capability_unsupported:
  "\<not> sc_ActionBar (sessionCapabilities_of E ad) \<Longrightarrow> answers_unsupported (writeActionBar E ad msg)"
  "\<not> sc_StoreCookie (sessionCapabilities_of E ad) \<Longrightarrow> answers_unsupported (writeStoreCookie E ad key value)"
  "\<not> sc_Transfer (sessionCapabilities_of E ad) \<Longrightarrow> answers_unsupported (writeTransfer E ad host port)"
  "\<not> sc_Disconnect (sessionCapabilities_of E ad) \<Longrightarrow> answers_unsupported (writeKickDisconnect E ad msg)"
  "\<not> sc_Title (sessionCapabilities_of E ad) \<Longrightarrow> answers_unsupported (writeClearTitle E ad reset)
     \<or> clientID E ad ''clear_titles'' \<noteq> None"
  "\<not> sc_ResourcePack (sessionCapabilities_of E ad) \<Longrightarrow> rp_ID p \<noteq> '''' \<Longrightarrow> rp_URL p \<noteq> '''' \<Longrightarrow>
     answers_unsupported (writeResourcePack E ad p)"
  "\<not> sc_RemoveResourcePack (sessionCapabilities_of E ad) \<Longrightarrow> ident \<noteq> '''' \<Longrightarrow>
     answers_unsupported (writeRemoveResourcePack E ad ident)"
  by (auto simp: sessionCapabilities_of_def hasClientboundPlayPacket_def writeActionBar_def
      writeStoreCookie_def writeTransfer_def writeKickDisconnect_def writeClearTitle_def
      writeResourcePack_def writeRemoveResourcePack_def writeLegacyTitleText_def)

text \<open>Packets for a transfer and for a stored cookie, as sent.\<close>

lemma writeTransfer_sends:
  "clientID E ad ''transfer'' = Some i \<Longrightarrow> host \<noteq> '''' \<Longrightarrow> 1 \<le> port \<Longrightarrow> port \<le> 65535 \<Longrightarrow>
    sends (writeTransfer E ad host port) [mk_packet i (writeString host @ writeVarInt port)]"
  by (simp add: writeTransfer_def sends_writePacket)

lemma writeTransfer_fails:
  "host = '''' \<or> port < 1 \<or> 65535 < port \<Longrightarrow> \<exists>e. writeTransfer E ad host port = failE e"
  by (auto simp: writeTransfer_def unsupported_def invalidControl_def split: option.split)

lemma writeKeepAlive_sends:
  "clientID E ad ''keep_alive'' = Some i \<Longrightarrow>
    sends (writeKeepAlive E ad t) [mk_packet i (put_be 8 (word_of_int t :: 64 word))]"
  by (simp add: writeKeepAlive_def sends_writePacket)

end
