(* ===== verification/Login.thy ===== *)
theory Login
  imports Play_Packets
begin

text \<open>
  The login phase (\<open>protocol/limbo/session_auth.go\<close> and the readers of
  \<open>protocol/limbo/router.go\<close>): handshakes, login starts of every layout, the encryption
  exchange of online mode and the switch to the encrypted connection. RSA, AES, the random
  source and the session verifier are parameters.
\<close>

section \<open>Handshake (router.go)\<close>

record handshakeInfo =
  hi_ProtocolVersion :: int
  hi_Address :: string
  hi_Port :: int
  hi_NextState :: int

definition readHandshake :: "byte list \<Rightarrow> handshakeInfo result" where
  "readHandshake data =
    bindR (readVarInt (bytes_reader data)) (\<lambda>(protocol, r1).
    bindR (readString 255 r1) (\<lambda>(address, r2).
    bindR (readUnsignedShort r2) (\<lambda>(port, r3).
    bindR (readVarInt r3) (\<lambda>(nextState, _).
      Inr \<lparr>hi_ProtocolVersion = protocol, hi_Address = address, hi_Port = port,
           hi_NextState = nextState\<rparr>))))"

section \<open>Login start (router.go)\<close>

record loginStartLayout =
  ll_signature :: bool
  ll_uuidMode :: string

definition loginStartLayoutFor :: "modernProtocolConfig option \<Rightarrow> loginStartLayout" where
  "loginStartLayoutFor modern = (case modern of
      None \<Rightarrow> \<lparr>ll_signature = False, ll_uuidMode = ''''\<rparr>
    | Some cfg \<Rightarrow> \<lparr>ll_signature = mc_loginStartSignature cfg, ll_uuidMode = mc_loginStartUUID cfg\<rparr>)"

definition readLoginBool :: "stream \<Rightarrow> (bool \<times> stream) result" where
  "readLoginBool r = bindR (readByte r) (\<lambda>(b, r1).
     if b = 0 then Inr (False, r1)
     else if b = 1 then Inr (True, r1)
     else Inl (Errorf ''minecraft bool has invalid value %d'' [FD (uint b)]))"

definition readLoginUUID :: "env \<Rightarrow> stream \<Rightarrow> (string \<times> stream) result" where
  "readLoginUUID E r = bindR (readFull 16 r) (\<lambda>(raw, r1). Inr (ev_uuidString E raw, r1))"

definition readLoginStartUUID :: "env \<Rightarrow> stream \<Rightarrow> string \<Rightarrow> (string \<times> stream) result" where
  "readLoginStartUUID E r mode =
    (if mode = loginStartUUIDNone then Inr ('''', r)
     else if mode = loginStartUUIDOptional then
       bindR (readLoginBool r) (\<lambda>(hasUUID, r1). if \<not> hasUUID then Inr ('''', r1) else readLoginUUID E r1)
     else if mode = loginStartUUIDRequired then readLoginUUID E r
     else Inl (Errorf ''unsupported login_start uuid mode %q'' [FS mode]))"

text \<open>
  \<open>reader.Read\<close> into an empty slice at the end of the data gives \<open>EOF\<close>: an empty array that is
  the last field of a packet is an error.
\<close>

definition readLoginByteArray :: "stream \<Rightarrow> (byte list \<times> stream) result" where
  "readLoginByteArray r = bindR (readVarInt r) (\<lambda>(len, r1).
     if len < 0 \<or> remaining r1 < len then
       Inl (Errorf ''minecraft byte array length %d outside remaining %d'' [FD len, FD (remaining r1)])
     else if remaining r1 = 0 then Inl EOF
     else readFull (nat len) r1)"

definition writeLoginByteArray :: "byte list \<Rightarrow> byte list" where
  "writeLoginByteArray value = writeVarInt (int (length value)) @ value"

text \<open>The signature block of 1.19: an expiry and two byte arrays, all skipped.\<close>

definition skip_signature :: "stream \<Rightarrow> (unit \<times> stream) result" where
  "skip_signature r = bindR (readLoginBool r) (\<lambda>(hasSignature, r1).
     if hasSignature then
       bindR (readLong r1) (\<lambda>(_, r2). bindR (readLoginByteArray r2) (\<lambda>(_, r3).
       bindR (readLoginByteArray r3) (\<lambda>(_, r4). Inr ((), r4))))
     else Inr ((), r1))"

definition readLoginStart :: "env \<Rightarrow> byte list \<Rightarrow> loginStartLayout \<Rightarrow> (string \<times> string) result" where
  "readLoginStart E data layout =
    bindR (readString 16 (bytes_reader data)) (\<lambda>(username, r1).
    if username = '''' then Inl (Errorf ''empty username'' [])
    else
      bindR (if ll_signature layout then skip_signature r1 else Inr ((), r1)) (\<lambda>(_, r2).
      bindR (readLoginStartUUID E r2 (ll_uuidMode layout)) (\<lambda>(claimedUUID, r3).
      if remaining r3 \<noteq> 0 then Inl (Errorf ''login_start has %d trailing bytes'' [FD (remaining r3)])
      else Inr (username, claimedUUID))))"

section \<open>The encryption exchange (session_auth.go)\<close>

text \<open>
  What one login draws from the crypto libraries: the marshalled public key, the verify token,
  decryption with the private key, and the block cipher of a shared secret.
\<close>

record loginCrypto =
  lx_publicKey :: "byte list result"
  lx_token :: "byte list result"
  lx_decrypt :: "byte list \<Rightarrow> byte list result"
  lx_cipher :: "byte list \<Rightarrow> (byte list \<Rightarrow> byte list) result"

type_synonym verifier = "sessionProof \<Rightarrow> verifiedProfile result"

definition writeEncryptionRequest ::
  "env \<Rightarrow> int \<Rightarrow> int \<Rightarrow> string \<Rightarrow> byte list \<Rightarrow> byte list \<Rightarrow> (conn, unit) act" where
  "writeEncryptionRequest E protocol pktProtocol serverID publicKey verifyToken =
    (case packet_ID (ev_packets E) pktProtocol StateLogin ToClient ''encryption_begin'' of
       None \<Rightarrow> failE (Errorf ''missing encryption_begin packet id for protocol %d'' [FD pktProtocol])
     | Some i \<Rightarrow> writePacket (mk_packet i (writeString serverID @ writeLoginByteArray publicKey @
         writeLoginByteArray verifyToken @ (if protocol766 \<le> protocol then writeBool True else []))))"

definition readEncryptionResponse ::
  "loginCrypto \<Rightarrow> int \<Rightarrow> byte list \<Rightarrow> (byte list \<times> byte list) result" where
  "readEncryptionResponse X protocol data =
    bindR (readLoginByteArray (bytes_reader data)) (\<lambda>(encryptedSecret, r1).
    bindR (if protocol = protocol759 \<or> protocol = protocol760 then
             bindR (readByte r1) (\<lambda>(hasVerifyToken, r2).
               if hasVerifyToken = 0 then
                 Inl (Wrapf ErrUnsupportedCapability ''%w: signed encryption response is not supported'' [])
               else readLoginByteArray r2)
           else readLoginByteArray r1) (\<lambda>(encryptedToken, r3).
    if remaining r3 \<noteq> 0 then
      Inl (Wrapf ErrInvalidLogin ''%w: encryption response has %d trailing bytes'' [FD (remaining r3)])
    else bindR (lx_decrypt X encryptedSecret) (\<lambda>secret.
         bindR (lx_decrypt X encryptedToken) (\<lambda>token. Inr (secret, token)))))"

text \<open>\<open>big.Int.Text(16)\<close>: a sign and lower-case hexadecimal digits without leading zeros.\<close>

fun showHex :: "nat \<Rightarrow> string" where
  "showHex n = (if n < 16 then [hexDigit n] else showHex (n div 16) @ [hexDigit (n mod 16)])"

declare showHex.simps [simp del]

definition bigText16 :: "int \<Rightarrow> string" where
  "bigText16 n = (if n < 0 then CHR ''-'' # showHex (nat (- n)) else showHex (nat n))"

definition bigSetBytes :: "byte list \<Rightarrow> int" where
  "bigSetBytes bs = foldl (\<lambda>acc b. acc * 256 + uint b) 0 bs"

definition minecraftSessionServerID ::
  "(byte list \<Rightarrow> byte list) \<Rightarrow> string \<Rightarrow> byte list \<Rightarrow> byte list \<Rightarrow> string" where
  "minecraftSessionServerID sha1 serverID sharedSecret publicKey =
    (let sum = sha1 (bytes_of serverID @ sharedSecret @ publicKey);
         value0 = bigSetBytes sum;
         value = (if hd sum AND 0x80 \<noteq> 0 then value0 - 2 ^ (length sum * 8) else value0)
     in bigText16 value)"

definition remoteIP :: "net_addr \<Rightarrow> string" where
  "remoteIP a = (case a of None \<Rightarrow> '''' | Some s \<Rightarrow> (case splitHostPort s of Inl _ \<Rightarrow> s | Inr (host, _) \<Rightarrow> host))"

text \<open>
  \<open>encryptedConn.Read\<close> decrypts each chunk the connection delivers; a new buffered reader on it
  starts with nothing buffered.
\<close>

fun decrypt_segs :: "cfb8 \<Rightarrow> byte list list \<Rightarrow> byte list list" where
  "decrypt_segs k [] = []"
| "decrypt_segs k (s # ss) = (case xorKeyStream k s of (p, k') \<Rightarrow> p # decrypt_segs k' ss)"

definition newEncryptedConn :: "loginCrypto \<Rightarrow> byte list \<Rightarrow> conn \<Rightarrow> conn result" where
  "newEncryptedConn X sharedSecret c = bindR (lx_cipher X sharedSecret) (\<lambda>block.
     Inr (c\<lparr>c_enc := Some (newCFB8 block sharedSecret True),
            c_reader := Stream [] (decrypt_segs (newCFB8 block sharedSecret False) (ssegs (c_reader c)))
              (serr (c_reader c))\<rparr>))"

text \<open>The exchange up to the checked token: the shared secret and the key it was made with.\<close>

definition encryption_exchange :: "env \<Rightarrow> loginCrypto \<Rightarrow> int \<Rightarrow> int \<Rightarrow> string \<Rightarrow>
    (conn, byte list \<times> byte list) act" where
  "encryption_exchange E X protocol pktProtocol serverID =
    bindE (liftE (lx_publicKey X)) (\<lambda>publicKey.
    bindE (liftE (lx_token X)) (\<lambda>verifyToken.
    bindE (writeEncryptionRequest E protocol pktProtocol serverID publicKey verifyToken) (\<lambda>_.
    bindE connReadPacket (\<lambda>response.
    (let responseID = packet_ID (ev_packets E) pktProtocol StateLogin ToServer ''encryption_begin'' in
     if responseID \<noteq> Some (pkt_id response) then
       failE (Errorf ''expected encryption_begin packet %d, got %d''
         [FD (case responseID of None \<Rightarrow> 0 | Some i \<Rightarrow> i), FD (pkt_id response)])
     else
       bindE (liftE (readEncryptionResponse X protocol (pkt_data response))) (\<lambda>(sharedSecret, responseToken).
       if responseToken \<noteq> verifyToken then
         failE (Wrapf ErrInvalidLogin ''%w: online-mode verify token mismatch'' [])
       else retE (sharedSecret, publicKey)))))))"

definition session_proof :: "env \<Rightarrow> loginRequest \<Rightarrow> string \<Rightarrow> byte list \<Rightarrow> byte list \<Rightarrow> sessionProof" where
  "session_proof E req serverID sharedSecret publicKey =
    \<lparr>pf_Username = lr_Username req,
     pf_ServerID = minecraftSessionServerID (ev_sha1 E) serverID sharedSecret publicKey,
     pf_RemoteIP = remoteIP (lr_RemoteAddr req), pf_ProtocolVersion = lr_ProtocolVersion req,
     pf_RequestedHost = lr_RequestedHost req\<rparr>"

text \<open>
  \<open>performOnlineSessionAuth\<close>: whether the encrypted connection is returned (it is nil before
  that), and the profile or the error.
\<close>

definition performOnlineSessionAuth :: "env \<Rightarrow> loginCrypto \<Rightarrow> int \<Rightarrow> int \<Rightarrow> loginRequest \<Rightarrow>
    verifier option \<Rightarrow> string \<Rightarrow> conn \<Rightarrow> (bool \<times> verifiedProfile result) \<times> conn" where
  "performOnlineSessionAuth E X protocol pktProtocol req verifier serverID c =
    (case verifier of
       None \<Rightarrow> ((False, Inl (Wrapf ErrInvalidLogin ''%w: missing session verifier'' [])), c)
     | Some verify \<Rightarrow> (case encryption_exchange E X protocol pktProtocol serverID c of
         (Inl e, c1) \<Rightarrow> ((False, Inl e), c1)
       | (Inr (sharedSecret, publicKey), c1) \<Rightarrow> (case newEncryptedConn X sharedSecret c1 of
           Inl e \<Rightarrow> ((False, Inl e), c1)
         | Inr c2 \<Rightarrow> ((True, bindR (verify (session_proof E req serverID sharedSecret publicKey)) (\<lambda>profile.
             if vf_UUID profile = '''' \<or> vf_Name profile = '''' \<or> \<not> vf_Verified profile then
               Inl (Wrapf ErrInvalidLogin ''%w: verifier returned unverified or incomplete profile'' [])
             else Inr profile)), c2))))"

section \<open>Byte arrays and login starts read back\<close>

lemma remaining_advance [simp]: "remaining (advance n s) = int (length (flat s) - n)"
  by (simp add: remaining_def)

lemma readLoginByteArray_write:
  assumes ok: "v \<noteq> [] \<and> length v < 2 ^ 31" and fl: "flat s = writeLoginByteArray v @ rest"
  shows "readLoginByteArray s = Inr (v, advance (length (writeLoginByteArray v)) s)"
proof -
  have "flat s = writeVarInt (int (length v)) @ (v @ rest)" using fl by (simp add: writeLoginByteArray_def)
  from readVarInt_writeVarInt [OF _ this] ok
  have "readVarInt s = Inr (int (length v), advance (length (writeVarInt (int (length v)))) s)"
    by (simp add: is_int32_def)
  moreover have "int (length rest) + int (length v) \<noteq> 0" using ok by (cases v) simp_all
  ultimately show ?thesis using ok fl
    by (simp add: readLoginByteArray_def writeLoginByteArray_def readFull_append add.commute)
qed

interpretation login_array: codec writeLoginByteArray readLoginByteArray "\<lambda>v. v \<noteq> [] \<and> length v < 2 ^ 31"
  by unfold_locales (rule readLoginByteArray_write)

text \<open>The client's side of the packets: what it sends for its layout.\<close>

definition client_handshake :: "handshakeInfo \<Rightarrow> byte list" where
  "client_handshake h = writeVarInt (hi_ProtocolVersion h) @ writeString (hi_Address h) @
     writeUnsignedShort (hi_Port h) @ writeVarInt (hi_NextState h)"

definition handshake_ok :: "handshakeInfo \<Rightarrow> bool" where
  "handshake_ok h \<longleftrightarrow> is_int32 (hi_ProtocolVersion h) \<and> string_ok 255 (hi_Address h)
     \<and> 0 \<le> hi_Port h \<and> hi_Port h < 65536 \<and> is_int32 (hi_NextState h)"

lemma readHandshake_client: "handshake_ok h \<Longrightarrow> readHandshake (client_handshake h @ rest) = Inr h"
  by (cases h) (simp add: readHandshake_def client_handshake_def handshake_ok_def varint.dec_bytes
    wire_string.dec_bytes ushort.dec_bytes)

text \<open>A signature is an expiry and two arrays; the UUID is its sixteen bytes.\<close>

type_synonym signature = "int \<times> byte list \<times> byte list"

definition client_signature :: "signature option \<Rightarrow> byte list" where
  "client_signature sig = (case sig of
     None \<Rightarrow> [0] | Some (t, a, b) \<Rightarrow> 1 # writeLong t @ writeLoginByteArray a @ writeLoginByteArray b)"

definition signature_ok :: "signature option \<Rightarrow> bool" where
  "signature_ok sig = (case sig of None \<Rightarrow> True
     | Some (t, a, b) \<Rightarrow> is_int64 t \<and> a \<noteq> [] \<and> length a < 2 ^ 31 \<and> b \<noteq> [] \<and> length b < 2 ^ 31)"

definition client_uuid :: "string \<Rightarrow> byte list option \<Rightarrow> byte list" where
  "client_uuid mode u = (if mode = loginStartUUIDNone then []
     else if mode = loginStartUUIDOptional then (case u of None \<Rightarrow> [0] | Some raw \<Rightarrow> 1 # raw)
     else (case u of None \<Rightarrow> [] | Some raw \<Rightarrow> raw))"

definition uuid_ok :: "string \<Rightarrow> byte list option \<Rightarrow> bool" where
  "uuid_ok mode u \<longleftrightarrow> (case u of
      None \<Rightarrow> mode \<in> {loginStartUUIDNone, loginStartUUIDOptional}
    | Some raw \<Rightarrow> length raw = 16 \<and> mode \<in> {loginStartUUIDOptional, loginStartUUIDRequired})"

definition client_login_start :: "loginStartLayout \<Rightarrow> string \<Rightarrow> signature option \<Rightarrow> byte list option \<Rightarrow> byte list" where
  "client_login_start l name sig u =
     writeString name @ (if ll_signature l then client_signature sig else []) @ client_uuid (ll_uuidMode l) u"

lemma readByte_bytes [simp]: "readByte (bytes_reader (b # bs)) = Inr (b, bytes_reader bs)"
  by (simp add: readByte_def bytes_reader_def)

lemma readFull_bytes: "length bs = n \<Longrightarrow> readFull n (bytes_reader (bs @ rest)) = Inr (bs, bytes_reader rest)"
  by (simp add: readFull_eq)

lemma skip_signature_client:
  "signature_ok sig \<Longrightarrow> skip_signature (bytes_reader (client_signature sig @ rest)) = Inr ((), bytes_reader rest)"
  by (auto simp: client_signature_def signature_ok_def skip_signature_def readLoginBool_def
      long.dec_bytes login_array.dec_bytes split: option.splits)

lemmas uuid_modes = loginStartUUIDNone_def loginStartUUIDOptional_def loginStartUUIDRequired_def

lemma readLoginStartUUID_client:
  "uuid_ok mode u \<Longrightarrow> readLoginStartUUID E (bytes_reader (client_uuid mode u)) mode
    = Inr (case u of None \<Rightarrow> '''' | Some raw \<Rightarrow> ev_uuidString E raw, bytes_reader [])"
  using readFull_bytes [of _ 16 "[]"]
  by (auto simp: uuid_ok_def client_uuid_def readLoginStartUUID_def readLoginBool_def readLoginUUID_def
      uuid_modes split: option.splits)

lemma readLoginStart_client:
  assumes "string_ok 16 name" "name \<noteq> ''''" "signature_ok sig" "uuid_ok (ll_uuidMode l) u"
  shows "readLoginStart E (client_login_start l name sig u) l
    = Inr (name, case u of None \<Rightarrow> '''' | Some raw \<Rightarrow> ev_uuidString E raw)"
  using assms skip_signature_client [OF assms(3)] readLoginStartUUID_client [OF assms(4)]
  by (simp add: readLoginStart_def client_login_start_def wire_string.dec_bytes remaining_def)

section \<open>The server id hash\<close>

text \<open>The value of a signed hexadecimal text.\<close>

definition hexNat :: "string \<Rightarrow> nat" where
  "hexNat s = foldl (\<lambda>acc c. acc * 16 + (case hexVal c of Some v \<Rightarrow> v | None \<Rightarrow> 0)) 0 s"

definition hexInt :: "string \<Rightarrow> int" where
  "hexInt s = (case s of [] \<Rightarrow> 0 | c # r \<Rightarrow> if c = CHR ''-'' then - int (hexNat r) else int (hexNat s))"

lemma hexNat_showHex: "hexNat (showHex n) = n"
proof (induction n rule: showHex.induct)
  case (1 n)
  then show ?case
    by (subst showHex.simps) (auto simp: hexNat_def hexVal_hexDigit)
qed

lemma showHex_Cons: "\<exists>c r. showHex n = c # r \<and> c \<noteq> CHR ''-''"
proof (induction n rule: showHex.induct)
  case (1 n)
  then show ?case by (subst showHex.simps) (auto simp: hexDigit_no_dash)
qed

lemma hexInt_bigText16: "hexInt (bigText16 n) = n"
proof (cases "n < 0")
  case True
  then show ?thesis by (simp add: bigText16_def hexInt_def hexNat_showHex)
next
  case False
  obtain c r where "showHex (nat n) = c # r" "c \<noteq> CHR ''-''" using showHex_Cons by blast
  with False show ?thesis using hexNat_showHex [of "nat n"] by (simp add: bigText16_def hexInt_def)
qed

lemma bigSetBytes_Cons: "bigSetBytes (b # bs) = uint b * 256 ^ length bs + bigSetBytes bs"
proof -
  have "foldl (\<lambda>acc b. acc * 256 + uint b) x bs = x * 256 ^ length bs + foldl (\<lambda>acc b. acc * 256 + uint b) 0 bs"
    for x :: int and bs :: "byte list"
  proof (induction bs arbitrary: x)
    case Nil
    then show ?case by simp
  next
    case (Cons c cs)
    show ?case using Cons.IH [of "x * 256 + uint c"] Cons.IH [of "uint c"] by (simp add: algebra_simps)
  qed
  from this [of "uint b" bs] show ?thesis by (simp add: bigSetBytes_def)
qed

lemma uint_byte_less: "uint (b :: byte) < 256"
  using unsigned_less [of b] by simp

lemma bigSetBytes_bounds: "0 \<le> bigSetBytes bs \<and> bigSetBytes bs < 256 ^ length bs"
proof (induction bs)
  case Nil
  then show ?case by (simp add: bigSetBytes_def)
next
  case (Cons b bs)
  have u: "uint b * 256 ^ length bs \<le> 255 * 256 ^ length bs"
    using uint_byte_less [of b] by (intro mult_right_mono) auto
  have z: "0 \<le> uint b * 256 ^ length bs" by simp
  have p: "(256 :: int) ^ length (b # bs) = 256 * 256 ^ length bs" by simp
  show ?case unfolding bigSetBytes_Cons p using u z Cons.IH by linarith
qed

lemma top_bit_byte: "b AND 0x80 \<noteq> 0 \<longleftrightarrow> 128 \<le> uint b" for b :: byte
proof -
  have "bit (b AND 0x80) n \<longleftrightarrow> bit b 7 \<and> n = 7" for n
    using bit_0x80_byte [of n] by (auto simp only: bit_and_iff)
  then have "b AND 0x80 = 0 \<longleftrightarrow> \<not> bit b 7"
    unfolding bit_eq_iff [of "b AND 0x80" 0] bit_0_eq bot_fun_def bot_bool_def
    by (auto simp: possible_bit_word dest: spec [of _ 7])
  moreover have "bit b 7 \<longleftrightarrow> odd (uint b div 128)"
    using bit_uint_iff [of b 7] by (simp add: bit_iff_odd)
  moreover have "odd (uint b div 128) \<longleftrightarrow> 128 \<le> uint b"
  proof (cases "128 \<le> uint b")
    case True
    then have "uint b div 128 = 1" using uint_byte_less [of b] by linarith
    with True show ?thesis by simp
  next
    case False
    then have "uint b div 128 = 0" by (simp add: div_pos_pos_trivial)
    with False show ?thesis by simp
  qed
  ultimately show ?thesis by blast
qed

lemma bigSetBytes_sign:
  "hd (b # bs) AND 0x80 \<noteq> 0 \<longleftrightarrow> 256 ^ length (b # bs) \<le> 2 * bigSetBytes (b # bs)"
proof -
  have p: "(256 :: int) ^ length (b # bs) = 256 * 256 ^ length bs" by simp
  have v: "0 \<le> bigSetBytes bs" "bigSetBytes bs < 256 ^ length bs"
    using bigSetBytes_bounds by blast+
  have up: "128 * 256 ^ length bs \<le> uint b * 256 ^ length bs" if "128 \<le> uint b"
    using that by (intro mult_right_mono) auto
  have down: "uint b * 256 ^ length bs \<le> 127 * 256 ^ length bs" if "\<not> 128 \<le> uint b"
    using that by (intro mult_right_mono) auto
  show ?thesis unfolding list.sel top_bit_byte bigSetBytes_Cons p
    using up down v by (smt (verit))
qed

lemma power_2_8: "(2::int) ^ (n * 8) = 256 ^ n"
  using power_mult [of "2::int" 8 n] by (simp add: mult.commute)

text \<open>The text is the digest read as a signed (two's complement) number.\<close>

lemma minecraftSessionServerID_signed:
  assumes "sha1 (bytes_of serverID @ secret @ key) = b # bs"
  shows "hexInt (minecraftSessionServerID sha1 serverID secret key) =
    (let v = bigSetBytes (b # bs); m = 256 ^ length (b # bs) in if m \<le> 2 * v then v - m else v)"
  using assms bigSetBytes_sign [of b bs] power_2_8 [of "length (b # bs)"]
  by (simp add: minecraftSessionServerID_def Let_def hexInt_bigText16)

section \<open>The encrypted connection\<close>

lemma decrypt_segs_concat: "concat (decrypt_segs k ss) = fst (xorKeyStream k (concat ss))"
  by (induction ss arbitrary: k) (auto simp: xorKeyStream_append split: prod.splits)

text \<open>What an honest client encrypts under the shared secret is what the server then reads.\<close>

lemma newEncryptedConn_reads:
  assumes "lx_cipher X secret = Inr block" "newEncryptedConn X secret c = Inr c'"
    "concat (ssegs (c_reader c)) = concat (cfb8.encr_all (newCFB8 block secret True) ps)"
  shows "flat (c_reader c') = concat ps"
  using assms cfb8.decr_encr_all [OF cfb8_sync_new, of block secret ps]
  by (auto simp: newEncryptedConn_def flat_def decrypt_segs_concat)

text \<open>The decrypter keeps its state from call to call, so only the bytes matter, not how they are cut.\<close>

lemma decrypt_segs_cuts:
  assumes "concat cuts = concat (cfb8.encr_all (newCFB8 block secret True) ps)"
  shows "concat (decrypt_segs (newCFB8 block secret False) cuts) = concat ps"
  by (simp add: decrypt_segs_concat assms cfb8.decr_encr_all [OF cfb8_sync_new])

lemma length_decrypt_segs: "map length (decrypt_segs k ss) = map length ss"
proof (induction ss arbitrary: k)
  case (Cons s ss)
  obtain p k' where "xorKeyStream k s = (p, k')" by fastforce
  with length_xorKeyStream [of k s] Cons show ?case by simp
qed simp

text \<open>Writes on an open encrypted connection send the messages encrypted one after the other.\<close>

lemma encrypted_writes:
  assumes "\<not> c_closed c" "c_script c = []" "c_enc c = Some k"
  shows "\<exists>k'. seqE (map connWrite ps) c = (Inr (), c\<lparr>c_enc := Some k', c_out := c_out c @ cfb8.encr_all k ps\<rparr>)"
  using assms
proof (induction ps arbitrary: c k)
  case Nil
  then show ?case by (auto intro!: exI [of _ k])
next
  case (Cons p ps)
  obtain q k1 where q: "xorKeyStream k p = (q, k1)" by fastforce
  let ?c1 = "c\<lparr>c_enc := Some k1, c_out := c_out c @ [q]\<rparr>"
  have w: "connWrite p c = (Inr (), ?c1)" using Cons.prems q by (simp add: connWrite_def Let_def)
  obtain k' where "seqE (map connWrite ps) ?c1 = (Inr (), ?c1\<lparr>c_enc := Some k', c_out := c_out ?c1 @ cfb8.encr_all k1 ps\<rparr>)"
    using Cons.IH [of ?c1 k1] Cons.prems by auto
  with w q show ?case by (intro exI [of _ k']) simp
qed

section \<open>What online mode guarantees\<close>

lemma performOnlineSessionAuth_sound:
  assumes "performOnlineSessionAuth E X protocol pktProtocol req verifier serverID c = ((enc, Inr profile), c')"
  shows "enc \<and> vf_Verified profile \<and> vf_UUID profile \<noteq> '''' \<and> vf_Name profile \<noteq> ''''
    \<and> (\<exists>verify secret key block. verifier = Some verify
        \<and> verify (session_proof E req serverID secret key) = Inr profile
        \<and> lx_publicKey X = Inr key \<and> lx_cipher X secret = Inr block
        \<and> c_enc c' = Some (newCFB8 block secret True))"
proof -
  obtain verify where v: "verifier = Some verify"
    using assms by (cases verifier) (simp_all add: performOnlineSessionAuth_def)
  obtain secret key c1 where x: "encryption_exchange E X protocol pktProtocol serverID c = (Inr (secret, key), c1)"
    using assms v by (cases "encryption_exchange E X protocol pktProtocol serverID c")
      (auto simp: performOnlineSessionAuth_def split: sum.splits prod.splits)
  have "lx_publicKey X = Inr key" using x by (auto simp: encryption_exchange_def bindE_Inr_conv
      liftE_def retE_def failE_def Let_def split: if_splits prod.splits)
  with assms v x show ?thesis
    by (auto simp: performOnlineSessionAuth_def newEncryptedConn_def bindR_Inr_conv split: sum.splits if_splits)
qed

end
