(* ===== verification/Policy.thy ===== *)
theory Policy
  imports Env
begin

text \<open>
  Protocol policies (\<open>protocol_policy.go\<close>): the request a policy sees, rejections that carry a
  disconnect reason, and the inclusive range policy. A policy is a function of the request; the
  context is not modelled.
\<close>

record protocolRequest =
  pr_ProtocolVersion :: int
  pr_RemoteAddr :: net_addr
  pr_RequestedHost :: string

type_synonym protocolPolicy = "protocolRequest \<Rightarrow> go_error option"

definition RejectProtocol :: "component option \<Rightarrow> go_error" where
  "RejectProtocol reason = ProtocolRejectError (case reason of
     None \<Rightarrow> Some (TextC ''Unsupported client version'') | Some c \<Rightarrow> Some c)"

definition RejectProtocolText :: "string \<Rightarrow> go_error" where
  "RejectProtocolText message = RejectProtocol (Some (TextC message))"

text \<open>\<open>errors.As\<close> walks the chain of wrapped errors.\<close>

fun ProtocolRejection :: "go_error \<Rightarrow> component option option" where
  "ProtocolRejection (ProtocolRejectError reason) = Some reason"
| "ProtocolRejection (Wrapf e m as) = ProtocolRejection e"
| "ProtocolRejection e = None"

definition ProtocolRangePolicy :: "int \<Rightarrow> int \<Rightarrow> component option \<Rightarrow> protocolPolicy" where
  "ProtocolRangePolicy minProtocol maxProtocol reason = (\<lambda>req.
     if minProtocol \<le> pr_ProtocolVersion req \<and> pr_ProtocolVersion req \<le> maxProtocol then None
     else if reason \<noteq> None then Some (RejectProtocol reason)
     else Some (RejectProtocolText (''Unsupported client protocol '' @ itoa (pr_ProtocolVersion req))))"

section \<open>Facts\<close>

text \<open>An error carries a rejection exactly if it also is the sentinel through a rejection.\<close>

lemma ProtocolRejection_is: "ProtocolRejection e = Some r \<Longrightarrow> errors_is e ErrProtocolRejected"
  by (induction e) auto

lemma RejectProtocol_reason:
  "\<exists>c. ProtocolRejection (RejectProtocol reason) = Some (Some c)"
  "ProtocolRejection (RejectProtocol (Some c)) = Some (Some c)"
  by (cases reason) (simp_all add: RejectProtocol_def)

lemma RejectProtocolText_reason [simp]:
  "ProtocolRejection (RejectProtocolText m) = Some (Some (TextC m))"
  by (simp add: RejectProtocolText_def RejectProtocol_reason)

lemma ProtocolRangePolicy_cases:
  "ProtocolRangePolicy lo hi reason req = None \<longleftrightarrow> pr_ProtocolVersion req \<in> {lo..hi}"
  "ProtocolRangePolicy lo hi reason req = Some e \<Longrightarrow>
     errors_is e ErrProtocolRejected \<and> (\<exists>c. ProtocolRejection e = Some (Some c) \<and> (reason = None \<or> reason = Some c))"
proof -
  show "ProtocolRangePolicy lo hi reason req = None \<longleftrightarrow> pr_ProtocolVersion req \<in> {lo..hi}"
    by (auto simp: ProtocolRangePolicy_def)
  assume "ProtocolRangePolicy lo hi reason req = Some e"
  then have "\<exists>c. ProtocolRejection e = Some (Some c) \<and> (reason = None \<or> reason = Some c)"
    by (cases reason) (auto simp: ProtocolRangePolicy_def RejectProtocol_reason split: if_splits)
  with ProtocolRejection_is show "errors_is e ErrProtocolRejected
      \<and> (\<exists>c. ProtocolRejection e = Some (Some c) \<and> (reason = None \<or> reason = Some c))" by blast
qed

end
