(* ===== verification/Status.thy ===== *)
theory Status
  imports Policy "HOL-Library.AList"
begin

text \<open>
  Server-list status documents (\<open>status.go\<close>): the status value, its defaults, and the JSON
  payload built for a client protocol. A Go map is an association list with distinct keys, which
  \<open>json.Marshal\<close> (a parameter) encodes with sorted keys.
\<close>

record statusSamplePlayer =
  sm_Name :: string
  sm_ID :: string

record status =
  stt_VersionName :: string
  stt_Protocol :: int
  stt_Description :: "component option"
  stt_MaxPlayers :: int
  stt_OnlinePlayers :: int
  stt_SamplePlayers :: "statusSamplePlayer list"
  stt_HidePlayers :: bool
  stt_Favicon :: string
  stt_EnforcesSecureChat :: "bool option"
  stt_PreviewsChat :: "bool option"
  stt_PreventsChatReports :: "bool option"
  stt_Raw :: "(string \<times> jval) list"

text \<open>\<open>StatusOptions\<close> has the same fields.\<close>

record statusOptions =
  so_VersionName :: string
  so_Protocol :: int
  so_Description :: "component option"
  so_MaxPlayers :: int
  so_OnlinePlayers :: int
  so_SamplePlayers :: "statusSamplePlayer list"
  so_HidePlayers :: bool
  so_Favicon :: string
  so_EnforcesSecureChat :: "bool option"
  so_PreviewsChat :: "bool option"
  so_PreventsChatReports :: "bool option"
  so_Raw :: "(string \<times> jval) list"

record statusRequest =
  sq_Protocol :: int
  sq_Address :: string
  sq_Port :: int
  sq_RemoteAddr :: net_addr

type_synonym statusProvider = "statusRequest \<Rightarrow> status result"

definition StaticStatus :: "status \<Rightarrow> statusProvider" where
  "StaticStatus st = (\<lambda>_. Inr st)"

definition StatusOptions_Status :: "statusOptions \<Rightarrow> status" where
  "StatusOptions_Status o' =
    \<lparr>stt_VersionName = so_VersionName o', stt_Protocol = so_Protocol o',
     stt_Description = so_Description o', stt_MaxPlayers = so_MaxPlayers o',
     stt_OnlinePlayers = so_OnlinePlayers o', stt_SamplePlayers = so_SamplePlayers o',
     stt_HidePlayers = so_HidePlayers o', stt_Favicon = so_Favicon o',
     stt_EnforcesSecureChat = so_EnforcesSecureChat o', stt_PreviewsChat = so_PreviewsChat o',
     stt_PreventsChatReports = so_PreventsChatReports o', stt_Raw = so_Raw o'\<rparr>"

definition StatusWithDefaults :: "status \<Rightarrow> int \<Rightarrow> string \<Rightarrow> int \<Rightarrow> status" where
  "StatusWithDefaults st protocol description maxPlayers =
    (let st1 = (if stt_VersionName st = '''' then st\<lparr>stt_VersionName := ''limbgo''\<rparr> else st);
         st2 = (if stt_Protocol st1 = 0 then st1\<lparr>stt_Protocol := protocol\<rparr> else st1);
         st3 = (if stt_Description st2 = None then
                  st2\<lparr>stt_Description := Some (TextC (if description = '''' then ''limbgo'' else description))\<rparr>
                else st2)
     in if stt_MaxPlayers st3 \<le> 0 then st3\<lparr>stt_MaxPlayers := (if maxPlayers \<le> 0 then 1 else maxPlayers)\<rparr>
        else st3)"

section \<open>The payload\<close>

definition sample_value :: "statusSamplePlayer \<Rightarrow> jval" where
  "sample_value p = VObj [(''name'', VStr (sm_Name p)), (''id'', VStr (sm_ID p))]"

definition set_opt :: "string \<Rightarrow> bool option \<Rightarrow> (string \<times> jval) list \<Rightarrow> (string \<times> jval) list" where
  "set_opt key v m = (case v of None \<Rightarrow> m | Some b \<Rightarrow> AList.update key (VBool b) m)"

text \<open>The payload map of a status with its defaults, before the raw entries.\<close>

definition players_value :: "status \<Rightarrow> jval" where
  "players_value st = VObj ([(''max'', VInt (stt_MaxPlayers st)), (''online'', VInt (stt_OnlinePlayers st))] @
     (if stt_SamplePlayers st = [] then [] else [(''sample'', VArr (map sample_value (stt_SamplePlayers st)))]))"

definition status_payload :: "status \<Rightarrow> byte list \<Rightarrow> (string \<times> jval) list" where
  "status_payload st description =
    (let p0 = [(''version'', VObj [(''name'', VStr (stt_VersionName st)), (''protocol'', VInt (stt_Protocol st))]),
               (''description'', VRaw description)];
         p1 = (if stt_HidePlayers st then p0 else AList.update ''players'' (players_value st) p0);
         p2 = (if stt_Favicon st = '''' then p1 else AList.update ''favicon'' (VStr (stt_Favicon st)) p1);
         p3 = set_opt ''enforcesSecureChat'' (stt_EnforcesSecureChat st) p2;
         p4 = set_opt ''previewsChat'' (stt_PreviewsChat st) p3;
         p5 = set_opt ''preventsChatReports'' (stt_PreventsChatReports st) p4
     in fold (\<lambda>(key, value). AList.update key value) (stt_Raw st) p5)"

definition MarshalStatusJSON :: "env \<Rightarrow> status \<Rightarrow> int \<Rightarrow> byte list result" where
  "MarshalStatusJSON E st0 protocol =
    (let st = StatusWithDefaults st0 protocol '''' 1 in
     bindR (limbgo_MarshalComponentJSON E protocol (stt_Description st)) (\<lambda>description.
       ev_jsonMarshal E (VObj (status_payload st description))))"

definition MarshalStatusResponse :: "env \<Rightarrow> int \<Rightarrow> statusOptions \<Rightarrow> byte list result" where
  "MarshalStatusResponse E protocol options = MarshalStatusJSON E (StatusOptions_Status options) protocol"

section \<open>Facts\<close>

lemma StatusWithDefaults_fields [simp]:
  "stt_VersionName (StatusWithDefaults st p d m) = (if stt_VersionName st = '''' then ''limbgo'' else stt_VersionName st)"
  "stt_Protocol (StatusWithDefaults st p d m) = (if stt_Protocol st = 0 then p else stt_Protocol st)"
  "stt_Description (StatusWithDefaults st p d m) = (case stt_Description st of
      None \<Rightarrow> Some (TextC (if d = '''' then ''limbgo'' else d)) | Some c \<Rightarrow> Some c)"
  "stt_MaxPlayers (StatusWithDefaults st p d m)
    = (if 0 < stt_MaxPlayers st then stt_MaxPlayers st else if m \<le> 0 then 1 else m)"
  "stt_OnlinePlayers (StatusWithDefaults st p d m) = stt_OnlinePlayers st"
  "stt_SamplePlayers (StatusWithDefaults st p d m) = stt_SamplePlayers st"
  "stt_HidePlayers (StatusWithDefaults st p d m) = stt_HidePlayers st"
  "stt_Favicon (StatusWithDefaults st p d m) = stt_Favicon st"
  "stt_EnforcesSecureChat (StatusWithDefaults st p d m) = stt_EnforcesSecureChat st"
  "stt_PreviewsChat (StatusWithDefaults st p d m) = stt_PreviewsChat st"
  "stt_PreventsChatReports (StatusWithDefaults st p d m) = stt_PreventsChatReports st"
  "stt_Raw (StatusWithDefaults st p d m) = stt_Raw st"
  by (simp_all add: StatusWithDefaults_def Let_def split: option.split)

text \<open>Applying the defaults twice changes nothing, except that a zero protocol takes the later one.\<close>

lemma StatusWithDefaults_idem:
  "StatusWithDefaults (StatusWithDefaults st p d m) p d' m' = StatusWithDefaults st p d m"
  by (rule status.equality) (auto split: option.split)

text \<open>What a client reads at each key of the payload: the raw entries win over every other.\<close>

lemma map_of_fold_update:
  "map_of (fold (\<lambda>(key, value). AList.update key value) rs m) k
    = (case map_of (rev rs) k of None \<Rightarrow> map_of m k | Some v \<Rightarrow> Some v)"
  by (induction rs rule: rev_induct) (auto simp: update_conv' split: option.split)

lemma map_of_set_opt:
  "map_of (set_opt key v m) k = (if k = key \<and> v \<noteq> None then map_option VBool v else map_of m k)"
  by (auto simp: set_opt_def update_conv' split: option.split)

definition builtin_value :: "status \<Rightarrow> byte list \<Rightarrow> string \<Rightarrow> jval option" where
  "builtin_value st description k =
    (if k = ''version'' then Some (VObj [(''name'', VStr (stt_VersionName st)), (''protocol'', VInt (stt_Protocol st))])
     else if k = ''description'' then Some (VRaw description)
     else if k = ''players'' then (if stt_HidePlayers st then None else Some (players_value st))
     else if k = ''favicon'' then (if stt_Favicon st = '''' then None else Some (VStr (stt_Favicon st)))
     else if k = ''enforcesSecureChat'' then map_option VBool (stt_EnforcesSecureChat st)
     else if k = ''previewsChat'' then map_option VBool (stt_PreviewsChat st)
     else if k = ''preventsChatReports'' then map_option VBool (stt_PreventsChatReports st)
     else None)"

lemma map_of_builtin:
  "map_of (set_opt ''preventsChatReports'' (stt_PreventsChatReports st)
     (set_opt ''previewsChat'' (stt_PreviewsChat st)
     (set_opt ''enforcesSecureChat'' (stt_EnforcesSecureChat st)
     (if stt_Favicon st = '''' then p1 else AList.update ''favicon'' (VStr (stt_Favicon st)) p1)))) k
   = (if k = ''preventsChatReports'' \<and> stt_PreventsChatReports st \<noteq> None then map_option VBool (stt_PreventsChatReports st)
      else if k = ''previewsChat'' \<and> stt_PreviewsChat st \<noteq> None then map_option VBool (stt_PreviewsChat st)
      else if k = ''enforcesSecureChat'' \<and> stt_EnforcesSecureChat st \<noteq> None then map_option VBool (stt_EnforcesSecureChat st)
      else if k = ''favicon'' \<and> stt_Favicon st \<noteq> '''' then Some (VStr (stt_Favicon st))
      else map_of p1 k)"
  by (cases "stt_Favicon st = ''''") (simp_all only: map_of_set_opt update_conv' if_True if_False fun_upd_apply simp_thms)

text \<open>Each key holds its built-in value unless a raw entry replaces it.\<close>

lemma map_of_status_payload:
  "map_of (status_payload st description) k
    = (case map_of (rev (stt_Raw st)) k of Some v \<Rightarrow> Some v | None \<Rightarrow> builtin_value st description k)"
proof -
  let ?p0 = "[(''version'', VObj [(''name'', VStr (stt_VersionName st)), (''protocol'', VInt (stt_Protocol st))]),
               (''description'', VRaw description)]"
  have p1: "map_of (if stt_HidePlayers st then ?p0 else AList.update ''players'' (players_value st) ?p0) k
    = (if k = ''players'' \<and> \<not> stt_HidePlayers st then Some (players_value st)
       else if k = ''version'' then Some (VObj [(''name'', VStr (stt_VersionName st)), (''protocol'', VInt (stt_Protocol st))])
       else if k = ''description'' then Some (VRaw description) else None)"
    by (simp add: update_conv')
  show ?thesis
    unfolding status_payload_def Let_def map_of_fold_update map_of_builtin p1 builtin_value_def
    by (cases "map_of (rev (stt_Raw st)) k") simp_all
qed

lemma distinct_fold_update:
  "distinct (map fst m) \<Longrightarrow> distinct (map fst (fold (\<lambda>(key, value). AList.update key value) rs m))"
  by (induction rs arbitrary: m) (auto simp: distinct_update split: prod.split)

lemma distinct_status_payload: "distinct (map fst (status_payload st description))"
proof -
  have o: "distinct (map fst m) \<Longrightarrow> distinct (map fst (set_opt key v m))" for key v m
    by (simp add: set_opt_def distinct_update split: option.split)
  show ?thesis unfolding status_payload_def Let_def
    by (intro distinct_fold_update o) (auto intro!: distinct_update)
qed

end
