(* ===== verification/Palette.thy ===== *)
theory Palette
  imports Wire Block_State
begin

text \<open>
  Paletted block storage: the local palette of a section, the packing of 4-bit palette indices
  into longs, and the sections written to the client (\<open>protocol47.go\<close>, \<open>protocol340.go\<close>,
  \<open>protocol766_data.go\<close>), with the decoder a client applies to them.
\<close>

section \<open>Reading a counted list\<close>

fun read_n :: "(stream \<Rightarrow> ('a \<times> stream) result) \<Rightarrow> nat \<Rightarrow> stream \<Rightarrow> ('a list \<times> stream) result" where
  "read_n rd 0 s = Inr ([], s)"
| "read_n rd (Suc n) s = (case rd s of Inl e \<Rightarrow> Inl e
     | Inr (x, s1) \<Rightarrow> (case read_n rd n s1 of Inl e \<Rightarrow> Inl e | Inr (xs, s2) \<Rightarrow> Inr (x # xs, s2)))"

context codec begin

lemma read_n_enc:
  "\<forall>x \<in> set xs. ok x \<Longrightarrow> flat s = concat (map enc xs) @ rest \<Longrightarrow>
    read_n dec (length xs) s = Inr (xs, advance (length (concat (map enc xs))) s)"
proof (induction xs arbitrary: s)
  case Nil
  then show ?case by simp
next
  case (Cons x xs)
  then have "dec s = Inr (x, advance (length (enc x)) s)"
    using dec_enc [of x s "concat (map enc xs) @ rest"] by simp
  moreover have "flat (advance (length (enc x)) s) = concat (map enc xs) @ rest"
    using Cons.prems(2) by simp
  ultimately show ?case using Cons.IH [of "advance (length (enc x)) s"] Cons.prems(1) by simp
qed

end

section \<open>States of a section\<close>

text \<open>\<open>uint32\<close> states are naturals; a \<open>nil\<close> section pointer is \<open>None\<close>.\<close>

definition section_state :: "blockTable \<Rightarrow> int \<Rightarrow> blockState list \<Rightarrow> chunkSection option \<Rightarrow> nat \<Rightarrow> nat" where
  "section_state blocks protocol palette sec i = (case sec of None \<Rightarrow> 0
     | Some s \<Rightarrow> if i < length (cs_BlockStateIDs s)
         then blockStateForProtocol blocks protocol palette (cs_BlockStateIDs s ! i) else 0)"

fun findSection :: "chunkSection list \<Rightarrow> int \<Rightarrow> chunkSection option" where
  "findSection [] y = None"
| "findSection (s # ss) y = (if cs_Y s = y then Some s else findSection ss y)"

fun palette_loop :: "nat set \<Rightarrow> nat list \<Rightarrow> nat list \<Rightarrow> nat list" where
  "palette_loop seen local [] = local"
| "palette_loop seen local (s # ss) =
     (if s \<in> seen then palette_loop seen local ss
      else palette_loop (insert s seen) (local @ [s]) ss)"

definition buildLocalPalette340 ::
  "blockTable \<Rightarrow> blockState list \<Rightarrow> chunkSection option \<Rightarrow> int \<Rightarrow> nat list" where
  "buildLocalPalette340 blocks palette sec protocol = (case sec of None \<Rightarrow> [0]
     | Some s \<Rightarrow> palette_loop {0} [0]
         (map (blockStateForProtocol blocks protocol palette) (cs_BlockStateIDs s)))"

definition buildLocalPaletteModern ::
  "blockTable \<Rightarrow> blockState list \<Rightarrow> chunkSection option \<Rightarrow> int \<Rightarrow> nat list" where
  "buildLocalPaletteModern blocks palette sec protocol = (case sec of None \<Rightarrow> [0]
     | Some s \<Rightarrow> palette_loop {0} [0]
         (map (blockStateForProtocol blocks protocol palette) (cs_BlockStateIDs s)))"

definition nonAirBlockCountModern ::
  "blockTable \<Rightarrow> blockState list \<Rightarrow> chunkSection option \<Rightarrow> int \<Rightarrow> nat" where
  "nonAirBlockCountModern blocks palette sec protocol = (case sec of None \<Rightarrow> 0
     | Some s \<Rightarrow> length (filter (\<lambda>i. blockStateForProtocol blocks protocol palette i \<noteq> 0) (cs_BlockStateIDs s)))"

text \<open>\<open>indexByState\<close>: the last index of a state, and 0 (the zero value) for a missing key.\<close>

definition index_by_state :: "nat list \<Rightarrow> nat \<Rightarrow> nat" where
  "index_by_state local s = (case map_of (rev (zip local [0..<length local])) s of
     None \<Rightarrow> 0 | Some i \<Rightarrow> i)"

text \<open>\<open>longs[i/16] |= v << (i%16*4)\<close>.\<close>

definition or_nibble :: "64 word list \<Rightarrow> nat \<Rightarrow> 64 word \<Rightarrow> 64 word list" where
  "or_nibble longs i v = longs[i div 16 := longs ! (i div 16) OR push_bit (i mod 16 * 4) v]"

definition packSectionPaletteIndices340 :: "blockTable \<Rightarrow> blockState list \<Rightarrow> chunkSection option \<Rightarrow>
    (nat \<Rightarrow> nat) \<Rightarrow> int \<Rightarrow> 64 word list" where
  "packSectionPaletteIndices340 blocks palette sec indexByState protocol =
    foldl (\<lambda>longs i. or_nibble longs i
        (word_of_nat (indexByState (section_state blocks protocol palette sec i)) AND 0xf))
      (replicate (16 * 16 * 16 div 16) 0) [0..<16 * 16 * 16]"

definition packSectionPaletteIndicesModern :: "blockTable \<Rightarrow> blockState list \<Rightarrow> chunkSection option \<Rightarrow>
    (nat \<Rightarrow> nat) \<Rightarrow> int \<Rightarrow> 64 word list" where
  "packSectionPaletteIndicesModern blocks palette sec indexByState protocol =
    foldl (\<lambda>longs i. or_nibble longs i
        (word_of_nat (indexByState (section_state blocks protocol palette sec i)) AND 0xf))
      (replicate (16 * 16 * 16 div 16) 0) [0..<16 * 16 * 16]"

section \<open>Section writers\<close>

definition writeBlockStates766 ::
  "blockTable \<Rightarrow> blockState list \<Rightarrow> chunkSection option \<Rightarrow> int \<Rightarrow> bool \<Rightarrow> byte list" where
  "writeBlockStates766 blocks palette sec protocol fixedPalettedStorage =
    (let localPalette = buildLocalPaletteModern blocks palette sec protocol;
         longs = packSectionPaletteIndicesModern blocks palette sec (index_by_state localPalette) protocol
     in writeByte 4 @ writeVarInt (int (length localPalette)) @
        concat (map (\<lambda>state. writeVarInt (wrap32 (int state))) localPalette) @
        (if \<not> fixedPalettedStorage then writeVarInt (int (length longs)) else []) @
        concat (map (\<lambda>value. writeLong (sint value)) longs))"

definition writeSection340 ::
  "blockTable \<Rightarrow> blockState list \<Rightarrow> chunkSection option \<Rightarrow> int \<Rightarrow> byte list" where
  "writeSection340 blocks palette sec protocol =
    (let localPalette = buildLocalPalette340 blocks palette sec protocol;
         longs = packSectionPaletteIndices340 blocks palette sec (index_by_state localPalette) protocol
     in writeByte 4 @ writeVarInt (int (length localPalette)) @
        concat (map (\<lambda>state. writeVarInt (wrap32 (int state))) localPalette) @
        writeVarInt (int (length longs)) @
        concat (map (\<lambda>value. writeLong (sint value)) longs) @
        replicate (16 * 16 * 16 div 2) 0 @ replicate (16 * 16 * 16 div 2) 0)"

definition writeSectionFlatSolid ::
  "blockTable \<Rightarrow> blockState list \<Rightarrow> chunkSection option \<Rightarrow> int \<Rightarrow> byte list" where
  "writeSectionFlatSolid blocks palette sec protocol =
    writeShort (int (nonAirBlockCountModern blocks palette sec protocol)) @
    writeBlockStates766 blocks palette sec protocol False"

definition writeBiomes766 :: "bool \<Rightarrow> byte list" where
  "writeBiomes766 fixedPalettedStorage =
    writeByte 0 @ writeVarInt 0 @ (if \<not> fixedPalettedStorage then writeVarInt 0 else [])"

section \<open>What the client reads\<close>

definition nibble :: "64 word list \<Rightarrow> nat \<Rightarrow> nat" where
  "nibble longs i = unat (take_bit 4 (drop_bit (i mod 16 * 4) (longs ! (i div 16))))"

text \<open>The palette and the longs of a section with 4 bits per block.\<close>

definition readPaletted :: "bool \<Rightarrow> stream \<Rightarrow> ((int list \<times> int list) \<times> stream) result" where
  "readPaletted fixedPalettedStorage s =
    bindR (readByte s) (\<lambda>(bits, s1).
    if bits \<noteq> 4 then Inl (Errorf ''bits per entry %d'' [FD (uint bits)]) else
    bindR (readVarInt s1) (\<lambda>(n, s2).
    bindR (read_n readVarInt (nat n) s2) (\<lambda>(local, s3).
    bindR (if fixedPalettedStorage then Inr (256, s3) else readVarInt s3) (\<lambda>(m, s4).
    bindR (read_n readLong (nat m) s4) (\<lambda>(longs, s5). Inr ((local, longs), s5))))))"

definition decodeBlocks :: "int list \<times> int list \<Rightarrow> int list" where
  "decodeBlocks pl = (case pl of (local, longs) \<Rightarrow>
     map (\<lambda>i. local ! nibble (map word_of_int longs) i) [0..<4096])"

text \<open>The blocks a section stands for, padded with air.\<close>

definition section_states :: "blockTable \<Rightarrow> int \<Rightarrow> blockState list \<Rightarrow> chunkSection option \<Rightarrow> nat list" where
  "section_states blocks protocol palette sec =
    map (section_state blocks protocol palette sec) [0..<4096]"

section \<open>The palette\<close>

lemma palette_loop_set:
  "seen = set local \<Longrightarrow> set (palette_loop seen local ss) = set local \<union> set ss"
  by (induction seen local ss rule: palette_loop.induct) auto

lemma palette_loop_distinct:
  "seen = set local \<Longrightarrow> distinct local \<Longrightarrow> distinct (palette_loop seen local ss)"
  by (induction seen local ss rule: palette_loop.induct) auto

lemma palette_loop_prefix: "\<exists>zs. palette_loop seen local ss = local @ zs"
  by (induction seen local ss rule: palette_loop.induct) (simp, force)

lemma buildLocalPalette_distinct: "distinct (buildLocalPaletteModern blocks palette sec p)"
  by (auto simp: buildLocalPaletteModern_def intro: palette_loop_distinct split: option.splits)

lemma buildLocalPalette_air: "\<exists>zs. buildLocalPaletteModern blocks palette sec p = 0 # zs"
  using palette_loop_prefix [of "{0}" "[0]"]
  by (auto simp: buildLocalPaletteModern_def split: option.splits)

lemma section_state_in_palette:
  "section_state blocks p palette sec i \<in> set (buildLocalPaletteModern blocks palette sec p)"
  by (auto simp: section_state_def buildLocalPaletteModern_def palette_loop_set split: option.splits)

lemma buildLocalPalette340_modern:
  "buildLocalPalette340 blocks palette sec p = buildLocalPaletteModern blocks palette sec p"
  by (simp add: buildLocalPalette340_def buildLocalPaletteModern_def)

lemma packSectionPaletteIndices340_modern:
  "packSectionPaletteIndices340 blocks palette sec f p = packSectionPaletteIndicesModern blocks palette sec f p"
  by (simp add: packSectionPaletteIndices340_def packSectionPaletteIndicesModern_def)

text \<open>On a palette without duplicates \<open>index_by_state\<close> is the position.\<close>

lemma index_by_state_nth:
  assumes "distinct local" "i < length local"
  shows "index_by_state local (local ! i) = i"
proof -
  have d: "distinct (map fst (rev (zip local [0..<length local])))"
    using assms by (simp add: rev_map [symmetric])
  have "(local ! i, i) \<in> set (rev (zip local [0..<length local]))"
    using assms by (auto simp: set_zip intro!: exI [of _ i])
  with d show ?thesis by (simp add: index_by_state_def)
qed

lemma index_by_state_in:
  assumes "distinct local" "s \<in> set local"
  shows "index_by_state local s < length local \<and> local ! index_by_state local s = s"
  using assms index_by_state_nth by (metis in_set_conv_nth)

section \<open>Packing and unpacking\<close>

lemma length_or_nibble [simp]: "length (or_nibble longs i v) = length longs"
  by (simp add: or_nibble_def)

lemma length_fold_or_nibble [simp]:
  "length (foldl (\<lambda>longs i. or_nibble longs i (f i)) longs is) = length longs"
  by (induction "is" arbitrary: longs) simp_all

lemma nibble_or_nibble_same:
  assumes "i div 16 < length longs" "nibble longs i = 0"
  shows "nibble (or_nibble longs i (v AND 0xf)) i = unat (v AND 0xf)"
proof -
  have z: "take_bit 4 (drop_bit (i mod 16 * 4) (longs ! (i div 16))) = 0"
    using assms(2) by (simp add: nibble_def unat_eq_zero)
  have m: "v AND 0xf = take_bit 4 v" by (simp add: take_bit_eq_mask mask_eq_exp_minus_1)
  have "take_bit 4 (drop_bit (i mod 16 * 4)
      (longs ! (i div 16) OR push_bit (i mod 16 * 4) (take_bit 4 v))) = take_bit 4 v"
  proof (rule bit_word_eqI)
    fix n assume "n < LENGTH(64)"
    moreover have "\<not> bit (longs ! (i div 16)) (i mod 16 * 4 + n)" if "n < 4"
    proof -
      have "\<not> bit (take_bit 4 (drop_bit (i mod 16 * 4) (longs ! (i div 16)))) n" using z by simp
      with that show ?thesis by (simp add: bit_take_bit_iff bit_drop_bit_eq)
    qed
    moreover have "i mod 16 * 4 + n < 64" if "n < 4"
      using that mod_less_divisor [of 16 i] by linarith
    ultimately show "bit (take_bit 4 (drop_bit (i mod 16 * 4)
        (longs ! (i div 16) OR push_bit (i mod 16 * 4) (take_bit 4 v)))) n = bit (take_bit 4 v) n"
      by (auto simp: bit_take_bit_iff bit_drop_bit_eq bit_or_iff bit_push_bit_iff)
  qed
  with assms(1) m show ?thesis by (simp add: nibble_def or_nibble_def)
qed

lemma nibble_or_nibble_other:
  assumes "i \<noteq> j"
  shows "nibble (or_nibble longs i (v AND 0xf)) j = nibble longs j"
proof (cases "i div 16 = j div 16 \<and> i div 16 < length longs")
  case False
  then show ?thesis by (cases "i div 16 = j div 16") (simp_all add: nibble_def or_nibble_def not_less list_update_beyond)
next
  case True
  with assms have ne: "i mod 16 \<noteq> j mod 16" by (metis mod_div_decomp)
  have m: "v AND 0xf = take_bit 4 v" by (simp add: take_bit_eq_mask mask_eq_exp_minus_1)
  have "take_bit 4 (drop_bit (j mod 16 * 4)
      (longs ! (i div 16) OR push_bit (i mod 16 * 4) (take_bit 4 v)))
    = take_bit 4 (drop_bit (j mod 16 * 4) (longs ! (i div 16)))"
  proof (rule bit_word_eqI)
    fix n assume "n < LENGTH(64)"
    have "\<not> (i mod 16 * 4 \<le> j mod 16 * 4 + n \<and> j mod 16 * 4 + n - i mod 16 * 4 < 4)" if "n < 4"
      using that ne by linarith
    then show "bit (take_bit 4 (drop_bit (j mod 16 * 4)
        (longs ! (i div 16) OR push_bit (i mod 16 * 4) (take_bit 4 v)))) n
      = bit (take_bit 4 (drop_bit (j mod 16 * 4) (longs ! (i div 16)))) n"
      by (auto simp: bit_take_bit_iff bit_drop_bit_eq bit_or_iff bit_push_bit_iff)
  qed
  with True show ?thesis unfolding nibble_def or_nibble_def m by simp
qed

lemma nibble_fold:
  assumes "n \<le> 16 * length longs" "\<forall>i. nibble longs i = 0 \<or> 16 * length longs \<le> i"
    "j < 16 * length longs"
  shows "nibble (foldl (\<lambda>longs i. or_nibble longs i (f i AND 0xf)) longs [0..<n]) j
    = (if j < n then unat (f j AND 0xf) else 0)"
  using assms(1)
proof (induction n)
  case 0
  with assms(2,3) show ?case by auto
next
  case (Suc n)
  let ?ls = "foldl (\<lambda>longs i. or_nibble longs i (f i AND 0xf)) longs [0..<n]"
  have IH: "nibble ?ls j = (if j < n then unat (f j AND 0xf) else 0)" using Suc by simp
  show ?case
  proof (cases "j = n")
    case True
    have "n div 16 < length ?ls" using Suc.prems by simp
    moreover have "nibble ?ls n = 0" using IH True by simp
    ultimately have "nibble (or_nibble ?ls n (f n AND 0xf)) n = unat (f n AND 0xf)"
      by (rule nibble_or_nibble_same)
    with True show ?thesis by simp
  next
    case False
    then have "n \<noteq> j" by simp
    from nibble_or_nibble_other [OF this, of ?ls "f n"] IH False show ?thesis by auto
  qed
qed

lemma nibble_pack:
  assumes "i < 4096"
  shows "nibble (packSectionPaletteIndicesModern blocks palette sec ix p) i
    = ix (section_state blocks p palette sec i) mod 16"
proof -
  have "nibble (replicate 256 0) k = 0 \<or> 4096 \<le> k" for k by (auto simp: nibble_def)
  then have "nibble (packSectionPaletteIndicesModern blocks palette sec ix p) i
    = unat (word_of_nat (ix (section_state blocks p palette sec i)) AND (0xf :: 64 word))"
    using nibble_fold [of 4096 "replicate 256 0" i
        "\<lambda>i. word_of_nat (ix (section_state blocks p palette sec i))"] assms
    by (simp add: packSectionPaletteIndicesModern_def)
  moreover have "v AND 0xf = take_bit 4 v" for v :: "64 word"
    by (simp add: take_bit_eq_mask mask_eq_exp_minus_1)
  moreover have "unat (take_bit 4 (word_of_nat m :: 64 word)) = m mod 16" for m
  proof -
    have "unat (take_bit 4 (word_of_nat m :: 64 word)) = take_bit 4 (take_bit 64 m)"
      unfolding unsigned_take_bit_eq unsigned_of_nat by simp
    then show ?thesis by (simp add: take_bit_take_bit) (simp add: take_bit_eq_mod)
  qed
  ultimately show ?thesis by simp
qed

lemma length_pack [simp]: "length (packSectionPaletteIndicesModern blocks palette sec ix p) = 256"
  by (simp add: packSectionPaletteIndicesModern_def)

text \<open>Up to sixteen palette entries every block is found again.\<close>

lemma pack_lookup:
  assumes "length (buildLocalPaletteModern blocks palette sec p) \<le> 16" "i < 4096"
  shows "buildLocalPaletteModern blocks palette sec p !
      nibble (packSectionPaletteIndicesModern blocks palette sec
        (index_by_state (buildLocalPaletteModern blocks palette sec p)) p) i
    = section_state blocks p palette sec i"
  using index_by_state_in [OF buildLocalPalette_distinct section_state_in_palette, of blocks palette sec p i]
    assms by (simp add: nibble_pack)

text \<open>With more, some block comes back as another one: the index is cut to four bits.\<close>

lemma palette_has_witness:
  assumes "sec = Some s" "length (cs_BlockStateIDs s) \<le> 4096"
    "x \<in> set (buildLocalPaletteModern blocks palette sec p)" "x \<noteq> 0"
  shows "\<exists>i < 4096. section_state blocks p palette sec i = x"
proof -
  from assms have "x \<in> blockStateForProtocol blocks p palette ` set (cs_BlockStateIDs s)"
    by (auto simp: buildLocalPaletteModern_def palette_loop_set)
  then obtain i where "i < length (cs_BlockStateIDs s)"
    "x = blockStateForProtocol blocks p palette (cs_BlockStateIDs s ! i)"
    by (auto simp: in_set_conv_nth)
  with assms show ?thesis by (auto simp: section_state_def intro!: exI [of _ i])
qed

lemma pack_aliases:
  assumes "sec = Some s" "length (cs_BlockStateIDs s) \<le> 4096"
    "16 < length (buildLocalPaletteModern blocks palette sec p)"
  shows "\<exists>i < 4096. buildLocalPaletteModern blocks palette sec p !
      nibble (packSectionPaletteIndicesModern blocks palette sec
        (index_by_state (buildLocalPaletteModern blocks palette sec p)) p) i
    \<noteq> section_state blocks p palette sec i"
proof -
  let ?l = "buildLocalPaletteModern blocks palette sec p"
  obtain zs where l0: "?l = 0 # zs" using buildLocalPalette_air by blast
  have d: "distinct ?l" by (rule buildLocalPalette_distinct)
  have "?l ! 16 \<noteq> ?l ! 0" using nth_eq_iff_index_eq [OF d, of 16 0] assms(3) by force
  moreover have "?l ! 0 = 0" using l0 by simp
  ultimately have "?l ! 16 \<noteq> 0" by simp
  moreover have "?l ! 16 \<in> set ?l" using assms(3) by simp
  ultimately obtain i where i: "i < 4096" "section_state blocks p palette sec i = ?l ! 16"
    using palette_has_witness [OF assms(1,2)] by blast
  have "nibble (packSectionPaletteIndicesModern blocks palette sec (index_by_state ?l) p) i = 0"
    using i index_by_state_nth [OF d assms(3)] by (simp add: nibble_pack)
  with i \<open>?l ! 16 \<noteq> 0\<close> \<open>?l ! 0 = 0\<close> show ?thesis by auto
qed

section \<open>The bytes of a section, read back\<close>

lemma flat_step: "flat s = xs @ rest \<Longrightarrow> flat (advance (length xs) s) = rest"
  by simp

lemma readByte_writeByte:
  "flat s = writeByte b @ rest \<Longrightarrow> readByte s = Inr (word_of_int b, advance (length (writeByte b)) s)"
  by (simp add: writeByte_def readByte_advance)

lemma map_varint_int32:
  "\<forall>x \<in> set local. x < 2 ^ 31 \<Longrightarrow>
    concat (map (\<lambda>state. writeVarInt (wrap32 (int state))) local) = concat (map writeVarInt (map int local))"
  by (induction local) (simp_all add: wrap32_id is_int32_def)

lemma is_int64_sint: "is_int64 (sint w)" for w :: "64 word"
  using sint_ge [of w] sint_lt [of w] by (simp add: is_int64_def)

lemma read_longs:
  fixes ws :: "64 word list"
  assumes "flat s = concat (map (\<lambda>value. writeLong (sint value)) ws) @ rest" "length ws = n"
  shows "read_n readLong n s
    = Inr (map sint ws, advance (length (concat (map (\<lambda>value. writeLong (sint value)) ws))) s)"
  using long.read_n_enc [of "map sint ws" s rest] assms by (auto simp: comp_def is_int64_sint)

lemma read_varints:
  assumes "flat s = concat (map (\<lambda>state. writeVarInt (wrap32 (int state))) local) @ rest"
    "\<forall>x \<in> set local. x < 2 ^ 31" "length local = n"
  shows "read_n readVarInt n s = Inr (map int local,
    advance (length (concat (map (\<lambda>state. writeVarInt (wrap32 (int state))) local))) s)"
  using varint.read_n_enc [of "map int local" s rest] assms
  by (auto simp: is_int32_def map_varint_int32 simp del: map_map)

lemma readPaletted_write:
  fixes blocks palette sec p
  defines "local \<equiv> buildLocalPaletteModern blocks palette sec p"
  defines "longs \<equiv> packSectionPaletteIndicesModern blocks palette sec (index_by_state local) p"
  assumes f: "flat s = writeBlockStates766 blocks palette sec p fx @ rest"
    and small: "\<forall>x \<in> set local. x < 2 ^ 31" "length local < 2 ^ 31"
  shows "readPaletted fx s = Inr ((map int local, map sint longs),
    advance (length (writeBlockStates766 blocks palette sec p fx)) s)"
proof -
  let ?A = "writeByte 4" and ?B = "writeVarInt (int (length local))"
  let ?C = "concat (map (\<lambda>state. writeVarInt (wrap32 (int state))) local)"
  let ?D = "if \<not> fx then writeVarInt (int (length longs)) else []"
  let ?E = "concat (map (\<lambda>value. writeLong (sint value)) longs)"
  have w: "writeBlockStates766 blocks palette sec p fx = ?A @ ?B @ ?C @ ?D @ ?E"
    by (simp add: writeBlockStates766_def local_def longs_def Let_def)
  have ll: "length longs = 256" by (simp add: longs_def)
  define s1 where "s1 = advance (length ?A) s"
  define s2 where "s2 = advance (length ?B) s1"
  define s3 where "s3 = advance (length ?C) s2"
  define s4 where "s4 = advance (length ?D) s3"
  have f0: "flat s = ?A @ ?B @ ?C @ ?D @ ?E @ rest" using f w by simp
  then have f1: "flat s1 = ?B @ ?C @ ?D @ ?E @ rest" unfolding s1_def by (rule flat_step)
  then have f2: "flat s2 = ?C @ ?D @ ?E @ rest" unfolding s2_def by (rule flat_step)
  then have f3: "flat s3 = ?D @ ?E @ rest" unfolding s3_def by (rule flat_step)
  then have f4: "flat s4 = ?E @ rest" unfolding s4_def by (rule flat_step)
  have "readByte s = Inr (4, s1)" using readByte_writeByte [OF f0] by (simp add: s1_def)
  moreover have "readVarInt s1 = Inr (int (length local), s2)"
    using varint.dec_enc [OF _ f1] small(2) by (simp add: s2_def is_int32_def)
  moreover have "read_n readVarInt (length local) s2 = Inr (map int local, s3)"
    using read_varints [OF f2 small(1) refl] by (simp add: s3_def)
  moreover have "(if fx then Inr (256, s3) else readVarInt s3) = Inr (256, s4)"
    using varint.dec_enc [of 256 s3 "?E @ rest"] f3 ll by (simp add: s4_def is_int32_def)
  moreover have "read_n readLong 256 s4 = Inr (map sint longs, advance (length ?E) s4)"
    by (rule read_longs [OF f4 ll])
  moreover have "advance (length ?E) s4 = advance (length (?A @ ?B @ ?C @ ?D @ ?E)) s"
    unfolding s1_def s2_def s3_def s4_def by (simp add: add.assoc)
  ultimately show ?thesis by (simp add: readPaletted_def w)
qed

lemma decodeBlocks_write:
  fixes blocks palette sec p
  defines "local \<equiv> buildLocalPaletteModern blocks palette sec p"
  defines "longs \<equiv> packSectionPaletteIndicesModern blocks palette sec (index_by_state local) p"
  shows "decodeBlocks (map int local, map sint longs)
    = map (\<lambda>i. map int local ! nibble longs i) [0..<4096]"
  by (simp add: decodeBlocks_def comp_def)

lemma nibble_in_palette:
  assumes "length (buildLocalPaletteModern blocks palette sec p) \<le> 16" "i < 4096"
  shows "nibble (packSectionPaletteIndicesModern blocks palette sec
        (index_by_state (buildLocalPaletteModern blocks palette sec p)) p) i
    < length (buildLocalPaletteModern blocks palette sec p)"
  using index_by_state_in [OF buildLocalPalette_distinct section_state_in_palette, of blocks palette sec p i]
    assms by (simp add: nibble_pack)

lemma section_roundtrip:
  assumes "flat s = writeBlockStates766 blocks palette sec p fx @ rest"
    "\<forall>x \<in> set (buildLocalPaletteModern blocks palette sec p). x < 2 ^ 31"
    "length (buildLocalPaletteModern blocks palette sec p) \<le> 16"
  shows "\<exists>pl. readPaletted fx s
      = Inr (pl, advance (length (writeBlockStates766 blocks palette sec p fx)) s)
    \<and> decodeBlocks pl = map int (section_states blocks p palette sec)"
proof -
  have "readPaletted fx s = Inr ((map int (buildLocalPaletteModern blocks palette sec p),
      map sint (packSectionPaletteIndicesModern blocks palette sec
        (index_by_state (buildLocalPaletteModern blocks palette sec p)) p)),
      advance (length (writeBlockStates766 blocks palette sec p fx)) s)"
    using assms by (intro readPaletted_write) auto
  moreover have "decodeBlocks (map int (buildLocalPaletteModern blocks palette sec p),
      map sint (packSectionPaletteIndicesModern blocks palette sec
        (index_by_state (buildLocalPaletteModern blocks palette sec p)) p))
    = map int (section_states blocks p palette sec)"
    unfolding decodeBlocks_write section_states_def
    using assms(3) by (simp add: nibble_in_palette pack_lookup del: upt_conv_Cons)
  ultimately show ?thesis by blast
qed

lemma writeSection340_paletted:
  "writeSection340 blocks palette sec p =
    writeBlockStates766 blocks palette sec p False @ replicate 4096 0"
  by (simp add: writeSection340_def writeBlockStates766_def Let_def buildLocalPalette340_modern
      packSectionPaletteIndices340_modern flip: replicate_add)

end
