(* ===== verification/Base64.thy ===== *)
theory Base64
  imports Prelude
begin

text \<open>
  \<open>base64.StdEncoding\<close>: the decoder the registry loader uses, and the encoder the exported
  files were written with. Newlines are skipped; padding is required and ends the input.
\<close>

section \<open>The alphabet\<close>

definition b64_value :: "char \<Rightarrow> nat option" where
  "b64_value c = (let n = of_char c :: nat in
     if 65 \<le> n \<and> n \<le> 90 then Some (n - 65)
     else if 97 \<le> n \<and> n \<le> 122 then Some (n - 71)
     else if 48 \<le> n \<and> n \<le> 57 then Some (n + 4)
     else if n = 43 then Some 62
     else if n = 47 then Some 63
     else None)"

definition b64_char :: "nat \<Rightarrow> char" where
  "b64_char v = char_of (if v < 26 then v + 65 else if v < 52 then v + 71
     else if v < 62 then v - 4 else if v = 62 then 43 else 47)"

lemma b64_value_char: "v < 64 \<Longrightarrow> b64_value (b64_char v) = Some v"
  unfolding b64_value_def b64_char_def Let_def by auto

lemma b64_char_not_special: "v < 64 \<Longrightarrow> b64_char v \<notin> {CHR ''='', CHR 0x0A, CHR 0x0D}"
  using b64_value_char [of v] by (auto simp: b64_value_def)

section \<open>Decoding\<close>

definition ErrBase64 :: go_error where "ErrBase64 = Errorf ''illegal base64 data'' []"

definition byte_of_nat :: "nat \<Rightarrow> byte" where "byte_of_nat n = word_of_nat n"

text \<open>The three bytes of four 6-bit values.\<close>

definition b64_quantum :: "nat \<Rightarrow> nat \<Rightarrow> nat \<Rightarrow> nat \<Rightarrow> byte list" where
  "b64_quantum a b c d =
    (let n = a * 2 ^ 18 + b * 2 ^ 12 + c * 2 ^ 6 + d
     in [byte_of_nat (n div 65536), byte_of_nat (n div 256 mod 256), byte_of_nat (n mod 256)])"

fun b64_groups :: "string \<Rightarrow> byte list result" where
  "b64_groups [] = Inr []"
| "b64_groups (a # b # c # d # rest) =
    (case (b64_value a, b64_value b) of
       (Some x, Some y) \<Rightarrow>
         if c = CHR ''='' then
           (if d = CHR ''='' \<and> rest = [] then Inr (take 1 (b64_quantum x y 0 0)) else Inl ErrBase64)
         else (case b64_value c of None \<Rightarrow> Inl ErrBase64
           | Some z \<Rightarrow>
               if d = CHR ''='' then
                 (if rest = [] then Inr (take 2 (b64_quantum x y z 0)) else Inl ErrBase64)
               else (case b64_value d of None \<Rightarrow> Inl ErrBase64
                 | Some w \<Rightarrow> bindR (b64_groups rest) (\<lambda>bs. Inr (b64_quantum x y z w @ bs))))
     | _ \<Rightarrow> Inl ErrBase64)"
| "b64_groups _ = Inl ErrBase64"

definition b64_decode :: "string \<Rightarrow> byte list result" where
  "b64_decode s = b64_groups (filter (\<lambda>c. c \<noteq> CHR 0x0A \<and> c \<noteq> CHR 0x0D) s)"

section \<open>Encoding\<close>

definition b64_chars :: "nat \<Rightarrow> string" where
  "b64_chars n = [b64_char (n div 2 ^ 18), b64_char (n div 2 ^ 12 mod 64), b64_char (n div 2 ^ 6 mod 64),
     b64_char (n mod 64)]"

fun b64_encode :: "byte list \<Rightarrow> string" where
  "b64_encode [] = []"
| "b64_encode [x] = take 2 (b64_chars (unat x * 65536)) @ ''==''"
| "b64_encode [x, y] = take 3 (b64_chars (unat x * 65536 + unat y * 256)) @ ''=''"
| "b64_encode (x # y # z # rest) =
    b64_chars (unat x * 65536 + unat y * 256 + unat z) @ b64_encode rest"

lemma byte_of_nat_unat [simp]: "byte_of_nat (unat b) = b"
  by (simp add: byte_of_nat_def)

lemma unat_byte_less: "unat (b :: byte) < 256"
  using unsigned_less [of b] by simp

lemma digits64:
  fixes n :: nat
  shows "n div 2 ^ 18 * 2 ^ 18 + n div 2 ^ 12 mod 64 * 2 ^ 12 + n div 2 ^ 6 mod 64 * 2 ^ 6 + n mod 64 = n"
proof -
  define p q r where "p = n div 64" and "q = p div 64" and "r = q div 64"
  have "n = p * 64 + n mod 64" "p = q * 64 + p mod 64" "q = r * 64 + q mod 64"
    by (simp_all add: p_def q_def r_def)
  moreover have "n div 2 ^ 6 = p" "n div 2 ^ 12 = q" "n div 2 ^ 18 = r"
    by (simp_all add: p_def q_def r_def div_mult2_eq [symmetric])
  moreover have "r * 262144 + q mod 64 * 4096 + p mod 64 * 64 + n mod 64 = n"
    using calculation(1-3) by linarith
  ultimately show ?thesis by simp
qed

lemma bytes256:
  fixes a b c :: nat
  assumes "b < 256" "c < 256"
  shows "(a * 65536 + b * 256 + c) div 65536 = a" "(a * 65536 + b * 256 + c) div 256 mod 256 = b"
    "(a * 65536 + b * 256 + c) mod 256 = c"
proof -
  have n: "a * 65536 + b * 256 + c = (a * 256 + b) * 256 + c" by simp
  have 1: "(a * 65536 + b * 256 + c) div 256 = a * 256 + b" unfolding n using assms(2) by simp
  then show "(a * 65536 + b * 256 + c) div 256 mod 256 = b" using assms(1) by simp
  have "(a * 65536 + b * 256 + c) div 65536 = (a * 65536 + b * 256 + c) div 256 div 256"
    by (simp add: div_mult2_eq [symmetric])
  then show "(a * 65536 + b * 256 + c) div 65536 = a" using 1 assms(1) by simp
  show "(a * 65536 + b * 256 + c) mod 256 = c"
    unfolding n mod_mult_self3 using assms(2) by simp
qed

lemma low_digits:
  fixes a b :: nat
  shows "a * 65536 div 64 mod 64 = 0" "a * 65536 mod 64 = 0" "(a * 65536 + b * 256) mod 64 = 0"
proof -
  have "a * 65536 = a * 16 * 64 * 64" "a * 65536 + b * 256 = (a * 1024 + b * 4) * 64" by simp_all
  then show "a * 65536 div 64 mod 64 = 0" "a * 65536 mod 64 = 0" "(a * 65536 + b * 256) mod 64 = 0"
    by (metis mod_mult_self2_is_0 nonzero_mult_div_cancel_right zero_neq_numeral)+
qed

lemma quantum_bytes:
  fixes x y z :: byte
  defines "n \<equiv> unat x * 65536 + unat y * 256 + unat z"
  shows "b64_quantum (n div 2 ^ 18) (n div 2 ^ 12 mod 64) (n div 2 ^ 6 mod 64) (n mod 64) = [x, y, z]"
  unfolding b64_quantum_def Let_def digits64
  by (simp add: n_def bytes256 [OF unat_byte_less unat_byte_less])

lemma quantum_less: "unat x * 65536 + unat y * 256 + unat z < 2 ^ 24"
  for x y z :: byte
  using unat_byte_less [of x] unat_byte_less [of y] unat_byte_less [of z] by simp

lemma b64_groups_chars:
  assumes "n < 2 ^ 24"
  shows "b64_groups (b64_chars n @ rest) = bindR (b64_groups rest) (\<lambda>bs.
    Inr (b64_quantum (n div 2 ^ 18) (n div 2 ^ 12 mod 64) (n div 2 ^ 6 mod 64) (n mod 64) @ bs))"
proof -
  have "n div 2 ^ 18 < 64" using assms by simp
  then show ?thesis
    using b64_char_not_special [of "n div 2 ^ 6 mod 64"] b64_char_not_special [of "n mod 64"]
    by (simp add: b64_chars_def b64_value_char)
qed

lemma b64_groups_encode: "b64_groups (b64_encode bs) = Inr bs"
proof (induction bs rule: b64_encode.induct)
  case 1
  show ?case by simp
next
  case (2 x)
  let ?n = "unat x * 65536"
  have "?n div 2 ^ 18 < 64" using quantum_less [of x 0 0] by simp
  moreover have "?n div 2 ^ 6 mod 64 = 0" "?n mod 64 = 0" using low_digits [of "unat x"] by simp_all
  ultimately show ?case using quantum_bytes [of x 0 0]
    by (simp add: b64_chars_def b64_value_char)
next
  case (3 x y)
  let ?n = "unat x * 65536 + unat y * 256"
  have "?n div 2 ^ 18 < 64" using quantum_less [of x y 0] by simp
  moreover have "?n mod 64 = 0" by (rule low_digits)
  ultimately show ?case using quantum_bytes [of x y 0] b64_char_not_special [of "?n div 2 ^ 6 mod 64"]
    by (simp add: b64_chars_def b64_value_char)
next
  case (4 x y z rest)
  then show ?case
    by (simp only: b64_encode.simps b64_groups_chars [OF quantum_less] quantum_bytes bindR.simps append.simps)
qed

lemma b64_encode_no_newline: "c \<in> set (b64_encode bs) \<Longrightarrow> c \<noteq> CHR 0x0A \<and> c \<noteq> CHR 0x0D"
proof (induction bs rule: b64_encode.induct)
  case (2 x)
  have "unat x * 65536 div 2 ^ 18 < 64" using quantum_less [of x 0 0] by simp
  with 2 show ?case
    using b64_char_not_special [of "unat x * 65536 div 2 ^ 18"] b64_char_not_special [of "unat x * 65536 div 2 ^ 12 mod 64"]
    by (auto simp: b64_chars_def)
next
  case (3 x y)
  let ?n = "unat x * 65536 + unat y * 256"
  have "?n div 2 ^ 18 < 64" using quantum_less [of x y 0] by simp
  with 3 show ?case
    using b64_char_not_special [of "?n div 2 ^ 18"] b64_char_not_special [of "?n div 2 ^ 12 mod 64"]
      b64_char_not_special [of "?n div 2 ^ 6 mod 64"]
    by (auto simp: b64_chars_def)
next
  case (4 x y z rest)
  let ?n = "unat x * 65536 + unat y * 256 + unat z"
  have "?n div 2 ^ 18 < 64" using quantum_less [of x y z] by simp
  with 4 show ?case
    using b64_char_not_special [of "?n div 2 ^ 18"] b64_char_not_special [of "?n div 2 ^ 12 mod 64"]
      b64_char_not_special [of "?n div 2 ^ 6 mod 64"] b64_char_not_special [of "?n mod 64"]
    by (auto simp: b64_chars_def)
qed simp

lemma b64_decode_encode: "b64_decode (b64_encode bs) = Inr bs"
proof -
  have "filter (\<lambda>c. c \<noteq> CHR 0x0A \<and> c \<noteq> CHR 0x0D) (b64_encode bs) = b64_encode bs"
    by (rule filter_True) (use b64_encode_no_newline in blast)
  then show ?thesis by (simp add: b64_decode_def b64_groups_encode)
qed

end
