(* ===== verification/Registry_Data.thy ===== *)
theory Registry_Data
  imports Base64 Go_Net Go_Number
begin

text \<open>
  Registry data (\<open>protocol/registrydata\<close>): the tables a connection sends in the configuration
  phase, their loading from JSON and from a zip of JSON files, and the hot-swappable \<open>Store\<close>.
  \<open>json.Unmarshal\<close> and the zip reader are parameters: what they yield is a record or an error.
\<close>

section \<open>Data\<close>

record registryEntry =
  re_Key :: string
  re_Value :: "byte list"

record registry =
  rg_ID :: string
  rg_Entries :: "registryEntry list"

record tag =
  tg_Key :: string
  tg_Values :: "int list"

record tagRegistry =
  tr_ID :: string
  tr_Tags :: "tag list"

record registryData =
  rd_registries :: "int \<rightharpoonup> registry list"
  rd_tags :: "int \<rightharpoonup> tagRegistry list"
  rd_codecs :: "int \<rightharpoonup> byte list"
  rd_dimensions :: "int \<rightharpoonup> byte list"

text \<open>The encoded forms; maps stand in the order they are ranged over.\<close>

record encodedEntry =
  ee_Key :: string
  ee_Value :: string

record encodedRegistry =
  er_ID :: string
  er_Entries :: "encodedEntry list"

record encodedTag =
  et_Key :: string
  et_Values :: "int list"

record encodedTagRegistry =
  etr_ID :: string
  etr_Tags :: "encodedTag list"

record encodedData =
  ed_Registries :: "(string \<times> encodedRegistry list) list"
  ed_Tags :: "(string \<times> encodedTagRegistry list) list"
  ed_DimensionCodecs :: "(string \<times> string) list"
  ed_Dimensions :: "(string \<times> string) list"

record encodedProtocolData =
  ep_FormatVersion :: int
  ep_Protocol :: int
  ep_Registries :: "encodedRegistry list"
  ep_Tags :: "encodedTagRegistry list"
  ep_DimensionCodec :: string
  ep_Dimension :: string

definition newData :: registryData where
  "newData = \<lparr>rd_registries = Map.empty, rd_tags = Map.empty, rd_codecs = Map.empty,
     rd_dimensions = Map.empty\<rparr>"

definition registries :: "registryData \<Rightarrow> int \<Rightarrow> registry list option" where
  "registries d protocol = rd_registries d protocol"

definition tags :: "registryData \<Rightarrow> int \<Rightarrow> tagRegistry list option" where
  "tags d protocol = rd_tags d protocol"

definition dimensionCodec :: "registryData \<Rightarrow> int \<Rightarrow> byte list option" where
  "dimensionCodec d protocol = rd_codecs d protocol"

definition dimension_nbt :: "registryData \<Rightarrow> int \<Rightarrow> byte list option" where
  "dimension_nbt d protocol = rd_dimensions d protocol"

definition parseProtocol :: "string \<Rightarrow> int result" where
  "parseProtocol value = (case parseInt32 value of
      Inl e \<Rightarrow> Inl (Wrapf e ''parse protocol %q: %w'' [FS value]) | Inr p \<Rightarrow> Inr p)"

section \<open>Decoding\<close>

text \<open>\<open>m[k] = append(m[k], x)\<close>.\<close>

definition append_at :: "('k \<rightharpoonup> 'a list) \<Rightarrow> 'k \<Rightarrow> 'a \<Rightarrow> ('k \<rightharpoonup> 'a list)" where
  "append_at m k x = m(k \<mapsto> (case m k of None \<Rightarrow> [] | Some xs \<Rightarrow> xs) @ [x])"

fun decodeEntries :: "int \<Rightarrow> string \<Rightarrow> encodedEntry list \<Rightarrow> registryEntry list result" where
  "decodeEntries protocol ident [] = Inr []"
| "decodeEntries protocol ident (e # es) = (case b64_decode (ee_Value e) of
      Inl err \<Rightarrow> Inl (Wrapf err ''decode registry %d %s/%s: %w'' [FD protocol, FS ident, FS (ee_Key e)])
    | Inr v \<Rightarrow> bindR (decodeEntries protocol ident es)
        (\<lambda>xs. Inr (\<lparr>re_Key = ee_Key e, re_Value = v\<rparr> # xs)))"

fun decodeRegistries :: "registryData \<Rightarrow> int \<Rightarrow> encodedRegistry list \<Rightarrow> registryData result" where
  "decodeRegistries d protocol [] = Inr d"
| "decodeRegistries d protocol (r # rs) = (case decodeEntries protocol (er_ID r) (er_Entries r) of
      Inl err \<Rightarrow> Inl err
    | Inr es \<Rightarrow> decodeRegistries
        (d\<lparr>rd_registries := append_at (rd_registries d) protocol \<lparr>rg_ID = er_ID r, rg_Entries = es\<rparr>\<rparr>)
        protocol rs)"

fun decodeTags :: "registryData \<Rightarrow> int \<Rightarrow> encodedTagRegistry list \<Rightarrow> registryData" where
  "decodeTags d protocol [] = d"
| "decodeTags d protocol (r # rs) =
     decodeTags (d\<lparr>rd_tags := append_at (rd_tags d) protocol
       \<lparr>tr_ID = etr_ID r, tr_Tags = map (\<lambda>t. \<lparr>tg_Key = et_Key t, tg_Values = et_Values t\<rparr>) (etr_Tags r)\<rparr>\<rparr>)
       protocol rs"

definition decodeDimensionCodec :: "registryData \<Rightarrow> int \<Rightarrow> string \<Rightarrow> registryData result" where
  "decodeDimensionCodec d protocol rawCodec =
    (if rawCodec = '''' then Inr d
     else (case b64_decode rawCodec of
         Inl err \<Rightarrow> Inl (Wrapf err ''decode dimension codec %d: %w'' [FD protocol])
       | Inr cdc \<Rightarrow> Inr (d\<lparr>rd_codecs := (rd_codecs d)(protocol \<mapsto> cdc)\<rparr>)))"

definition decodeDimension :: "registryData \<Rightarrow> int \<Rightarrow> string \<Rightarrow> registryData result" where
  "decodeDimension d protocol rawDimension =
    (if rawDimension = '''' then Inr d
     else (case b64_decode rawDimension of
         Inl err \<Rightarrow> Inl (Wrapf err ''decode dimension %d: %w'' [FD protocol])
       | Inr dm \<Rightarrow> Inr (d\<lparr>rd_dimensions := (rd_dimensions d)(protocol \<mapsto> dm)\<rparr>)))"

section \<open>Loading\<close>

text \<open>A loop over the pairs of a map whose keys are protocols.\<close>

fun over_protocols :: "(registryData \<Rightarrow> int \<Rightarrow> 'a \<Rightarrow> registryData result) \<Rightarrow> (string \<times> 'a) list \<Rightarrow>
    registryData \<Rightarrow> registryData result" where
  "over_protocols f [] d = Inr d"
| "over_protocols f ((rawProtocol, x) # xs) d =
     bindR (parseProtocol rawProtocol) (\<lambda>protocol. bindR (f d protocol x) (over_protocols f xs))"

definition loadBytes :: "(byte list \<Rightarrow> encodedData result) \<Rightarrow> byte list \<Rightarrow> registryData result" where
  "loadBytes unmarshal raw = (case unmarshal raw of
      Inl e \<Rightarrow> Inl (Wrapf e ''parse registry data: %w'' [])
    | Inr enc \<Rightarrow>
        bindR (over_protocols decodeRegistries (ed_Registries enc) newData) (\<lambda>d1.
        bindR (over_protocols (\<lambda>d p x. Inr (decodeTags d p x)) (ed_Tags enc) d1) (\<lambda>d2.
        bindR (over_protocols decodeDimensionCodec (ed_DimensionCodecs enc) d2) (\<lambda>d3.
        over_protocols decodeDimension (ed_Dimensions enc) d3))))"

text \<open>A zip entry: its name, whether it is a directory, and what opening and reading it gives.\<close>

record zipFile =
  zf_Name :: string
  zf_IsDir :: bool
  zf_Content :: "byte list result"

text \<open>\<open>filepath.Base\<close> and \<open>filepath.Ext\<close>.\<close>

definition pathBase :: "string \<Rightarrow> string" where
  "pathBase p = (if p = '''' then ''.'' else
     let q = trimRightByte p (CHR ''/'') in
     if q = '''' then ''/'' else (case lastIndexByte q (CHR ''/'') of None \<Rightarrow> q | Some i \<Rightarrow> drop (Suc i) q))"

definition pathExt :: "string \<Rightarrow> string" where
  "pathExt p = (let f = (case lastIndexByte p (CHR ''/'') of None \<Rightarrow> p | Some i \<Rightarrow> drop (Suc i) p)
     in case lastIndexByte f (CHR ''.'') of None \<Rightarrow> '''' | Some i \<Rightarrow> drop i f)"

definition protocolName :: "string \<Rightarrow> string" where
  "protocolName name = trimSuffix (pathBase name) (pathExt (pathBase name))"

definition isZip :: "byte list \<Rightarrow> bool" where
  "isZip data \<longleftrightarrow> 4 \<le> length data \<and> take 4 data = [0x50, 0x4B, 0x03, 0x04]"

definition loadZipEntry :: "(byte list \<Rightarrow> encodedProtocolData result) \<Rightarrow> registryData \<Rightarrow> int \<Rightarrow>
    zipFile \<Rightarrow> registryData result" where
  "loadZipEntry unmarshal d protocol file =
    bindR (zf_Content file) (\<lambda>raw. case unmarshal raw of
      Inl e \<Rightarrow> Inl (Wrapf e ''parse protocol %d registry data: %w'' [FD protocol])
    | Inr enc \<Rightarrow>
        if ep_FormatVersion enc \<noteq> 0 \<and> ep_FormatVersion enc \<noteq> 1 then
          Inl (Errorf ''unsupported protocol %d registry data format %d'' [FD protocol, FD (ep_FormatVersion enc)])
        else if ep_Protocol enc \<noteq> 0 \<and> ep_Protocol enc \<noteq> protocol then
          Inl (Errorf ''protocol file declared protocol %d, want %d'' [FD (ep_Protocol enc), FD protocol])
        else
          bindR (decodeRegistries d protocol (ep_Registries enc)) (\<lambda>d1.
          bindR (decodeDimensionCodec (decodeTags d1 protocol (ep_Tags enc)) protocol (ep_DimensionCodec enc))
            (\<lambda>d2. decodeDimension d2 protocol (ep_Dimension enc))))"

text \<open>The loop over the entries, with the number of files loaded.\<close>

fun loadZipEntries :: "(byte list \<Rightarrow> encodedProtocolData result) \<Rightarrow> zipFile list \<Rightarrow> registryData \<Rightarrow>
    nat \<Rightarrow> (registryData \<times> nat) result" where
  "loadZipEntries unmarshal [] out loaded = Inr (out, loaded)"
| "loadZipEntries unmarshal (f # fs) out loaded =
    (if zf_IsDir f \<or> pathExt (zf_Name f) \<noteq> ''.json'' then loadZipEntries unmarshal fs out loaded
     else (case parseProtocol (protocolName (zf_Name f)) of
         Inl e \<Rightarrow> Inl (Wrapf e ''parse registry zip entry %q: %w'' [FS (zf_Name f)])
       | Inr protocol \<Rightarrow> (case loadZipEntry unmarshal out protocol f of
           Inl e \<Rightarrow> Inl (Wrapf e ''load registry zip entry %q: %w'' [FS (zf_Name f)])
         | Inr out' \<Rightarrow> loadZipEntries unmarshal fs out' (loaded + 1))))"

definition loadZipBytes :: "(byte list \<Rightarrow> zipFile list result) \<Rightarrow> (byte list \<Rightarrow> encodedProtocolData result) \<Rightarrow>
    byte list \<Rightarrow> registryData result" where
  "loadZipBytes unzip unmarshal raw = (case unzip raw of
      Inl e \<Rightarrow> Inl (Wrapf e ''open registry data zip: %w'' [])
    | Inr files \<Rightarrow> bindR (loadZipEntries unmarshal files newData 0) (\<lambda>(out, loaded).
        if loaded = 0 then Inl (Errorf ''registry data zip contains no protocol json files'' [])
        else Inr out))"

text \<open>\<open>LoadFile\<close> with the file's bytes already read: a zip is told by its magic number.\<close>

definition loadFileBytes :: "(byte list \<Rightarrow> zipFile list result) \<Rightarrow> (byte list \<Rightarrow> encodedProtocolData result) \<Rightarrow>
    (byte list \<Rightarrow> encodedData result) \<Rightarrow> byte list \<Rightarrow> registryData result" where
  "loadFileBytes unzip unmarshalProtocol unmarshal data =
    (if isZip data then loadZipBytes unzip unmarshalProtocol data else loadBytes unmarshal data)"

section \<open>The store (store.go)\<close>

text \<open>A store holds a possibly nil snapshot.\<close>

definition newStore :: "registryData option \<Rightarrow> registryData option result" where
  "newStore data = (case data of None \<Rightarrow> Inl (Errorf ''registry data is nil'' []) | Some d \<Rightarrow> Inr (Some d))"

definition store_registryData :: "registryData option \<Rightarrow> registryData result" where
  "store_registryData st = (case st of
     None \<Rightarrow> Inl (Errorf ''registry data store is empty'' []) | Some d \<Rightarrow> Inr d)"

definition store_update :: "registryData option \<Rightarrow> registryData option \<Rightarrow> unit result \<times> registryData option" where
  "store_update data st = (case data of
     None \<Rightarrow> (Inl (Errorf ''registry data is nil'' []), st) | Some d \<Rightarrow> (Inr (), Some d))"

definition store_updateZip :: "registryData result \<Rightarrow> registryData option \<Rightarrow> unit result \<times> registryData option" where
  "store_updateZip loaded st = (case loaded of Inl e \<Rightarrow> (Inl e, st) | Inr d \<Rightarrow> store_update (Some d) st)"

section \<open>What is loaded\<close>

text \<open>The exporter's side: entries written with standard base64.\<close>

definition encode_registry :: "registry \<Rightarrow> encodedRegistry" where
  "encode_registry r = \<lparr>er_ID = rg_ID r,
     er_Entries = map (\<lambda>e. \<lparr>ee_Key = re_Key e, ee_Value = b64_encode (re_Value e)\<rparr>) (rg_Entries r)\<rparr>"

lemma decodeEntries_encode:
  "decodeEntries p i (map (\<lambda>e. \<lparr>ee_Key = re_Key e, ee_Value = b64_encode (re_Value e)\<rparr>) es) = Inr es"
  by (induction es) (simp_all add: b64_decode_encode)

lemma append_at_same [simp]: "append_at m k x k = Some ((case m k of None \<Rightarrow> [] | Some xs \<Rightarrow> xs) @ [x])"
  by (simp add: append_at_def)

lemma append_at_other [simp]: "k \<noteq> k' \<Longrightarrow> append_at m k x k' = m k'"
  by (simp add: append_at_def)

text \<open>Decoding appends the registries in order and touches nothing else.\<close>

definition append_all :: "('k \<rightharpoonup> 'a list) \<Rightarrow> 'k \<Rightarrow> 'a list \<Rightarrow> ('k \<rightharpoonup> 'a list)" where
  "append_all m k xs = foldl (\<lambda>m x. append_at m k x) m xs"

lemma append_all_at:
  "append_all m k xs k = (if xs = [] then m k else Some ((case m k of None \<Rightarrow> [] | Some ys \<Rightarrow> ys) @ xs))"
  by (induction xs arbitrary: m) (auto simp: append_all_def)

lemma append_all_other: "k \<noteq> k' \<Longrightarrow> append_all m k xs k' = m k'"
  by (induction xs arbitrary: m) (auto simp: append_all_def)

lemma registry_collapse [simp]: "\<lparr>rg_ID = rg_ID r, rg_Entries = rg_Entries r\<rparr> = r"
  by (cases r) simp

lemma decodeRegistries_encode:
  "decodeRegistries d p (map encode_registry rs)
    = Inr (d\<lparr>rd_registries := append_all (rd_registries d) p rs\<rparr>)"
  by (induction rs arbitrary: d) (simp_all add: append_all_def encode_registry_def decodeEntries_encode)

lemma decodeRegistries_shape:
  "decodeRegistries d p rs = Inr d' \<Longrightarrow>
    \<exists>xs. d' = d\<lparr>rd_registries := append_all (rd_registries d) p xs\<rparr> \<and> map rg_ID xs = map er_ID rs"
proof (induction rs arbitrary: d)
  case Nil
  then show ?case by (auto simp: append_all_def)
next
  case (Cons r rs)
  then obtain es where es: "decodeEntries p (er_ID r) (er_Entries r) = Inr es"
    by (auto split: sum.splits)
  let ?x = "\<lparr>rg_ID = er_ID r, rg_Entries = es\<rparr>"
  from Cons.prems es Cons.IH obtain xs where
    "d' = d\<lparr>rd_registries := append_all (append_at (rd_registries d) p ?x) p xs\<rparr>"
    "map rg_ID xs = map er_ID rs" by fastforce
  then show ?case by (intro exI [of _ "?x # xs"]) (simp add: append_all_def)
qed

text \<open>A failed update keeps the snapshot; a good one is what the next connection reads.\<close>

lemma store_update_reads:
  "store_update (Some d) st = (r, st') \<Longrightarrow> r = Inr () \<and> store_registryData st' = Inr d"
  by (auto simp: store_update_def store_registryData_def)

lemma store_updateZip_failed: "store_updateZip loaded st = (Inl e, st') \<Longrightarrow> st' = st"
  by (auto simp: store_updateZip_def store_update_def split: sum.splits)

lemma loadZipEntries_count:
  "loadZipEntries u fs d n = Inr (out, m) \<Longrightarrow>
    m = n + length (filter (\<lambda>f. \<not> zf_IsDir f \<and> pathExt (zf_Name f) = ''.json'') fs)"
  by (induction u fs d n rule: loadZipEntries.induct) (auto split: if_splits sum.splits)

section \<open>An archive read back\<close>

definition encode_tags :: "tagRegistry \<Rightarrow> encodedTagRegistry" where
  "encode_tags r = \<lparr>etr_ID = tr_ID r,
     etr_Tags = map (\<lambda>t. \<lparr>et_Key = tg_Key t, et_Values = tg_Values t\<rparr>) (tr_Tags r)\<rparr>"

lemma tag_collapse [simp]: "\<lparr>tr_ID = tr_ID r, tr_Tags = tr_Tags r\<rparr> = r" "\<lparr>tg_Key = tg_Key t, tg_Values = tg_Values t\<rparr> = t"
  by simp_all

lemma decodeTags_encode:
  "decodeTags d p (map encode_tags ts) = d\<lparr>rd_tags := append_all (rd_tags d) p ts\<rparr>"
  by (induction ts arbitrary: d) (simp_all add: append_all_def encode_tags_def comp_def)

text \<open>What the exporter writes about one protocol, and the archive of several of them.\<close>

type_synonym protocolData = "registry list \<times> tagRegistry list \<times> byte list"

definition encode_protocol :: "int \<Rightarrow> protocolData \<Rightarrow> encodedProtocolData" where
  "encode_protocol p x = (case x of (rs, ts, cdc) \<Rightarrow>
     \<lparr>ep_FormatVersion = 1, ep_Protocol = p, ep_Registries = map encode_registry rs,
      ep_Tags = map encode_tags ts, ep_DimensionCodec = b64_encode cdc, ep_Dimension = ''''\<rparr>)"

definition zip_entry :: "int \<Rightarrow> byte list \<Rightarrow> zipFile" where
  "zip_entry p raw = \<lparr>zf_Name = ''protocols/'' @ itoa p @ ''.json'', zf_IsDir = False, zf_Content = Inr raw\<rparr>"

definition add_protocol :: "registryData \<Rightarrow> int \<times> protocolData \<Rightarrow> registryData" where
  "add_protocol d y = (case y of (p, rs, ts, cdc) \<Rightarrow>
     d\<lparr>rd_registries := append_all (rd_registries d) p rs, rd_tags := append_all (rd_tags d) p ts,
       rd_codecs := (if cdc = [] then rd_codecs d else (rd_codecs d)(p \<mapsto> cdc))\<rparr>)"

lemma b64_encode_Nil_iff [simp]: "b64_encode bs = [] \<longleftrightarrow> bs = []"
  by (cases bs rule: b64_encode.cases) (simp_all add: b64_chars_def)

lemma loadZipEntry_encode:
  "unmarshal raw = Inr (encode_protocol p x) \<Longrightarrow>
    loadZipEntry unmarshal d p (zip_entry p raw) = Inr (add_protocol d (p, x))"
  by (cases x) (simp add: loadZipEntry_def encode_protocol_def zip_entry_def decodeRegistries_encode
    decodeTags_encode decodeDimensionCodec_def decodeDimension_def b64_decode_encode add_protocol_def)

lemma itoa_chars: "c \<in> set (itoa p) \<Longrightarrow> isDigit c \<or> c = CHR ''-''"
  using isDigit_showNat by (auto simp: itoa_def list_all_iff split: if_splits)

lemma itoa_no_sep: "CHR ''/'' \<notin> set (itoa p)" "CHR ''.'' \<notin> set (itoa p)"
  using itoa_chars [of "CHR ''/''" p] itoa_chars [of "CHR ''.''" p] by (auto simp: isDigit_def)

lemma protocolName_entry: "protocolName (''protocols/'' @ itoa p @ ''.json'') = itoa p"
proof -
  have b: "pathBase (''protocols/'' @ itoa p @ ''.json'') = itoa p @ ''.json''"
    using lastIndexByte_append [of "CHR ''/''" "itoa p @ ''.json''" "''protocols''"] itoa_no_sep(1) [of p]
    by (simp add: pathBase_def trimRightByte_def)
  have "lastIndexByte (itoa p @ ''.json'') (CHR ''/'') = None"
    using itoa_no_sep(1) [of p] by (auto simp: lastIndexByte_def indexByte_None_iff)
  then have "pathExt (itoa p @ ''.json'') = ''.json''"
    using lastIndexByte_append [of "CHR ''.''" "''json''" "itoa p"] by (simp add: pathExt_def)
  with b show ?thesis by (simp add: protocolName_def trimSuffix_def hasSuffix_def)
qed

lemma pathExt_entry: "pathExt (''protocols/'' @ itoa p @ ''.json'') = ''.json''"
  using lastIndexByte_append [of "CHR ''/''" "itoa p @ ''.json''" "''protocols''"] itoa_no_sep [of p]
    lastIndexByte_append [of "CHR ''.''" "''json''" "itoa p"]
  by (simp add: pathExt_def)

lemma parseProtocol_itoa: "is_int32 p \<Longrightarrow> parseProtocol (itoa p) = Inr p"
  using parseInt64_itoa [of p] by (simp add: parseProtocol_def parseInt32_def is_int32_def is_int64_def)

lemma loadZipEntries_encode:
  "\<forall>(p, x) \<in> set xs. is_int32 p \<and> unmarshal (raw p) = Inr (encode_protocol p x) \<Longrightarrow>
    loadZipEntries unmarshal (map (\<lambda>(p, x). zip_entry p (raw p)) xs) d n
      = Inr (foldl add_protocol d xs, n + length xs)"
proof (induction xs arbitrary: d n)
  case Nil
  then show ?case by simp
next
  case (Cons y xs)
  obtain p x where y: "y = (p, x)" by (cases y)
  have "zf_Name (zip_entry p (raw p)) = ''protocols/'' @ itoa p @ ''.json''" "\<not> zf_IsDir (zip_entry p (raw p))"
    by (simp_all add: zip_entry_def)
  then show ?case
    using Cons y protocolName_entry [of p] pathExt_entry [of p] parseProtocol_itoa [of p]
      loadZipEntry_encode [of unmarshal "raw p" p x d]
    by (simp add: Let_def)
qed

text \<open>Protocols outside the list keep what they had; each one in it gets its own data.\<close>

definition same_at :: "int \<Rightarrow> registryData \<Rightarrow> registryData \<Rightarrow> bool" where
  "same_at p d d' \<longleftrightarrow> registries d p = registries d' p \<and> tags d p = tags d' p
     \<and> dimensionCodec d p = dimensionCodec d' p"

lemmas data_lookups = registries_def tags_def dimensionCodec_def

lemma add_protocol_other: "fst y \<noteq> p \<Longrightarrow> same_at p (add_protocol d y) d"
  by (cases y) (auto simp: same_at_def data_lookups add_protocol_def append_all_other)

lemma add_protocols_other: "p \<notin> fst ` set xs \<Longrightarrow> same_at p (foldl add_protocol d xs) d"
proof (induction xs arbitrary: d)
  case Nil
  then show ?case by (simp add: same_at_def)
next
  case (Cons y xs)
  then have "same_at p (foldl add_protocol (add_protocol d y) xs) (add_protocol d y)"
    "same_at p (add_protocol d y) d" using add_protocol_other by auto
  then show ?case by (simp add: same_at_def)
qed

definition nonempty :: "'a list \<Rightarrow> 'a list option" where
  "nonempty xs = (if xs = [] then None else Some xs)"

lemma add_protocol_at:
  "same_at p d newData \<Longrightarrow> registries (add_protocol d (p, rs, ts, cdc)) p = nonempty rs
    \<and> tags (add_protocol d (p, rs, ts, cdc)) p = nonempty ts
    \<and> dimensionCodec (add_protocol d (p, rs, ts, cdc)) p = nonempty cdc"
  by (simp add: same_at_def add_protocol_def data_lookups newData_def append_all_at nonempty_def)

lemma add_protocols_at:
  "distinct (map fst xs) \<Longrightarrow> (p, rs, ts, cdc) \<in> set xs \<Longrightarrow> same_at p d newData \<Longrightarrow>
    registries (foldl add_protocol d xs) p = nonempty rs \<and> tags (foldl add_protocol d xs) p = nonempty ts
    \<and> dimensionCodec (foldl add_protocol d xs) p = nonempty cdc"
proof (induction xs arbitrary: d)
  case Nil
  then show ?case by simp
next
  case (Cons y xs)
  show ?case
  proof (cases "y = (p, rs, ts, cdc)")
    case True
    with Cons.prems have "same_at p (foldl add_protocol (add_protocol d y) xs) (add_protocol d y)"
      by (intro add_protocols_other) auto
    with True add_protocol_at [OF Cons.prems(3)] show ?thesis by (simp add: same_at_def)
  next
    case False
    with Cons.prems(2) have m: "(p, rs, ts, cdc) \<in> set xs" by simp
    then have "p \<in> fst ` set xs" by (rule image_eqI [rotated]) simp
    with Cons.prems(1) have "fst y \<noteq> p" by auto
    with m Cons.prems add_protocol_other [of y p d] show ?thesis
      by (simp add: Cons.IH same_at_def)
  qed
qed

lemma loadZipBytes_archive:
  assumes "distinct (map fst xs)" "xs \<noteq> []"
    "\<forall>(p, x) \<in> set xs. is_int32 p \<and> unmarshal (raw p) = Inr (encode_protocol p x)"
    "unzip archive = Inr (map (\<lambda>(p, x). zip_entry p (raw p)) xs)"
    "(p, rs, ts, cdc) \<in> set xs"
  shows "\<exists>d. loadZipBytes unzip unmarshal archive = Inr d \<and> registries d p = nonempty rs
    \<and> tags d p = nonempty ts \<and> dimensionCodec d p = nonempty cdc"
  using add_protocols_at [OF assms(1,5), of newData] loadZipEntries_encode [OF assms(3)] assms(2,4)
  by (simp add: loadZipBytes_def same_at_def)

end
