(* ===== verification/Chunk_Data.thy ===== *)
theory Chunk_Data
  imports Palette Protocol_Config Nbt Registry_Data
begin

text \<open>
  The bodies of chunks, light and heightmaps for every protocol line, and the dimension type a
  modern client is given (\<open>protocol47.go\<close>, \<open>protocol340.go\<close>, \<open>protocol_flat.go\<close>,
  \<open>protocol_codec.go\<close>, \<open>protocol766_data.go\<close>).
\<close>

section \<open>Section masks\<close>

text \<open>The loop \<open>sectionMask |= 1 << uint(section.Y)\<close> of every map-chunk writer.\<close>

definition section_mask :: "chunk \<Rightarrow> 'a::len word" where
  "section_mask c = foldl (\<lambda>m s. if 0 \<le> cs_Y s \<and> cs_Y s < 16 then m OR push_bit (nat (cs_Y s)) 1 else m)
     0 (ch_Sections c)"

text \<open>The loop over the sixteen sections, skipping those the mask does not name.\<close>

definition over_mask :: "'a::len word \<Rightarrow> (nat \<Rightarrow> byte list) \<Rightarrow> byte list" where
  "over_mask msk f = concat (map (\<lambda>y. if msk AND push_bit y 1 = 0 then [] else f y) [0..<16])"

section \<open>Chunk bodies\<close>

definition encodeChunkData47 ::
  "blockTable \<Rightarrow> blockState list \<Rightarrow> chunk \<Rightarrow> 16 word \<Rightarrow> int \<Rightarrow> byte list" where
  "encodeChunkData47 blocks palette chnk sectionMask protocol =
    over_mask sectionMask (\<lambda>y.
      (let sec = findSection (ch_Sections chnk) (int y) in
       concat (map (\<lambda>i. writeShort (int (section_state blocks protocol palette sec i))) [0..<16 * 16 * 16]) @
       replicate (16 * 16 * 16 div 2) 0 @ replicate (16 * 16 * 16 div 2) 0 @
       replicate (16 * 16 * 16 div 2) 0)) @
    replicate (16 * 16) 0"

definition encodeChunkData340 ::
  "blockTable \<Rightarrow> blockState list \<Rightarrow> chunk \<Rightarrow> 32 word \<Rightarrow> int \<Rightarrow> byte list" where
  "encodeChunkData340 blocks palette chnk sectionMask protocol =
    over_mask sectionMask (\<lambda>y.
      writeSection340 blocks palette (findSection (ch_Sections chnk) (int y)) protocol) @
    replicate (16 * 16) 0"

definition encodeChunkDataFlat ::
  "blockTable \<Rightarrow> world \<Rightarrow> chunk \<Rightarrow> 32 word \<Rightarrow> flatProtocolConfig \<Rightarrow> byte list" where
  "encodeChunkDataFlat blocks wrld chnk sectionMask cfg =
    over_mask sectionMask (\<lambda>y.
      (let sec = findSection (ch_Sections chnk) (int y) in
       if fc_chunkSectionSolid cfg then
         writeSectionFlatSolid blocks (w_BlockPalette wrld) sec (fc_protocol cfg)
       else writeSection340 blocks (w_BlockPalette wrld) sec (fc_protocol cfg))) @
    (if fc_chunkBiomesInData cfg then concat (replicate (16 * 16) (writeInt 1)) else [])"

definition encodeChunkDataCodec ::
  "blockTable \<Rightarrow> world \<Rightarrow> chunk \<Rightarrow> 32 word \<Rightarrow> codecProtocolConfig \<Rightarrow> byte list" where
  "encodeChunkDataCodec blocks wrld chnk sectionMask cfg =
    over_mask sectionMask (\<lambda>y.
      writeSectionFlatSolid blocks (w_BlockPalette wrld) (findSection (ch_Sections chnk) (int y))
        (cc_protocol cfg))"

definition writeSection766 ::
  "blockTable \<Rightarrow> blockState list \<Rightarrow> chunkSection option \<Rightarrow> modernProtocolConfig \<Rightarrow> byte list" where
  "writeSection766 blocks palette sec cfg =
    (let protocol = dataProtocolID cfg in
     writeShort (int (nonAirBlockCountModern blocks palette sec protocol)) @
     (if mc_chunkSectionFluidCount cfg then writeShort 0 else []) @
     writeBlockStates766 blocks palette sec protocol (mc_chunkFixedPalettedStorage cfg) @
     writeBiomes766 (mc_chunkFixedPalettedStorage cfg))"

definition encodeChunkDataModern ::
  "blockTable \<Rightarrow> world \<Rightarrow> chunk \<Rightarrow> modernProtocolConfig \<Rightarrow> byte list" where
  "encodeChunkDataModern blocks wrld chnk cfg =
    (let dimension = w_Dimension wrld;
         count0 = go_div (dm_Height dimension) 16;
         sectionCount = (if count0 \<le> 0 then 16 else count0)
     in concat (map (\<lambda>i.
          (let sectionY = wrap32 (go_div (dm_MinY dimension) 16 + int i) in
           writeSection766 blocks (w_BlockPalette wrld) (findSection (ch_Sections chnk) sectionY) cfg))
        [0..<nat sectionCount]))"

section \<open>Heightmaps and light\<close>

definition heightmapsNBT766 :: "byte list" where
  "heightmapsNBT766 = w_anonymousCompound (w_longArray ''MOTION_BLOCKING'' (replicate 37 0))"

definition writeHeightmapsArrayModern :: "byte list" where
  "writeHeightmapsArrayModern =
    writeVarInt 1 @ writeVarInt 4 @ writeVarInt 37 @ concat (replicate 37 (writeLong 0))"

definition writeBitSet :: "64 word list \<Rightarrow> byte list" where
  "writeBitSet values =
    writeVarInt (int (length values)) @ concat (map (\<lambda>value. writeLong (sint value)) values)"

definition full_light :: "byte list" where
  "full_light = concat (replicate 18 (writeVarInt 2048 @ replicate 2048 0xff))"

definition writeLightData766 :: "byte list" where
  "writeLightData766 =
    writeBitSet [0x3ffff] @ writeBitSet [0] @ writeBitSet [0] @ writeBitSet [0x3ffff] @
    writeVarInt 18 @ full_light @ writeVarInt 0"

section \<open>The dimension type (protocol766_data.go)\<close>

definition boolByte :: "bool \<Rightarrow> byte" where
  "boolByte value = (if value then 1 else 0)"

record dimensionIntProvider =
  ip_value :: "int option"
  ip_minInclusive :: "int option"
  ip_maxInclusive :: "int option"

definition fixedDimensionInt :: "int \<Rightarrow> dimensionIntProvider" where
  "fixedDimensionInt value = \<lparr>ip_value = Some value, ip_minInclusive = None, ip_maxInclusive = None\<rparr>"

definition uniformDimensionInt :: "int \<Rightarrow> int \<Rightarrow> dimensionIntProvider" where
  "uniformDimensionInt minInclusive maxInclusive =
    \<lparr>ip_value = None, ip_minInclusive = Some minInclusive, ip_maxInclusive = Some maxInclusive\<rparr>"

record dimensionProtocolSettings =
  ds_piglinSafe :: bool
  ds_respawnAnchorWorks :: bool
  ds_bedWorks :: bool
  ds_hasRaids :: bool
  ds_hasEnderDragonFight :: bool
  ds_infiniburn :: string
  ds_monsterSpawnBlockLightLimit :: int
  ds_monsterSpawnLightLevel :: dimensionIntProvider

definition dimensionProtocolProfile :: "string \<Rightarrow> dimensionProtocolSettings" where
  "dimensionProtocolProfile environment =
    (if environment = DimensionNether then
       \<lparr>ds_piglinSafe = True, ds_respawnAnchorWorks = True, ds_bedWorks = False, ds_hasRaids = False,
        ds_hasEnderDragonFight = False, ds_infiniburn = ''#minecraft:infiniburn_nether'',
        ds_monsterSpawnBlockLightLimit = 15, ds_monsterSpawnLightLevel = fixedDimensionInt 7\<rparr>
     else if environment = DimensionEnd then
       \<lparr>ds_piglinSafe = False, ds_respawnAnchorWorks = False, ds_bedWorks = False, ds_hasRaids = True,
        ds_hasEnderDragonFight = True, ds_infiniburn = ''#minecraft:infiniburn_end'',
        ds_monsterSpawnBlockLightLimit = 0, ds_monsterSpawnLightLevel = uniformDimensionInt 0 7\<rparr>
     else
       \<lparr>ds_piglinSafe = False, ds_respawnAnchorWorks = False, ds_bedWorks = True, ds_hasRaids = True,
        ds_hasEnderDragonFight = False, ds_infiniburn = ''#minecraft:infiniburn_overworld'',
        ds_monsterSpawnBlockLightLimit = 0, ds_monsterSpawnLightLevel = uniformDimensionInt 0 7\<rparr>)"

definition writeMonsterSpawnLightLevel :: "dimensionIntProvider \<Rightarrow> byte list" where
  "writeMonsterSpawnLightLevel provider = (case ip_value provider of
      Some v \<Rightarrow> w_int ''monster_spawn_light_level'' v
    | None \<Rightarrow>
        (let mn = (case ip_minInclusive provider of None \<Rightarrow> 0 | Some v \<Rightarrow> v);
             mx = (case ip_maxInclusive provider of None \<Rightarrow> 7 | Some v \<Rightarrow> v)
         in w_compound ''monster_spawn_light_level''
              (w_int ''min_inclusive'' mn @ w_int ''max_inclusive'' mx @ w_string ''type'' ''minecraft:uniform'')))"

definition dimensionTypeNBT :: "dimension \<Rightarrow> byte list" where
  "dimensionTypeNBT dimension =
    (let profile = dimensionProtocolProfile (dm_Environment dimension) in
     w_anonymousCompound (
       (case dm_FixedTime dimension of None \<Rightarrow> [] | Some t \<Rightarrow> w_long ''fixed_time'' t) @
       w_byte ''piglin_safe'' (boolByte (ds_piglinSafe profile)) @
       w_byte ''natural'' (boolByte (dm_Natural dimension)) @
       w_float ''ambient_light'' (dm_AmbientLight dimension) @
       w_int ''monster_spawn_block_light_limit'' (ds_monsterSpawnBlockLightLimit profile) @
       w_string ''infiniburn'' (ds_infiniburn profile) @
       w_byte ''respawn_anchor_works'' (boolByte (ds_respawnAnchorWorks profile)) @
       w_byte ''has_skylight'' (boolByte (dm_HasSkylight dimension)) @
       w_byte ''bed_works'' (boolByte (ds_bedWorks profile)) @
       w_string ''effects'' (dm_Effects dimension) @
       w_byte ''has_raids'' (boolByte (ds_hasRaids profile)) @
       w_int ''logical_height'' (dm_LogicalHeight dimension) @
       w_double ''coordinate_scale'' (dm_CoordinateScale dimension) @
       writeMonsterSpawnLightLevel (ds_monsterSpawnLightLevel profile) @
       w_int ''min_y'' (dm_MinY dimension) @
       w_byte ''ultrawarm'' (boolByte (dm_UltraWarm dimension)) @
       w_byte ''has_ceiling'' (boolByte (dm_HasCeiling dimension)) @
       w_int ''height'' (dm_Height dimension) @
       w_byte ''has_ender_dragon_fight'' (boolByte (ds_hasEnderDragonFight profile))))"

definition dimensionTypeRegistry766 :: "dimension \<Rightarrow> registry" where
  "dimensionTypeRegistry766 dimension0 =
    (let dimension = normalizeDimension dimension0 256 in
     \<lparr>rg_ID = ''minecraft:dimension_type'',
      rg_Entries = [\<lparr>re_Key = dm_Name dimension, re_Value = dimensionTypeNBT dimension\<rparr>]\<rparr>)"

section \<open>Which sections are sent\<close>

lemma bit_section_mask_foldl:
  fixes m :: "'a::len word"
  assumes "n < 16" "16 \<le> LENGTH('a)"
  shows "bit (foldl (\<lambda>m s. if 0 \<le> cs_Y s \<and> cs_Y s < 16 then m OR push_bit (nat (cs_Y s)) 1 else m) m ss) n
    \<longleftrightarrow> bit m n \<or> (\<exists>s \<in> set ss. cs_Y s = int n)"
proof (induction ss arbitrary: m)
  case Nil
  then show ?case by simp
next
  case (Cons s ss)
  have "bit (push_bit (nat (cs_Y s)) (1 :: 'a word)) n \<longleftrightarrow> n = nat (cs_Y s)"
    using assms by (auto simp: bit_exp_iff)
  then show ?case using Cons assms by (auto simp: bit_or_iff)
qed

lemma bit_section_mask:
  "n < 16 \<Longrightarrow> 16 \<le> LENGTH('a) \<Longrightarrow>
    bit (section_mask c :: 'a::len word) n \<longleftrightarrow> (\<exists>s \<in> set (ch_Sections c). cs_Y s = int n)"
  by (simp add: section_mask_def bit_section_mask_foldl)

lemma over_mask_section_mask:
  "16 \<le> LENGTH('a::len) \<Longrightarrow> over_mask (section_mask c :: 'a word) f
    = concat (map f (filter (\<lambda>y. \<exists>s \<in> set (ch_Sections c). cs_Y s = int y) [0..<16]))"
proof -
  assume l: "16 \<le> LENGTH('a)"
  have "concat (map (\<lambda>y. if (section_mask c :: 'a word) AND push_bit y 1 = 0 then [] else f y) ys)
    = concat (map f (filter (\<lambda>y. \<exists>s \<in> set (ch_Sections c). cs_Y s = int y) ys))"
    if "\<forall>y \<in> set ys. y < 16" for ys
    using that by (induction ys) (auto simp: and_exp_eq_0_iff_not_bit bit_section_mask l)
  then show ?thesis unfolding over_mask_def by simp
qed

lemma findSection_Some: "findSection ss y = Some s \<Longrightarrow> s \<in> set ss \<and> cs_Y s = y"
  by (induction ss) (auto split: if_splits)

lemma findSection_None: "findSection ss y = None \<longleftrightarrow> (\<forall>s \<in> set ss. cs_Y s \<noteq> y)"
  by (induction ss) auto

section \<open>The dimension type as NBT\<close>

definition light_level_nbt :: "dimensionIntProvider \<Rightarrow> nbt" where
  "light_level_nbt provider = (case ip_value provider of
      Some v \<Rightarrow> NInt (word_of_int v)
    | None \<Rightarrow> NCompound [
        (''min_inclusive'', NInt (word_of_int (case ip_minInclusive provider of None \<Rightarrow> 0 | Some v \<Rightarrow> v))),
        (''max_inclusive'', NInt (word_of_int (case ip_maxInclusive provider of None \<Rightarrow> 7 | Some v \<Rightarrow> v))),
        (''type'', NString ''minecraft:uniform'')])"

text \<open>What the client decodes: the attributes by name.\<close>

definition dimension_fields :: "dimension \<Rightarrow> (string \<times> nbt) list" where
  "dimension_fields d =
    (let profile = dimensionProtocolProfile (dm_Environment d) in
     (case dm_FixedTime d of None \<Rightarrow> [] | Some t \<Rightarrow> [(''fixed_time'', NLong (word_of_int t))]) @
     [(''piglin_safe'', NByte (boolByte (ds_piglinSafe profile))),
      (''natural'', NByte (boolByte (dm_Natural d))),
      (''ambient_light'', NFloat (dm_AmbientLight d)),
      (''monster_spawn_block_light_limit'', NInt (word_of_int (ds_monsterSpawnBlockLightLimit profile))),
      (''infiniburn'', NString (ds_infiniburn profile)),
      (''respawn_anchor_works'', NByte (boolByte (ds_respawnAnchorWorks profile))),
      (''has_skylight'', NByte (boolByte (dm_HasSkylight d))),
      (''bed_works'', NByte (boolByte (ds_bedWorks profile))),
      (''effects'', NString (dm_Effects d)),
      (''has_raids'', NByte (boolByte (ds_hasRaids profile))),
      (''logical_height'', NInt (word_of_int (dm_LogicalHeight d))),
      (''coordinate_scale'', NDouble (dm_CoordinateScale d)),
      (''monster_spawn_light_level'', light_level_nbt (ds_monsterSpawnLightLevel profile)),
      (''min_y'', NInt (word_of_int (dm_MinY d))),
      (''ultrawarm'', NByte (boolByte (dm_UltraWarm d))),
      (''has_ceiling'', NByte (boolByte (dm_HasCeiling d))),
      (''height'', NInt (word_of_int (dm_Height d))),
      (''has_ender_dragon_fight'', NByte (boolByte (ds_hasEnderDragonFight profile)))])"

lemma writeMonsterSpawnLightLevel_field:
  "writeMonsterSpawnLightLevel p = field ''monster_spawn_light_level'' (light_level_nbt p)"
proof (cases "ip_value p")
  case (Some v)
  then show ?thesis by (simp add: writeMonsterSpawnLightLevel_def light_level_nbt_def writer_fields)
next
  case None
  then show ?thesis
    by (simp add: writeMonsterSpawnLightLevel_def light_level_nbt_def writer_fields Let_def
        flip: w_compound_field)
qed

lemma dimensionTypeNBT_anonymous: "dimensionTypeNBT d = anonymous (NCompound (dimension_fields d))"
proof -
  have "dimensionTypeNBT d = w_anonymousCompound (concat (map (\<lambda>(n, v). field n v) (dimension_fields d)))"
    by (simp add: dimensionTypeNBT_def dimension_fields_def Let_def writer_fields
        writeMonsterSpawnLightLevel_field split: option.split)
  then show ?thesis by (simp only: w_anonymousCompound_anonymous)
qed

lemma dimension_fields_wf:
  "length (dm_Effects d) < 65536 \<Longrightarrow> wf_nbt (NCompound (dimension_fields d)) \<and>
    nbt_depth (NCompound (dimension_fields d)) \<le> 3"
  by (auto simp: dimension_fields_def Let_def dimensionProtocolProfile_def light_level_nbt_def
      fixedDimensionInt_def uniformDimensionInt_def split: option.splits)

text \<open>A client decodes the dimension type to exactly the attributes of the normalised dimension.\<close>

lemma dimensionTypeNBT_decodes:
  "length (dm_Effects d) < 65536 \<Longrightarrow>
    d_anonymous 3 (dimensionTypeNBT d @ rest) = Some (NCompound (dimension_fields d), rest)"
  using dimension_fields_wf [of d] by (simp only: dimensionTypeNBT_anonymous d_anonymous_anonymous)

text \<open>Lengths that do not depend on the world.\<close>

lemma length_concat_replicate: "length (concat (replicate n xs)) = n * length xs"
  by (induction n) simp_all

text \<open>The sections a map-chunk mask can name.\<close>

definition present :: "chunk \<Rightarrow> nat list" where
  "present chnk = filter (\<lambda>y. \<exists>s \<in> set (ch_Sections chnk). cs_Y s = int y) [0..<16]"

end
