(* ===== verification/Join_Packets.thy ===== *)
theory Join_Packets
  imports Play_Packets Chunk_Data
begin

text \<open>
  The packets that bring a player into the limbo world, for every protocol line: login success,
  join game, spawn and player position, time, chunk and light (\<open>protocol47.go\<close>,
  \<open>protocol340.go\<close>, \<open>protocol_legacy.go\<close>, \<open>protocol_flat.go\<close>, \<open>protocol_codec.go\<close>,
  \<open>protocol766.go\<close>, \<open>world_props.go\<close>). A \<open>_data\<close> definition is the body a writer builds; the
  writer sends it under the packet id of its protocol.
\<close>

section \<open>Sending by name\<close>

definition writeNamedPacket :: "env \<Rightarrow> int \<Rightarrow> pstate \<Rightarrow> string \<Rightarrow> byte list \<Rightarrow> (conn, unit) act" where
  "writeNamedPacket E protocol st name data =
    (case packet_ID (ev_packets E) protocol st ToClient name of
       None \<Rightarrow> failE (Errorf ''missing packet id for protocol %d state %s packet %s'' [FD protocol, FS name])
     | Some i \<Rightarrow> writePacket (mk_packet i data))"

definition writeNamedPacketModern ::
  "env \<Rightarrow> modernProtocolConfig \<Rightarrow> pstate \<Rightarrow> string \<Rightarrow> byte list \<Rightarrow> (conn, unit) act" where
  "writeNamedPacketModern E cfg st name data =
    (case packet_ID (ev_packets E) (packetProtocol cfg) st ToClient name of
       None \<Rightarrow> failE (Errorf ''missing packet id for protocol %d using packet protocol %d state %s packet %s''
         [FD (mc_protocol cfg), FD (packetProtocol cfg), FS name])
     | Some i \<Rightarrow> writePacket (mk_packet i data))"

definition writeOptionalNamedPacketModern ::
  "env \<Rightarrow> modernProtocolConfig \<Rightarrow> pstate \<Rightarrow> string \<Rightarrow> byte list \<Rightarrow> (conn, unit) act" where
  "writeOptionalNamedPacketModern E cfg st name data =
    (case packet_ID (ev_packets E) (packetProtocol cfg) st ToClient name of
       None \<Rightarrow> retE ()
     | Some i \<Rightarrow> writePacket (mk_packet i data))"

section \<open>World properties (world_props.go)\<close>

definition legacyDimensionID :: "dimension \<Rightarrow> int" where
  "legacyDimensionID dimension =
    (let env = dm_Environment (normalizeDimension dimension 256) in
     if env = DimensionNether then 255 else if env = DimensionEnd then 1 else 0)"

definition legacyDimensionInt :: "dimension \<Rightarrow> int" where
  "legacyDimensionInt dimension =
    (let env = dm_Environment (normalizeDimension dimension 256) in
     if env = DimensionNether then - 1 else if env = DimensionEnd then 1 else 0)"

definition worldAgeAndTime :: "dimension \<Rightarrow> int \<times> int" where
  "worldAgeAndTime dimension0 =
    (let dimension = normalizeDimension dimension0 256;
         t0 = (case dm_FixedTime dimension of None \<Rightarrow> 0 | Some t \<Rightarrow> t);
         t1 = (case dm_TimeOfDay dimension of None \<Rightarrow> t0 | Some t \<Rightarrow> t)
     in (dm_WorldAge dimension, t1))"

definition writeUpdateTime :: "env \<Rightarrow> int \<Rightarrow> world \<Rightarrow> (conn, unit) act" where
  "writeUpdateTime E protocol wrld =
    (let dimension = normalizeDimension (w_Dimension wrld) 256 in
     if dm_FixedTime dimension = None \<and> dm_TimeOfDay dimension = None \<and> dm_WorldAge dimension = 0 then retE ()
     else (case packet_ID (ev_packets E) protocol StatePlay ToClient ''update_time'' of
         None \<Rightarrow> retE ()
       | Some i \<Rightarrow> (case worldAgeAndTime dimension of
           (age, timeOfDay) \<Rightarrow> writePacket (mk_packet i (writeLong age @ writeLong timeOfDay)))))"

section \<open>Protocol 47\<close>

definition writeLoginSuccess :: "env \<Rightarrow> int \<Rightarrow> player \<Rightarrow> (conn, unit) act" where
  "writeLoginSuccess E protocol pl =
    writeNamedPacket E protocol StateLogin ''success'' (writeString (pl_UUID pl) @ writeString (pl_Name pl))"

definition joinGame47_data :: "spawnTarget \<Rightarrow> world \<Rightarrow> byte list" where
  "joinGame47_data spawn wrld =
    writeInt 1 @ writeByte (sp_GameMode spawn) @ writeByte (legacyDimensionID (w_Dimension wrld)) @
    writeByte 0 @ writeByte 1 @ writeString ''default'' @ writeBool False"

definition writeJoinGame47 :: "env \<Rightarrow> spawnTarget \<Rightarrow> world \<Rightarrow> (conn, unit) act" where
  "writeJoinGame47 E spawn wrld =
    writeNamedPacket E protocol47 StatePlay ''login'' (joinGame47_data spawn wrld)"

definition spawnPosition_data :: "spawnTarget \<Rightarrow> byte list" where
  "spawnPosition_data spawn =
    (let p = sp_Position spawn in
     writePosition (f64_to_int32 (v_X p)) (f64_to_int32 (v_Y p)) (f64_to_int32 (v_Z p)))"

definition writeSpawnPosition :: "env \<Rightarrow> int \<Rightarrow> spawnTarget \<Rightarrow> (conn, unit) act" where
  "writeSpawnPosition E protocol spawn =
    writeNamedPacket E protocol StatePlay ''spawn_position'' (spawnPosition_data spawn)"

text \<open>The coordinates and angles every position packet starts with.\<close>

definition position_angles :: "spawnTarget \<Rightarrow> byte list" where
  "position_angles spawn =
    writeDouble (v_X (sp_Position spawn)) @ writeDouble (v_Y (sp_Position spawn)) @
    writeDouble (v_Z (sp_Position spawn)) @
    writeFloat (rot_Yaw (sp_Rotation spawn)) @ writeFloat (rot_Pitch (sp_Rotation spawn))"

definition writePlayerPosition47 :: "env \<Rightarrow> spawnTarget \<Rightarrow> (conn, unit) act" where
  "writePlayerPosition47 E spawn =
    writeNamedPacket E protocol47 StatePlay ''position'' (position_angles spawn @ writeByte 0)"

definition mapChunk47_data :: "env \<Rightarrow> world \<Rightarrow> chunk \<Rightarrow> byte list" where
  "mapChunk47_data E wrld chnk =
    (let sectionMask = (section_mask chnk :: 16 word);
         chunkData = encodeChunkData47 (ev_blocks E) (w_BlockPalette wrld) chnk sectionMask protocol47
     in writeInt (ch_X chnk) @ writeInt (ch_Z chnk) @ writeBool True @
        writeUnsignedShort (uint sectionMask) @ writeVarInt (int (length chunkData)) @ chunkData)"

definition writeMapChunk47 :: "env \<Rightarrow> world \<Rightarrow> chunk \<Rightarrow> (conn, unit) act" where
  "writeMapChunk47 E wrld chnk =
    writeNamedPacket E protocol47 StatePlay ''map_chunk'' (mapChunk47_data E wrld chnk)"

section \<open>Protocol 340 and the legacy protocols\<close>

definition joinGame340_data :: "spawnTarget \<Rightarrow> world \<Rightarrow> byte list" where
  "joinGame340_data spawn wrld =
    writeInt 1 @ writeByte (sp_GameMode spawn) @ writeInt (legacyDimensionInt (w_Dimension wrld)) @
    writeByte 0 @ writeByte 1 @ writeString ''default'' @ writeBool False"

definition writeJoinGame340 :: "env \<Rightarrow> spawnTarget \<Rightarrow> world \<Rightarrow> (conn, unit) act" where
  "writeJoinGame340 E spawn wrld =
    writeNamedPacket E protocol340 StatePlay ''login'' (joinGame340_data spawn wrld)"

definition writePlayerPosition340 :: "env \<Rightarrow> spawnTarget \<Rightarrow> (conn, unit) act" where
  "writePlayerPosition340 E spawn =
    writeNamedPacket E protocol340 StatePlay ''position''
      (position_angles spawn @ writeByte 0 @ writeVarInt 1)"

definition mapChunk340_data :: "env \<Rightarrow> world \<Rightarrow> chunk \<Rightarrow> byte list" where
  "mapChunk340_data E wrld chnk =
    (let sectionMask = (section_mask chnk :: 32 word);
         chunkData = encodeChunkData340 (ev_blocks E) (w_BlockPalette wrld) chnk sectionMask protocol340
     in writeInt (ch_X chnk) @ writeInt (ch_Z chnk) @ writeBool True @
        writeVarInt (sint sectionMask) @ writeVarInt (int (length chunkData)) @ chunkData @
        writeVarInt 0)"

definition writeMapChunk340 :: "env \<Rightarrow> world \<Rightarrow> chunk \<Rightarrow> (conn, unit) act" where
  "writeMapChunk340 E wrld chnk =
    writeNamedPacket E protocol340 StatePlay ''map_chunk'' (mapChunk340_data E wrld chnk)"

definition joinGameLegacy_data :: "spawnTarget \<Rightarrow> world \<Rightarrow> legacyProtocolConfig \<Rightarrow> byte list" where
  "joinGameLegacy_data spawn wrld cfg =
    writeInt 1 @ writeByte (sp_GameMode spawn) @
    (if lc_loginDimensionInt cfg then writeInt (legacyDimensionInt (w_Dimension wrld))
     else writeByte (legacyDimensionID (w_Dimension wrld))) @
    writeByte 0 @ writeByte 1 @ writeString ''default'' @ writeBool False"

definition writeJoinGameLegacy ::
  "env \<Rightarrow> spawnTarget \<Rightarrow> world \<Rightarrow> legacyProtocolConfig \<Rightarrow> (conn, unit) act" where
  "writeJoinGameLegacy E spawn wrld cfg =
    writeNamedPacket E (lc_protocol cfg) StatePlay ''login'' (joinGameLegacy_data spawn wrld cfg)"

definition writePlayerPositionLegacy :: "env \<Rightarrow> spawnTarget \<Rightarrow> int \<Rightarrow> (conn, unit) act" where
  "writePlayerPositionLegacy E spawn protocol =
    writeNamedPacket E protocol StatePlay ''position''
      (position_angles spawn @ writeByte 0 @ writeVarInt 1)"

definition mapChunkLegacy_data :: "env \<Rightarrow> world \<Rightarrow> chunk \<Rightarrow> legacyProtocolConfig \<Rightarrow> byte list" where
  "mapChunkLegacy_data E wrld chnk cfg =
    (let sectionMask = (section_mask chnk :: 32 word);
         chunkData = encodeChunkData340 (ev_blocks E) (w_BlockPalette wrld) chnk sectionMask (lc_protocol cfg)
     in writeInt (ch_X chnk) @ writeInt (ch_Z chnk) @ writeBool True @
        writeVarInt (sint sectionMask) @ writeVarInt (int (length chunkData)) @ chunkData @
        (if lc_chunkBlockEntities cfg then writeVarInt 0 else []))"

definition writeMapChunkLegacy ::
  "env \<Rightarrow> world \<Rightarrow> chunk \<Rightarrow> legacyProtocolConfig \<Rightarrow> (conn, unit) act" where
  "writeMapChunkLegacy E wrld chnk cfg =
    writeNamedPacket E (lc_protocol cfg) StatePlay ''map_chunk'' (mapChunkLegacy_data E wrld chnk cfg)"

section \<open>Flat protocols\<close>

definition joinGameFlat_data :: "spawnTarget \<Rightarrow> world \<Rightarrow> flatProtocolConfig \<Rightarrow> byte list" where
  "joinGameFlat_data spawn wrld cfg =
    writeInt 1 @ writeByte (sp_GameMode spawn) @ writeInt (legacyDimensionInt (w_Dimension wrld)) @
    (if fc_loginDifficulty cfg then writeByte 0 else []) @
    (if fc_loginHashedSeed cfg then writeLong 0 else []) @
    writeByte 1 @ writeString ''default'' @
    (if fc_loginViewDistance cfg then writeVarInt 2 else []) @
    writeBool False @
    (if fc_loginRespawnScreen cfg then writeBool False else [])"

definition writeJoinGameFlat ::
  "env \<Rightarrow> spawnTarget \<Rightarrow> world \<Rightarrow> flatProtocolConfig \<Rightarrow> (conn, unit) act" where
  "writeJoinGameFlat E spawn wrld cfg =
    writeNamedPacket E (fc_protocol cfg) StatePlay ''login'' (joinGameFlat_data spawn wrld cfg)"

definition mapChunkFlat_data :: "env \<Rightarrow> world \<Rightarrow> chunk \<Rightarrow> flatProtocolConfig \<Rightarrow> byte list" where
  "mapChunkFlat_data E wrld chnk cfg =
    (let sectionMask = (section_mask chnk :: 32 word);
         chunkData = encodeChunkDataFlat (ev_blocks E) wrld chnk sectionMask cfg
     in writeInt (ch_X chnk) @ writeInt (ch_Z chnk) @ writeBool True @ writeVarInt (sint sectionMask) @
        (if fc_chunkHeightmaps cfg then fullNBT heightmapsNBT766 else []) @
        (if fc_chunkBiomesOuter1024 cfg then concat (replicate 1024 (writeInt 1)) else []) @
        writeVarInt (int (length chunkData)) @ chunkData @ writeVarInt 0)"

definition writeMapChunkFlat ::
  "env \<Rightarrow> world \<Rightarrow> chunk \<Rightarrow> flatProtocolConfig \<Rightarrow> (conn, unit) act" where
  "writeMapChunkFlat E wrld chnk cfg =
    writeNamedPacket E (fc_protocol cfg) StatePlay ''map_chunk'' (mapChunkFlat_data E wrld chnk cfg)"

definition updateLightFlat_data :: "int \<Rightarrow> int \<Rightarrow> byte list" where
  "updateLightFlat_data chunkX chunkZ =
    writeVarInt chunkX @ writeVarInt chunkZ @ writeVarInt 0x3ffff @ writeVarInt 0 @ writeVarInt 0 @
    writeVarInt 0x3ffff @ full_light"

definition writeUpdateLightFlat :: "env \<Rightarrow> int \<Rightarrow> int \<Rightarrow> int \<Rightarrow> (conn, unit) act" where
  "writeUpdateLightFlat E chunkX chunkZ protocol =
    writeNamedPacket E protocol StatePlay ''update_light'' (updateLightFlat_data chunkX chunkZ)"

section \<open>Codec protocols\<close>

definition writeLoginSuccessUUIDNoProperties :: "env \<Rightarrow> int \<Rightarrow> player \<Rightarrow> (conn, unit) act" where
  "writeLoginSuccessUUIDNoProperties E protocol pl =
    bindE (liftE (writeUUID (pl_UUID pl))) (\<lambda>u.
      writeNamedPacket E protocol StateLogin ''success'' (u @ writeString (pl_Name pl)))"

text \<open>\<open>fullNBT\<close> of a codec or a dimension, or the error for a protocol without one.\<close>

definition joinGameCodec_data ::
  "spawnTarget \<Rightarrow> world \<Rightarrow> codecProtocolConfig \<Rightarrow> registryData \<Rightarrow> byte list result" where
  "joinGameCodec_data spawn wrld cfg rd =
    (let dimensionName = dm_Name (normalizeDimension (w_Dimension wrld) 256) in
     case dimensionCodec rd (cc_protocol cfg) of
       None \<Rightarrow> Inl (Errorf ''no generated dimension codec for protocol %d'' [FD (cc_protocol cfg)])
     | Some cdc \<Rightarrow>
         bindR (if cc_dimensionNBT cfg then
                  (case dimension_nbt rd (cc_protocol cfg) of
                     None \<Rightarrow> Inl (Errorf ''no generated dimension for protocol %d'' [FD (cc_protocol cfg)])
                   | Some d \<Rightarrow> Inr (fullNBT d))
                else Inr (writeString dimensionName)) (\<lambda>dim_part.
         Inr (writeInt 1 @ (if cc_dimensionNBT cfg then writeBool False else []) @
           writeByte (sp_GameMode spawn) @ writeByte 255 @ writeVarInt 1 @ writeString dimensionName @
           fullNBT cdc @ dim_part @ writeString dimensionName @ writeLong 0 @
           (if cc_dimensionNBT cfg then writeVarInt 1 else writeByte 1) @ writeVarInt 2 @
           writeBool False @ writeBool False @ writeBool False @ writeBool False)))"

definition writeJoinGameCodec ::
  "env \<Rightarrow> spawnTarget \<Rightarrow> world \<Rightarrow> codecProtocolConfig \<Rightarrow> registryData \<Rightarrow> (conn, unit) act" where
  "writeJoinGameCodec E spawn wrld cfg rd =
    bindE (liftE (joinGameCodec_data spawn wrld cfg rd))
      (\<lambda>d. writeNamedPacket E (cc_protocol cfg) StatePlay ''login'' d)"

definition mapChunkCodec_data :: "env \<Rightarrow> world \<Rightarrow> chunk \<Rightarrow> codecProtocolConfig \<Rightarrow> byte list" where
  "mapChunkCodec_data E wrld chnk cfg =
    (let sectionMask = (section_mask chnk :: 32 word);
         chunkData = encodeChunkDataCodec (ev_blocks E) wrld chnk sectionMask cfg
     in writeInt (ch_X chnk) @ writeInt (ch_Z chnk) @
        (if \<not> cc_chunkMaskLongArray cfg then
           writeBool True @ (if cc_chunkIgnoreOldData cfg then writeBool False else []) @
           writeVarInt (sint sectionMask)
         else writeBitSet [scast sectionMask]) @
        fullNBT heightmapsNBT766 @
        (if cc_chunkBiomeFixed1024 cfg then concat (replicate 1024 (writeInt 1)) else []) @
        (if cc_chunkBiomeVarInts cfg then writeVarInt 1024 @ concat (replicate 1024 (writeVarInt 1)) else []) @
        writeVarInt (int (length chunkData)) @ chunkData @ writeVarInt 0)"

definition writeMapChunkCodec ::
  "env \<Rightarrow> world \<Rightarrow> chunk \<Rightarrow> codecProtocolConfig \<Rightarrow> (conn, unit) act" where
  "writeMapChunkCodec E wrld chnk cfg =
    writeNamedPacket E (cc_protocol cfg) StatePlay ''map_chunk'' (mapChunkCodec_data E wrld chnk cfg)"

definition updateLightCodec_data :: "int \<Rightarrow> int \<Rightarrow> codecProtocolConfig \<Rightarrow> byte list" where
  "updateLightCodec_data chunkX chunkZ cfg =
    writeVarInt chunkX @ writeVarInt chunkZ @ writeBool False @
    (if cc_lightMaskLongArrays cfg then
       writeBitSet [0x3ffff] @ writeBitSet [0] @ writeBitSet [0] @ writeBitSet [0x3ffff] @
       writeVarInt 18 @ full_light @ writeVarInt 0
     else
       writeVarInt 0x3ffff @ writeVarInt 0 @ writeVarInt 0 @ writeVarInt 0x3ffff @ full_light)"

definition writeUpdateLightCodec ::
  "env \<Rightarrow> int \<Rightarrow> int \<Rightarrow> codecProtocolConfig \<Rightarrow> (conn, unit) act" where
  "writeUpdateLightCodec E chunkX chunkZ cfg =
    writeNamedPacket E (cc_protocol cfg) StatePlay ''update_light'' (updateLightCodec_data chunkX chunkZ cfg)"

section \<open>Modern protocols\<close>

definition writeLoginSuccessProperties :: "profileProperty list \<Rightarrow> byte list" where
  "writeLoginSuccessProperties properties =
    writeVarInt (int (length properties)) @
    concat (map (\<lambda>p. writeString (pp_Name p) @ writeString (pp_Value p) @
      (if pp_Signature p = '''' then writeBool False
       else writeBool True @ writeString (pp_Signature p))) properties)"

definition loginSuccessModern_data :: "player \<Rightarrow> modernProtocolConfig \<Rightarrow> byte list result" where
  "loginSuccessModern_data pl cfg =
    bindR (writeUUID (pl_UUID pl)) (\<lambda>u.
      Inr (u @ writeString (pl_Name pl) @
        (if \<not> mc_loginSuccessNoProperties cfg then writeLoginSuccessProperties (pl_ProfileProperties pl) else []) @
        (if mc_strictErrorHandling cfg then writeBool False else [])))"

definition writeLoginSuccessModern ::
  "env \<Rightarrow> player \<Rightarrow> modernProtocolConfig \<Rightarrow> (conn, unit) act" where
  "writeLoginSuccessModern E pl cfg =
    bindE (liftE (loginSuccessModern_data pl cfg))
      (\<lambda>d. writeNamedPacketModern E cfg StateLogin ''success'' d)"

definition writeRegistryCodecModern ::
  "env \<Rightarrow> modernProtocolConfig \<Rightarrow> registryData \<Rightarrow> (conn, unit) act" where
  "writeRegistryCodecModern E cfg rd =
    (case dimensionCodec rd (registryDataProtocolID cfg) of
       None \<Rightarrow> failE (Errorf ''no generated dimension codec for protocol %d'' [FD (registryDataProtocolID cfg)])
     | Some cdc \<Rightarrow> writeNamedPacketModern E cfg StateConfiguration ''registry_data'' cdc)"

definition registry_bytes :: "registry \<Rightarrow> byte list" where
  "registry_bytes r =
    writeString (rg_ID r) @ writeVarInt (int (length (rg_Entries r))) @
    concat (map (\<lambda>e. writeString (re_Key e) @ writeOptionAnonymousNBT True (re_Value e)) (rg_Entries r))"

definition writeRegistryDataModern ::
  "env \<Rightarrow> world \<Rightarrow> modernProtocolConfig \<Rightarrow> registryData \<Rightarrow> (conn, unit) act" where
  "writeRegistryDataModern E wrld cfg rd =
    (case registries rd (registryDataProtocolID cfg) of
       None \<Rightarrow> failE (Errorf ''no generated registry data for protocol %d'' [FD (registryDataProtocolID cfg)])
     | Some rs \<Rightarrow>
         seqE (map (\<lambda>r. writeNamedPacketModern E cfg StateConfiguration ''registry_data'' (registry_bytes r))
           (dimensionTypeRegistry766 (w_Dimension wrld) # rs)))"

definition tags_bytes :: "tagRegistry list \<Rightarrow> byte list" where
  "tags_bytes ts =
    writeVarInt (int (length ts)) @
    concat (map (\<lambda>r. writeString (tr_ID r) @ writeVarInt (int (length (tr_Tags r))) @
      concat (map (\<lambda>t. writeString (tg_Key t) @ writeVarInt (int (length (tg_Values t))) @
        concat (map writeVarInt (tg_Values t))) (tr_Tags r))) ts)"

definition writeTagsModern ::
  "env \<Rightarrow> modernProtocolConfig \<Rightarrow> registryData \<Rightarrow> (conn, unit) act" where
  "writeTagsModern E cfg rd =
    writeNamedPacketModern E cfg StateConfiguration ''tags''
      (tags_bytes (case tags rd (registryDataProtocolID cfg) of None \<Rightarrow> [] | Some ts \<Rightarrow> ts))"

definition joinGamePreConfigurationModern_data ::
  "spawnTarget \<Rightarrow> world \<Rightarrow> modernProtocolConfig \<Rightarrow> registryData \<Rightarrow> byte list result" where
  "joinGamePreConfigurationModern_data spawn wrld cfg rd =
    (let dimensionName = dm_Name (normalizeDimension (w_Dimension wrld) 256) in
     case dimensionCodec rd (registryDataProtocolID cfg) of
       None \<Rightarrow> Inl (Errorf ''no generated dimension codec for protocol %d'' [FD (mc_protocol cfg)])
     | Some cdc \<Rightarrow>
         bindR (if mc_preConfigurationDimensionNBT cfg then
                  (case dimension_nbt rd (registryDataProtocolID cfg) of
                     None \<Rightarrow> Inl (Errorf ''no generated dimension for protocol %d'' [FD (mc_protocol cfg)])
                   | Some d \<Rightarrow> Inr (fullNBT d))
                else Inr (writeString dimensionName)) (\<lambda>dim_part.
         Inr (writeInt 1 @ writeBool False @ writeByte (sp_GameMode spawn) @ writeByte 255 @
           writeVarInt 1 @ writeString dimensionName @ fullNBT cdc @ dim_part @
           writeString dimensionName @ writeLong 0 @ writeVarInt 1 @ writeVarInt 2 @ writeVarInt 2 @
           (if mc_preConfigurationDeath cfg then writeBool False else []) @
           writeBool False @ writeBool False @ writeBool False @ writeBool False @
           (if mc_preConfigurationPortalCooldown cfg then writeVarInt 0 else []))))"

definition writeJoinGamePreConfigurationModern ::
  "env \<Rightarrow> spawnTarget \<Rightarrow> world \<Rightarrow> modernProtocolConfig \<Rightarrow> registryData \<Rightarrow> (conn, unit) act" where
  "writeJoinGamePreConfigurationModern E spawn wrld cfg rd =
    bindE (liftE (joinGamePreConfigurationModern_data spawn wrld cfg rd))
      (\<lambda>d. writeNamedPacketModern E cfg StatePlay ''login'' d)"

definition joinGameLegacyModern_data :: "spawnTarget \<Rightarrow> world \<Rightarrow> byte list" where
  "joinGameLegacyModern_data spawn wrld =
    (let dimensionName = dm_Name (normalizeDimension (w_Dimension wrld) 256) in
     writeInt 1 @ writeBool False @ writeVarInt 1 @ writeString dimensionName @
     writeVarInt 1 @ writeVarInt 2 @ writeVarInt 2 @
     writeBool False @ writeBool False @ writeBool False @
     writeString dimensionName @ writeString dimensionName @ writeLong 0 @
     writeByte (sp_GameMode spawn) @ writeByte 255 @
     writeBool False @ writeBool False @ writeBool False @ writeVarInt 0)"

definition writeJoinGameLegacyModern ::
  "env \<Rightarrow> spawnTarget \<Rightarrow> world \<Rightarrow> modernProtocolConfig \<Rightarrow> (conn, unit) act" where
  "writeJoinGameLegacyModern E spawn wrld cfg =
    writeNamedPacketModern E cfg StatePlay ''login'' (joinGameLegacyModern_data spawn wrld)"

definition joinGameModern_data :: "spawnTarget \<Rightarrow> world \<Rightarrow> modernProtocolConfig \<Rightarrow> byte list" where
  "joinGameModern_data spawn wrld cfg =
    (let dimensionName = dm_Name (normalizeDimension (w_Dimension wrld) 256) in
     writeInt 1 @ writeBool False @ writeVarInt 1 @ writeString dimensionName @
     writeVarInt 1 @ writeVarInt 2 @ writeVarInt 2 @
     writeBool False @ writeBool False @ writeBool False @
     writeVarInt 0 @ writeString dimensionName @ writeLong 0 @
     writeByte (sp_GameMode spawn) @ writeByte 255 @
     writeBool False @ writeBool False @ writeBool False @ writeVarInt 0 @
     (if mc_spawnInfoSeaLevel cfg then writeVarInt (f64_to_int32 (v_Y (sp_Position spawn))) else []) @
     writeBool False)"

definition writeJoinGameModern ::
  "env \<Rightarrow> spawnTarget \<Rightarrow> world \<Rightarrow> modernProtocolConfig \<Rightarrow> (conn, unit) act" where
  "writeJoinGameModern E spawn wrld cfg =
    writeNamedPacketModern E cfg StatePlay ''login'' (joinGameModern_data spawn wrld cfg)"

definition playerPositionModern_data :: "spawnTarget \<Rightarrow> modernProtocolConfig \<Rightarrow> byte list" where
  "playerPositionModern_data spawn cfg =
    (if mc_positionV2 cfg then writeVarInt 1 else []) @
    writeDouble (v_X (sp_Position spawn)) @ writeDouble (v_Y (sp_Position spawn)) @
    writeDouble (v_Z (sp_Position spawn)) @
    (if mc_positionV2 cfg then writeDouble 0 @ writeDouble 0 @ writeDouble 0 else []) @
    writeFloat (rot_Yaw (sp_Rotation spawn)) @ writeFloat (rot_Pitch (sp_Rotation spawn)) @
    (if mc_positionFlagsU32 cfg then writeInt 0 else writeByte 0) @
    (if \<not> mc_positionV2 cfg then writeVarInt 1 else []) @
    (if mc_positionDismountVehicle cfg then writeBool False else [])"

definition writePlayerPositionModern ::
  "env \<Rightarrow> spawnTarget \<Rightarrow> modernProtocolConfig \<Rightarrow> (conn, unit) act" where
  "writePlayerPositionModern E spawn cfg =
    writeNamedPacketModern E cfg StatePlay ''position'' (playerPositionModern_data spawn cfg)"

definition mapChunkModern_data :: "env \<Rightarrow> world \<Rightarrow> chunk \<Rightarrow> modernProtocolConfig \<Rightarrow> byte list" where
  "mapChunkModern_data E wrld chnk cfg =
    (let chunkData = encodeChunkDataModern (ev_blocks E) wrld chnk cfg
     in writeInt (ch_X chnk) @ writeInt (ch_Z chnk) @
        (if mc_chunkHeightmapArray cfg then writeHeightmapsArrayModern
         else if mc_chunkHeightmapFullNBT cfg then fullNBT heightmapsNBT766
         else heightmapsNBT766) @
        writeVarInt (int (length chunkData)) @ chunkData @ writeVarInt 0 @
        (if mc_chunkTrustEdges cfg then writeBool False else []) @ writeLightData766)"

definition writeMapChunkModern ::
  "env \<Rightarrow> world \<Rightarrow> chunk \<Rightarrow> modernProtocolConfig \<Rightarrow> (conn, unit) act" where
  "writeMapChunkModern E wrld chnk cfg =
    writeNamedPacketModern E cfg StatePlay ''map_chunk'' (mapChunkModern_data E wrld chnk cfg)"

definition writeOptionalVarIntPacketModern ::
  "env \<Rightarrow> modernProtocolConfig \<Rightarrow> string \<Rightarrow> int \<Rightarrow> (conn, unit) act" where
  "writeOptionalVarIntPacketModern E cfg name value =
    writeOptionalNamedPacketModern E cfg StatePlay name (writeVarInt value)"

definition writeChunkViewModern ::
  "env \<Rightarrow> spawnTarget \<Rightarrow> modernProtocolConfig \<Rightarrow> (conn, unit) act" where
  "writeChunkViewModern E spawn cfg =
    (let chunkX = chunkCoord (v_X (sp_Position spawn)); chunkZ = chunkCoord (v_Z (sp_Position spawn)) in
     seqE [writeOptionalVarIntPacketModern E cfg ''update_view_distance'' 2,
           writeOptionalVarIntPacketModern E cfg ''simulation_distance'' 2,
           writeOptionalNamedPacketModern E cfg StatePlay ''update_view_position''
             (writeVarInt chunkX @ writeVarInt chunkZ)])"

definition writeChunkBatchFinishedModern ::
  "env \<Rightarrow> int \<Rightarrow> modernProtocolConfig \<Rightarrow> (conn, unit) act" where
  "writeChunkBatchFinishedModern E sz cfg =
    writeNamedPacketModern E cfg StatePlay ''chunk_batch_finished'' (writeVarInt sz)"

section \<open>What is sent\<close>

text \<open>The packet a name stands for, when its id is known.\<close>

definition named :: "env \<Rightarrow> int \<Rightarrow> pstate \<Rightarrow> string \<Rightarrow> byte list \<Rightarrow> packet" where
  "named E protocol st name data = mk_packet (the (packet_ID (ev_packets E) protocol st ToClient name)) data"

definition has_id :: "env \<Rightarrow> int \<Rightarrow> pstate \<Rightarrow> string \<Rightarrow> bool" where
  "has_id E protocol st name \<longleftrightarrow> packet_ID (ev_packets E) protocol st ToClient name \<noteq> None"

definition optional_named :: "env \<Rightarrow> int \<Rightarrow> pstate \<Rightarrow> string \<Rightarrow> byte list \<Rightarrow> packet list" where
  "optional_named E protocol st name data =
    (if has_id E protocol st name then [named E protocol st name data] else [])"

lemma sends_named: "has_id E p st n \<Longrightarrow> sends (writeNamedPacket E p st n d) [named E p st n d]"
  by (auto simp: has_id_def writeNamedPacket_def named_def sends_writePacket)

lemma sends_namedModern:
  "has_id E (packetProtocol cfg) st n \<Longrightarrow>
    sends (writeNamedPacketModern E cfg st n d) [named E (packetProtocol cfg) st n d]"
  by (auto simp: has_id_def writeNamedPacketModern_def named_def sends_writePacket)

lemma sends_optional:
  "sends (writeOptionalNamedPacketModern E cfg st n d) (optional_named E (packetProtocol cfg) st n d)"
  by (auto simp: has_id_def writeOptionalNamedPacketModern_def optional_named_def named_def
      sends_writePacket sends_retE split: option.split)

text \<open>The time packet is sent exactly when the dimension has a time or an age.\<close>

definition time_packets :: "env \<Rightarrow> int \<Rightarrow> world \<Rightarrow> packet list" where
  "time_packets E protocol wrld =
    (let d = normalizeDimension (w_Dimension wrld) 256 in
     if dm_FixedTime d = None \<and> dm_TimeOfDay d = None \<and> dm_WorldAge d = 0 then []
     else optional_named E protocol StatePlay ''update_time''
       (writeLong (dm_WorldAge d) @ writeLong (case dm_TimeOfDay d of Some t \<Rightarrow> t
          | None \<Rightarrow> (case dm_FixedTime d of Some t \<Rightarrow> t | None \<Rightarrow> 0))))"

lemma sends_writeUpdateTime: "sends (writeUpdateTime E protocol wrld) (time_packets E protocol wrld)"
  by (auto simp: writeUpdateTime_def time_packets_def Let_def optional_named_def has_id_def named_def
      worldAgeAndTime_def sends_retE sends_writePacket split: option.splits)

definition view_packets :: "env \<Rightarrow> spawnTarget \<Rightarrow> modernProtocolConfig \<Rightarrow> packet list" where
  "view_packets E spawn cfg =
    optional_named E (packetProtocol cfg) StatePlay ''update_view_distance'' (writeVarInt 2) @
    optional_named E (packetProtocol cfg) StatePlay ''simulation_distance'' (writeVarInt 2) @
    optional_named E (packetProtocol cfg) StatePlay ''update_view_position''
      (writeVarInt (chunkCoord (v_X (sp_Position spawn))) @ writeVarInt (chunkCoord (v_Z (sp_Position spawn))))"

lemma sends_writeChunkViewModern: "sends (writeChunkViewModern E spawn cfg) (view_packets E spawn cfg)"
  using sends_seqE_Cons [OF sends_optional sends_seqE_Cons [OF sends_optional
      sends_seqE_Cons [OF sends_optional sends_seqE_Nil]]]
  by (simp add: writeChunkViewModern_def view_packets_def writeOptionalVarIntPacketModern_def Let_def)

lemma sends_lift: "r = Inr x \<Longrightarrow> sends (f x) ps \<Longrightarrow> sends (bindE (liftE r) f) ps"
  by (simp add: result_simps)

lemma sends_seq_map:
  "(\<And>x. x \<in> set xs \<Longrightarrow> sends (f x) [g x]) \<Longrightarrow> sends (seqE (map f xs)) (map g xs)"
proof (induction xs)
  case Nil
  show ?case by (simp add: sends_def)
next
  case (Cons x xs)
  then show ?case using sends_seqE_Cons [of "f x" "[g x]" "map f xs" "map g xs"]
    by (simp del: seqE.simps)
qed

end
