(* ===== verification/Play_Session.thy ===== *)
theory Play_Session
  imports Play_Packets "HOL-Library.AList"
begin

text \<open>
  The play phase (\<open>protocol/limbo/play_events.go\<close>): the session object with its lock-protected
  state, the API an event handler calls on it, the dispatch of client packets, the event loop
  and the keep-alive goroutine. A handler callback is a program that calls the API and returns
  an error or nil, so that any application is covered.
\<close>

section \<open>The session\<close>

record playSession =
  ss_conn :: conn
  ss_player :: player
  ss_adapter :: playAdapter
  ss_closed :: bool
  ss_resourcePacks :: "(string \<times> resourcePack) list"
  ss_resourcePackProtocolIDs :: "(string \<times> string) list"
  ss_lastResourcePackID :: string

definition new_session :: "conn \<Rightarrow> player \<Rightarrow> playAdapter \<Rightarrow> playSession" where
  "new_session c pl ad = \<lparr>ss_conn = c, ss_player = pl, ss_adapter = ad, ss_closed = False,
     ss_resourcePacks = [], ss_resourcePackProtocolIDs = [], ss_lastResourcePackID = ''''\<rparr>"

text \<open>A writer run on the session's connection under its lock.\<close>

definition on_conn :: "(conn, unit) act \<Rightarrow> (playSession, unit) act" where
  "on_conn m s = (case m (ss_conn s) of (r, c) \<Rightarrow> (r, s\<lparr>ss_conn := c\<rparr>))"

definition rememberResourcePack :: "env \<Rightarrow> resourcePack \<Rightarrow> playSession \<Rightarrow> playSession" where
  "rememberResourcePack E pack s =
    (let ids1 = AList.update (resourcePackProtocolUUID E (rp_ID pack)) (rp_ID pack) (ss_resourcePackProtocolIDs s);
         ids2 = (if rp_Hash pack \<noteq> '''' then AList.update (rp_Hash pack) (rp_ID pack) ids1 else ids1)
     in s\<lparr>ss_resourcePacks := AList.update (rp_ID pack) pack (ss_resourcePacks s),
          ss_resourcePackProtocolIDs := ids2,
          ss_lastResourcePackID := rp_ID pack\<rparr>)"

text \<open>The loop that takes some remaining key is the choice \<open>ev_pick\<close>.\<close>

definition forgetResourcePack :: "env \<Rightarrow> string \<Rightarrow> playSession \<Rightarrow> playSession" where
  "forgetResourcePack E ident s =
    (let packs = AList.delete ident (ss_resourcePacks s);
         ids1 = AList.delete (resourcePackProtocolUUID E ident) (ss_resourcePackProtocolIDs s);
         ids2 = (case map_of (ss_resourcePacks s) ident of
             Some pack \<Rightarrow> if rp_Hash pack \<noteq> '''' then AList.delete (rp_Hash pack) ids1 else ids1
           | None \<Rightarrow> ids1)
     in s\<lparr>ss_resourcePacks := packs, ss_resourcePackProtocolIDs := ids2,
          ss_lastResourcePackID := (if packs = [] then '''' else ev_pick E (map fst packs))\<rparr>)"

section \<open>The API (limbgo.PlayerSession)\<close>

datatype api =
    SendMessage "component option"
  | SendActionBar "component option"
  | ShowTitle title
  | ClearTitle bool
  | ShowDialog "byte list result option"
  | ClearDialog
  | AddResourcePack resourcePack
  | RemoveResourcePack string
  | StoreCookie string "byte list"
  | Transfer string int
  | Disconnect "component option"

fun api_call :: "env \<Rightarrow> api \<Rightarrow> (playSession, unit) act" where
  "api_call E (SendMessage m) s = on_conn (writeSystemMessage E (ss_adapter s) m) s"
| "api_call E (SendActionBar m) s = on_conn (writeActionBar E (ss_adapter s) m) s"
| "api_call E (ShowTitle t) s = on_conn (writeTitle E (ss_adapter s) t) s"
| "api_call E (ClearTitle reset) s = on_conn (writeClearTitle E (ss_adapter s) reset) s"
| "api_call E (ShowDialog d) s = on_conn (writeShowDialog E (ss_adapter s) d) s"
| "api_call E ClearDialog s = on_conn (writeClearDialog E (ss_adapter s)) s"
| "api_call E (AddResourcePack pack) s =
     (case on_conn (writeResourcePack E (ss_adapter s) pack) s of
        (Inl e, s1) \<Rightarrow> (Inl e, s1)
      | (Inr _, s1) \<Rightarrow> (Inr (), rememberResourcePack E pack s1))"
| "api_call E (RemoveResourcePack ident) s =
     (case on_conn (writeRemoveResourcePack E (ss_adapter s) ident) s of
        (Inl e, s1) \<Rightarrow> (Inl e, s1)
      | (Inr _, s1) \<Rightarrow> (Inr (), forgetResourcePack E ident s1))"
| "api_call E (StoreCookie key value) s = on_conn (writeStoreCookie E (ss_adapter s) key value) s"
| "api_call E (Transfer host port) s = on_conn (writeTransfer E (ss_adapter s) host port) s"
| "api_call E (Disconnect reason) s =
     (case on_conn (writeKickDisconnect E (ss_adapter s) reason) s of
        (r, s1) \<Rightarrow> (r, s1\<lparr>ss_closed := True, ss_conn := connClose (ss_conn s1)\<rparr>))"

text \<open>A callback: done with an error or nil, or an API call and what follows its result.\<close>

datatype prog = Return "go_error option" | Call api "unit result \<Rightarrow> prog"

primrec run_prog :: "env \<Rightarrow> prog \<Rightarrow> playSession \<Rightarrow> go_error option \<times> playSession" where
  "run_prog E (Return e) s = (e, s)"
| "run_prog E (Call a k) s = (case api_call E a s of (r, s1) \<Rightarrow> run_prog E (k r) s1)"

section \<open>Events and handlers\<close>

record dialogClickEvent =
  dc_Player :: player
  dc_ID :: string
  dc_Payload :: "byte list option"
  dc_Protocol :: int

record resourcePackResponse =
  rr_Player :: player
  rr_ID :: string
  rr_Pack :: "resourcePack option"
  rr_Status :: string
  rr_StatusCode :: int
  rr_Protocol :: int

datatype event =
    JoinEvent player int
  | ChatEvent player string int
  | CommandEvent player string int
  | DialogClick dialogClickEvent
  | ResourcePackResponse resourcePackResponse

text \<open>
  A handler: the program of each event, and whether it implements
  \<open>ResourcePackResponseHandler\<close>. The number counts the session's packets so far, so a handler may
  answer the same event differently each time, as one with a state of its own does.
\<close>

record handler =
  hd_handle :: "nat \<Rightarrow> event \<Rightarrow> prog"
  hd_resourcePacks :: bool

section \<open>Dispatch\<close>

definition readCustomClickAction :: "playAdapter \<Rightarrow> player \<Rightarrow> byte list \<Rightarrow> dialogClickEvent result" where
  "readCustomClickAction ad pl data =
    bindR (readString 32767 (bytes_reader data)) (\<lambda>(ident, r).
    bindR (readOptionalAnonymousNBT r) (\<lambda>payload.
      Inr \<lparr>dc_Player = pl, dc_ID = ident, dc_Payload = payload, dc_Protocol = pa_protocol ad\<rparr>))"

text \<open>\<open>s.resourcePacks[id]\<close> of an unknown id is the zero pack, here \<open>None\<close>.\<close>

definition readResourcePackResponse :: "env \<Rightarrow> playSession \<Rightarrow> byte list \<Rightarrow> resourcePackResponse result" where
  "readResourcePackResponse E s data =
    (let r0 = bytes_reader data; ad = ss_adapter s in
     bindR (if pa_protocol ad = protocol47 then readString 40 r0
            else if hasModernResourcePackID E ad then readPacketUUID E r0
            else Inr ('''', r0)) (\<lambda>(protocolID, r1).
     bindR (readVarInt r1) (\<lambda>(rawStatus, r2).
     if remaining r2 \<noteq> 0 then
       Inl (Errorf ''resource_pack_receive has %d trailing bytes'' [FD (remaining r2)])
     else
       (let ident = (if protocolID \<noteq> '''' then
               (case map_of (ss_resourcePackProtocolIDs s) protocolID of
                  Some m \<Rightarrow> m | None \<Rightarrow> protocolID)
             else ss_lastResourcePackID s)
        in Inr \<lparr>rr_Player = ss_player s, rr_ID = ident, rr_Pack = map_of (ss_resourcePacks s) ident,
                rr_Status = resourcePackStatus rawStatus, rr_StatusCode = rawStatus,
                rr_Protocol = pa_protocol ad\<rparr>))))"

text \<open>What \<open>handlePlayPacket\<close> does with a packet: fail, ignore it, or give the handler an event.\<close>

definition packet_event :: "env \<Rightarrow> bool \<Rightarrow> playSession \<Rightarrow> packet \<Rightarrow> event option result" where
  "packet_event E takesPacks s p =
    (let ad = ss_adapter s; pl = ss_player s; is = isServerboundPlayPacket E ad (pkt_id p) in
     if is ''chat'' then
       bindR (readFirstPacketString (pkt_data p)) (\<lambda>message.
         if hasPrefix message ''/'' then Inr (Some (CommandEvent pl (trimPrefix message ''/'') (pa_protocol ad)))
         else Inr (Some (ChatEvent pl message (pa_protocol ad))))
     else if is ''chat_message'' then
       bindR (readFirstPacketString (pkt_data p)) (\<lambda>message.
         Inr (Some (ChatEvent pl message (pa_protocol ad))))
     else if is ''chat_command'' \<or> is ''chat_command_signed'' then
       bindR (readFirstPacketString (pkt_data p)) (\<lambda>command.
         Inr (Some (CommandEvent pl (trimPrefix command ''/'') (pa_protocol ad))))
     else if is ''custom_click_action'' then
       bindR (readCustomClickAction ad pl (pkt_data p)) (\<lambda>ev. Inr (Some (DialogClick ev)))
     else if is ''resource_pack_receive'' then
       bindR (readResourcePackResponse E s (pkt_data p)) (\<lambda>ev.
         if takesPacks then Inr (Some (ResourcePackResponse ev)) else Inr None)
     else Inr None)"

definition handlePlayPacket :: "env \<Rightarrow> handler \<Rightarrow> nat \<Rightarrow> packet \<Rightarrow> playSession \<Rightarrow> go_error option \<times> playSession" where
  "handlePlayPacket E h k p s = (case packet_event E (hd_resourcePacks h) s p of
      Inl e \<Rightarrow> (Some e, s)
    | Inr None \<Rightarrow> (None, s)
    | Inr (Some ev) \<Rightarrow> run_prog E (hd_handle h k ev) s)"

definition isClosedPlayConnError :: "go_error \<Rightarrow> bool" where
  "isClosedPlayConnError e \<longleftrightarrow> errors_is e EOF \<or> errors_is e ErrClosedPipe \<or> errors_is e NetErrClosed"

section \<open>Keep-alives\<close>

definition sendKeepAlive :: "env \<Rightarrow> int \<Rightarrow> (playSession, unit) act" where
  "sendKeepAlive E t s =
    (if ss_closed s then (Inr (), s)
     else (case on_conn (writeKeepAlive E (ss_adapter s) t) s of
         (Inl e, s1) \<Rightarrow> (Inl e, s1\<lparr>ss_closed := True, ss_conn := connClose (ss_conn s1)\<rparr>)
       | (Inr _, s1) \<Rightarrow> (Inr (), s1)))"

text \<open>
  One tick of \<open>keepAliveLoop\<close> takes the lock twice: to ask whether the session is closed, and to send.
  Each tells whether the loop goes on.
\<close>

definition keepAliveCheck :: "playSession \<Rightarrow> bool" where
  "keepAliveCheck s = (\<not> ss_closed s)"

definition keepAliveSend :: "env \<Rightarrow> int \<Rightarrow> playSession \<Rightarrow> bool \<times> playSession" where
  "keepAliveSend E t s = (case sendKeepAlive E t s of (Inl _, s1) \<Rightarrow> (False, s1) | (Inr _, s1) \<Rightarrow> (True, s1))"

section \<open>What the API never does\<close>

text \<open>
  Every call keeps the player and the adapter, never reopens the session, only appends to what
  was sent, and leaves no more to read than before.
\<close>

definition session_le :: "playSession \<Rightarrow> playSession \<Rightarrow> bool" where
  "session_le s t \<longleftrightarrow> ss_player t = ss_player s \<and> ss_adapter t = ss_adapter s
     \<and> (ss_closed s \<longrightarrow> ss_closed t) \<and> (c_closed (ss_conn s) \<longrightarrow> c_closed (ss_conn t))
     \<and> (\<exists>xs. c_out (ss_conn t) = c_out (ss_conn s) @ xs)
     \<and> length (flat (c_reader (ss_conn t))) \<le> length (flat (c_reader (ss_conn s)))"

lemma session_le_refl [simp, intro]: "session_le s s"
  by (simp add: session_le_def)

lemma session_le_trans: "session_le s t \<Longrightarrow> session_le t u \<Longrightarrow> session_le s u"
  unfolding session_le_def by (auto intro: order_trans)

lemma on_conn_le:
  "only_writes m \<Longrightarrow> on_conn m s = (r, t) \<Longrightarrow>
    session_le s t \<and> ss_closed t = ss_closed s \<and> c_reader (ss_conn t) = c_reader (ss_conn s)
    \<and> ss_resourcePacks t = ss_resourcePacks s \<and> ss_resourcePackProtocolIDs t = ss_resourcePackProtocolIDs s
    \<and> ss_lastResourcePackID t = ss_lastResourcePackID s \<and> c_closed (ss_conn t) = c_closed (ss_conn s)"
proof -
  assume m: "only_writes m" and o: "on_conn m s = (r, t)"
  obtain c where c: "m (ss_conn s) = (r, c)" and t: "t = s\<lparr>ss_conn := c\<rparr>"
    using o by (cases "m (ss_conn s)") (simp add: on_conn_def)
  from m c have "c_reader c = c_reader (ss_conn s)" "c_closed c = c_closed (ss_conn s)"
    "\<exists>xs. c_out c = c_out (ss_conn s) @ xs" unfolding only_writes_def by (metis snd_conv)+
  then show ?thesis by (simp add: session_le_def t)
qed

lemma on_conn_session_le: "on_conn m s = (r, t) \<Longrightarrow> only_writes m \<Longrightarrow> session_le s t"
  using on_conn_le by blast

lemma connClose_facts [simp]:
  "c_closed (connClose c)" "c_out (connClose c) = c_out c"
  "length (flat (c_reader (connClose c))) \<le> length (flat (c_reader c))"
  by (simp_all add: connClose_def flat_def)

lemma rememberResourcePack_le: "session_le s (rememberResourcePack E p s)"
  by (simp add: session_le_def rememberResourcePack_def Let_def)

lemma forgetResourcePack_le: "session_le s (forgetResourcePack E i s)"
  by (simp add: session_le_def forgetResourcePack_def Let_def)

lemma api_call_le: "api_call E a s = (r, t) \<Longrightarrow> session_le s t"
proof (cases a)
  case (AddResourcePack p)
  assume "api_call E a s = (r, t)"
  moreover obtain r1 s1 where o: "on_conn (writeResourcePack E (ss_adapter s) p) s = (r1, s1)" by fastforce
  moreover have "session_le s s1" using on_conn_le [OF _ o] by (simp add: only_writes_intros)
  ultimately show ?thesis using AddResourcePack rememberResourcePack_le
    by (auto split: sum.splits intro: session_le_trans)
next
  case (RemoveResourcePack i)
  assume "api_call E a s = (r, t)"
  moreover obtain r1 s1 where o: "on_conn (writeRemoveResourcePack E (ss_adapter s) i) s = (r1, s1)" by fastforce
  moreover have "session_le s s1" using on_conn_le [OF _ o] by (simp add: only_writes_intros)
  ultimately show ?thesis using RemoveResourcePack forgetResourcePack_le
    by (auto split: sum.splits intro: session_le_trans)
next
  case (Disconnect reason)
  assume "api_call E a s = (r, t)"
  moreover obtain r1 s1 where o: "on_conn (writeKickDisconnect E (ss_adapter s) reason) s = (r1, s1)" by fastforce
  moreover have "session_le s s1" using on_conn_le [OF _ o] by (simp add: only_writes_intros)
  moreover have "session_le s1 (s1\<lparr>ss_closed := True, ss_conn := connClose (ss_conn s1)\<rparr>)"
    by (simp add: session_le_def)
  ultimately show ?thesis using Disconnect by (auto intro: session_le_trans)
qed (auto intro!: only_writes_play only_writes_titles elim!: on_conn_session_le)

lemma run_prog_le: "run_prog E p s = (e, t) \<Longrightarrow> session_le s t"
proof (induction p arbitrary: s)
  case (Return e')
  then show ?case by simp
next
  case (Call a k)
  obtain r s1 where a: "api_call E a s = (r, s1)" by (cases "api_call E a s")
  with Call.prems have "run_prog E (k r) s1 = (e, t)" by simp
  then have "session_le s1 t" using Call.IH by blast
  with api_call_le [OF a] show ?case by (rule session_le_trans)
qed

lemma handlePlayPacket_le: "handlePlayPacket E h k p s = (e, t) \<Longrightarrow> session_le s t"
  by (auto simp: handlePlayPacket_def split: sum.splits option.splits intro: run_prog_le)

section \<open>The event loop\<close>

text \<open>
  The loop of \<open>servePlayEvents\<close> with a context that is not cancelled and no keep-alive in
  between (both are in the step relation below): it ends because every packet read takes at
  least one byte.
\<close>

definition session_read :: "playSession \<Rightarrow> packet result \<times> playSession" where
  "session_read s = (case connReadPacket (ss_conn s) of (r, c) \<Rightarrow> (r, s\<lparr>ss_conn := c\<rparr>))"

lemma session_read_less:
  "session_read s = (Inr p, t) \<Longrightarrow>
    length (flat (c_reader (ss_conn t))) < length (flat (c_reader (ss_conn s)))"
  using readPacket_consumes
  by (fastforce simp: session_read_def connReadPacket_def split: sum.splits prod.splits)

function play_loop :: "env \<Rightarrow> handler \<Rightarrow> nat \<Rightarrow> playSession \<Rightarrow> go_error option \<times> playSession" where
  "play_loop E h k s = (case session_read s of
      (Inl e, s1) \<Rightarrow> (if isClosedPlayConnError e then None else Some e, s1)
    | (Inr p, s1) \<Rightarrow> (case handlePlayPacket E h k p s1 of
          (Some e, s2) \<Rightarrow> (Some e, s2)
        | (None, s2) \<Rightarrow> if ss_closed s2 then (None, s2) else play_loop E h (Suc k) s2))"
  by pat_completeness auto
termination
  by (relation "measure (\<lambda>(E, h, k, s). length (flat (c_reader (ss_conn s))))")
    (auto dest!: sym [of _ "session_read s" for s] sym [of _ "handlePlayPacket E h k p s" for E h k p s]
      session_read_less handlePlayPacket_le simp: session_le_def)

declare play_loop.simps [simp del]

definition servePlayEvents :: "env \<Rightarrow> handler option \<Rightarrow> player \<Rightarrow> playAdapter \<Rightarrow> conn \<Rightarrow>
    go_error option \<times> playSession" where
  "servePlayEvents E h pl ad c = (case h of
      None \<Rightarrow> (None, new_session c pl ad)
    | Some hnd \<Rightarrow> (case run_prog E (hd_handle hnd 0 (JoinEvent pl (pa_protocol ad))) (new_session c pl ad) of
          (Some e, s) \<Rightarrow> (Some e, s)
        | (None, s) \<Rightarrow> if ss_closed s then (None, s) else play_loop E hnd 1 s))"

end
