(* ===== verification/Join_Flows.thy ===== *)
theory Join_Flows
  imports Join_Packets Play_Session
begin

text \<open>
  The flows that take a logged-in player into the world, one per protocol line
  (\<open>serveProtocol47\<close>, \<open>serveProtocol340\<close>, \<open>serveLegacyProtocol\<close>, \<open>serveFlatProtocol\<close>,
  \<open>serveCodecProtocol\<close>, \<open>serveModernPreConfigurationProtocol\<close>, \<open>serveModernProtocol\<close>), and
  \<open>join.go\<close>. Each is a block of steps on the connection that ends in the play loop.
\<close>

section \<open>Services (protocol.go, join.go)\<close>

text \<open>
  What an adapter sees of a session: the join resolver when the services implement it, the spawn
  and world lookups otherwise, and the event handler.
\<close>

record services =
  sv_ResolveJoin :: "(player \<Rightarrow> (world \<times> spawnTarget) result) option"
  sv_ResolveSpawn :: "player \<Rightarrow> spawnTarget result"
  sv_World :: "string \<Rightarrow> world result"
  sv_Events :: "handler option"

definition resolveJoin :: "services \<Rightarrow> player \<Rightarrow> (world \<times> spawnTarget) result" where
  "resolveJoin sv pl = (case sv_ResolveJoin sv of
      Some resolve \<Rightarrow> resolve pl
    | None \<Rightarrow>
        bindR (sv_ResolveSpawn sv pl) (\<lambda>spawn.
        bindR (sv_World sv (sp_World spawn)) (\<lambda>wrld.
          Inr (wrld, if sp_World spawn = '''' then spawn\<lparr>sp_World := w_ID wrld\<rparr> else spawn))))"

text \<open>The play loop as the last step of a flow.\<close>

definition serve_play :: "env \<Rightarrow> services \<Rightarrow> player \<Rightarrow> playAdapter \<Rightarrow> (conn, unit) act" where
  "serve_play E sv pl ad c = (case servePlayEvents E (sv_Events sv) pl ad c of
      (None, s) \<Rightarrow> (Inr (), ss_conn s) | (Some e, s) \<Rightarrow> (Inl e, ss_conn s))"

text \<open>The chunk the player spawns in, or the error that names it.\<close>

definition spawn_chunk :: "world \<Rightarrow> spawnTarget \<Rightarrow> chunk result" where
  "spawn_chunk wrld spawn =
    (let x = chunkCoord (v_X (sp_Position spawn)); z = chunkCoord (v_Z (sp_Position spawn)) in
     case w_Chunk wrld x z of
       None \<Rightarrow> Inl (Wrapf ErrWorldNotFound ''%w: spawn chunk %d,%d'' [FD x, FD z])
     | Some chnk \<Rightarrow> Inr chnk)"

definition with_join ::
  "services \<Rightarrow> player \<Rightarrow> (world \<Rightarrow> spawnTarget \<Rightarrow> (conn, unit) act) \<Rightarrow> (conn, unit) act" where
  "with_join sv pl f = bindE (liftE (resolveJoin sv pl)) (\<lambda>(wrld, spawn). f wrld spawn)"

definition with_chunk ::
  "world \<Rightarrow> spawnTarget \<Rightarrow> (chunk \<Rightarrow> (conn, unit) act) \<Rightarrow> (conn, unit) act" where
  "with_chunk wrld spawn f = bindE (liftE (spawn_chunk wrld spawn)) f"

section \<open>The flows\<close>

definition serveProtocol47 :: "env \<Rightarrow> services \<Rightarrow> player \<Rightarrow> (conn, unit) act" where
  "serveProtocol47 E sv pl = with_join sv pl (\<lambda>wrld spawn. seqE [
     writeLoginSuccess E protocol47 pl,
     writeJoinGame47 E spawn wrld,
     writeSpawnPosition E protocol47 spawn,
     writePlayerPosition47 E spawn,
     writeUpdateTime E protocol47 wrld,
     with_chunk wrld spawn (\<lambda>chnk. seqE [
       writeMapChunk47 E wrld chnk,
       newBufReader,
       serve_play E sv pl (newPlayAdapter protocol47)])])"

definition serveProtocol340 :: "env \<Rightarrow> services \<Rightarrow> player \<Rightarrow> (conn, unit) act" where
  "serveProtocol340 E sv pl = with_join sv pl (\<lambda>wrld spawn. seqE [
     writeLoginSuccess E protocol340 pl,
     writeJoinGame340 E spawn wrld,
     writeSpawnPosition E protocol340 spawn,
     writePlayerPosition340 E spawn,
     writeUpdateTime E protocol340 wrld,
     with_chunk wrld spawn (\<lambda>chnk. seqE [
       writeMapChunk340 E wrld chnk,
       newBufReader,
       serve_play E sv pl (newPlayAdapter protocol340)])])"

definition serveLegacyProtocol ::
  "env \<Rightarrow> services \<Rightarrow> player \<Rightarrow> legacyProtocolConfig \<Rightarrow> (conn, unit) act" where
  "serveLegacyProtocol E sv pl cfg = with_join sv pl (\<lambda>wrld spawn. seqE [
     writeLoginSuccess E (lc_protocol cfg) pl,
     writeJoinGameLegacy E spawn wrld cfg,
     writeSpawnPosition E (lc_protocol cfg) spawn,
     writePlayerPositionLegacy E spawn (lc_protocol cfg),
     writeUpdateTime E (lc_protocol cfg) wrld,
     with_chunk wrld spawn (\<lambda>chnk. seqE [
       writeMapChunkLegacy E wrld chnk cfg,
       newBufReader,
       serve_play E sv pl (newPlayAdapter (lc_protocol cfg))])])"

definition serveFlatProtocol ::
  "env \<Rightarrow> services \<Rightarrow> player \<Rightarrow> flatProtocolConfig \<Rightarrow> (conn, unit) act" where
  "serveFlatProtocol E sv pl cfg = with_join sv pl (\<lambda>wrld spawn. seqE [
     writeLoginSuccess E (fc_protocol cfg) pl,
     writeJoinGameFlat E spawn wrld cfg,
     writeSpawnPosition E (fc_protocol cfg) spawn,
     writePlayerPositionLegacy E spawn (fc_protocol cfg),
     writeUpdateTime E (fc_protocol cfg) wrld,
     with_chunk wrld spawn (\<lambda>chnk. seqE [
       writeMapChunkFlat E wrld chnk cfg,
       whenE (fc_chunkUpdateLight cfg) (writeUpdateLightFlat E (ch_X chnk) (ch_Z chnk) (fc_protocol cfg)),
       newBufReader,
       serve_play E sv pl (newPlayAdapter (fc_protocol cfg))])])"

definition serveCodecProtocol ::
  "env \<Rightarrow> services \<Rightarrow> player \<Rightarrow> codecProtocolConfig \<Rightarrow> registryData \<Rightarrow> (conn, unit) act" where
  "serveCodecProtocol E sv pl cfg rd = with_join sv pl (\<lambda>wrld spawn. seqE [
     writeLoginSuccessUUIDNoProperties E (cc_protocol cfg) pl,
     writeJoinGameCodec E spawn wrld cfg rd,
     writeSpawnPosition E (cc_protocol cfg) spawn,
     writePlayerPositionLegacy E spawn (cc_protocol cfg),
     writeUpdateTime E (cc_protocol cfg) wrld,
     with_chunk wrld spawn (\<lambda>chnk. seqE [
       writeMapChunkCodec E wrld chnk cfg,
       writeUpdateLightCodec E (ch_X chnk) (ch_Z chnk) cfg,
       newBufReader,
       serve_play E sv pl (newPlayAdapter (cc_protocol cfg))])])"

definition serveModernPreConfigurationProtocol ::
  "env \<Rightarrow> services \<Rightarrow> player \<Rightarrow> modernProtocolConfig \<Rightarrow> registryData \<Rightarrow> (conn, unit) act" where
  "serveModernPreConfigurationProtocol E sv pl cfg rd = with_join sv pl (\<lambda>wrld spawn. seqE [
     writeLoginSuccessModern E pl cfg,
     writeJoinGamePreConfigurationModern E spawn wrld cfg rd,
     writePlayerPositionModern E spawn cfg,
     writeUpdateTime E (packetProtocol cfg) wrld,
     writeChunkViewModern E spawn cfg,
     with_chunk wrld spawn (\<lambda>chnk. seqE [
       writeMapChunkModern E wrld chnk cfg,
       newBufReader,
       serve_play E sv pl (newModernPlayAdapter cfg)])])"

section \<open>The configuration phase\<close>

definition serverID :: "env \<Rightarrow> modernProtocolConfig \<Rightarrow> pstate \<Rightarrow> string \<Rightarrow> int option" where
  "serverID E cfg st name = packet_ID (ev_packets E) (packetProtocol cfg) st ToServer name"

definition ignorable_names :: "string list" where
  "ignorable_names = [''settings'', ''cookie_response'', ''custom_payload'', ''keep_alive'', ''pong'',
     ''resource_pack_receive'', ''select_known_packs'', ''custom_report_details'', ''server_links'',
     ''custom_click_action'', ''accept_code_of_conduct'']"

definition isIgnorableConfigurationServerboundPacket ::
  "env \<Rightarrow> modernProtocolConfig \<Rightarrow> int \<Rightarrow> bool" where
  "isIgnorableConfigurationServerboundPacket E cfg i \<longleftrightarrow>
    (\<exists>name \<in> set ignorable_names. serverID E cfg StateConfiguration name = Some i)"

text \<open>The id a mismatch error reports: 0 when the id is unknown.\<close>

definition id_or_0 :: "int option \<Rightarrow> int" where
  "id_or_0 i = (case i of None \<Rightarrow> 0 | Some n \<Rightarrow> n)"

definition read_acknowledged :: "env \<Rightarrow> modernProtocolConfig \<Rightarrow> (conn, unit) act" where
  "read_acknowledged E cfg = bindE connReadPacket (\<lambda>ack.
     let ackID = serverID E cfg StateLogin ''login_acknowledged'' in
     if ackID = Some (pkt_id ack) then retE ()
     else failE (Errorf ''expected login_acknowledged packet %d, got %d'' [FD (id_or_0 ackID), FD (pkt_id ack)]))"

text \<open>The loop of \<open>waitForFinishConfigurationModern\<close>; each packet shortens what is left to read.\<close>

function wait_finish :: "env \<Rightarrow> modernProtocolConfig \<Rightarrow> int \<Rightarrow> conn \<Rightarrow> unit result \<times> conn" where
  "wait_finish E cfg finishID c = (case connReadPacket c of
      (Inl e, c1) \<Rightarrow> (Inl e, c1)
    | (Inr p, c1) \<Rightarrow>
        if pkt_id p = finishID then (Inr (), c1)
        else if \<not> isIgnorableConfigurationServerboundPacket E cfg (pkt_id p) then
          (Inl (Errorf ''expected finish_configuration packet %d, got %d'' [FD finishID, FD (pkt_id p)]), c1)
        else wait_finish E cfg finishID c1)"
  by pat_completeness auto

lemma connReadPacket_less:
  "connReadPacket c = (Inr p, c1) \<Longrightarrow> length (flat (c_reader c1)) < length (flat (c_reader c))"
  using readPacket_consumes by (fastforce simp: connReadPacket_def split: sum.splits prod.splits)

termination wait_finish
  by (relation "measure (\<lambda>(E, cfg, i, c). length (flat (c_reader c)))")
    (auto dest!: sym [of _ "connReadPacket c" for c] connReadPacket_less)

declare wait_finish.simps [simp del]

definition waitForFinishConfigurationModern :: "env \<Rightarrow> modernProtocolConfig \<Rightarrow> (conn, unit) act" where
  "waitForFinishConfigurationModern E cfg = (case serverID E cfg StateConfiguration ''finish_configuration'' of
      None \<Rightarrow> failE (Errorf ''missing finish_configuration packet id for protocol %d'' [FD (packetProtocol cfg)])
    | Some finishID \<Rightarrow> wait_finish E cfg finishID)"

definition serveModernProtocol ::
  "env \<Rightarrow> services \<Rightarrow> player \<Rightarrow> modernProtocolConfig \<Rightarrow> registryData \<Rightarrow> (conn, unit) act" where
  "serveModernProtocol E sv pl cfg rd = with_join sv pl (\<lambda>wrld spawn. seqE [
     writeLoginSuccessModern E pl cfg,
     read_acknowledged E cfg,
     (if mc_registryCodecNBT cfg then writeRegistryCodecModern E cfg rd
      else writeRegistryDataModern E wrld cfg rd),
     writeTagsModern E cfg rd,
     writeNamedPacketModern E cfg StateConfiguration ''finish_configuration'' [],
     waitForFinishConfigurationModern E cfg,
     (if mc_legacyPlayLogin cfg then writeJoinGameLegacyModern E spawn wrld cfg
      else writeJoinGameModern E spawn wrld cfg),
     writePlayerPositionModern E spawn cfg,
     writeUpdateTime E (packetProtocol cfg) wrld,
     writeChunkViewModern E spawn cfg,
     with_chunk wrld spawn (\<lambda>chnk. seqE [
       writeNamedPacketModern E cfg StatePlay ''chunk_batch_start'' [],
       writeMapChunkModern E wrld chnk cfg,
       writeChunkBatchFinishedModern E 1 cfg,
       serve_play E sv pl (newModernPlayAdapter cfg)])])"

section \<open>Composition lemmas\<close>

lemma seqE_step: "sends m ps \<Longrightarrow> live c \<Longrightarrow> seqE (m # ms) c = seqE ms (put_out (map packetFrame ps) c)"
  by (simp add: sends_def)

lemma seqE_single: "seqE [m] c = m c"
  by (auto split: prod.splits sum.splits)

lemma seqE_whenE: "seqE (whenE b m # ms) c = (if b then seqE (m # ms) c else seqE ms c)"
  by (simp add: whenE_def retE_def)

lemma with_join_Inr: "resolveJoin sv pl = Inr (wrld, spawn) \<Longrightarrow> with_join sv pl f = f wrld spawn"
  by (simp add: with_join_def result_simps)

lemma with_join_Inl: "resolveJoin sv pl = Inl e \<Longrightarrow> with_join sv pl f c = (Inl e, c)"
  by (simp add: with_join_def result_simps failE_def)

lemma with_chunk_Inr: "spawn_chunk wrld spawn = Inr chnk \<Longrightarrow> with_chunk wrld spawn f = f chnk"
  by (simp add: with_chunk_def result_simps)

lemma with_chunk_Inl: "spawn_chunk wrld spawn = Inl e \<Longrightarrow> with_chunk wrld spawn f c = (Inl e, c)"
  by (simp add: with_chunk_def result_simps failE_def)

lemmas flow_defs = serveProtocol47_def serveProtocol340_def serveLegacyProtocol_def serveFlatProtocol_def
  serveCodecProtocol_def serveModernPreConfigurationProtocol_def serveModernProtocol_def

text \<open>No flow sends a byte before the join is resolved.\<close>

lemma flows_unresolved:
  assumes "resolveJoin sv pl = Inl e"
  shows "serveProtocol47 E sv pl c = (Inl e, c)" "serveProtocol340 E sv pl c = (Inl e, c)"
    "serveLegacyProtocol E sv pl lcfg c = (Inl e, c)" "serveFlatProtocol E sv pl fcfg c = (Inl e, c)"
    "serveCodecProtocol E sv pl ccfg rd c = (Inl e, c)"
    "serveModernPreConfigurationProtocol E sv pl mcfg rd c = (Inl e, c)"
    "serveModernProtocol E sv pl mcfg rd c = (Inl e, c)"
  by (simp_all add: flow_defs with_join_Inl [OF assms])

section \<open>What each flow sends\<close>

text \<open>The join packets of protocol 47, up to the chunk.\<close>

definition join47 :: "env \<Rightarrow> player \<Rightarrow> world \<Rightarrow> spawnTarget \<Rightarrow> packet list" where
  "join47 E pl wrld spawn = [
     named E protocol47 StateLogin ''success'' (writeString (pl_UUID pl) @ writeString (pl_Name pl)),
     named E protocol47 StatePlay ''login'' (joinGame47_data spawn wrld),
     named E protocol47 StatePlay ''spawn_position'' (spawnPosition_data spawn),
     named E protocol47 StatePlay ''position'' (position_angles spawn @ writeByte 0)] @
     time_packets E protocol47 wrld"

definition ids47 :: "env \<Rightarrow> int \<Rightarrow> bool" where
  "ids47 E protocol \<longleftrightarrow> has_id E protocol StateLogin ''success''
     \<and> has_id E protocol StatePlay ''login'' \<and> has_id E protocol StatePlay ''spawn_position''
     \<and> has_id E protocol StatePlay ''position'' \<and> has_id E protocol StatePlay ''map_chunk''"

lemma serveProtocol47_sends:
  assumes ids: "ids47 E protocol47" and live: "live c"
    and join: "resolveJoin sv pl = Inr (wrld, spawn)" and chunk: "spawn_chunk wrld spawn = Inr chnk"
  shows "serveProtocol47 E sv pl c = seqE [newBufReader, serve_play E sv pl (newPlayAdapter protocol47)]
    (put_out (map packetFrame (join47 E pl wrld spawn @
       [named E protocol47 StatePlay ''map_chunk'' (mapChunk47_data E wrld chnk)])) c)"
proof -
  note s = sends_named [of E protocol47]
  show ?thesis
    using ids live
    by (simp add: serveProtocol47_def with_join_Inr [OF join] with_chunk_Inr [OF chunk] ids47_def
        writeLoginSuccess_def writeJoinGame47_def writeSpawnPosition_def writePlayerPosition47_def
        writeMapChunk47_def seqE_step [OF s] seqE_step [OF sends_writeUpdateTime] seqE_single join47_def
        del: seqE.simps)
qed

lemma serveProtocol47_no_chunk:
  assumes ids: "ids47 E protocol47" and live: "live c"
    and join: "resolveJoin sv pl = Inr (wrld, spawn)" and chunk: "spawn_chunk wrld spawn = Inl e"
  shows "serveProtocol47 E sv pl c = (Inl e, put_out (map packetFrame (join47 E pl wrld spawn)) c)"
proof -
  note s = sends_named [of E protocol47]
  show ?thesis
    using ids live
    by (simp add: serveProtocol47_def with_join_Inr [OF join] with_chunk_Inl [OF chunk] ids47_def
        writeLoginSuccess_def writeJoinGame47_def writeSpawnPosition_def writePlayerPosition47_def
        seqE_step [OF s] seqE_step [OF sends_writeUpdateTime] seqE_single join47_def
        del: seqE.simps)
qed

section \<open>The modern flow\<close>

lemma live_reader [simp]: "live (c\<lparr>c_reader := r\<rparr>) = live c"
  by (simp add: live_def)

lemma put_out_reader [simp]: "(put_out xs c)\<lparr>c_reader := r\<rparr> = put_out xs (c\<lparr>c_reader := r\<rparr>)"
  by (simp add: put_out_def)

text \<open>The connection after \<open>n\<close> more bytes were read from it.\<close>

definition skip :: "nat \<Rightarrow> conn \<Rightarrow> conn" where
  "skip n c = c\<lparr>c_reader := advance n (c_reader c)\<rparr>"

lemma skip_simps [simp]:
  "live (skip n c) = live c" "flat (c_reader (skip n c)) = drop n (flat (c_reader c))"
  "skip m (skip n c) = skip (n + m) c" "skip n (put_out xs c) = put_out xs (skip n c)"
  "c_out (skip n c) = c_out c"
  by (simp_all add: skip_def put_out_def live_def)

lemma connReadPacket_frame:
  "packet_ok p \<Longrightarrow> flat (c_reader c) = packetFrame p @ rest \<Longrightarrow>
    connReadPacket c = (Inr p, skip (length (packetFrame p)) c)"
  by (simp add: connReadPacket_def wire_packet.dec_enc skip_def)

lemma read_acknowledged_frame:
  assumes "packet_ok ack" "flat (c_reader c) = packetFrame ack @ rest"
    "serverID E cfg StateLogin ''login_acknowledged'' = Some (pkt_id ack)"
  shows "read_acknowledged E cfg c = (Inr (), skip (length (packetFrame ack)) c)"
  by (simp add: read_acknowledged_def bindE_def connReadPacket_frame [OF assms(1,2)] assms(3) retE_def)

text \<open>
  Any number of ignorable packets is skipped up to the one that finishes the configuration;
  anything else in its place ends the connection.
\<close>

lemma wait_finish_skips:
  "\<forall>p \<in> set ps. packet_ok p \<and> pkt_id p \<noteq> i \<and> isIgnorableConfigurationServerboundPacket E cfg (pkt_id p) \<Longrightarrow>
    flat (c_reader c) = concat (map packetFrame ps) @ rest \<Longrightarrow>
    wait_finish E cfg i c = wait_finish E cfg i (skip (length (concat (map packetFrame ps))) c)"
proof (induction ps arbitrary: c)
  case Nil
  then show ?case by (simp add: skip_def)
next
  case (Cons p ps)
  let ?c1 = "skip (length (packetFrame p)) c"
  have r: "connReadPacket c = (Inr p, ?c1)"
    using Cons.prems by (intro connReadPacket_frame [where rest = "concat (map packetFrame ps) @ rest"]) simp_all
  have "wait_finish E cfg i ?c1 = wait_finish E cfg i (skip (length (concat (map packetFrame ps))) ?c1)"
    using Cons.prems by (intro Cons.IH) simp_all
  then show ?case using Cons.prems(1) by (subst wait_finish.simps) (simp add: r)
qed

lemma wait_finish_frames:
  assumes "\<forall>p \<in> set ps. packet_ok p \<and> pkt_id p \<noteq> i \<and> isIgnorableConfigurationServerboundPacket E cfg (pkt_id p)"
    "packet_ok q" "pkt_id q = i \<or> \<not> isIgnorableConfigurationServerboundPacket E cfg (pkt_id q)"
    "flat (c_reader c) = concat (map packetFrame ps) @ packetFrame q @ rest"
  shows "wait_finish E cfg i c =
    (if pkt_id q = i then Inr ()
     else Inl (Errorf ''expected finish_configuration packet %d, got %d'' [FD i, FD (pkt_id q)]),
     skip (length (concat (map packetFrame ps) @ packetFrame q)) c)"
proof -
  let ?c1 = "skip (length (concat (map packetFrame ps))) c"
  have "connReadPacket ?c1 = (Inr q, skip (length (packetFrame q)) ?c1)"
    using assms(2,4) by (intro connReadPacket_frame [where rest = rest]) simp_all
  then show ?thesis unfolding wait_finish_skips [OF assms(1,4)]
    using assms(3) by (subst wait_finish.simps) auto
qed

text \<open>What the configuration phase sends of the registries.\<close>

definition registry_packets ::
  "env \<Rightarrow> world \<Rightarrow> modernProtocolConfig \<Rightarrow> registryData \<Rightarrow> packet list option" where
  "registry_packets E wrld cfg rd =
    (let pkt = named E (packetProtocol cfg) StateConfiguration ''registry_data'' in
     if mc_registryCodecNBT cfg then map_option (\<lambda>cdc. [pkt cdc]) (dimensionCodec rd (registryDataProtocolID cfg))
     else map_option (\<lambda>rs. map (\<lambda>r. pkt (registry_bytes r)) (dimensionTypeRegistry766 (w_Dimension wrld) # rs))
       (registries rd (registryDataProtocolID cfg)))"

lemma sends_registries:
  assumes "registry_packets E wrld cfg rd = Some ps"
    "has_id E (packetProtocol cfg) StateConfiguration ''registry_data''"
  shows "sends (if mc_registryCodecNBT cfg then writeRegistryCodecModern E cfg rd
      else writeRegistryDataModern E wrld cfg rd) ps"
proof (cases "mc_registryCodecNBT cfg")
  case True
  with assms show ?thesis
    by (auto simp: registry_packets_def writeRegistryCodecModern_def sends_namedModern)
next
  case False
  with assms obtain rs where rs: "registries rd (registryDataProtocolID cfg) = Some rs"
    and ps: "ps = map (\<lambda>r. named E (packetProtocol cfg) StateConfiguration ''registry_data'' (registry_bytes r))
      (dimensionTypeRegistry766 (w_Dimension wrld) # rs)"
    by (auto simp: registry_packets_def Let_def)
  have "writeRegistryDataModern E wrld cfg rd
      = seqE (map (\<lambda>r. writeNamedPacketModern E cfg StateConfiguration ''registry_data'' (registry_bytes r))
          (dimensionTypeRegistry766 (w_Dimension wrld) # rs))"
    by (simp only: writeRegistryDataModern_def rs option.case)
  moreover have "sends \<dots> ps" unfolding ps by (rule sends_seq_map) (rule sends_namedModern [OF assms(2)])
  ultimately show ?thesis using False by simp
qed

definition tags_packet :: "env \<Rightarrow> modernProtocolConfig \<Rightarrow> registryData \<Rightarrow> packet" where
  "tags_packet E cfg rd = named E (packetProtocol cfg) StateConfiguration ''tags''
    (tags_bytes (case tags rd (registryDataProtocolID cfg) of None \<Rightarrow> [] | Some ts \<Rightarrow> ts))"

definition ids_modern :: "env \<Rightarrow> int \<Rightarrow> bool" where
  "ids_modern E protocol \<longleftrightarrow> has_id E protocol StateLogin ''success''
     \<and> has_id E protocol StateConfiguration ''registry_data'' \<and> has_id E protocol StateConfiguration ''tags''
     \<and> has_id E protocol StateConfiguration ''finish_configuration''
     \<and> has_id E protocol StatePlay ''login'' \<and> has_id E protocol StatePlay ''position''
     \<and> has_id E protocol StatePlay ''chunk_batch_start'' \<and> has_id E protocol StatePlay ''map_chunk''
     \<and> has_id E protocol StatePlay ''chunk_batch_finished''"

text \<open>Everything a modern client is sent on the way in, with the success packet's body \<open>success\<close>.\<close>

definition join_modern :: "env \<Rightarrow> world \<Rightarrow> spawnTarget \<Rightarrow> modernProtocolConfig \<Rightarrow> registryData \<Rightarrow>
    packet list \<Rightarrow> byte list \<Rightarrow> chunk \<Rightarrow> packet list" where
  "join_modern E wrld spawn cfg rd regs success chnk =
    (let pkt = named E (packetProtocol cfg) in
     [pkt StateLogin ''success'' success] @ regs @ [tags_packet E cfg rd] @
     [pkt StateConfiguration ''finish_configuration'' [],
      pkt StatePlay ''login'' (if mc_legacyPlayLogin cfg then joinGameLegacyModern_data spawn wrld
        else joinGameModern_data spawn wrld cfg),
      pkt StatePlay ''position'' (playerPositionModern_data spawn cfg)] @
     time_packets E (packetProtocol cfg) wrld @ view_packets E spawn cfg @
     [pkt StatePlay ''chunk_batch_start'' [],
      pkt StatePlay ''map_chunk'' (mapChunkModern_data E wrld chnk cfg),
      pkt StatePlay ''chunk_batch_finished'' (writeVarInt 1)])"

lemma seqE_act: "m c = (Inr (), c') \<Longrightarrow> seqE (m # ms) c = seqE ms c'"
  by simp

lemma serveModernProtocol_sends:
  fixes c :: conn
  assumes ids: "ids_modern E (packetProtocol cfg)" and live: "live c"
    and join: "resolveJoin sv pl = Inr (wrld, spawn)" and chunk: "spawn_chunk wrld spawn = Inr chnk"
    and uuid: "loginSuccessModern_data pl cfg = Inr success"
    and regs: "registry_packets E wrld cfg rd = Some regs"
    and ack: "packet_ok ack" "serverID E cfg StateLogin ''login_acknowledged'' = Some (pkt_id ack)"
    and fin: "packet_ok fin" "serverID E cfg StateConfiguration ''finish_configuration'' = Some (pkt_id fin)"
    and skipped: "\<forall>p \<in> set ps. packet_ok p \<and> pkt_id p \<noteq> pkt_id fin
      \<and> isIgnorableConfigurationServerboundPacket E cfg (pkt_id p)"
    and input: "flat (c_reader c) = packetFrame ack @ concat (map packetFrame ps) @ packetFrame fin @ rest"
  shows "\<exists>n. serveModernProtocol E sv pl cfg rd c = serve_play E sv pl (newModernPlayAdapter cfg)
      (put_out (map packetFrame (join_modern E wrld spawn cfg rd regs success chnk)) (skip n c))
    \<and> flat (c_reader (skip n c)) = rest"
proof -
  note s = sends_namedModern [of E cfg]
  let ?n1 = "length (packetFrame ack)"
  let ?n2 = "length (concat (map packetFrame ps) @ packetFrame fin)"
  have a: "read_acknowledged E cfg (put_out xs c) = (Inr (), put_out xs (skip ?n1 c))" for xs
    using read_acknowledged_frame [OF ack(1), of "put_out xs c"] input ack(2) by simp
  have w: "waitForFinishConfigurationModern E cfg (put_out xs (skip ?n1 c))
      = (Inr (), put_out xs (skip (?n1 + ?n2) c))" for xs
    using wait_finish_frames [OF skipped fin(1) disjI1 [OF refl], of "put_out xs (skip ?n1 c)" rest] input
    by (simp add: waitForFinishConfigurationModern_def fin(2))
  have a': "seqE (read_acknowledged E cfg # ms) (put_out xs c) = seqE ms (put_out xs (skip ?n1 c))" for xs ms
    by (rule seqE_act) (rule a)
  have w': "seqE (waitForFinishConfigurationModern E cfg # ms) (put_out xs (skip ?n1 c))
      = seqE ms (put_out xs (skip (?n1 + ?n2) c))" for xs ms
    by (rule seqE_act) (rule w)
  have l: "writeLoginSuccessModern E pl cfg = writeNamedPacketModern E cfg StateLogin ''success'' success"
    by (simp add: writeLoginSuccessModern_def uuid result_simps)
  have j: "(if mc_legacyPlayLogin cfg then writeJoinGameLegacyModern E spawn wrld cfg
      else writeJoinGameModern E spawn wrld cfg) = writeNamedPacketModern E cfg StatePlay ''login''
        (if mc_legacyPlayLogin cfg then joinGameLegacyModern_data spawn wrld
         else joinGameModern_data spawn wrld cfg)"
    by (simp add: writeJoinGameLegacyModern_def writeJoinGameModern_def)
  have "serveModernProtocol E sv pl cfg rd c = serve_play E sv pl (newModernPlayAdapter cfg)
      (put_out (map packetFrame (join_modern E wrld spawn cfg rd regs success chnk)) (skip (?n1 + ?n2) c))"
    unfolding serveModernProtocol_def with_join_Inr [OF join] with_chunk_Inr [OF chunk] l j
    using ids live
    by (simp add: ids_modern_def seqE_step [OF s] a' w'
        seqE_step [OF sends_registries [OF regs]] writeTagsModern_def
        writePlayerPositionModern_def seqE_step [OF sends_writeUpdateTime]
        seqE_step [OF sends_writeChunkViewModern] writeMapChunkModern_def
        writeChunkBatchFinishedModern_def seqE_single join_modern_def tags_packet_def Let_def
        del: seqE.simps)
  moreover have "flat (c_reader (skip (?n1 + ?n2) c)) = rest" using input by simp
  ultimately show ?thesis by blast
qed

end
