(* ===== verification/Rate_Limit.thy ===== *)
theory Rate_Limit
  imports Go_Net "HOL-Library.AList"
begin

text \<open>
  The per-address fixed-window limiter of \<open>rate_limit.go\<close>. The entry map is an association
  list with distinct keys; instants are nanoseconds with 0 the zero \<open>time.Time\<close>. \<open>spec_allow\<close>
  is the limiter as specified, without the eviction that bounds the map; \<open>allow\<close> is shown to
  decide exactly as it does.
\<close>

definition DefaultStatusRateLimitRequests :: int where
  "DefaultStatusRateLimitRequests = 60"

definition DefaultStatusRateLimitWindow :: int where
  "DefaultStatusRateLimitWindow = 1000000000"

record rateLimitConfig =
  cfg_requests :: int
  cfg_window :: int

record rateLimitEntry =
  rl_count :: int
  rl_reset :: int

record rateLimiter =
  rl_requests :: int
  rl_window :: int
  rl_entries :: "(string \<times> rateLimitEntry) list"

definition newRateLimiter :: "rateLimitConfig \<Rightarrow> rateLimiter" where
  "newRateLimiter cfg =
    \<lparr>rl_requests = (if cfg_requests cfg \<le> 0 then DefaultStatusRateLimitRequests else cfg_requests cfg),
     rl_window = (if cfg_window cfg \<le> 0 then DefaultStatusRateLimitWindow else cfg_window cfg),
     rl_entries = []\<rparr>"

definition rateLimitKey :: "net_addr \<Rightarrow> string" where
  "rateLimitKey remote = (case remote of
      None \<Rightarrow> ''''
    | Some a \<Rightarrow> (case splitHostPort a of Inr (host, _) \<Rightarrow> host | Inl _ \<Rightarrow> a))"

text \<open>A missing key reads as the zero entry.\<close>

definition entry_of :: "(string \<times> rateLimitEntry) list \<Rightarrow> string \<Rightarrow> rateLimitEntry" where
  "entry_of es key = (case map_of es key of Some e \<Rightarrow> e | None \<Rightarrow> \<lparr>rl_count = 0, rl_reset = 0\<rparr>)"

definition current_entry :: "int \<Rightarrow> int \<Rightarrow> rateLimitEntry \<Rightarrow> rateLimitEntry" where
  "current_entry window now e =
    (if rl_reset e = 0 \<or> \<not> now < rl_reset e then \<lparr>rl_count = 0, rl_reset = now + window\<rparr> else e)"

definition cleanup :: "int \<Rightarrow> (string \<times> rateLimitEntry) list \<Rightarrow> (string \<times> rateLimitEntry) list" where
  "cleanup now es = filter (\<lambda>(k, e). now < rl_reset e) es"

definition allow_key :: "rateLimiter \<Rightarrow> string \<Rightarrow> int \<Rightarrow> bool \<times> rateLimiter" where
  "allow_key l key now =
    (let entry = current_entry (rl_window l) now (entry_of (rl_entries l) key) in
     if rl_requests l \<le> rl_count entry then
       (False, l\<lparr>rl_entries := AList.update key entry (rl_entries l)\<rparr>)
     else
       (let entry' = entry\<lparr>rl_count := rl_count entry + 1\<rparr>;
            es = AList.update key entry' (rl_entries l);
            es' = (if wrap64 (rl_requests l * 32) < int (length es) then cleanup now es else es)
        in (True, l\<lparr>rl_entries := es'\<rparr>)))"

definition allow :: "rateLimiter option \<Rightarrow> net_addr \<Rightarrow> int \<Rightarrow> bool \<times> rateLimiter option" where
  "allow lo remote now = (case lo of
      None \<Rightarrow> (True, None)
    | Some l \<Rightarrow> (case allow_key l (rateLimitKey remote) now of (b, l') \<Rightarrow> (b, Some l')))"

section \<open>The limiter without eviction\<close>

type_synonym limit_spec = "string \<Rightarrow> rateLimitEntry"

definition spec_allow :: "int \<Rightarrow> int \<Rightarrow> limit_spec \<Rightarrow> string \<Rightarrow> int \<Rightarrow> bool \<times> limit_spec" where
  "spec_allow requests window m key now =
    (let entry = current_entry window now (m key) in
     if requests \<le> rl_count entry then (False, m(key := entry))
     else (True, m(key := entry\<lparr>rl_count := rl_count entry + 1\<rparr>)))"

fun allow_run :: "rateLimiter \<Rightarrow> (string \<times> int) list \<Rightarrow> bool list \<times> rateLimiter" where
  "allow_run l [] = ([], l)"
| "allow_run l ((key, now) # rs) =
     (let (b, l') = allow_key l key now; (bs, l'') = allow_run l' rs in (b # bs, l''))"

fun spec_run :: "int \<Rightarrow> int \<Rightarrow> limit_spec \<Rightarrow> (string \<times> int) list \<Rightarrow> bool list" where
  "spec_run requests window m [] = []"
| "spec_run requests window m ((key, now) # rs) =
     (let (b, m') = spec_allow requests window m key now in b # spec_run requests window m' rs)"

text \<open>
  Two tables agree at an instant when every key has the same entry or both are expired: an
  expired entry, a zero one and a missing one all start a new window.
\<close>

definition expired :: "int \<Rightarrow> rateLimitEntry \<Rightarrow> bool" where
  "expired now e \<longleftrightarrow> rl_reset e = 0 \<or> \<not> now < rl_reset e"

definition agree :: "int \<Rightarrow> limit_spec \<Rightarrow> limit_spec \<Rightarrow> bool" where
  "agree now m m' \<longleftrightarrow> (\<forall>k. m k = m' k \<or> (expired now (m k) \<and> expired now (m' k)))"

definition limiter_inv :: "rateLimiter \<Rightarrow> bool" where
  "limiter_inv l \<longleftrightarrow> distinct (map fst (rl_entries l))"

lemma current_entry_agree:
  "agree now m m' \<Longrightarrow> current_entry w now (m k) = current_entry w now (m' k)"
  unfolding agree_def expired_def by (auto simp: current_entry_def dest: spec [of _ k])

lemma agree_mono: "agree now m m' \<Longrightarrow> now \<le> now' \<Longrightarrow> agree now' m m'"
  by (force simp: agree_def expired_def)

lemma agree_upd: "agree now m m' \<Longrightarrow> agree now (m(k := e)) (m'(k := e))"
  by (simp add: agree_def)

lemma entry_of_update [simp]:
  "entry_of (AList.update k e es) = (entry_of es)(k := e)"
  by (rule ext) (simp add: entry_of_def update_conv')

lemma map_of_cleanup:
  "distinct (map fst es) \<Longrightarrow>
    map_of (cleanup now es) k = (case map_of es k of Some e \<Rightarrow> if now < rl_reset e then Some e else None
      | None \<Rightarrow> None)"
  by (induction es) (auto simp: cleanup_def dest: map_of_SomeD split: option.splits
      intro!: map_of_eq_None_iff [THEN iffD2])

lemma agree_cleanup:
  "distinct (map fst es) \<Longrightarrow> agree now (entry_of (cleanup now es)) (entry_of es)"
  by (auto simp: agree_def entry_of_def expired_def map_of_cleanup split: option.splits)

lemma distinct_cleanup: "distinct (map fst es) \<Longrightarrow> distinct (map fst (cleanup now es))"
  by (auto simp: cleanup_def distinct_map intro: inj_on_subset)

lemma limiter_inv_new: "limiter_inv (newRateLimiter cfg)"
  by (simp add: limiter_inv_def newRateLimiter_def)

lemma limiter_inv_allow_key: "limiter_inv l \<Longrightarrow> limiter_inv (snd (allow_key l key now))"
  by (simp add: limiter_inv_def allow_key_def Let_def distinct_update distinct_cleanup)

lemma allow_key_config:
  "rl_requests (snd (allow_key l key now)) = rl_requests l"
  "rl_window (snd (allow_key l key now)) = rl_window l"
  by (simp_all add: allow_key_def Let_def)

section \<open>Eviction does not change a decision\<close>

lemma allow_key_spec:
  assumes inv: "limiter_inv l" and ag: "agree now (entry_of (rl_entries l)) m"
  shows "fst (allow_key l key now) = fst (spec_allow (rl_requests l) (rl_window l) m key now)"
    and "agree now (entry_of (rl_entries (snd (allow_key l key now))))
      (snd (spec_allow (rl_requests l) (rl_window l) m key now))"
proof -
  define e where "e = current_entry (rl_window l) now (m key)"
  have e: "current_entry (rl_window l) now (entry_of (rl_entries l) key) = e"
    unfolding e_def by (rule current_entry_agree [OF ag])
  show "fst (allow_key l key now) = fst (spec_allow (rl_requests l) (rl_window l) m key now)"
    by (simp add: allow_key_def spec_allow_def e e_def [symmetric] Let_def)
  define es where "es = AList.update key (e\<lparr>rl_count := rl_count e + 1\<rparr>) (rl_entries l)"
  have "distinct (map fst es)" using inv by (simp add: es_def limiter_inv_def distinct_update)
  then have "agree now (entry_of (cleanup now es)) (entry_of es)" by (rule agree_cleanup)
  moreover have "agree now (entry_of es) (m(key := e\<lparr>rl_count := rl_count e + 1\<rparr>))"
    using ag by (simp add: es_def agree_upd)
  ultimately have "agree now (entry_of (cleanup now es)) (m(key := e\<lparr>rl_count := rl_count e + 1\<rparr>))"
    unfolding agree_def by metis
  with ag show "agree now (entry_of (rl_entries (snd (allow_key l key now))))
      (snd (spec_allow (rl_requests l) (rl_window l) m key now))"
    by (simp add: allow_key_def spec_allow_def e e_def [symmetric] Let_def es_def [symmetric])
      (simp add: es_def agree_upd)
qed

lemma allow_run_spec:
  "limiter_inv l \<Longrightarrow> agree t (entry_of (rl_entries l)) m \<Longrightarrow> sorted (t # map snd rs) \<Longrightarrow>
    fst (allow_run l rs) = spec_run (rl_requests l) (rl_window l) m rs"
proof (induction rs arbitrary: l m t)
  case Nil
  show ?case by simp
next
  case (Cons r rs)
  obtain key now where r: "r = (key, now)" by (cases r)
  obtain b l' where a: "allow_key l key now = (b, l')" by (cases "allow_key l key now")
  obtain c m' where s: "spec_allow (rl_requests l) (rl_window l) m key now = (c, m')"
    by (cases "spec_allow (rl_requests l) (rl_window l) m key now")
  have ag: "agree now (entry_of (rl_entries l)) m"
    using Cons.prems r by (auto intro: agree_mono)
  from allow_key_spec [OF Cons.prems(1) ag, of key] a s
  have "b = c" "agree now (entry_of (rl_entries l')) m'" by simp_all
  moreover have "limiter_inv l'" using limiter_inv_allow_key [OF Cons.prems(1), of key now] a by simp
  moreover have "rl_requests l' = rl_requests l" "rl_window l' = rl_window l"
    using allow_key_config [of l key now] a by simp_all
  moreover have "sorted (now # map snd rs)" using Cons.prems(3) r by simp
  ultimately show ?case
    using Cons.IH [of l' now m'] a s by (simp add: r case_prod_unfold Let_def)
qed

section \<open>What a window grants\<close>

fun granted :: "string \<Rightarrow> (string \<times> int) list \<Rightarrow> bool list \<Rightarrow> int" where
  "granted k ((k', _) # rs) (b # bs) = (if k' = k \<and> b then 1 else 0) + granted k rs bs"
| "granted k _ _ = 0"

definition asked :: "string \<Rightarrow> (string \<times> int) list \<Rightarrow> int" where
  "asked k rs = int (length (filter (\<lambda>(k', _). k' = k) rs))"

lemma asked_simps [simp]:
  "asked k [] = 0" "asked k ((k', t) # rs) = (if k' = k then 1 else 0) + asked k rs"
  by (simp_all add: asked_def)

lemma asked_nonneg: "0 \<le> asked k rs"
  by (simp add: asked_def)

lemma granted_in_window:
  "\<forall>(_, t) \<in> set rs. t < rl_reset (m k) \<Longrightarrow> rl_reset (m k) \<noteq> 0 \<Longrightarrow> rl_count (m k) \<le> n \<Longrightarrow>
    granted k rs (spec_run n w m rs) = min (n - rl_count (m k)) (asked k rs)"
proof (induction rs arbitrary: m)
  case Nil
  then show ?case by simp
next
  case (Cons r rs)
  obtain key now where r: "r = (key, now)" by (cases r)
  obtain b m' where s: "spec_allow n w m key now = (b, m')" by (cases "spec_allow n w m key now")
  show ?case
  proof (cases "key = k")
    case True
    then have cur: "current_entry w now (m k) = m k"
      using Cons.prems r by (simp add: current_entry_def)
    have b: "b \<longleftrightarrow> \<not> n \<le> rl_count (m k)" and reset: "rl_reset (m' k) = rl_reset (m k)"
      and count: "rl_count (m' k) = rl_count (m k) + (if b then 1 else 0)"
      using s True by (auto simp: spec_allow_def cur Let_def split: if_splits)
    then have "granted k rs (spec_run n w m' rs) = min (n - rl_count (m' k)) (asked k rs)"
      using Cons.prems by (intro Cons.IH) auto
    then show ?thesis
      using s True r b count Cons.prems(3) asked_nonneg [of k rs] by (auto simp: min_def)
  next
    case False
    then have "m' k = m k" using s by (auto simp: spec_allow_def Let_def split: if_splits)
    with False Cons.prems Cons.IH [of m'] s r show ?thesis by simp
  qed
qed

lemma granted_fresh_window:
  "expired t (m k) \<Longrightarrow> 0 < t \<Longrightarrow> 0 < w \<Longrightarrow> 0 \<le> n \<Longrightarrow> sorted (t # map snd rs) \<Longrightarrow>
    \<forall>(_, u) \<in> set rs. u < t + w \<Longrightarrow> granted k rs (spec_run n w m rs) = min n (asked k rs)"
proof (induction rs arbitrary: m t)
  case Nil
  then show ?case by simp
next
  case (Cons r rs)
  obtain key now where r: "r = (key, now)" by (cases r)
  obtain b m' where s: "spec_allow n w m key now = (b, m')" by (cases "spec_allow n w m key now")
  have now: "t \<le> now" "sorted (now # map snd rs)" using Cons.prems(5) r by auto
  show ?case
  proof (cases "key = k")
    case True
    have cur: "current_entry w now (m k) = \<lparr>rl_count = 0, rl_reset = now + w\<rparr>"
      using Cons.prems(1) now(1) True by (auto simp: current_entry_def expired_def)
    have "\<forall>(_, u) \<in> set rs. u < now + w" using Cons.prems(6) now(1) r by fastforce
    then have "granted k rs (spec_run n w m' rs) = min (n - rl_count (m' k)) (asked k rs)"
      using s True Cons.prems now
      by (intro granted_in_window) (auto simp: spec_allow_def cur Let_def split: if_splits)
    then show ?thesis
      using s True r Cons.prems(4) asked_nonneg [of k rs]
      by (auto simp: spec_allow_def cur Let_def min_def split: if_splits)
  next
    case False
    then have m': "m' k = m k" using s by (auto simp: spec_allow_def Let_def split: if_splits)
    have "granted k rs (spec_run n w m' rs) = min n (asked k rs)"
    proof (rule Cons.IH [of t])
      show "sorted (t # map snd rs)" using now Cons.prems(5) r by simp
    qed (use Cons.prems m' r in auto)
    with False s r show ?thesis by simp
  qed
qed

end
