(* ===== verification/Router.thy ===== *)
theory Router
  imports Login Status Join_Flows Registry_Data Rate_Limit
begin

text \<open>
  The limbo router (\<open>protocol/limbo/router.go\<close>): the handshake, the status exchange with its
  rate limiter, the login with its policies and modes, and the choice of the protocol flow. The
  limiter, shared by all connections, is threaded as state; \<open>remote\<close> is the connection's remote
  address and \<open>now\<close> the instant the limiter reads. The context is not modelled.
\<close>

section \<open>The router\<close>

text \<open>The fields the status router of \<open>protocol/status\<close> has too come first.\<close>

record statusRouter =
  rt_Description :: string
  rt_MOTD :: "component option"
  rt_StatusProvider :: "statusProvider option"
  rt_VersionName :: string
  rt_VersionProtocol :: int
  rt_MaxPlayers :: int
  rt_OnlinePlayers :: int
  rt_SamplePlayers :: "statusSamplePlayer list"
  rt_HidePlayers :: bool
  rt_Favicon :: string
  rt_EnforcesSecureChat :: "bool option"
  rt_PreviewsChat :: "bool option"
  rt_PreventsChatReports :: "bool option"

record router = statusRouter +
  rt_ModernProtocols :: "modernProtocols option"
  rt_RegistryData :: "registryData option"
  rt_RegistryDataSource :: "registryData result option"
  rt_ProtocolPolicy :: "protocolPolicy option"
  rt_LoginMode :: string
  rt_LoginPolicy :: "(loginRequest \<Rightarrow> string result) option"
  rt_LoginDecisionPolicy :: "(loginRequest \<Rightarrow> loginDecision result) option"
  rt_SessionVerifier :: "verifier option"
  rt_YggdrasilBaseURL :: string
  rt_OnlineServerID :: string

text \<open>What one connection draws from outside: crypto, the sessionserver exchange, the embedded data.\<close>

record outside =
  ou_crypto :: loginCrypto
  ou_exchange :: "string \<Rightarrow> (string \<times> string) list \<Rightarrow> httpResponse result"
  ou_defaultRegistry :: "registryData result"

definition stateStatus :: int where "stateStatus = 1"
definition stateLogin :: int where "stateLogin = 2"

section \<open>Configured or default parts\<close>

definition DefaultModernProtocols :: "modernProtocols result" where
  "DefaultModernProtocols = load_modern_records modern_records []"

definition router_modernProtocols :: "router \<Rightarrow> modernProtocols result" where
  "router_modernProtocols r = (case rt_ModernProtocols r of Some p \<Rightarrow> Inr p | None \<Rightarrow> DefaultModernProtocols)"

definition router_registryData :: "outside \<Rightarrow> router \<Rightarrow> registryData result" where
  "router_registryData ou r = (case rt_RegistryDataSource r of
      Some data \<Rightarrow> data
    | None \<Rightarrow> (case rt_RegistryData r of Some d \<Rightarrow> Inr d | None \<Rightarrow> ou_defaultRegistry ou))"

definition sessionVerifier :: "outside \<Rightarrow> router \<Rightarrow> verifier" where
  "sessionVerifier ou r = (case rt_SessionVerifier r of
      Some v \<Rightarrow> v
    | None \<Rightarrow> VerifySession (ou_exchange ou) (NewYggdrasilVerifier (rt_YggdrasilBaseURL r)))"

section \<open>Login decisions\<close>

definition normalizeLoginDecision :: "loginDecision \<Rightarrow> loginDecision" where
  "normalizeLoginDecision d =
    (let d1 = (if ld_Mode d = '''' then d\<lparr>ld_Mode := LoginModeOffline\<rparr> else d)
     in if ld_Mode d1 \<noteq> LoginModeOffline then d1\<lparr>ld_Profile := None\<rparr> else d1)"

definition resolveLoginDecision :: "router \<Rightarrow> loginRequest \<Rightarrow> loginDecision result" where
  "resolveLoginDecision r req = (case rt_LoginDecisionPolicy r of
      Some policy \<Rightarrow> bindR (policy req) (\<lambda>decision. Inr (normalizeLoginDecision decision))
    | None \<Rightarrow> (case rt_LoginPolicy r of
        Some policy \<Rightarrow> bindR (policy req) (\<lambda>mode.
          Inr (normalizeLoginDecision \<lparr>ld_Mode = mode, ld_Profile = None\<rparr>))
      | None \<Rightarrow>
          if rt_LoginMode r = '''' then Inr \<lparr>ld_Mode = LoginModeOffline, ld_Profile = None\<rparr>
          else Inr \<lparr>ld_Mode = rt_LoginMode r, ld_Profile = None\<rparr>))"

definition offlineLoginPlayer :: "env \<Rightarrow> loginRequest \<Rightarrow> loginProfile option \<Rightarrow> player" where
  "offlineLoginPlayer E req profile = (case profile of
      None \<Rightarrow> OfflineLoginPlayer (ev_md5 E) req
    | Some p \<Rightarrow> OfflineLoginPlayerWithProfile (ev_md5 E) req p)"

section \<open>Login disconnects\<close>

definition login_disconnect_packet :: "env \<Rightarrow> int \<Rightarrow> component option \<Rightarrow> packet result" where
  "login_disconnect_packet E protocol reason =
    bindR (limbgo_MarshalComponentJSON E protocol
        (case reason of None \<Rightarrow> Some (TextC ''Disconnected'') | Some c \<Rightarrow> Some c)) (\<lambda>payload.
      Inr (mk_packet (id_or_0 (packet_ID (ev_packets E) protocol StateLogin ToClient ''disconnect''))
        (writeString (string_of payload))))"

definition writeLoginDisconnectComponent :: "env \<Rightarrow> int \<Rightarrow> component option \<Rightarrow> (conn, unit) act" where
  "writeLoginDisconnectComponent E protocol reason =
    bindE (liftE (login_disconnect_packet E protocol reason)) writePacket"

definition writeLoginDisconnect :: "env \<Rightarrow> int \<Rightarrow> string \<Rightarrow> (conn, unit) act" where
  "writeLoginDisconnect E protocol message = writeLoginDisconnectComponent E protocol (Some (TextC message))"

text \<open>\<open>_ = writeLoginDisconnect(...); return err\<close>: the outcome of the write is dropped.\<close>

definition disconnect_with :: "(conn, unit) act \<Rightarrow> go_error \<Rightarrow> (conn, 'a) act" where
  "disconnect_with m e c = (Inl e, snd (m c))"

definition allowProtocol :: "env \<Rightarrow> router \<Rightarrow> net_addr \<Rightarrow> int \<Rightarrow> handshakeInfo \<Rightarrow> (conn, unit) act" where
  "allowProtocol E r remote pktProtocol info = (case rt_ProtocolPolicy r of
      None \<Rightarrow> retE ()
    | Some policy \<Rightarrow> (case policy \<lparr>pr_ProtocolVersion = hi_ProtocolVersion info, pr_RemoteAddr = remote,
          pr_RequestedHost = hi_Address info\<rparr> of
        None \<Rightarrow> retE ()
      | Some err \<Rightarrow> (case ProtocolRejection err of
          Some reason \<Rightarrow> disconnect_with (writeLoginDisconnectComponent E pktProtocol reason) err
        | None \<Rightarrow> failE err)))"

section \<open>The supported protocols\<close>

definition formatProtocolRange :: "int \<Rightarrow> int \<Rightarrow> string" where
  "formatProtocolRange start end' = (if start = end' then itoa start else itoa start @ ''-'' @ itoa end')"

fun format_loop :: "int \<Rightarrow> int \<Rightarrow> int list \<Rightarrow> string list" where
  "format_loop start prev [] = [formatProtocolRange start prev]"
| "format_loop start prev (p # ps) =
     (if p = prev \<or> p = wrap32 (prev + 1) then format_loop start p ps
      else formatProtocolRange start prev # format_loop p p ps)"

fun joinStrings :: "string \<Rightarrow> string list \<Rightarrow> string" where
  "joinStrings sep [] = ''''"
| "joinStrings sep [s] = s"
| "joinStrings sep (s # ss) = s @ sep @ joinStrings sep ss"

definition formatProtocolRanges :: "int list \<Rightarrow> string" where
  "formatProtocolRanges protocols = (case protocols of
      [] \<Rightarrow> ''''
    | p # ps \<Rightarrow> joinStrings '', '' (format_loop p p ps))"

definition supportedPlayProtocols :: "router \<Rightarrow> string" where
  "supportedPlayProtocols r = (case router_modernProtocols r of
      Inl _ \<Rightarrow> ''47 and 340''
    | Inr mp \<Rightarrow> formatProtocolRanges (sort ([protocol47, protocol340] @ supportedProtocols mp)))"

section \<open>Login\<close>

text \<open>The modern configuration, if any, and the protocol whose packet ids the login uses.\<close>

definition login_config :: "router \<Rightarrow> int \<Rightarrow> (int \<times> modernProtocolConfig option) result" where
  "login_config r protocol =
    (if protocol \<noteq> protocol47 \<and> protocol \<noteq> protocol340 then
       bindR (router_modernProtocols r) (\<lambda>mp. case configFor mp protocol of
           Some cfg \<Rightarrow> Inr (packetProtocol cfg, Some cfg)
         | None \<Rightarrow> Inr (protocol, None))
     else Inr (protocol, None))"

definition login_request :: "net_addr \<Rightarrow> handshakeInfo \<Rightarrow> string \<Rightarrow> string \<Rightarrow> loginRequest" where
  "login_request remote info username claimedUUID =
    \<lparr>lr_Username = username, lr_ClaimedUUID = claimedUUID,
     lr_ProtocolVersion = hi_ProtocolVersion info, lr_RemoteAddr = remote, lr_RequestedHost = hi_Address info\<rparr>"

definition read_login_start :: "env \<Rightarrow> net_addr \<Rightarrow> handshakeInfo \<Rightarrow> int \<Rightarrow> modernProtocolConfig option \<Rightarrow>
    (conn, loginRequest) act" where
  "read_login_start E remote info pktProtocol modern =
    bindE connReadPacket (\<lambda>loginStart.
      (let loginStartID = packet_ID (ev_packets E) pktProtocol StateLogin ToServer ''login_start'' in
       if loginStartID \<noteq> Some (pkt_id loginStart) then
         failE (Errorf ''expected login_start packet %d, got %d'' [FD (id_or_0 loginStartID), FD (pkt_id loginStart)])
       else
         bindE (liftE (readLoginStart E (pkt_data loginStart) (loginStartLayoutFor modern)))
           (\<lambda>(username, claimedUUID). retE (login_request remote info username claimedUUID))))"

text \<open>
  The player of a decision. \<open>authConn\<close> is nil before the encrypted connection exists, and the
  disconnect then goes out in the clear: the connection after the exchange is the right one in
  both cases.
\<close>

definition login_player :: "env \<Rightarrow> outside \<Rightarrow> router \<Rightarrow> handshakeInfo \<Rightarrow> int \<Rightarrow> loginRequest \<Rightarrow>
    loginDecision \<Rightarrow> (conn, player) act" where
  "login_player E ou r info pktProtocol req decision =
    (if ld_Mode decision = LoginModeOffline then retE (offlineLoginPlayer E req (ld_Profile decision))
     else if ld_Mode decision = LoginModeOnline then (\<lambda>c.
       case performOnlineSessionAuth E (ou_crypto ou) (hi_ProtocolVersion info) pktProtocol req
           (Some (sessionVerifier ou r)) (rt_OnlineServerID r) c of
         ((_, Inr profile), c1) \<Rightarrow> (Inr (VerifiedLoginPlayer req profile), c1)
       | ((_, Inl e), c1) \<Rightarrow>
           disconnect_with (writeLoginDisconnect E pktProtocol ''Session verification failed'') e c1)
     else if ld_Mode decision = LoginModeHybrid then (\<lambda>c.
       case performOnlineSessionAuth E (ou_crypto ou) (hi_ProtocolVersion info) pktProtocol req
           (Some (sessionVerifier ou r)) (rt_OnlineServerID r) c of
         ((_, Inr profile), c1) \<Rightarrow> (Inr (VerifiedLoginPlayer req profile), c1)
       | ((established, Inl e), c1) \<Rightarrow>
           if errors_is e ErrInvalidLogin \<and> established then (Inr (OfflineLoginPlayer (ev_md5 E) req), c1)
           else disconnect_with (writeLoginDisconnect E pktProtocol ''Session verification failed'') e c1)
     else failE (Wrapf ErrInvalidLogin ''%w: unsupported login mode %q'' [FS (ld_Mode decision)]))"

definition serve_flow :: "env \<Rightarrow> outside \<Rightarrow> router \<Rightarrow> services \<Rightarrow> int \<Rightarrow> modernProtocolConfig option \<Rightarrow>
    player \<Rightarrow> (conn, unit) act" where
  "serve_flow E ou r sv protocol modern pl =
    (if protocol = protocol47 then serveProtocol47 E sv pl
     else if protocol = protocol340 then serveProtocol340 E sv pl
     else case legacyProtocolConfigFor protocol of
       Some cfg \<Rightarrow> serveLegacyProtocol E sv pl cfg
     | None \<Rightarrow> (case flatProtocolConfigFor protocol of
         Some cfg \<Rightarrow> serveFlatProtocol E sv pl cfg
       | None \<Rightarrow> (case codecProtocolConfigFor protocol of
           Some cfg \<Rightarrow> bindE (liftE (router_registryData ou r)) (serveCodecProtocol E sv pl cfg)
         | None \<Rightarrow> (case modern of
             Some cfg \<Rightarrow> bindE (liftE (router_registryData ou r)) (\<lambda>rd.
               if mc_preConfiguration cfg then serveModernPreConfigurationProtocol E sv pl cfg rd
               else serveModernProtocol E sv pl cfg rd)
           | None \<Rightarrow> writeLoginDisconnect E protocol
               (''limbgo play support currently implements protocols '' @ supportedPlayProtocols r)))))"

definition serveLogin :: "env \<Rightarrow> outside \<Rightarrow> router \<Rightarrow> services \<Rightarrow> net_addr \<Rightarrow> handshakeInfo \<Rightarrow> (conn, unit) act" where
  "serveLogin E ou r sv remote info =
    bindE (liftE (login_config r (hi_ProtocolVersion info))) (\<lambda>(pktProtocol, modern).
    bindE (allowProtocol E r remote pktProtocol info) (\<lambda>_.
    bindE (read_login_start E remote info pktProtocol modern) (\<lambda>req.
    bindE (liftE (resolveLoginDecision r req)) (\<lambda>decision.
    bindE (login_player E ou r info pktProtocol req decision) (\<lambda>pl.
      serve_flow E ou r sv (hi_ProtocolVersion info) modern pl)))))"

section \<open>Status\<close>

definition allowStatus :: "rateLimiter option \<Rightarrow> net_addr \<Rightarrow> int \<Rightarrow> bool \<times> rateLimiter option" where
  "allowStatus limiter remote now = allow limiter remote now"

definition router_status :: "router \<Rightarrow> net_addr \<Rightarrow> handshakeInfo \<Rightarrow> status result" where
  "router_status r remote info = (case rt_StatusProvider r of
      Some provider \<Rightarrow> provider \<lparr>sq_Protocol = hi_ProtocolVersion info, sq_Address = hi_Address info,
        sq_Port = hi_Port info, sq_RemoteAddr = remote\<rparr>
    | None \<Rightarrow>
        (let description = (if rt_MOTD r = None \<and> rt_Description r \<noteq> '''' then Some (TextC (rt_Description r))
              else rt_MOTD r)
         in Inr (StatusOptions_Status
          \<lparr>so_VersionName = rt_VersionName r, so_Protocol = rt_VersionProtocol r, so_Description = description,
           so_MaxPlayers = rt_MaxPlayers r, so_OnlinePlayers = rt_OnlinePlayers r,
           so_SamplePlayers = rt_SamplePlayers r, so_HidePlayers = rt_HidePlayers r, so_Favicon = rt_Favicon r,
           so_EnforcesSecureChat = rt_EnforcesSecureChat r, so_PreviewsChat = rt_PreviewsChat r,
           so_PreventsChatReports = rt_PreventsChatReports r, so_Raw = []\<rparr>)))"

text \<open>The rest of the exchange once the limiter allowed it.\<close>

definition answer_status :: "env \<Rightarrow> status result \<Rightarrow> int \<Rightarrow> (conn, unit) act" where
  "answer_status E st protocol =
    bindE (liftE st) (\<lambda>st.
    bindE (liftE (MarshalStatusJSON E st protocol)) (\<lambda>payload.
    bindE (writePacket (mk_packet 0 (writeString (string_of payload)))) (\<lambda>_.
    bindE connReadPacket (\<lambda>ping.
      if pkt_id ping \<noteq> 1 then failE (Errorf ''expected ping packet 1, got %d'' [FD (pkt_id ping)])
      else writePacket (mk_packet 1 (pkt_data ping))))))"

definition serveStatus :: "env \<Rightarrow> router \<Rightarrow> rateLimiter option \<Rightarrow> net_addr \<Rightarrow> int \<Rightarrow> handshakeInfo \<Rightarrow>
    conn \<Rightarrow> (unit result \<times> conn) \<times> rateLimiter option" where
  "serveStatus E r limiter remote now info c = (case connReadPacket c of
      (Inl e, c1) \<Rightarrow> ((Inl e, c1), limiter)
    | (Inr req, c1) \<Rightarrow>
        if pkt_id req \<noteq> 0 then
          ((Inl (Errorf ''expected status request packet 0, got %d'' [FD (pkt_id req)]), c1), limiter)
        else (case allowStatus limiter remote now of
            (False, limiter') \<Rightarrow> ((Inr (), c1), limiter')
          | (True, limiter') \<Rightarrow>
              (answer_status E (router_status r remote info) (hi_ProtocolVersion info) c1, limiter')))"

section \<open>One connection\<close>

definition read_handshake :: "(conn, handshakeInfo) act" where
  "read_handshake =
    bindE newBufReader (\<lambda>_.
    bindE connReadPacket (\<lambda>handshake.
      if pkt_id handshake \<noteq> 0 then
        failE (Errorf ''expected handshake packet 0, got %d'' [FD (pkt_id handshake)])
      else liftE (readHandshake (pkt_data handshake))))"

definition ServeConn :: "env \<Rightarrow> outside \<Rightarrow> router \<Rightarrow> services \<Rightarrow> rateLimiter option \<Rightarrow> net_addr \<Rightarrow> int \<Rightarrow>
    conn \<Rightarrow> (unit result \<times> conn) \<times> rateLimiter option" where
  "ServeConn E ou r sv limiter remote now c = (case read_handshake c of
      (Inl e, c1) \<Rightarrow> ((Inl e, c1), limiter)
    | (Inr info, c1) \<Rightarrow>
        if hi_NextState info = stateStatus then serveStatus E r limiter remote now info c1
        else if hi_NextState info = stateLogin then (serveLogin E ou r sv remote info c1, limiter)
        else ((Inl (Errorf ''unknown handshake next state %d'' [FD (hi_NextState info)]), c1), limiter))"

section \<open>Who may play\<close>

text \<open>A player whose session the verifier confirmed, for the key exchange of this connection.\<close>

definition verified_by :: "env \<Rightarrow> outside \<Rightarrow> router \<Rightarrow> loginRequest \<Rightarrow> player \<Rightarrow> cfb8 option \<Rightarrow> bool" where
  "verified_by E ou r req pl enc \<longleftrightarrow> (\<exists>profile secret key block.
     lx_publicKey (ou_crypto ou) = Inr key \<and> lx_cipher (ou_crypto ou) secret = Inr block
     \<and> enc = Some (newCFB8 block secret True)
     \<and> sessionVerifier ou r (session_proof E req (rt_OnlineServerID r) secret key) = Inr profile
     \<and> vf_Verified profile \<and> vf_UUID profile \<noteq> '''' \<and> vf_Name profile \<noteq> ''''
     \<and> pl = VerifiedLoginPlayer req profile)"

lemma performOnlineSessionAuth_established:
  "performOnlineSessionAuth E X protocol pktProtocol req verifier sid c = ((True, res), c') \<Longrightarrow>
    c_enc c' \<noteq> None"
  by (auto simp: performOnlineSessionAuth_def newEncryptedConn_def bindR_Inr_conv
      split: option.splits sum.splits prod.splits)

lemma performOnlineSessionAuth_verified:
  assumes "performOnlineSessionAuth E (ou_crypto ou) protocol pktProtocol req (Some (sessionVerifier ou r))
      (rt_OnlineServerID r) c = ((enc, Inr profile), c')"
  shows "verified_by E ou r req (VerifiedLoginPlayer req profile) (c_enc c')"
  using performOnlineSessionAuth_sound [OF assms] unfolding verified_by_def by auto

lemma disconnect_with_Inl [simp]: "disconnect_with m e c = (Inr x, c') \<longleftrightarrow> False"
  by (simp add: disconnect_with_def)

lemma login_player_offline:
  "ld_Mode d = LoginModeOffline \<Longrightarrow>
    login_player E ou r info pp req d c = (Inr (offlineLoginPlayer E req (ld_Profile d)), c)"
  by (simp add: login_player_def retE_def)

lemma login_player_Inr:
  assumes "login_player E ou r info pp req d c = (Inr pl, c')" "ld_Mode d \<noteq> LoginModeOffline"
  shows "ld_Mode d \<in> {LoginModeOnline, LoginModeHybrid} \<and> c_enc c' \<noteq> None
    \<and> (verified_by E ou r req pl (c_enc c') \<or> ld_Mode d = LoginModeHybrid \<and> pl = OfflineLoginPlayer (ev_md5 E) req)"
proof -
  obtain enc res c1 where a: "performOnlineSessionAuth E (ou_crypto ou) (hi_ProtocolVersion info) pp req
      (Some (sessionVerifier ou r)) (rt_OnlineServerID r) c = ((enc, res), c1)"
    by (metis surj_pair)
  have m: "ld_Mode d \<in> {LoginModeOnline, LoginModeHybrid}"
    using assms by (auto simp: login_player_def failE_def split: if_splits)
  have ne: "LoginModeHybrid \<noteq> LoginModeOnline" by (simp add: login_modes)
  show ?thesis
  proof (cases res)
    case (Inr profile)
    then have "pl = VerifiedLoginPlayer req profile" "c' = c1"
      using assms m a by (auto simp: login_player_def split: if_splits)
    moreover have "verified_by E ou r req (VerifiedLoginPlayer req profile) (c_enc c1)"
      using performOnlineSessionAuth_verified a Inr by blast
    moreover have "c_enc c1 \<noteq> None"
      using \<open>verified_by E ou r req _ _\<close> by (auto simp: verified_by_def)
    ultimately show ?thesis using m by simp
  next
    case (Inl e)
    then have "ld_Mode d = LoginModeHybrid \<and> enc \<and> pl = OfflineLoginPlayer (ev_md5 E) req \<and> c' = c1"
      using assms m a ne by (auto simp: login_player_def split: if_splits)
    moreover from this have "c_enc c1 \<noteq> None"
      using performOnlineSessionAuth_established [of E _ _ pp req _ _ c res c1] a by auto
    ultimately show ?thesis by simp
  qed
qed

section \<open>Rejections\<close>

lemma sends_disconnect:
  "login_disconnect_packet E protocol reason = Inr p \<Longrightarrow> sends (writeLoginDisconnectComponent E protocol reason) [p]"
  by (simp add: writeLoginDisconnectComponent_def bindE_liftE_Inr sends_writePacket)

lemma allowProtocol_None: "rt_ProtocolPolicy r = None \<Longrightarrow> allowProtocol E r remote pp info = retE ()"
  by (simp add: allowProtocol_def)

definition policy_request :: "net_addr \<Rightarrow> handshakeInfo \<Rightarrow> protocolRequest" where
  "policy_request remote info = \<lparr>pr_ProtocolVersion = hi_ProtocolVersion info, pr_RemoteAddr = remote,
     pr_RequestedHost = hi_Address info\<rparr>"

lemma allowProtocol_outcome:
  assumes "rt_ProtocolPolicy r = Some policy" "policy (policy_request remote info) = Some err" "live c"
  shows "allowProtocol E r remote pp info c = (Inl err,
    case ProtocolRejection err of
      None \<Rightarrow> c
    | Some reason \<Rightarrow> (case login_disconnect_packet E pp reason of
        Inl _ \<Rightarrow> c | Inr p \<Rightarrow> put_out [packetFrame p] c))"
  using assms sends_disconnect [of E pp]
  by (auto simp: allowProtocol_def policy_request_def failE_def disconnect_with_def sends_def
      writeLoginDisconnectComponent_def bindE_liftE_Inl split: option.split sum.split)

lemma serveLogin_stops:
  assumes "login_config r (hi_ProtocolVersion info) = Inr (pp, modern)"
    "allowProtocol E r remote pp info c = (Inl err, c')"
  shows "serveLogin E ou r sv remote info c = (Inl err, c')"
  using assms by (simp add: serveLogin_def bindE_def liftE_def)

section \<open>The status exchange\<close>

lemma answer_status_exchange:
  assumes "live c" "st = Inr st'" "MarshalStatusJSON E st' protocol = Inr js"
    "flat (c_reader c) = packetFrame (mk_packet 1 echo) @ rest" "packet_ok (mk_packet 1 echo)"
  shows "answer_status E st protocol c = (Inr (), put_out
      [packetFrame (mk_packet 0 (writeString (string_of js))), packetFrame (mk_packet 1 echo)]
      (skip (length (packetFrame (mk_packet 1 echo))) c))"
proof -
  have r: "connReadPacket (put_out xs c) = (Inr (mk_packet 1 echo), skip (length (packetFrame (mk_packet 1 echo))) (put_out xs c))" for xs
    using assms(4,5) by (intro connReadPacket_frame) simp_all
  show ?thesis
    using assms(1-3) by (simp add: answer_status_def bindE_liftE_Inr bindE_def [of "writePacket _"]
      bindE_def [of connReadPacket] writePacket_live r)
qed

lemma serveStatus_request:
  assumes "flat (c_reader c) = packetFrame (mk_packet 0 d) @ rest" "packet_ok (mk_packet 0 d)"
  shows "serveStatus E r limiter remote now info c
    = (let (ok, limiter') = allowStatus limiter remote now; c1 = skip (length (packetFrame (mk_packet 0 d))) c
       in if ok then (answer_status E (router_status r remote info) (hi_ProtocolVersion info) c1, limiter')
          else ((Inr (), c1), limiter'))"
  using connReadPacket_frame [OF assms(2,1)]
  by (simp add: serveStatus_def Let_def split: prod.splits bool.splits)

section \<open>From the handshake to the flow\<close>

lemma newBufReader_fresh: "sbuf (c_reader c) = [] \<Longrightarrow> newBufReader c = (Inr (), c)"
  by (cases c; cases "c_reader c") (simp add: newBufReader_def)

lemma read_handshake_client:
  assumes "sbuf (c_reader c) = []" "handshake_ok h" "packet_ok (mk_packet 0 (client_handshake h))"
    "flat (c_reader c) = packetFrame (mk_packet 0 (client_handshake h)) @ rest"
  shows "read_handshake c = (Inr h, skip (length (packetFrame (mk_packet 0 (client_handshake h)))) c)"
  using readHandshake_client [OF assms(2), of "[]"] connReadPacket_frame [OF assms(3,4)]
  by (simp add: read_handshake_def bindE_def newBufReader_fresh [OF assms(1)] liftE_def)

lemma read_login_start_client:
  assumes "packet_ID (ev_packets E) pp StateLogin ToServer ''login_start'' = Some i"
    "string_ok 16 name" "name \<noteq> ''''" "signature_ok sig" "uuid_ok (ll_uuidMode (loginStartLayoutFor modern)) u"
    "p = mk_packet i (client_login_start (loginStartLayoutFor modern) name sig u)" "packet_ok p"
    "flat (c_reader c) = packetFrame p @ rest"
  shows "read_login_start E remote info pp modern c
    = (Inr (login_request remote info name (case u of None \<Rightarrow> '''' | Some raw \<Rightarrow> ev_uuidString E raw)),
       skip (length (packetFrame p)) c)"
  using readLoginStart_client [OF assms(2-5), of E] connReadPacket_frame [OF assms(7,8)] assms(1,6)
  by (simp add: read_login_start_def bindE_def liftE_def retE_def)

section \<open>The ranges cover the protocols\<close>

fun ranges_loop :: "int \<Rightarrow> int \<Rightarrow> int list \<Rightarrow> (int \<times> int) list" where
  "ranges_loop start prev [] = [(start, prev)]"
| "ranges_loop start prev (p # ps) =
     (if p = prev \<or> p = prev + 1 then ranges_loop start p ps else (start, prev) # ranges_loop p p ps)"

definition protocol_ranges :: "int list \<Rightarrow> (int \<times> int) list" where
  "protocol_ranges ps = (case ps of [] \<Rightarrow> [] | p # ps' \<Rightarrow> ranges_loop p p ps')"

fun separated :: "(int \<times> int) list \<Rightarrow> bool" where
  "separated [] \<longleftrightarrow> True"
| "separated [(a, b)] \<longleftrightarrow> a \<le> b"
| "separated ((a, b) # (c, d) # rs) \<longleftrightarrow> a \<le> b \<and> b + 1 < c \<and> separated ((c, d) # rs)"

lemma format_loop_ranges:
  "sorted (prev # ps) \<Longrightarrow> \<forall>p \<in> set (prev # ps). is_int32 p \<Longrightarrow>
    format_loop start prev ps = map (\<lambda>(a, b). formatProtocolRange a b) (ranges_loop start prev ps)"
proof (induction start prev ps rule: ranges_loop.induct)
  case (2 start prev p ps)
  have "p = wrap32 (prev + 1) \<longleftrightarrow> p = prev + 1"
  proof (cases "prev = 2 ^ 31 - 1")
    case True
    then have "p = prev" using "2.prems" by (auto simp: is_int32_def)
    moreover have "wrap32 (prev + 1) = - (2 ^ 31)" unfolding True by code_simp
    ultimately show ?thesis using True by simp
  next
    case False
    then have "is_int32 (prev + 1)" using "2.prems" by (auto simp: is_int32_def)
    then show ?thesis by (simp add: wrap32_id)
  qed
  then show ?case using 2 by auto
qed simp

lemma ranges_loop_cover:
  "start \<le> prev \<Longrightarrow> sorted (prev # ps) \<Longrightarrow>
    (\<Union>(a, b) \<in> set (ranges_loop start prev ps). {a..b}) = {start..prev} \<union> set ps"
  by (induction start prev ps rule: ranges_loop.induct) auto

lemma ranges_loop_nonempty [simp]: "ranges_loop start prev ps \<noteq> []"
  by (induction start prev ps rule: ranges_loop.induct) auto

lemma ranges_loop_separated:
  "start \<le> prev \<Longrightarrow> sorted (prev # ps) \<Longrightarrow>
    separated (ranges_loop start prev ps) \<and> fst (hd (ranges_loop start prev ps)) = start"
proof (induction start prev ps rule: ranges_loop.induct)
  case (2 start prev p ps)
  show ?case
  proof (cases "p = prev \<or> p = prev + 1")
    case True
    with 2 show ?thesis by auto
  next
    case False
    with 2 obtain b rs where "ranges_loop p p ps = (p, b) # rs" "separated ((p, b) # rs)"
      by (cases "ranges_loop p p ps") auto
    with False 2 show ?thesis by simp
  qed
qed simp

end
