(* ===== verification/Status_Router.thy ===== *)
theory Status_Router
  imports Router
begin

text \<open>
  The status-only router (\<open>protocol/status/router.go\<close>): the same handshake and status exchange as
  the limbo router, written a second time, and a disconnect for every login. It is shown to
  behave as the limbo router does on every connection that is not a login.
\<close>

definition status_readHandshake :: "byte list \<Rightarrow> handshakeInfo result" where
  "status_readHandshake data =
    bindR (readVarInt (bytes_reader data)) (\<lambda>(protocol, body1).
    bindR (readString 255 body1) (\<lambda>(address, body2).
    bindR (readUnsignedShort body2) (\<lambda>(port, body3).
    bindR (readVarInt body3) (\<lambda>(nextState, body4).
      Inr \<lparr>hi_ProtocolVersion = protocol, hi_Address = address, hi_Port = port,
           hi_NextState = nextState\<rparr>))))"

definition status_writeLoginDisconnect :: "env \<Rightarrow> string \<Rightarrow> (conn, unit) act" where
  "status_writeLoginDisconnect E message =
    bindE (liftE (limbgo_MarshalComponentJSON E 0 (Some (TextC message)))) (\<lambda>payload.
      writePacket (mk_packet 0 (writeString (string_of payload))))"

definition status_allowStatus :: "rateLimiter option \<Rightarrow> net_addr \<Rightarrow> int \<Rightarrow> bool \<times> rateLimiter option" where
  "status_allowStatus limiter remote now = (case limiter of
      None \<Rightarrow> (True, None)
    | Some l \<Rightarrow> allow (Some l) remote now)"

definition status_status :: "statusRouter \<Rightarrow> net_addr \<Rightarrow> handshakeInfo \<Rightarrow> status result" where
  "status_status r remote info = (case rt_StatusProvider r of
      Some provider \<Rightarrow> provider \<lparr>sq_Protocol = hi_ProtocolVersion info, sq_Address = hi_Address info,
        sq_Port = hi_Port info, sq_RemoteAddr = remote\<rparr>
    | None \<Rightarrow>
        (let description = (if rt_MOTD r = None \<and> rt_Description r \<noteq> '''' then Some (TextC (rt_Description r))
              else rt_MOTD r)
         in Inr (StatusOptions_Status
          \<lparr>so_VersionName = rt_VersionName r, so_Protocol = rt_VersionProtocol r, so_Description = description,
           so_MaxPlayers = rt_MaxPlayers r, so_OnlinePlayers = rt_OnlinePlayers r,
           so_SamplePlayers = rt_SamplePlayers r, so_HidePlayers = rt_HidePlayers r, so_Favicon = rt_Favicon r,
           so_EnforcesSecureChat = rt_EnforcesSecureChat r, so_PreviewsChat = rt_PreviewsChat r,
           so_PreventsChatReports = rt_PreventsChatReports r, so_Raw = []\<rparr>)))"

definition status_serveStatus :: "env \<Rightarrow> statusRouter \<Rightarrow> rateLimiter option \<Rightarrow> net_addr \<Rightarrow> int \<Rightarrow>
    handshakeInfo \<Rightarrow> conn \<Rightarrow> (unit result \<times> conn) \<times> rateLimiter option" where
  "status_serveStatus E r limiter remote now info c = (case connReadPacket c of
      (Inl e, c1) \<Rightarrow> ((Inl e, c1), limiter)
    | (Inr req, c1) \<Rightarrow>
        if pkt_id req \<noteq> 0 then
          ((Inl (Errorf ''expected status request packet 0, got %d'' [FD (pkt_id req)]), c1), limiter)
        else (case status_allowStatus limiter remote now of (allowed, limiter') \<Rightarrow>
          if \<not> allowed then ((Inr (), c1), limiter')
          else (seqE [bindE (liftE (status_status r remote info)) (\<lambda>st.
              bindE (liftE (MarshalStatusJSON E st (hi_ProtocolVersion info))) (\<lambda>payload.
                writePacket (mk_packet 0 (writeString (string_of payload))))),
            bindE connReadPacket (\<lambda>ping.
              if pkt_id ping \<noteq> 1 then failE (Errorf ''expected ping packet 1, got %d'' [FD (pkt_id ping)])
              else writePacket (mk_packet 1 (pkt_data ping)))] c1, limiter')))"

definition status_ServeConn :: "env \<Rightarrow> statusRouter \<Rightarrow> rateLimiter option \<Rightarrow> net_addr \<Rightarrow> int \<Rightarrow>
    conn \<Rightarrow> (unit result \<times> conn) \<times> rateLimiter option" where
  "status_ServeConn E r limiter remote now c =
    (case bindE newBufReader (\<lambda>_. connReadPacket) c of
       (Inl e, c1) \<Rightarrow> ((Inl e, c1), limiter)
     | (Inr handshake, c1) \<Rightarrow>
         if pkt_id handshake \<noteq> 0 then
           ((Inl (Errorf ''expected handshake packet 0, got %d'' [FD (pkt_id handshake)]), c1), limiter)
         else (case status_readHandshake (pkt_data handshake) of
             Inl e \<Rightarrow> ((Inl e, c1), limiter)
           | Inr info \<Rightarrow>
               if hi_NextState info = stateStatus then status_serveStatus E r limiter remote now info c1
               else if hi_NextState info = stateLogin then
                 (status_writeLoginDisconnect E ''limbgo play-state protocol adapters are not implemented yet'' c1,
                  limiter)
               else ((Inl (Errorf ''unknown handshake next state %d'' [FD (hi_NextState info)]), c1), limiter)))"

section \<open>The two routers agree\<close>

text \<open>The status router a limbo router contains.\<close>

definition status_part :: "router \<Rightarrow> statusRouter" where
  "status_part r = statusRouter.truncate r"

lemma status_part_simps [simp]:
  "rt_Description (status_part r) = rt_Description r" "rt_MOTD (status_part r) = rt_MOTD r"
  "rt_StatusProvider (status_part r) = rt_StatusProvider r" "rt_VersionName (status_part r) = rt_VersionName r"
  "rt_VersionProtocol (status_part r) = rt_VersionProtocol r" "rt_MaxPlayers (status_part r) = rt_MaxPlayers r"
  "rt_OnlinePlayers (status_part r) = rt_OnlinePlayers r" "rt_SamplePlayers (status_part r) = rt_SamplePlayers r"
  "rt_HidePlayers (status_part r) = rt_HidePlayers r" "rt_Favicon (status_part r) = rt_Favicon r"
  "rt_EnforcesSecureChat (status_part r) = rt_EnforcesSecureChat r"
  "rt_PreviewsChat (status_part r) = rt_PreviewsChat r"
  "rt_PreventsChatReports (status_part r) = rt_PreventsChatReports r"
  by (simp_all add: status_part_def statusRouter.truncate_def)

lemma status_status_part: "status_status (status_part r) remote info = router_status r remote info"
  unfolding status_status_def router_status_def status_part_simps ..

lemma status_allowStatus_eq: "status_allowStatus l remote now = allowStatus l remote now"
  by (simp add: status_allowStatus_def allowStatus_def allow_def split: option.split)

lemma status_readHandshake_eq: "status_readHandshake data = readHandshake data"
  by (simp add: status_readHandshake_def readHandshake_def)

lemma seqE2_bindE: "seqE [m, k] = bindE m (\<lambda>_. k)"
  by (auto simp: bindE_def fun_eq_iff split: prod.splits sum.splits)

lemma status_serveStatus_part:
  "status_serveStatus E (status_part r) limiter remote now info c = serveStatus E r limiter remote now info c"
  unfolding status_serveStatus_def serveStatus_def seqE2_bindE bindE_assoc status_status_part
    status_allowStatus_eq answer_status_def
  by (auto split: prod.splits sum.splits bool.splits)

lemma status_ServeConn_part:
  assumes "\<And>info c1. read_handshake c = (Inr info, c1) \<Longrightarrow> hi_NextState info \<noteq> stateLogin"
  shows "status_ServeConn E (status_part r) limiter remote now c = ServeConn E ou r sv limiter remote now c"
  using assms unfolding status_ServeConn_def ServeConn_def status_serveStatus_part status_readHandshake_eq
  by (auto simp: read_handshake_def bindE_def failE_def liftE_def split: sum.splits prod.splits if_splits)

end
