(* ===== verification/Play_Steps.thy ===== *)
theory Play_Steps
  imports Play_Session
begin

text \<open>
  The play phase with its concurrency: the serving goroutine, the keep-alive goroutine, other
  goroutines of the application that hold the session, and the context, as a step relation in which
  every locked session method is one step. The loop of \<open>Play_Session\<close> is a run of it; the invariants
  hold for every interleaving.
\<close>

section \<open>States and steps\<close>

datatype phase = Running prog | Reading | Finished "go_error option"

text \<open>The keep-alive goroutine waits for a tick, has seen an open session and sends next, or is done.\<close>

datatype ticker = Waiting | Sending int | Stopped

record playState =
  py_session :: playSession
  py_phase :: phase
  py_packets :: nat
  py_keepAlive :: ticker
  py_cancelled :: bool

datatype playLabel = LTick int | LKeepAlive | LStopTicks | LCancel | LApi api | LReturn | LRead

definition play_init :: "handler \<Rightarrow> player \<Rightarrow> playAdapter \<Rightarrow> conn \<Rightarrow> playState" where
  "play_init h pl ad c = \<lparr>py_session = new_session c pl ad,
     py_phase = Running (hd_handle h 0 (JoinEvent pl (pa_protocol ad))),
     py_packets = 1, py_keepAlive = Waiting, py_cancelled = False\<rparr>"

text \<open>After a callback or an ignored packet: stop when the session was closed, else read on.\<close>

definition next_phase :: "playSession \<Rightarrow> phase" where
  "next_phase s = (if ss_closed s then Finished None else Reading)"

definition read_phase :: "env \<Rightarrow> handler \<Rightarrow> nat \<Rightarrow> playSession \<Rightarrow> phase \<times> playSession" where
  "read_phase E h k s = (case session_read s of
      (Inl e, s1) \<Rightarrow> (Finished (if isClosedPlayConnError e then None else Some e), s1)
    | (Inr p, s1) \<Rightarrow> (case packet_event E (hd_resourcePacks h) s1 p of
          Inl e \<Rightarrow> (Finished (Some e), s1)
        | Inr None \<Rightarrow> (next_phase s1, s1)
        | Inr (Some ev) \<Rightarrow> (Running (hd_handle h k ev), s1)))"

inductive play_step :: "env \<Rightarrow> handler \<Rightarrow> playState \<Rightarrow> playLabel \<Rightarrow> playState \<Rightarrow> bool"
  for E h where
  tick: "py_keepAlive x = Waiting \<Longrightarrow>
    play_step E h x (LTick t) (x\<lparr>py_keepAlive := if keepAliveCheck (py_session x) then Sending t else Stopped\<rparr>)"
| keep_alive: "py_keepAlive x = Sending t \<Longrightarrow> keepAliveSend E t (py_session x) = (go, s) \<Longrightarrow>
    play_step E h x LKeepAlive (x\<lparr>py_session := s, py_keepAlive := if go then Waiting else Stopped\<rparr>)"
| stop_ticks: "py_keepAlive x = Waiting \<Longrightarrow> py_cancelled x \<or> (\<exists>e. py_phase x = Finished e) \<Longrightarrow>
    play_step E h x LStopTicks (x\<lparr>py_keepAlive := Stopped\<rparr>)"
| cancel: "play_step E h x LCancel (x\<lparr>py_cancelled := True\<rparr>)"
| api: "py_phase x = Running (Call a k) \<Longrightarrow> api_call E a (py_session x) = (r, s) \<Longrightarrow>
    play_step E h x (LApi a) (x\<lparr>py_session := s, py_phase := Running (k r)\<rparr>)"
| other_goroutine: "api_call E a (py_session x) = (r, s) \<Longrightarrow> play_step E h x (LApi a) (x\<lparr>py_session := s\<rparr>)"
| return_error: "py_phase x = Running (Return (Some e)) \<Longrightarrow>
    play_step E h x LReturn (x\<lparr>py_phase := Finished (Some e)\<rparr>)"
| return_nil: "py_phase x = Running (Return None) \<Longrightarrow>
    play_step E h x LReturn (x\<lparr>py_phase := next_phase (py_session x)\<rparr>)"
| read_cancelled: "py_phase x = Reading \<Longrightarrow> py_cancelled x \<Longrightarrow>
    play_step E h x LRead (x\<lparr>py_phase := Finished None\<rparr>)"
| read: "py_phase x = Reading \<Longrightarrow> \<not> py_cancelled x \<Longrightarrow>
    read_phase E h (py_packets x) (py_session x) = (ph, s) \<Longrightarrow>
    play_step E h x LRead (x\<lparr>py_session := s, py_phase := ph, py_packets := Suc (py_packets x)\<rparr>)"

inductive_cases play_step_apiE: "play_step E h x (LApi a) y"
inductive_cases play_step_readE: "play_step E h x LRead y"

section \<open>Invariants\<close>

text \<open>A closed session has a closed connection; the packs are a map of named packs.\<close>

definition pick_ok :: "env \<Rightarrow> bool" where
  "pick_ok E \<longleftrightarrow> (\<forall>xs. xs \<noteq> [] \<longrightarrow> ev_pick E xs \<in> set xs)"

definition packs_ok :: "playSession \<Rightarrow> bool" where
  "packs_ok s \<longleftrightarrow> distinct (map fst (ss_resourcePacks s))
     \<and> (\<forall>(k, p) \<in> set (ss_resourcePacks s). rp_ID p = k \<and> k \<noteq> '''')
     \<and> (if ss_resourcePacks s = [] then ss_lastResourcePackID s = ''''
        else ss_lastResourcePackID s \<in> fst ` set (ss_resourcePacks s))"

definition session_inv :: "playSession \<Rightarrow> bool" where
  "session_inv s \<longleftrightarrow> (ss_closed s \<longrightarrow> c_closed (ss_conn s)) \<and> packs_ok s"

lemma new_session_inv: "session_inv (new_session c pl ad)"
  by (simp add: session_inv_def packs_ok_def new_session_def)

lemma on_conn_inv:
  assumes "on_conn m s = (r, t)" "only_writes m"
  shows "session_inv t \<longleftrightarrow> session_inv s"
  using on_conn_le [OF assms(2,1)] by (simp add: session_inv_def packs_ok_def)

lemma set_update_subset: "set (AList.update k v xs) \<subseteq> insert (k, v) (set xs)"
  by (induction xs) auto

lemma rememberResourcePack_packs:
  assumes "packs_ok s" "rp_ID p \<noteq> ''''"
  shows "packs_ok (rememberResourcePack E p s)"
proof -
  let ?ps = "AList.update (rp_ID p) p (ss_resourcePacks s)"
  have "distinct (map fst ?ps)" using assms by (simp add: packs_ok_def distinct_update)
  moreover have "\<forall>(k, q) \<in> set ?ps. rp_ID q = k \<and> k \<noteq> ''''"
    using assms set_update_subset [of "rp_ID p" p "ss_resourcePacks s"] by (fastforce simp: packs_ok_def)
  moreover have "?ps \<noteq> []" by (simp add: update_nonempty)
  moreover have "rp_ID p \<in> fst ` set ?ps" by (simp add: dom_update)
  ultimately show ?thesis by (simp add: packs_ok_def rememberResourcePack_def Let_def)
qed

lemma delete_filter: "AList.delete k xs = filter (\<lambda>(k', _). k \<noteq> k') xs"
  by (induction xs) auto

lemma forgetResourcePack_packs:
  assumes "pick_ok E" "packs_ok s"
  shows "packs_ok (forgetResourcePack E i s)"
proof -
  let ?ps = "AList.delete i (ss_resourcePacks s)"
  have "distinct (map fst ?ps)" using assms(2) by (simp add: packs_ok_def distinct_delete)
  moreover have "\<forall>(k, q) \<in> set ?ps. rp_ID q = k \<and> k \<noteq> ''''"
    using assms(2) by (auto simp: packs_ok_def delete_filter)
  moreover have "?ps \<noteq> [] \<Longrightarrow> ev_pick E (map fst ?ps) \<in> fst ` set ?ps"
    using assms(1) unfolding pick_ok_def by (metis list.set_map map_is_Nil_conv)
  ultimately show ?thesis by (simp add: packs_ok_def forgetResourcePack_def Let_def)
qed

text \<open>Every API call keeps the invariant, and once the connection is closed nothing more is sent.\<close>

lemma writeResourcePack_nonempty:
  "writeResourcePack E ad p c = (Inr u, c') \<Longrightarrow> rp_ID p \<noteq> ''''"
  by (auto simp: writeResourcePack_def invalidControl_def failE_def)

lemma session_inv_close:
  "session_inv s \<Longrightarrow> session_inv (s\<lparr>ss_closed := True, ss_conn := connClose (ss_conn s)\<rparr>)"
  by (simp add: session_inv_def packs_ok_def)

lemma api_call_inv:
  assumes "pick_ok E" "session_inv s" "api_call E a s = (r, t)"
  shows "session_inv t"
proof (cases a)
  case (AddResourcePack p)
  obtain r1 s1 where o: "on_conn (writeResourcePack E (ss_adapter s) p) s = (r1, s1)" by fastforce
  have i1: "session_inv s1" using on_conn_inv [OF o] assms(2) by (simp add: only_writes_intros)
  show ?thesis
  proof (cases r1)
    case (Inl e)
    with AddResourcePack o assms(3) i1 show ?thesis by simp
  next
    case (Inr u)
    then have "rp_ID p \<noteq> ''''"
      using o writeResourcePack_nonempty by (fastforce simp: on_conn_def split: prod.splits)
    moreover have "t = rememberResourcePack E p s1" using AddResourcePack o assms(3) Inr by simp
    ultimately show ?thesis using i1 rememberResourcePack_packs
      by (simp add: session_inv_def rememberResourcePack_def Let_def)
  qed
next
  case (RemoveResourcePack i)
  obtain r1 s1 where o: "on_conn (writeRemoveResourcePack E (ss_adapter s) i) s = (r1, s1)" by fastforce
  have "session_inv s1" using on_conn_inv [OF o] assms(2) by (simp add: only_writes_intros)
  moreover have "t = s1 \<or> t = forgetResourcePack E i s1"
    using RemoveResourcePack o assms(3) by (auto split: sum.splits)
  ultimately show ?thesis using forgetResourcePack_packs [OF assms(1)]
    by (auto simp: session_inv_def) (simp_all add: forgetResourcePack_def Let_def)
next
  case (Disconnect reason)
  obtain r1 s1 where o: "on_conn (writeKickDisconnect E (ss_adapter s) reason) s = (r1, s1)" by fastforce
  have "session_inv s1" using on_conn_inv [OF o] assms(2) by (simp add: only_writes_intros)
  then show ?thesis using Disconnect o assms(3) session_inv_close by auto
qed (use assms(2,3) in \<open>auto dest: on_conn_inv simp: only_writes_play only_writes_titles\<close>)

definition silent :: "(conn, unit) act \<Rightarrow> bool" where
  "silent m \<longleftrightarrow> (\<forall>c. c_closed c \<longrightarrow> c_out (snd (m c)) = c_out c)"

text \<open>Acts built from \<open>connWrite\<close> send nothing on a closed connection.\<close>

named_theorems silent_intros

lemma silent_writePacket [silent_intros]: "silent (writePacket p)"
  by (simp add: silent_def writePacket_def connWrite_closed)

lemma silent_const [silent_intros]: "silent (retE ())" "silent (failE e)"
  by (simp_all add: silent_def retE_def failE_def)

lemma silent_bind_lift: "(\<And>x. silent (f x)) \<Longrightarrow> silent (bindE (liftE r) f)"
  by (cases r) (simp_all add: result_simps silent_const)

lemma silent_emit [silent_intros]: "silent (emit i b)"
  by (simp add: emit_def silent_bind_lift silent_writePacket)

lemma silent_unsupported [silent_intros]: "silent (unsupported m as)" "silent (invalidControl m as)"
  by (simp_all add: unsupported_def invalidControl_def silent_const)

lemma silent_whenE [silent_intros]: "silent m \<Longrightarrow> silent (whenE b m)"
  by (simp add: whenE_def silent_const)

lemma silent_seqE2 [silent_intros]:
  assumes "silent m" "only_writes m" "silent (seqE ms)"
  shows "silent (seqE (m # ms))"
  unfolding silent_def
proof (intro allI impI)
  fix c :: conn
  assume c: "c_closed c"
  obtain r c1 where m: "m c = (r, c1)" by (cases "m c")
  have "c_out c1 = c_out c" using assms(1) c m unfolding silent_def by (metis snd_conv)
  moreover have "c_closed c1" using assms(2) c m unfolding only_writes_def by (metis snd_conv)
  moreover from this have "c_out (snd (seqE ms c1)) = c_out c1" using assms(3) by (simp add: silent_def)
  ultimately show "c_out (snd (seqE (m # ms) c)) = c_out c" using m by (cases r) auto
qed

lemma silent_Nil [silent_intros]: "silent (seqE [])"
  by (simp add: silent_def)

lemma silent_play [silent_intros]:
  "silent (writeComponentPacket E ad name msg)"
  "silent (writeSystemMessage E ad msg)"
  "silent (writeTitleTimesPacket E ad name tms)"
  "silent (writeLegacyTitleText E ad action msg)"
  "silent (writeLegacyTitleTimes E ad action tms)"
  "silent (writeClearTitle E ad reset)"
  "silent (writeShowDialog E ad dialog)"
  "silent (writeClearDialog E ad)"
  "silent (writeResourcePack E ad pack)"
  "silent (writeRemoveResourcePack E ad ident)"
  "silent (writeStoreCookie E ad key value)"
  "silent (writeTransfer E ad host port)"
  "silent (writeKickDisconnect E ad reason)"
  "silent (writeKeepAlive E ad ident')"
  by (auto simp: writeComponentPacket_def writeSystemMessage_def writeSystemMessageNBT_def
      writeTitleTimesPacket_def writeLegacyTitleText_def writeLegacyTitleTimes_def writeClearTitle_def
      writeShowDialog_def writeClearDialog_def writeResourcePack_def writeRemoveResourcePack_def
      writeStoreCookie_def writeTransfer_def writeKickDisconnect_def writeKeepAlive_def Let_def
      intro!: silent_intros silent_bind_lift split: option.split)

lemma silent_titles [silent_intros]: "silent (writeActionBar E ad msg)" "silent (writeTitle E ad t)"
  by (auto simp: writeActionBar_def writeTitle_def intro!: silent_intros only_writes_intros)

lemma on_conn_silent:
  assumes "on_conn m s = (r, t)" "silent m" "c_closed (ss_conn s)"
  shows "c_out (ss_conn t) = c_out (ss_conn s)"
proof -
  obtain c where "m (ss_conn s) = (r, c)" "t = s\<lparr>ss_conn := c\<rparr>"
    using assms(1) by (cases "m (ss_conn s)") (simp add: on_conn_def)
  with assms(2,3) show ?thesis unfolding silent_def
    by (metis playSession.select_convs(1) playSession.simps(9) playSession.surjective playSession.update_convs(1) snd_conv)
qed

lemma api_call_silent:
  assumes "api_call E a s = (r, t)" "c_closed (ss_conn s)"
  shows "c_out (ss_conn t) = c_out (ss_conn s)"
proof -
  have "silent m \<Longrightarrow> on_conn m s = (r', t') \<Longrightarrow> c_out (ss_conn t') = c_out (ss_conn s)" for m r' t'
    using on_conn_silent assms(2) by blast
  note this [OF silent_play(9)] this [OF silent_play(10)] this [OF silent_play(13)]
  with assms show ?thesis
    by (cases a) (auto intro!: silent_intros elim!: on_conn_silent split: prod.splits sum.splits
      simp: rememberResourcePack_def forgetResourcePack_def Let_def)
qed

lemma keepAliveSend_facts:
  assumes "keepAliveSend E t s = (go, s')"
  shows "session_le s s'" and "session_inv s \<Longrightarrow> session_inv s'"
    and "c_closed (ss_conn s) \<Longrightarrow> c_out (ss_conn s') = c_out (ss_conn s)"
proof -
  obtain r s1 where o: "on_conn (writeKeepAlive E (ss_adapter s) t) s = (r, s1)" by fastforce
  have w: "only_writes (writeKeepAlive E (ss_adapter s) t)" by (simp add: only_writes_intros)
  note f = on_conn_le [OF w o]
  have c: "s' = s \<or> s' = s1 \<or> s' = s1\<lparr>ss_closed := True, ss_conn := connClose (ss_conn s1)\<rparr>"
    using assms o by (auto simp: keepAliveSend_def sendKeepAlive_def split: if_splits sum.splits)
  have "session_le s1 (s1\<lparr>ss_closed := True, ss_conn := connClose (ss_conn s1)\<rparr>)"
    by (simp add: session_le_def)
  then show "session_le s s'" using c f session_le_trans by blast
  have "session_inv s \<Longrightarrow> session_inv s1" using on_conn_inv [OF o w] by simp
  then show "session_inv s \<Longrightarrow> session_inv s'" using c session_inv_close by blast
  show "c_closed (ss_conn s) \<Longrightarrow> c_out (ss_conn s') = c_out (ss_conn s)"
    using c on_conn_silent [OF o] by (auto simp: silent_intros)
qed

lemma session_read_facts:
  assumes "session_read s = (r, t)"
  shows "session_le s t" and "session_inv t \<longleftrightarrow> session_inv s"
    and "c_out (ss_conn t) = c_out (ss_conn s)" and "c_closed (ss_conn t) = c_closed (ss_conn s)"
    and "ss_closed t = ss_closed s"
proof -
  obtain c where c: "connReadPacket (ss_conn s) = (r, c)" and t: "t = s\<lparr>ss_conn := c\<rparr>"
    using assms by (cases "connReadPacket (ss_conn s)") (simp add: session_read_def)
  have f: "c_out c = c_out (ss_conn s)" "c_closed c = c_closed (ss_conn s)"
    using c by (auto simp: connReadPacket_def split: sum.splits prod.splits)
  have "length (flat (c_reader c)) \<le> length (flat (c_reader (ss_conn s)))"
    using c readPacket_consumes by (fastforce simp: connReadPacket_def split: sum.splits prod.splits)
  with f show "session_le s t" by (simp add: session_le_def t)
  show "session_inv t \<longleftrightarrow> session_inv s" "c_out (ss_conn t) = c_out (ss_conn s)"
    "c_closed (ss_conn t) = c_closed (ss_conn s)" "ss_closed t = ss_closed s"
    using f by (simp_all add: session_inv_def packs_ok_def t)
qed

section \<open>Every interleaving\<close>

definition play_inv :: "env \<Rightarrow> player \<Rightarrow> playAdapter \<Rightarrow> playState \<Rightarrow> bool" where
  "play_inv E pl ad x \<longleftrightarrow> (pick_ok E \<longrightarrow> session_inv (py_session x))
     \<and> ss_player (py_session x) = pl \<and> ss_adapter (py_session x) = ad"

lemma read_phase_facts:
  "read_phase E h k s = (ph, t) \<Longrightarrow> session_le s t \<and> (session_inv t \<longleftrightarrow> session_inv s)
    \<and> c_out (ss_conn t) = c_out (ss_conn s) \<and> c_closed (ss_conn t) = c_closed (ss_conn s)"
proof -
  assume r: "read_phase E h k s = (ph, t)"
  obtain o' t' where o: "session_read s = (o', t')" by (cases "session_read s")
  have "t = t'" using r o by (auto simp: read_phase_def split: sum.splits option.splits)
  with session_read_facts [OF o] show ?thesis by simp
qed

lemma play_step_inv: "play_inv E pl ad x \<Longrightarrow> play_step E h x l y \<Longrightarrow> play_inv E pl ad y"
proof (erule play_step.cases, goal_cases)
  case (2 x t go s)
  then show ?case using keepAliveSend_facts [OF 2(6)] by (auto simp: play_inv_def session_le_def)
next
  case (5 x a k r s)
  then show ?case using api_call_inv [OF _ _ 5(6)] api_call_le [OF 5(6)]
    by (auto simp: play_inv_def session_le_def)
next
  case (6 a x r s)
  then show ?case using api_call_inv [OF _ _ 6(5)] api_call_le [OF 6(5)]
    by (auto simp: play_inv_def session_le_def)
next
  case (10 x ph s)
  then show ?case using read_phase_facts [OF 10(7)] by (auto simp: play_inv_def session_le_def)
qed (auto simp: play_inv_def)

interpretation play: state_machine "\<lambda>x. \<exists>c. x = play_init h pl ad c" "play_step E h" "play_inv E pl ad"
  for E h pl ad
proof
  show "play_inv E pl ad x" if "\<exists>c. x = play_init h pl ad c" for x
    using that new_session_inv by (auto simp: play_inv_def play_init_def new_session_def)
qed (rule play_step_inv)

text \<open>Once the connection is closed, whatever runs, nothing more reaches the client.\<close>

definition sent_and_closed :: "byte list list \<Rightarrow> playState \<Rightarrow> bool" where
  "sent_and_closed out x \<longleftrightarrow> c_closed (ss_conn (py_session x)) \<and> c_out (ss_conn (py_session x)) = out"

lemma play_step_closed: "sent_and_closed out x \<Longrightarrow> play_step E h x l y \<Longrightarrow> sent_and_closed out y"
proof (erule play_step.cases, goal_cases)
  case (2 x t go s)
  then show ?case using keepAliveSend_facts(1,3) [OF 2(6)] by (auto simp: sent_and_closed_def session_le_def)
next
  case (5 x a k r s)
  then show ?case using api_call_silent [OF 5(6)] api_call_le [OF 5(6)]
    by (auto simp: sent_and_closed_def session_le_def)
next
  case (6 a x r s)
  then show ?case using api_call_silent [OF 6(5)] api_call_le [OF 6(5)]
    by (auto simp: sent_and_closed_def session_le_def)
next
  case (10 x ph s)
  then show ?case using read_phase_facts [OF 10(7)] by (auto simp: sent_and_closed_def)
qed (auto simp: sent_and_closed_def)

interpretation closed_play: state_machine "sent_and_closed out" "play_step E h" "sent_and_closed out"
  for out E h
  by unfold_locales (auto intro: play_step_closed)

section \<open>The loop is a run\<close>

lemma run_prog_path:
  "run_prog E p s = (e, t) \<Longrightarrow> py_session x = s \<Longrightarrow> py_phase x = Running p \<Longrightarrow>
    \<exists>ls. path (play_step E h) x ls (x\<lparr>py_session := t, py_phase := Running (Return e)\<rparr>)"
proof (induction p arbitrary: s x)
  case (Return e')
  then have "x\<lparr>py_session := t, py_phase := Running (Return e)\<rparr> = x" by (cases x) simp
  then show ?case by (metis path.path_Nil)
next
  case (Call a k)
  obtain r s1 where a: "api_call E a s = (r, s1)" by (cases "api_call E a s")
  let ?x1 = "x\<lparr>py_session := s1, py_phase := Running (k r)\<rparr>"
  have "play_step E h x (LApi a) ?x1" using Call.prems a by (intro play_step.api) simp_all
  moreover have "\<exists>ls. path (play_step E h) ?x1 ls (?x1\<lparr>py_session := t, py_phase := Running (Return e)\<rparr>)"
    using Call.prems a by (intro Call.IH) simp_all
  ultimately show ?case by (auto intro: path.path_Cons)
qed

lemma run_prog_finish:
  assumes "run_prog E p s = (e, t)" "py_session x = s" "py_phase x = Running p"
  shows "\<exists>ls. path (play_step E h) x ls (x\<lparr>py_session := t,
    py_phase := (case e of Some err \<Rightarrow> Finished (Some err) | None \<Rightarrow> next_phase t)\<rparr>)"
proof -
  let ?y = "x\<lparr>py_session := t, py_phase := Running (Return e)\<rparr>"
  obtain ls where ls: "path (play_step E h) x ls ?y" using run_prog_path [OF assms] by blast
  have "play_step E h ?y LReturn (?y\<lparr>py_phase :=
      (case e of Some err \<Rightarrow> Finished (Some err) | None \<Rightarrow> next_phase t)\<rparr>)"
  proof (cases e)
    case None
    then show ?thesis using play_step.return_nil [of ?y E h] by simp
  next
    case (Some err)
    then show ?thesis using play_step.return_error [of ?y err E h] by simp
  qed
  from path_append [OF ls path_single [of "play_step E h", OF this]] show ?thesis by auto
qed

lemma play_loop_path:
  "play_loop E h k s = (e, t) \<Longrightarrow> py_session x = s \<Longrightarrow> py_packets x = k \<Longrightarrow> py_phase x = Reading \<Longrightarrow> \<not> py_cancelled x \<Longrightarrow>
    \<exists>ls y. path (play_step E h) x ls y \<and> py_phase y = Finished e \<and> py_session y = t"
proof (induction E h k s arbitrary: x rule: play_loop.induct)
  case (1 E h k s)
  obtain r s1 where r: "session_read s = (r, s1)" by (cases "session_read s")
  obtain ph s' where ph: "read_phase E h k s = (ph, s')" by (cases "read_phase E h k s")
  have s': "s' = s1" using ph r by (auto simp: read_phase_def split: sum.splits option.splits)
  let ?x1 = "x\<lparr>py_session := s1, py_phase := ph, py_packets := Suc k\<rparr>"
  have step: "play_step E h x LRead ?x1" using play_step.read [of x E h ph s1] "1.prems" ph s' by simp
  show ?case
  proof (cases r)
    case (Inl err)
    then have "ph = Finished e \<and> s1 = t"
      using "1.prems"(1) r ph by (subst (asm) play_loop.simps) (auto simp: read_phase_def)
    then show ?thesis using path_single [of "play_step E h", OF step] by (intro exI conjI) auto
  next
    case (Inr p)
    obtain e2 s2 where h: "handlePlayPacket E h k p s1 = (e2, s2)" by (cases "handlePlayPacket E h k p s1")
    let ?last = "case e2 of Some err \<Rightarrow> Finished (Some err) | None \<Rightarrow> next_phase s2"
    have "\<exists>ls. path (play_step E h) ?x1 ls (?x1\<lparr>py_session := s2, py_phase := ?last\<rparr>)"
    proof (cases "packet_event E (hd_resourcePacks h) s1 p")
      case (Inl err)
      then have "e2 = Some err" "s2 = s1" "ph = Finished (Some err)"
        using h ph r \<open>r = Inr p\<close> by (auto simp: handlePlayPacket_def read_phase_def)
      then show ?thesis by (auto intro!: exI [of _ "[]"])
    next
      case (Inr ev)
      show ?thesis
      proof (cases ev)
        case None
        then have "e2 = None" "s2 = s1" "ph = next_phase s1"
          using h ph r Inr \<open>r = Inr p\<close> by (auto simp: handlePlayPacket_def read_phase_def)
        then show ?thesis by (auto intro!: exI [of _ "[]"])
      next
        case (Some ev')
        then have "run_prog E (hd_handle h k ev') s1 = (e2, s2)" "ph = Running (hd_handle h k ev')"
          using h ph r Inr \<open>r = Inr p\<close> by (auto simp: handlePlayPacket_def read_phase_def)
        then show ?thesis using run_prog_finish [of E "hd_handle h k ev'" s1 e2 s2 ?x1] by simp
      qed
    qed
    moreover have "?x1\<lparr>py_session := s2, py_phase := ?last\<rparr> = x\<lparr>py_session := s2, py_phase := ?last, py_packets := Suc k\<rparr>"
      by (cases x) simp
    ultimately obtain ls where ls: "path (play_step E h) x ls (x\<lparr>py_session := s2, py_phase := ?last, py_packets := Suc k\<rparr>)"
      using step by (metis path.path_Cons)
    show ?thesis
    proof (cases "e2 = None \<and> \<not> ss_closed s2")
      case True
      then have "play_loop E h (Suc k) s2 = (e, t)"
        using "1.prems"(1) r Inr h by (subst (asm) play_loop.simps) simp
      then obtain ms y where "path (play_step E h) (x\<lparr>py_session := s2, py_phase := ?last, py_packets := Suc k\<rparr>) ms y"
        "py_phase y = Finished e" "py_session y = t"
        using "1.IH" [OF r [symmetric] Inr h [symmetric], of "x\<lparr>py_session := s2, py_phase := ?last, py_packets := Suc k\<rparr>"]
          True "1.prems"(5) by (auto simp: next_phase_def)
      with ls show ?thesis by (blast intro: path_append)
    next
      case False
      then have "?last = Finished e \<and> s2 = t"
        using "1.prems"(1) r Inr h
        by (subst (asm) play_loop.simps) (auto simp: next_phase_def split: option.splits if_splits)
      with ls show ?thesis by (intro exI conjI) auto
    qed
  qed
qed

theorem servePlayEvents_path:
  assumes "servePlayEvents E (Some h) pl ad c = (e, t)"
  shows "\<exists>ls y. path (play_step E h) (play_init h pl ad c) ls y \<and> py_phase y = Finished e
    \<and> py_session y = t"
proof -
  let ?p = "hd_handle h 0 (JoinEvent pl (pa_protocol ad))"
  let ?x = "play_init h pl ad c"
  obtain e1 s1 where r: "run_prog E ?p (new_session c pl ad) = (e1, s1)"
    by (cases "run_prog E ?p (new_session c pl ad)")
  let ?last = "case e1 of Some err \<Rightarrow> Finished (Some err) | None \<Rightarrow> next_phase s1"
  obtain ls where ls: "path (play_step E h) ?x ls (?x\<lparr>py_session := s1, py_phase := ?last\<rparr>)"
    using run_prog_finish [OF r, of ?x h] by (auto simp: play_init_def)
  show ?thesis
  proof (cases "e1 = None \<and> \<not> ss_closed s1")
    case True
    then have "play_loop E h 1 s1 = (e, t)" using assms r by (simp add: servePlayEvents_def)
    from play_loop_path [OF this, of "?x\<lparr>py_session := s1, py_phase := ?last\<rparr>"] True
    obtain ms y where "path (play_step E h) (?x\<lparr>py_session := s1, py_phase := ?last\<rparr>) ms y"
      "py_phase y = Finished e" "py_session y = t"
      by (auto simp: next_phase_def play_init_def)
    with ls show ?thesis by (blast intro: path_append)
  next
    case False
    then have "?last = Finished e \<and> s1 = t"
      using assms r by (auto simp: servePlayEvents_def next_phase_def split: option.splits if_splits)
    with ls show ?thesis by (intro exI conjI) auto
  qed
qed

end
