(* ===== verification/Play_Events.thy ===== *)
theory Play_Events
  imports Play_Steps Join_Flows
begin

text \<open>
  What an application sees of a player. The actions of a client are described by what they mean, with
  the packets a client of the protocol sends for them; a conversation is the sequence of callbacks these
  actions stand for. The event loop of \<open>play_events.go\<close> holds exactly this conversation.
\<close>

section \<open>What a client does\<close>

text \<open>
  A line typed in the chat, a chat message or a command that the client already told apart (from 1.19
  on), a click on a dialog with an optional NBT payload, or anything the server does not listen to.
\<close>

datatype clientAct =
    TypesLine string
  | SendsMessage string
  | SendsCommand string
  | ClicksDialog string "byte list option"
  | Unheard

definition heard :: "string list" where
  "heard = [''chat'', ''chat_message'', ''chat_command'', ''chat_command_signed'', ''custom_click_action'',
     ''resource_pack_receive'']"

text \<open>The packets of a client that does this; what may follow the text in the packet is not fixed.\<close>

fun client_sends :: "env \<Rightarrow> playAdapter \<Rightarrow> clientAct \<Rightarrow> packet \<Rightarrow> bool" where
  "client_sends E ad (TypesLine t) p \<longleftrightarrow> isServerboundPlayPacket E ad (pkt_id p) ''chat''
     \<and> string_ok 256 t \<and> (\<exists>rest. pkt_data p = writeString t @ rest)"
| "client_sends E ad (SendsMessage t) p \<longleftrightarrow> isServerboundPlayPacket E ad (pkt_id p) ''chat_message''
     \<and> string_ok 256 t \<and> (\<exists>rest. pkt_data p = writeString t @ rest)"
| "client_sends E ad (SendsCommand t) p \<longleftrightarrow> (isServerboundPlayPacket E ad (pkt_id p) ''chat_command''
       \<or> isServerboundPlayPacket E ad (pkt_id p) ''chat_command_signed'')
     \<and> string_ok 256 t \<and> (\<exists>rest. pkt_data p = writeString t @ rest)"
| "client_sends E ad (ClicksDialog i pay) p \<longleftrightarrow> isServerboundPlayPacket E ad (pkt_id p) ''custom_click_action''
     \<and> string_ok 32767 i \<and> pkt_data p = writeString i @ (case pay of None \<Rightarrow> [0] | Some d \<Rightarrow> 1 # d)"
| "client_sends E ad Unheard p \<longleftrightarrow> list_all (\<lambda>name. \<not> isServerboundPlayPacket E ad (pkt_id p) name) heard"

text \<open>A packet table that gives each of these names an id of its own.\<close>

definition names_apart :: "env \<Rightarrow> playAdapter \<Rightarrow> bool" where
  "names_apart E ad \<longleftrightarrow> (\<forall>m \<in> set heard. \<forall>n \<in> set heard. \<forall>i.
     isServerboundPlayPacket E ad i m \<longrightarrow> isServerboundPlayPacket E ad i n \<longrightarrow> m = n)"

text \<open>To be checked on the ids of a table.\<close>

lemma names_apart_ids:
  "list_all (\<lambda>m. list_all (\<lambda>n. m = n \<or> packet_ID (ev_packets E) (pa_packetProtocol ad) StatePlay ToServer m = None
     \<or> packet_ID (ev_packets E) (pa_packetProtocol ad) StatePlay ToServer m
       \<noteq> packet_ID (ev_packets E) (pa_packetProtocol ad) StatePlay ToServer n) heard) heard \<Longrightarrow> names_apart E ad"
  unfolding names_apart_def isServerboundPlayPacket_def list_all_iff by (metis option.distinct(1))

section \<open>What the application should see of it\<close>

definition without_slash :: "string \<Rightarrow> string" where
  "without_slash t = (if t \<noteq> '''' \<and> hd t = CHR ''/'' then tl t else t)"

fun act_event :: "player \<Rightarrow> int \<Rightarrow> clientAct \<Rightarrow> event option" where
  "act_event pl v (TypesLine t) = Some (if t \<noteq> '''' \<and> hd t = CHR ''/'' then CommandEvent pl (tl t) v else ChatEvent pl t v)"
| "act_event pl v (SendsMessage t) = Some (ChatEvent pl t v)"
| "act_event pl v (SendsCommand t) = Some (CommandEvent pl (without_slash t) v)"
| "act_event pl v (ClicksDialog i pay) = Some (DialogClick
     \<lparr>dc_Player = pl, dc_ID = i, dc_Payload = pay, dc_Protocol = v\<rparr>)"
| "act_event pl v Unheard = None"

definition skipped :: "nat \<Rightarrow> playSession \<Rightarrow> playSession" where
  "skipped n s = s\<lparr>ss_conn := skip n (ss_conn s)\<rparr>"

text \<open>
  The callbacks of a session in order, each with the bytes that led to it: the first error ends it, a
  session closed by a callback ends it without one, and the end of the input with \<open>final\<close>.
\<close>

fun converse :: "env \<Rightarrow> handler \<Rightarrow> go_error option \<Rightarrow> nat \<Rightarrow> (nat \<times> event option) list \<Rightarrow> playSession
    \<Rightarrow> go_error option \<times> playSession" where
  "converse E h final k [] s = (final, s)"
| "converse E h final k ((n, None) # evs) s = converse E h final (Suc k) evs (skipped n s)"
| "converse E h final k ((n, Some ev) # evs) s = (case run_prog E (hd_handle h k ev) (skipped n s) of
      (Some e, t) \<Rightarrow> (Some e, t)
    | (None, t) \<Rightarrow> if ss_closed t then (None, t) else converse E h final (Suc k) evs t)"

definition conversation :: "player \<Rightarrow> int \<Rightarrow> (clientAct \<times> packet) list \<Rightarrow> (nat \<times> event option) list" where
  "conversation pl v acts = (0, Some (JoinEvent pl v)) #
     map (\<lambda>(a, p). (length (packetFrame p), act_event pl v a)) acts"

section \<open>The packets are understood\<close>

lemma hasPrefix_slash: "hasPrefix t ''/'' \<longleftrightarrow> t \<noteq> '''' \<and> hd t = CHR ''/''"
  by (cases t) auto

lemma trimPrefix_slash: "trimPrefix t ''/'' = without_slash t"
  by (cases t) (auto simp: trimPrefix_def without_slash_def)

lemma readFirstPacketString_sent:
  "string_ok 256 t \<Longrightarrow> readFirstPacketString (writeString t @ rest) = Inr t"
  by (simp add: readFirstPacketString_def wire_string.dec_bytes)

lemma readOptionalAnonymousNBT_sent:
  "readOptionalAnonymousNBT (bytes_reader (case pay of None \<Rightarrow> [0] | Some d \<Rightarrow> 1 # d)) = Inr pay"
  by (cases pay) (simp_all add: readOptionalAnonymousNBT_def remaining_def readByte_def bytes_reader_def flat_def)

lemma readCustomClickAction_sent:
  "string_ok 32767 i \<Longrightarrow> readCustomClickAction ad pl (writeString i @ (case pay of None \<Rightarrow> [0] | Some d \<Rightarrow> 1 # d))
    = Inr \<lparr>dc_Player = pl, dc_ID = i, dc_Payload = pay, dc_Protocol = pa_protocol ad\<rparr>"
  by (simp add: readCustomClickAction_def wire_string.dec_bytes readOptionalAnonymousNBT_sent)

lemma heard_apart:
  assumes "names_apart E ad" "isServerboundPlayPacket E ad i m" "m \<in> set heard" "n \<in> set heard"
  shows "isServerboundPlayPacket E ad i n \<longleftrightarrow> n = m"
  using assms unfolding names_apart_def by blast

lemma packet_event_sent:
  assumes "names_apart E (ss_adapter s)" "client_sends E (ss_adapter s) a p"
  shows "packet_event E takes s p = Inr (act_event (ss_player s) (pa_protocol (ss_adapter s)) a)"
proof -
  note apart = heard_apart [OF assms(1)]
  show ?thesis
  proof (cases a)
    case (TypesLine t)
    then have i: "isServerboundPlayPacket E (ss_adapter s) (pkt_id p) ''chat''" using assms(2) by simp
    from TypesLine assms(2) show ?thesis
      by (auto simp: packet_event_def Let_def readFirstPacketString_sent hasPrefix_slash trimPrefix_slash without_slash_def)
  next
    case (SendsMessage t)
    then have i: "isServerboundPlayPacket E (ss_adapter s) (pkt_id p) ''chat_message''" using assms(2) by simp
    have "\<not> isServerboundPlayPacket E (ss_adapter s) (pkt_id p) ''chat''"
      using apart [OF i, of "''chat''"] by (simp add: heard_def)
    with i SendsMessage assms(2) show ?thesis by (auto simp: packet_event_def Let_def readFirstPacketString_sent)
  next
    case (SendsCommand t)
    then obtain m where i: "isServerboundPlayPacket E (ss_adapter s) (pkt_id p) m"
      "m = ''chat_command'' \<or> m = ''chat_command_signed''" using assms(2) by auto
    then have "\<not> isServerboundPlayPacket E (ss_adapter s) (pkt_id p) ''chat''"
      "\<not> isServerboundPlayPacket E (ss_adapter s) (pkt_id p) ''chat_message''"
      using apart [OF i(1), of "''chat''"] apart [OF i(1), of "''chat_message''"] by (auto simp: heard_def)
    with i SendsCommand assms(2) show ?thesis
      by (auto simp: packet_event_def Let_def readFirstPacketString_sent trimPrefix_slash)
  next
    case (ClicksDialog i pay)
    then have c: "isServerboundPlayPacket E (ss_adapter s) (pkt_id p) ''custom_click_action''" using assms(2) by simp
    have "\<not> isServerboundPlayPacket E (ss_adapter s) (pkt_id p) n"
      if "n \<in> {''chat'', ''chat_message'', ''chat_command'', ''chat_command_signed''}" for n
      using apart [OF c, of n] that by (auto simp: heard_def)
    with c ClicksDialog assms(2) show ?thesis
      by (simp add: packet_event_def Let_def readCustomClickAction_sent)
  next
    case Unheard
    with assms(2) show ?thesis by (simp add: packet_event_def Let_def heard_def)
  qed
qed

section \<open>The loop holds the conversation\<close>

text \<open>As long as the session is open, no callback touches the reader.\<close>

lemma api_call_open:
  assumes "api_call E a s = (r, t)" "\<not> ss_closed t"
  shows "c_reader (ss_conn t) = c_reader (ss_conn s)"
proof (cases a)
  case (AddResourcePack p)
  obtain r1 s1 where o: "on_conn (writeResourcePack E (ss_adapter s) p) s = (r1, s1)" by fastforce
  have "c_reader (ss_conn s1) = c_reader (ss_conn s)" using on_conn_le [OF _ o] by (simp add: only_writes_intros)
  then show ?thesis using assms AddResourcePack o
    by (auto simp: rememberResourcePack_def Let_def split: sum.splits)
next
  case (RemoveResourcePack i)
  obtain r1 s1 where o: "on_conn (writeRemoveResourcePack E (ss_adapter s) i) s = (r1, s1)" by fastforce
  have "c_reader (ss_conn s1) = c_reader (ss_conn s)" using on_conn_le [OF _ o] by (simp add: only_writes_intros)
  then show ?thesis using assms RemoveResourcePack o
    by (auto simp: forgetResourcePack_def Let_def split: sum.splits)
next
  case (Disconnect reason)
  then show ?thesis using assms by (auto split: prod.splits)
qed (use assms in \<open>auto dest: on_conn_le [rotated] simp: only_writes_play only_writes_titles\<close>)

lemma run_prog_open:
  "run_prog E p s = (e, t) \<Longrightarrow> \<not> ss_closed t \<Longrightarrow> c_reader (ss_conn t) = c_reader (ss_conn s)"
proof (induction p arbitrary: s)
  case (Return e')
  then show ?case by simp
next
  case (Call a k)
  obtain r s1 where a: "api_call E a s = (r, s1)" by (cases "api_call E a s")
  with Call.prems have r: "run_prog E (k r) s1 = (e, t)" by simp
  then have "\<not> ss_closed s1" using run_prog_le [OF r] Call.prems(2) by (auto simp: session_le_def)
  with api_call_open [OF a] Call.IH [OF rangeI r Call.prems(2)] show ?case by simp
qed

lemma session_read_frame:
  "packet_ok p \<Longrightarrow> flat (c_reader (ss_conn s)) = packetFrame p @ rest \<Longrightarrow>
    session_read s = (Inr p, skipped (length (packetFrame p)) s)"
  by (simp add: session_read_def connReadPacket_frame skipped_def)

lemma readVarInt_end: "flat r = [] \<Longrightarrow> readVarInt r = Inl (serr r)"
  by (simp add: readVarInt_def readVarInt_loop.simps [of 0 0 r] readByte_Nil)

lemma session_read_end:
  "flat (c_reader (ss_conn s)) = [] \<Longrightarrow> session_read s = (Inl (serr (c_reader (ss_conn s))), s)"
  by (simp add: session_read_def connReadPacket_def readPacket_def readVarInt_end)

lemma skipped_simps [simp]:
  "ss_closed (skipped n s) = ss_closed s" "ss_player (skipped n s) = ss_player s" "ss_adapter (skipped n s) = ss_adapter s"
  "flat (c_reader (ss_conn (skipped n s))) = drop n (flat (c_reader (ss_conn s)))"
  "serr (c_reader (ss_conn (skipped n s))) = serr (c_reader (ss_conn s))"
  by (simp_all add: skipped_def skip_def)

lemma play_loop_converse:
  assumes "names_apart E (ss_adapter s)" "\<forall>(a, p) \<in> set acts. packet_ok p \<and> client_sends E (ss_adapter s) a p"
    "flat (c_reader (ss_conn s)) = concat (map (\<lambda>(a, p). packetFrame p) acts)" "\<not> ss_closed s"
    "final = (if isClosedPlayConnError (serr (c_reader (ss_conn s))) then None else Some (serr (c_reader (ss_conn s))))"
  shows "play_loop E h k s = converse E h final k
    (map (\<lambda>(a, p). (length (packetFrame p), act_event (ss_player s) (pa_protocol (ss_adapter s)) a)) acts) s"
  using assms
proof (induction acts arbitrary: k s)
  case Nil
  then show ?case by (subst play_loop.simps) (simp add: session_read_end)
next
  case (Cons ap acts)
  obtain a p where ap: "ap = (a, p)" by (cases ap)
  have p: "packet_ok p" "client_sends E (ss_adapter s) a p"
    and fl: "flat (c_reader (ss_conn s)) = packetFrame p @ concat (map (\<lambda>(a, p). packetFrame p) acts)"
    using Cons.prems(2,3) ap by auto
  let ?s = "skipped (length (packetFrame p)) s"
  have r: "session_read s = (Inr p, ?s)" by (rule session_read_frame [OF p(1) fl])
  have e: "packet_event E (hd_resourcePacks h) ?s p = Inr (act_event (ss_player s) (pa_protocol (ss_adapter s)) a)"
    using packet_event_sent [of E ?s a p] Cons.prems(1) p(2) by simp
  have step: "play_loop E h (Suc k) t = converse E h final (Suc k)
      (map (\<lambda>(a, p). (length (packetFrame p), act_event (ss_player s) (pa_protocol (ss_adapter s)) a)) acts) t"
    if "c_reader (ss_conn t) = c_reader (ss_conn ?s)" "session_le ?s t" "\<not> ss_closed t" for t
  proof -
    have t: "ss_player t = ss_player s" "ss_adapter t = ss_adapter s" using that(2) by (simp_all add: session_le_def)
    have "flat (c_reader (ss_conn t)) = concat (map (\<lambda>(a, p). packetFrame p) acts)"
      "serr (c_reader (ss_conn t)) = serr (c_reader (ss_conn s))" using that(1) fl by simp_all
    with Cons.IH [of t "Suc k"] Cons.prems(1,2,5) that(3) show ?thesis by (simp add: t)
  qed
  show ?case
  proof (cases "act_event (ss_player s) (pa_protocol (ss_adapter s)) a")
    case None
    then show ?thesis using step [of ?s] Cons.prems(4) r e
      by (subst play_loop.simps) (simp add: ap handlePlayPacket_def)
  next
    case (Some ev)
    obtain e2 t where t: "run_prog E (hd_handle h k ev) ?s = (e2, t)" by (cases "run_prog E (hd_handle h k ev) ?s")
    then show ?thesis using step [of t] run_prog_open [OF t] run_prog_le [OF t] r e Some
      by (subst play_loop.simps) (auto simp: ap handlePlayPacket_def split: option.split)
  qed
qed

lemma servePlayEvents_converse:
  assumes "names_apart E ad" "\<forall>(a, p) \<in> set acts. packet_ok p \<and> client_sends E ad a p"
    "flat (c_reader c) = concat (map (\<lambda>(a, p). packetFrame p) acts)"
    "final = (if isClosedPlayConnError (serr (c_reader c)) then None else Some (serr (c_reader c)))"
  shows "servePlayEvents E (Some h) pl ad c
    = converse E h final 0 (conversation pl (pa_protocol ad) acts) (new_session c pl ad)"
proof -
  let ?s = "new_session c pl ad"
  have s0: "skipped 0 ?s = ?s" by (simp add: skipped_def skip_def)
  obtain e t where t: "run_prog E (hd_handle h 0 (JoinEvent pl (pa_protocol ad))) ?s = (e, t)"
    by (cases "run_prog E (hd_handle h 0 (JoinEvent pl (pa_protocol ad))) ?s")
  have le: "ss_player t = pl" "ss_adapter t = ad"
    using run_prog_le [OF t] by (simp_all add: session_le_def new_session_def)
  have "play_loop E h 1 t = converse E h final 1
      (map (\<lambda>(a, p). (length (packetFrame p), act_event pl (pa_protocol ad) a)) acts) t" if "\<not> ss_closed t"
  proof -
    have "c_reader (ss_conn t) = c_reader c" using run_prog_open [OF t that] by (simp add: new_session_def)
    with play_loop_converse [of E t acts final h 1] assms le that show ?thesis by simp
  qed
  then show ?thesis using t
    by (auto simp: servePlayEvents_def conversation_def s0 split: option.split)
qed

end
