(* ===== verification/Go_IP.thy ===== *)
theory Go_IP
  imports Go_Net Go_Number Env
begin

text \<open>
  The parts of Go's \<open>net\<close> package that the PROXY protocol uses: IP addresses as 4 or 16 bytes,
  \<open>ParseIP\<close>, \<open>ParseCIDR\<close>, \<open>IPNet.Contains\<close>, and the text of addresses.
\<close>

type_synonym ip = "byte list"

definition v4InV6Prefix :: "byte list" where
  "v4InV6Prefix = [0, 0, 0, 0, 0, 0, 0, 0, 0, 0, 0xff, 0xff]"

definition to4 :: "ip \<Rightarrow> ip option" where
  "to4 p = (if length p = 4 then Some p
     else if length p = 16 \<and> take 12 p = v4InV6Prefix then Some (drop 12 p)
     else None)"

definition IPv4 :: "byte \<Rightarrow> byte \<Rightarrow> byte \<Rightarrow> byte \<Rightarrow> ip" where
  "IPv4 a b c d = v4InV6Prefix @ [a, b, c, d]"

section \<open>Parsing\<close>

definition parseOctet :: "string \<Rightarrow> byte option" where
  "parseOctet s = (if s \<noteq> '''' \<and> list_all isDigit s \<and> (hd s \<noteq> CHR ''0'' \<or> length s = 1) \<and> digits s \<le> 255
     then Some (word_of_nat (digits s)) else None)"

definition parseIPv4 :: "string \<Rightarrow> ip option" where
  "parseIPv4 s = (case map parseOctet (splitByte s (CHR ''.'')) of
     [Some a, Some b, Some c, Some d] \<Rightarrow> Some [a, b, c, d] | _ \<Rightarrow> None)"

text \<open>A group of an IPv6 address: at most four hexadecimal digits.\<close>

fun spanHex :: "string \<Rightarrow> string \<times> string" where
  "spanHex [] = ([], [])"
| "spanHex (c # s) = (if hexVal c = None then ([], c # s) else (case spanHex s of (h, r) \<Rightarrow> (c # h, r)))"

definition hexGroup :: "string \<Rightarrow> nat" where
  "hexGroup h = foldl (\<lambda>acc c. acc * 16 + (case hexVal c of Some v \<Rightarrow> v | None \<Rightarrow> 0)) 0 h"

definition group_bytes :: "nat \<Rightarrow> byte list" where
  "group_bytes g = [word_of_nat (g div 256), word_of_nat (g mod 256)]"

text \<open>
  The loop of \<open>netip.parseIPv6\<close>: the bytes so far, where the ellipsis stands, the rest of the
  text. At most eight groups are read; what is left over is an error.
\<close>

fun parse_groups :: "nat \<Rightarrow> ip \<Rightarrow> nat option \<Rightarrow> string \<Rightarrow> (ip \<times> nat option) option" where
  "parse_groups 0 acc ell s = (if s = [] then Some (acc, ell) else None)"
| "parse_groups (Suc n) acc ell s =
    (case spanHex s of (h, r) \<Rightarrow>
      if h = [] \<or> 4 < length h then None
      else if r \<noteq> [] \<and> hd r = CHR ''.'' then
        (if ell = None \<and> length acc \<noteq> 12 \<or> 12 < length acc then None
         else case parseIPv4 s of None \<Rightarrow> None | Some v4 \<Rightarrow> Some (acc @ v4, ell))
      else
        (let acc' = acc @ group_bytes (hexGroup h) in
         case r of
           [] \<Rightarrow> Some (acc', ell)
         | c # r1 \<Rightarrow>
             if c \<noteq> CHR '':'' \<or> r1 = [] then None
             else if hd r1 = CHR '':'' then
               (if ell \<noteq> None then None
                else if tl r1 = [] then Some (acc', Some (length acc'))
                else parse_groups n acc' (Some (length acc')) (tl r1))
             else parse_groups n acc' ell r1))"

definition expand_ellipsis :: "ip \<Rightarrow> nat option \<Rightarrow> ip option" where
  "expand_ellipsis acc ell = (if length acc < 16
     then (case ell of None \<Rightarrow> None | Some e \<Rightarrow> Some (take e acc @ replicate (16 - length acc) 0 @ drop e acc))
     else if ell = None then Some acc else None)"

definition parseIPv6 :: "string \<Rightarrow> ip option" where
  "parseIPv6 s =
    (if hasPrefix s ''::'' then
       (if length s = 2 then Some (replicate 16 0)
        else (case parse_groups 8 [] (Some 0) (drop 2 s) of
            None \<Rightarrow> None | Some (acc, ell) \<Rightarrow> expand_ellipsis acc ell))
     else (case parse_groups 8 [] None s of
         None \<Rightarrow> None | Some (acc, ell) \<Rightarrow> expand_ellipsis acc ell))"

text \<open>\<open>netip.ParseAddr\<close> of an address without a zone: the first of \<open>.\<close> and \<open>:\<close> decides.\<close>

definition parseAddr :: "string \<Rightarrow> ip option" where
  "parseAddr s = (if containsByte s (CHR ''%'') then None
     else case List.find (\<lambda>c. c = CHR ''.'' \<or> c = CHR '':'') s of
       None \<Rightarrow> None
     | Some c \<Rightarrow> if c = CHR ''.'' then parseIPv4 s else parseIPv6 s)"

definition as16 :: "ip \<Rightarrow> ip" where
  "as16 p = (if length p = 4 then v4InV6Prefix @ p else p)"

definition parseIP :: "string \<Rightarrow> ip option" where
  "parseIP s = map_option as16 (parseAddr s)"

section \<open>Networks\<close>

record ipNet =
  nw_IP :: ip
  nw_Mask :: "byte list"

text \<open>\<open>CIDRMask\<close>: the top \<open>ones\<close> bits of so many bytes.\<close>

definition mask_byte :: "nat \<Rightarrow> byte" where
  "mask_byte k = (if 8 \<le> k then 0xff else NOT (mask (8 - k)))"

definition cidrMask :: "nat \<Rightarrow> nat \<Rightarrow> byte list" where
  "cidrMask ones len = map (\<lambda>i. mask_byte (ones - 8 * i)) [0..<len]"

definition mask_ip :: "ip \<Rightarrow> byte list \<Rightarrow> ip" where
  "mask_ip p m = map2 (AND) (if length m = 4 \<and> length p = 16 \<and> take 12 p = v4InV6Prefix then drop 12 p else p) m"

definition dtoi :: "string \<Rightarrow> nat option" where
  "dtoi s = (if s \<noteq> '''' \<and> list_all isDigit s \<and> digits s < 0xFFFFFF then Some (digits s) else None)"

definition parseCIDR :: "string \<Rightarrow> ipNet option" where
  "parseCIDR s = (case indexByte s (CHR ''/'') of
      None \<Rightarrow> None
    | Some i \<Rightarrow> (case parseAddr (take i s) of
        None \<Rightarrow> None
      | Some p \<Rightarrow> (case dtoi (drop (i + 1) s) of
          None \<Rightarrow> None
        | Some n \<Rightarrow> if 8 * length p < n then None
            else Some \<lparr>nw_IP = mask_ip (as16 p) (cidrMask n (length p)), nw_Mask = cidrMask n (length p)\<rparr>)))"

definition networkNumberAndMask :: "ipNet \<Rightarrow> (ip \<times> byte list) option" where
  "networkNumberAndMask n =
    (let p = (case to4 (nw_IP n) of Some q \<Rightarrow> q | None \<Rightarrow> nw_IP n); m = nw_Mask n in
     if length p \<noteq> 4 \<and> length p \<noteq> 16 then None
     else if length m = 4 then (if length p \<noteq> 4 then None else Some (p, m))
     else if length m = 16 then Some (p, if length p = 4 then drop 12 m else m)
     else None)"

definition net_contains :: "ipNet \<Rightarrow> ip \<Rightarrow> bool" where
  "net_contains n addr =
    (let x = (case to4 addr of Some q \<Rightarrow> q | None \<Rightarrow> addr) in
     case networkNumberAndMask n of
       None \<Rightarrow> x = []
     | Some (nn, m) \<Rightarrow> length x = length nn \<and> map2 (AND) nn m = map2 (AND) x m)"

section \<open>Text\<close>

definition v4String :: "ip \<Rightarrow> string" where
  "v4String p = showNat (unat (p ! 0)) @ ''.'' @ showNat (unat (p ! 1)) @ ''.'' @ showNat (unat (p ! 2)) @ ''.'' @
     showNat (unat (p ! 3))"

definition group :: "ip \<Rightarrow> nat \<Rightarrow> nat" where
  "group p i = unat (p ! (2 * i)) * 256 + unat (p ! (2 * i + 1))"

text \<open>Lower-case hexadecimal without leading zeros.\<close>

fun hexDigits :: "nat \<Rightarrow> string" where
  "hexDigits n = (if n < 16 then [hexDigit n] else hexDigits (n div 16) @ [hexDigit (n mod 16)])"

declare hexDigits.simps [simp del]

definition zero_run :: "ip \<Rightarrow> nat \<Rightarrow> nat" where
  "zero_run p i = length (takeWhile (\<lambda>j. group p j = 0) [i..<8])"

text \<open>The longest run of at least two zero groups, the first of them if there are several.\<close>

definition longest_run :: "ip \<Rightarrow> (nat \<times> nat) option" where
  "longest_run p = foldl (\<lambda>best i.
     (let l = zero_run p i in
      if 2 \<le> l \<and> (case best of None \<Rightarrow> True | Some (s, e) \<Rightarrow> e - s < l) then Some (i, i + l) else best))
     None [0..<8]"

definition joinGroups :: "ip \<Rightarrow> nat list \<Rightarrow> string" where
  "joinGroups p is = (case map (\<lambda>i. hexDigits (group p i)) is of
      [] \<Rightarrow> '''' | g # gs \<Rightarrow> g @ concat (map (\<lambda>x. CHR '':'' # x) gs))"

definition v6String :: "ip \<Rightarrow> string" where
  "v6String p = (case longest_run p of
      None \<Rightarrow> joinGroups p [0..<8]
    | Some (s, e) \<Rightarrow> joinGroups p [0..<s] @ ''::'' @ joinGroups p [e..<8])"

definition ipString :: "ip \<Rightarrow> string" where
  "ipString p = (case to4 p of
      Some q \<Rightarrow> v4String q
    | None \<Rightarrow> if length p = 16 then v6String p else if p = [] then '''' else ''?'' @ hexString p)"

definition joinHostPort :: "string \<Rightarrow> string \<Rightarrow> string" where
  "joinHostPort host port = (if containsByte host (CHR '':'') then ''['' @ host @ '']:'' @ port
     else host @ '':'' @ port)"

record tcpAddr =
  ta_IP :: ip
  ta_Port :: int

definition tcpString :: "tcpAddr \<Rightarrow> string" where
  "tcpString a = joinHostPort (ipString (ta_IP a)) (itoa (ta_Port a))"

section \<open>Networks are bit prefixes\<close>

text \<open>Bit \<open>i\<close> of an address, from the most significant one.\<close>

definition addr_bit :: "ip \<Rightarrow> nat \<Rightarrow> bool" where
  "addr_bit p i = bit (p ! (i div 8)) (7 - i mod 8)"

lemma bit_mask_byte: "j < 8 \<Longrightarrow> bit (mask_byte k) j \<longleftrightarrow> 8 - k \<le> j"
proof (cases "8 \<le> k")
  case True
  assume "j < 8"
  moreover have "(0xff :: byte) = mask 8" by (simp add: mask_eq_exp_minus_1)
  ultimately show ?thesis using True by (simp only: mask_byte_def if_True bit_mask_iff possible_bit_word) auto
next
  case False
  assume "j < 8"
  then show ?thesis using False by (auto simp: mask_byte_def bit_not_iff bit_mask_iff)
qed

lemma bit_index: "j < 8 \<Longrightarrow> (8 * i + (7 - j)) div 8 = i" "j < 8 \<Longrightarrow> 7 - (8 * i + (7 - j)) mod 8 = j" for i j :: nat
proof -
  have k: "(8 * i + k) div 8 = i \<and> (8 * i + k) mod 8 = k" if "k < 8" for k :: nat using that by simp
  show "j < 8 \<Longrightarrow> (8 * i + (7 - j)) div 8 = i" using k [of "7 - j"] by simp
  show "j < 8 \<Longrightarrow> 7 - (8 * i + (7 - j)) mod 8 = j" using k [of "7 - j"] by linarith
qed

lemma masked_byte_eq:
  "a AND mask_byte k = b AND mask_byte k \<longleftrightarrow> (\<forall>j < 8. 8 - k \<le> j \<longrightarrow> bit a j = bit b j)" for a b :: byte
  by (auto simp: bit_eq_iff bit_and_iff bit_mask_byte)

lemma map2_eq_nth: "length a = length m \<Longrightarrow> length b = length m \<Longrightarrow>
    map2 f a m = map2 f b m \<longleftrightarrow> (\<forall>i < length m. f (a ! i) (m ! i) = f (b ! i) (m ! i))"
  by (simp add: list_eq_iff_nth_eq)

lemma masked_eq_prefix:
  assumes "length p = len" "length q = len" "n \<le> 8 * len"
  shows "map2 (AND) p (cidrMask n len) = map2 (AND) q (cidrMask n len) \<longleftrightarrow> (\<forall>i < n. addr_bit p i = addr_bit q i)"
proof -
  have l: "length (cidrMask n len) = len" "\<And>i. i < len \<Longrightarrow> cidrMask n len ! i = mask_byte (n - 8 * i)"
    by (simp_all add: cidrMask_def)
  have "map2 (AND) p (cidrMask n len) = map2 (AND) q (cidrMask n len)
    \<longleftrightarrow> (\<forall>i < len. \<forall>j < 8. 8 - (n - 8 * i) \<le> j \<longrightarrow> bit (p ! i) j = bit (q ! i) j)"
    using assms(1,2) l by (simp add: map2_eq_nth masked_byte_eq)
  also have "\<dots> \<longleftrightarrow> (\<forall>i < n. addr_bit p i = addr_bit q i)"
  proof (rule iffI; intro allI impI)
    fix i assume h: "\<forall>i < len. \<forall>j < 8. 8 - (n - 8 * i) \<le> j \<longrightarrow> bit (p ! i) j = bit (q ! i) j" and i: "i < n"
    have "i div 8 < len" using i assms(3) by (simp add: less_mult_imp_div_less mult.commute)
    moreover have "8 - (n - 8 * (i div 8)) \<le> 7 - i mod 8" using i mult_div_mod_eq [of 8 i] by linarith
    moreover have "7 - i mod 8 < 8" by simp
    ultimately show "addr_bit p i = addr_bit q i" unfolding addr_bit_def using h by blast
  next
    fix i j assume h: "\<forall>i < n. addr_bit p i = addr_bit q i" and i: "i < len" and j: "j < 8" "8 - (n - 8 * i) \<le> j"
    note e = bit_index [OF j(1), of i]
    have "8 * i + (7 - j) < n" using j by linarith
    with h e show "bit (p ! i) j = bit (q ! i) j" unfolding addr_bit_def by metis
  qed
  finally show ?thesis .
qed

lemma length_cidrMask [simp]: "length (cidrMask n len) = len"
  by (simp add: cidrMask_def)

lemma masked_idem: "length p = length m \<Longrightarrow> map2 (AND) (map2 (AND) p m) m = map2 (AND) p m" for p :: ip
  by (simp add: list_eq_iff_nth_eq ac_simps)

lemma to4_as16 [simp]: "length p = 4 \<Longrightarrow> to4 (as16 p) = Some p" "length p = 4 \<Longrightarrow> to4 p = Some p"
  by (simp_all add: to4_def as16_def v4InV6Prefix_def)

text \<open>An IPv4 network contains exactly the IPv4 addresses that share its prefix.\<close>

lemma net_contains_v4:
  assumes "length p = 4" "length q = 4" "n \<le> 32"
  shows "net_contains \<lparr>nw_IP = mask_ip (as16 p) (cidrMask n 4), nw_Mask = cidrMask n 4\<rparr> (as16 q)
    \<longleftrightarrow> (\<forall>i < n. addr_bit p i = addr_bit q i)"
proof -
  have m: "mask_ip (as16 p) (cidrMask n 4) = map2 (AND) p (cidrMask n 4)"
    using assms(1) by (simp add: mask_ip_def as16_def v4InV6Prefix_def)
  show ?thesis unfolding m
    using assms masked_eq_prefix [of p 4 q n]
    by (simp add: net_contains_def networkNumberAndMask_def masked_idem Let_def)
qed

lemma net_contains_v4_not_v6: "length p = 4 \<Longrightarrow> length m = 4 \<Longrightarrow> to4 q = None \<Longrightarrow> length q = 16 \<Longrightarrow>
    \<not> net_contains \<lparr>nw_IP = p, nw_Mask = m\<rparr> q"
  by (simp add: net_contains_def networkNumberAndMask_def)

text \<open>A network of one address contains only that address.\<close>

lemma all_bits_eq: "length p = len \<Longrightarrow> length q = len \<Longrightarrow> (\<forall>i < 8 * len. addr_bit p i = addr_bit q i) \<longleftrightarrow> p = q"
proof
  assume l: "length p = len" "length q = len" and h: "\<forall>i < 8 * len. addr_bit p i = addr_bit q i"
  have "p ! i = q ! i" if i: "i < len" for i
  proof (rule bit_eqI)
    fix j assume "possible_bit TYPE(8 word) j"
    then have j: "j < 8" by (simp add: possible_bit_word)
    note e = bit_index [OF j, of i]
    have "8 * i + (7 - j) < 8 * len" using i j by linarith
    with h e show "bit (p ! i) j = bit (q ! i) j" unfolding addr_bit_def by metis
  qed
  with l show "p = q" by (simp add: list_eq_iff_nth_eq)
qed simp

lemma net_contains_single_v4: "length p = 4 \<Longrightarrow> length q = 4 \<Longrightarrow>
    net_contains \<lparr>nw_IP = p, nw_Mask = cidrMask 32 4\<rparr> (as16 q) \<longleftrightarrow> p = q"
  using masked_eq_prefix [of p 4 q 32] all_bits_eq [of p 4 q]
  by (simp add: net_contains_def networkNumberAndMask_def)

section \<open>IPv4 texts\<close>

lemma showNat_lead: "hd (showNat n) = CHR ''0'' \<Longrightarrow> length (showNat n) = 1"
proof (induction n rule: showNat.induct)
  case (1 n)
  show ?case
  proof (cases "n < 10")
    case True
    then show ?thesis by (subst showNat.simps) simp
  next
    case False
    have s: "showNat n = showNat (n div 10) @ [char_of (48 + n mod 10)]" using False by (subst showNat.simps) simp
    then have "hd (showNat (n div 10)) = CHR ''0''" using "1.prems" isDigit_showNat [of "n div 10"] by simp
    then have "length (showNat (n div 10)) = 1" using "1.IH" False by simp
    then have "showNat (n div 10) = [CHR ''0'']"
      using \<open>hd (showNat (n div 10)) = CHR ''0''\<close> by (cases "showNat (n div 10)") auto
    then have "n div 10 = 0" using digits_showNat [of "n div 10"] by (simp add: digits_def digit_def)
    then show ?thesis using False by simp
  qed
qed

lemma showNat_length: "n < 10 ^ Suc k \<Longrightarrow> length (showNat n) \<le> Suc k"
proof (induction k arbitrary: n)
  case 0
  then show ?case by (subst showNat.simps) simp
next
  case (Suc k)
  then have "n div 10 < 10 ^ Suc k" by (simp add: less_mult_imp_div_less mult.commute)
  then have "length (showNat (n div 10)) \<le> Suc k" by (rule Suc.IH)
  then show ?case by (subst showNat.simps) simp
qed

lemma showNat_octet:
  "parseOctet (showNat (unat b)) = Some b" "CHR ''.'' \<notin> set (showNat (unat b))" "length (showNat (unat b)) \<le> 3"
proof -
  have u: "unat b \<le> 255" "unat b < 10 ^ Suc 2" using unat_less_8 [of b] by simp_all
  show "parseOctet (showNat (unat b)) = Some b"
    using isDigit_showNat [of "unat b"] showNat_lead [of "unat b"] u
    by (simp add: parseOctet_def digits_showNat)
  show "CHR ''.'' \<notin> set (showNat (unat b))"
    using isDigit_showNat [of "unat b"] by (auto simp: list_all_iff isDigit_def)
  show "length (showNat (unat b)) \<le> 3"
    using showNat_length [OF u(2)] by simp
qed

lemma splitByte_append: "c \<notin> set xs \<Longrightarrow> splitByte (xs @ c # ys) c = xs # splitByte ys c"
  by (induction xs) auto

lemma splitByte_single: "c \<notin> set xs \<Longrightarrow> splitByte xs c = [xs]"
  by (induction xs) auto

lemma parseIPv4_v4String: "length p = 4 \<Longrightarrow> parseIPv4 (v4String p) = Some p"
  by (auto simp: parseIPv4_def v4String_def showNat_octet splitByte_append splitByte_single
      numeral_eq_Suc length_Suc_conv)

lemma digit_chars: "isDigit c \<Longrightarrow> c \<noteq> CHR '':'' \<and> c \<noteq> CHR ''.'' \<and> c \<noteq> CHR ''%''"
  by (auto simp: isDigit_def)

lemma find_dot: "list_all isDigit xs \<Longrightarrow> List.find (\<lambda>c. c = CHR ''.'' \<or> c = CHR '':'') (xs @ CHR ''.'' # ys) = Some (CHR ''.'')"
  by (induction xs) (auto dest: digit_chars)

lemma v4String_chars: "CHR ''%'' \<notin> set (v4String p)" "CHR '':'' \<notin> set (v4String p)"
  using isDigit_showNat digit_chars by (auto simp: v4String_def list_all_iff)

lemma parseIP_v4String:
  assumes "length p = 4"
  shows "parseIP (v4String p) = Some (as16 p)"
  using assms find_dot [of "showNat (unat (p ! 0))"] isDigit_showNat v4String_chars(1) [of p] parseIPv4_v4String
  by (simp add: parseIP_def parseAddr_def containsByte_def) (simp add: v4String_def)

lemma ipString_v4: "length p = 4 \<Longrightarrow> ipString (as16 p) = v4String p"
  by (simp add: ipString_def)

text \<open>The text of an IPv4 endpoint splits into its address and port again.\<close>

lemma tcpString_v4:
  assumes "length p = 4" "0 \<le> port"
  shows "splitHostPort (tcpString \<lparr>ta_IP = as16 p, ta_Port = port\<rparr>) = Inr (v4String p, itoa port)"
proof -
  have d: "CHR '':'' \<notin> set (showNat n) \<and> CHR ''['' \<notin> set (showNat n) \<and> CHR '']'' \<notin> set (showNat n)" for n
    using isDigit_showNat [of n] by (auto simp: list_all_iff isDigit_def)
  then have "CHR '':'' \<notin> set (v4String p) \<and> CHR ''['' \<notin> set (v4String p) \<and> CHR '']'' \<notin> set (v4String p)"
    by (auto simp: v4String_def)
  with d assms show ?thesis
    using splitHostPort_plain [of "v4String p" "itoa port"]
    by (simp add: tcpString_def ipString_v4 joinHostPort_def containsByte_def itoa_def)
qed

lemma parseCIDR_v4String:
  assumes "length p = 4" "n \<le> 32"
  shows "parseCIDR (v4String p @ CHR ''/'' # showNat n) = Some \<lparr>nw_IP = mask_ip (as16 p) (cidrMask n 4), nw_Mask = cidrMask n 4\<rparr>"
proof -
  have "CHR ''/'' \<notin> set (showNat k)" for k using isDigit_showNat [of k] by (auto simp: list_all_iff isDigit_def)
  then have "CHR ''/'' \<notin> set (v4String p)" by (simp add: v4String_def)
  then have i: "indexByte (v4String p @ CHR ''/'' # showNat n) (CHR ''/'') = Some (length (v4String p))"
    by (simp add: indexByte_append)
  have a: "parseAddr (v4String p) = Some p"
    using assms find_dot [of "showNat (unat (p ! 0))"] isDigit_showNat v4String_chars(1) [of p] parseIPv4_v4String
    by (simp add: parseAddr_def containsByte_def) (simp add: v4String_def)
  have d: "dtoi (showNat n) = Some n"
    using assms isDigit_showNat [of n] by (simp add: dtoi_def digits_showNat)
  show ?thesis using i a d assms by (simp add: parseCIDR_def)
qed

end
