(* ===== verification/Go_Text.thy ===== *)
theory Go_Text
  imports Go_Net
begin

text \<open>
  Text as Go handles it: strings are bytes, runes are decoded from and encoded to UTF-8, and the
  functions of \<open>strings\<close> that look at runes.
\<close>

section \<open>UTF-8\<close>

definition RuneError :: nat where "RuneError = 0xFFFD"

definition cont_byte :: "nat \<Rightarrow> bool" where "cont_byte b \<longleftrightarrow> 0x80 \<le> b \<and> b \<le> 0xBF"

text \<open>The second byte of a three- or four-byte sequence excludes overlong forms and surrogates.\<close>

definition second_ok :: "nat \<Rightarrow> nat \<Rightarrow> bool" where
  "second_ok b0 b1 \<longleftrightarrow> (if b0 = 0xE0 then 0xA0 else if b0 = 0xF0 then 0x90 else 0x80) \<le> b1
     \<and> b1 \<le> (if b0 = 0xED then 0x9F else if b0 = 0xF4 then 0x8F else 0xBF)"

text \<open>\<open>utf8.DecodeRuneInString\<close>: the rune and its size; an invalid byte is \<open>RuneError\<close> of size 1.\<close>

definition decode_bytes :: "nat list \<Rightarrow> nat \<times> nat" where
  "decode_bytes bs = (case bs of
      [] \<Rightarrow> (RuneError, 0)
    | b0 # t \<Rightarrow>
        if b0 < 0x80 then (b0, 1)
        else if 0xC2 \<le> b0 \<and> b0 \<le> 0xDF then
          (case t of b1 # _ \<Rightarrow> if cont_byte b1 then ((b0 - 0xC0) * 64 + (b1 - 0x80), 2) else (RuneError, 1)
           | [] \<Rightarrow> (RuneError, 1))
        else if 0xE0 \<le> b0 \<and> b0 \<le> 0xEF then
          (case t of b1 # b2 # _ \<Rightarrow> if second_ok b0 b1 \<and> cont_byte b2
               then ((b0 - 0xE0) * 4096 + (b1 - 0x80) * 64 + (b2 - 0x80), 3) else (RuneError, 1)
           | _ \<Rightarrow> (RuneError, 1))
        else if 0xF0 \<le> b0 \<and> b0 \<le> 0xF4 then
          (case t of b1 # b2 # b3 # _ \<Rightarrow> if second_ok b0 b1 \<and> cont_byte b2 \<and> cont_byte b3
               then ((b0 - 0xF0) * 262144 + (b1 - 0x80) * 4096 + (b2 - 0x80) * 64 + (b3 - 0x80), 4) else (RuneError, 1)
           | _ \<Rightarrow> (RuneError, 1))
        else (RuneError, 1))"

definition decodeRune :: "string \<Rightarrow> nat \<times> nat" where
  "decodeRune s = decode_bytes (map of_char (take 4 s))"

text \<open>\<open>WriteRune\<close> and \<open>string(r)\<close>: a value that is no rune is written as \<open>RuneError\<close>.\<close>

definition encode_bytes :: "nat \<Rightarrow> nat list" where
  "encode_bytes r =
    (if r < 0x80 then [r]
     else if r < 0x800 then [0xC0 + r div 64, 0x80 + r mod 64]
     else if 0xD800 \<le> r \<and> r \<le> 0xDFFF \<or> 0x10FFFF < r then [0xEF, 0xBF, 0xBD]
     else if r < 0x10000 then [0xE0 + r div 4096, 0x80 + r div 64 mod 64, 0x80 + r mod 64]
     else [0xF0 + r div 262144, 0x80 + r div 4096 mod 64, 0x80 + r div 64 mod 64, 0x80 + r mod 64])"

definition encodeRune :: "nat \<Rightarrow> string" where
  "encodeRune r = map char_of (encode_bytes r)"

lemma decode_bytes_size: "bs \<noteq> [] \<Longrightarrow> decode_bytes bs = (r, n) \<Longrightarrow> 0 < n \<and> n \<le> 4 \<and> n \<le> length bs"
  by (cases bs) (auto simp: decode_bytes_def split: if_splits list.splits)

lemma decodeRune_size: "s \<noteq> [] \<Longrightarrow> decodeRune s = (r, n) \<Longrightarrow> 0 < n \<and> n \<le> 4 \<and> n \<le> length s"
  using decode_bytes_size [of "map of_char (take 4 s)" r n] by (simp add: decodeRune_def)

text \<open>The runes of a text, as \<open>range\<close> visits them.\<close>

function runes :: "string \<Rightarrow> nat list" where
  "runes s = (if s = [] then [] else fst (decodeRune s) # runes (drop (snd (decodeRune s)) s))"
  by pat_completeness auto
termination
proof (relation "measure length")
  fix s :: string
  assume "s \<noteq> []"
  then show "(drop (snd (decodeRune s)) s, s) \<in> measure length"
    using decodeRune_size [of s "fst (decodeRune s)" "snd (decodeRune s)"] by simp
qed simp

declare runes.simps [simp del]

lemma runes_Nil [simp]: "runes [] = []" by (simp add: runes.simps)

text \<open>Valid UTF-8: no rune of the text is an invalid byte.\<close>

function valid_utf8 :: "string \<Rightarrow> bool" where
  "valid_utf8 s = (if s = [] then True else decodeRune s \<noteq> (RuneError, 1) \<and> valid_utf8 (drop (snd (decodeRune s)) s))"
  by pat_completeness auto
termination valid_utf8
proof (relation "measure length")
  fix s :: string
  assume "\<not> s = []"
  then show "(drop (snd (decodeRune s)) s, s) \<in> measure length"
    using decodeRune_size [of s "fst (decodeRune s)" "snd (decodeRune s)"] by simp
qed simp

declare valid_utf8.simps [simp del]

lemma valid_utf8_Nil [simp]: "valid_utf8 []" by (simp add: valid_utf8.simps)

section \<open>Decoding and encoding\<close>

lemma div_mod_64: "e < 64 \<Longrightarrow> (m * 64 + e) div 64 = m \<and> (m * 64 + e) mod 64 = e" for e m :: nat
  by simp

lemma div_64_64: "r div 4096 = r div 64 div 64" "r div 262144 = r div 64 div 64 div 64" for r :: nat
  by (simp_all add: div_mult2_eq [symmetric])

lemma decode_bytes_cases:
  assumes "decode_bytes bs = (r, n)" "(r, n) \<noteq> (RuneError, 1)" "bs \<noteq> []"
  obtains
    b0 t where "bs = b0 # t" "b0 < 0x80" "r = b0" "n = 1"
  | b0 b1 u where "bs = b0 # b1 # u" "0xC2 \<le> b0" "b0 \<le> 0xDF" "cont_byte b1" "r = (b0 - 0xC0) * 64 + (b1 - 0x80)" "n = 2"
  | b0 b1 b2 u where "bs = b0 # b1 # b2 # u" "0xE0 \<le> b0" "b0 \<le> 0xEF" "second_ok b0 b1" "cont_byte b2"
      "r = (b0 - 0xE0) * 4096 + (b1 - 0x80) * 64 + (b2 - 0x80)" "n = 3"
  | b0 b1 b2 b3 u where "bs = b0 # b1 # b2 # b3 # u" "0xF0 \<le> b0" "b0 \<le> 0xF4" "second_ok b0 b1" "cont_byte b2" "cont_byte b3"
      "r = (b0 - 0xF0) * 262144 + (b1 - 0x80) * 4096 + (b2 - 0x80) * 64 + (b3 - 0x80)" "n = 4"
proof -
  obtain b0 t where bs: "bs = b0 # t" using assms(3) by (cases bs) auto
  then show ?thesis using assms(1,2) that
    by (auto simp: decode_bytes_def split: if_splits list.splits)
qed

lemma decode_bytes_prefix:
  assumes "decode_bytes bs = (r, n)" "(r, n) \<noteq> (RuneError, 1)" "bs \<noteq> []"
  shows "decode_bytes (take n bs @ u) = (r, n)"
  using decode_bytes_cases [OF assms] by cases (simp_all add: decode_bytes_def)

lemma encode_decode_bytes:
  assumes "decode_bytes bs = (r, n)" "(r, n) \<noteq> (RuneError, 1)" "bs \<noteq> []" "\<forall>b \<in> set bs. b < 256"
  shows "encode_bytes r = take n bs"
proof -
  obtain b0 t where bs: "bs = b0 # t" using assms(3) by (cases bs) auto
  consider "b0 < 0x80" "r = b0" "n = 1"
    | b1 u where "t = b1 # u" "0xC2 \<le> b0" "b0 \<le> 0xDF" "cont_byte b1" "r = (b0 - 0xC0) * 64 + (b1 - 0x80)" "n = 2"
    | b1 b2 u where "t = b1 # b2 # u" "0xE0 \<le> b0" "b0 \<le> 0xEF" "second_ok b0 b1" "cont_byte b2"
        "r = (b0 - 0xE0) * 4096 + (b1 - 0x80) * 64 + (b2 - 0x80)" "n = 3"
    | b1 b2 b3 u where "t = b1 # b2 # b3 # u" "0xF0 \<le> b0" "b0 \<le> 0xF4" "second_ok b0 b1" "cont_byte b2" "cont_byte b3"
        "r = (b0 - 0xF0) * 262144 + (b1 - 0x80) * 4096 + (b2 - 0x80) * 64 + (b3 - 0x80)" "n = 4"
    by (cases rule: decode_bytes_cases [OF assms(1-3)]) (use bs in simp_all)
  then show ?thesis
  proof cases
    case 1
    then show ?thesis by (simp add: bs encode_bytes_def)
  next
    case 2
    define a c where "a = b0 - 0xC0" and "c = b1 - 0x80"
    have ac: "b0 = 0xC0 + a" "b1 = 0x80 + c" "2 \<le> a" "a < 32" "c < 64" "r = a * 64 + c"
      using 2 by (auto simp: a_def c_def cont_byte_def)
    then have "r div 64 = a" "r mod 64 = c" "0x80 \<le> r" "r < 0x800" by auto
    then show ?thesis using 2 ac by (simp add: bs encode_bytes_def)
  next
    case 3
    define a c e where "a = b0 - 0xE0" and "c = b1 - 0x80" and "e = b2 - 0x80"
    have ac: "b0 = 0xE0 + a" "b1 = 0x80 + c" "b2 = 0x80 + e" "a < 16" "c < 64" "e < 64" "r = (a * 64 + c) * 64 + e"
      "a = 0 \<longrightarrow> 32 \<le> c" "a = 13 \<longrightarrow> c < 32"
      using 3 by (auto simp: a_def c_def e_def cont_byte_def second_ok_def algebra_simps split: if_splits)
    have q: "r div 64 = a * 64 + c" "r mod 64 = e" unfolding ac(7) using div_mod_64 [OF ac(6)] by blast+
    have "r div 4096 = a" unfolding div_64_64 q(1) using div_mod_64 [OF ac(5)] by blast
    with q have d: "r div 64 = a * 64 + c" "r mod 64 = e" "r div 4096 = a" by simp_all
    moreover have "0x800 \<le> r" "\<not> (0xD800 \<le> r \<and> r \<le> 0xDFFF)" "r < 0x10000"
    proof -
      show "0x800 \<le> r" using ac by (cases "a = 0") auto
      show "r < 0x10000" using ac by auto
      show "\<not> (0xD800 \<le> r \<and> r \<le> 0xDFFF)" using ac by (cases "a = 13"; cases "a < 13") auto
    qed
    moreover have "(a * 64 + c) mod 64 = c" using div_mod_64 [OF ac(5)] by blast
    ultimately have "encode_bytes r = [0xE0 + a, 0x80 + c, 0x80 + e]" by (auto simp: encode_bytes_def)
    then show ?thesis using 3(1,7) ac(1-3) by (simp add: bs)
  next
    case 4
    have b: "0xF0 \<le> b0" "0x80 \<le> b1" "0x80 \<le> b2" "0x80 \<le> b3" using 4(2,4-6)
      by (simp_all add: cont_byte_def second_ok_def split: if_splits)
    then obtain a c e f where p: "b0 = 0xF0 + a" "b1 = 0x80 + c" "b2 = 0x80 + e" "b3 = 0x80 + f"
      by (metis le_Suc_ex)
    have "a < 5" "e < 64" "f < 64" using 4(3,5,6) p by (simp_all add: cont_byte_def)
    moreover have "c < 64" "a = 0 \<longrightarrow> 16 \<le> c" "a = 4 \<longrightarrow> c < 16" using 4(4) p
      by (auto simp: second_ok_def split: if_splits)
    moreover have "r = ((a * 64 + c) * 64 + e) * 64 + f" using 4(7) p by (simp add: algebra_simps)
    ultimately have ac: "b0 = 0xF0 + a" "b1 = 0x80 + c" "b2 = 0x80 + e" "b3 = 0x80 + f" "a < 5" "c < 64" "e < 64" "f < 64"
      "r = ((a * 64 + c) * 64 + e) * 64 + f" "a = 0 \<longrightarrow> 16 \<le> c" "a = 4 \<longrightarrow> c < 16" using p by blast+
    have q: "r div 64 = (a * 64 + c) * 64 + e" "r mod 64 = f" unfolding ac(9) using div_mod_64 [OF ac(8)] by blast+
    have q': "r div 64 div 64 = a * 64 + c" unfolding q(1) using div_mod_64 [OF ac(7)] by blast
    have "r div 64 div 64 div 64 = a" unfolding q' using div_mod_64 [OF ac(6)] by blast
    with q q' have d: "r div 64 = (a * 64 + c) * 64 + e" "r mod 64 = f" "r div 4096 = a * 64 + c" "r div 262144 = a"
      unfolding div_64_64 by simp_all
    moreover have "0x10000 \<le> r" "r \<le> 0x10FFFF"
    proof -
      show "0x10000 \<le> r" using ac by (cases "a = 0") auto
      show "r \<le> 0x10FFFF" using ac by (cases "a = 4") auto
    qed
    moreover have "(a * 64 + c) mod 64 = c" "((a * 64 + c) * 64 + e) mod 64 = e"
      using div_mod_64 [OF ac(6)] div_mod_64 [OF ac(7)] by blast+
    ultimately have "encode_bytes r = [0xF0 + a, 0x80 + c, 0x80 + e, 0x80 + f]" by (simp add: encode_bytes_def)
    then show ?thesis using 4(1,8) ac(1-4) by (simp add: bs)
  qed
qed

lemma encode_decodeRune:
  assumes "decodeRune s = (r, n)" "(r, n) \<noteq> (RuneError, 1)" "s \<noteq> []"
  shows "encodeRune r = take n s"
proof -
  have "encode_bytes r = take n (map of_char (take 4 s))"
    using assms by (intro encode_decode_bytes) (auto simp: decodeRune_def)
  moreover have "n \<le> 4" using decodeRune_size [OF assms(3,1)] by simp
  ultimately show ?thesis by (simp add: encodeRune_def take_map comp_def min_def)
qed

lemma concat_runes: "valid_utf8 s \<Longrightarrow> concat (map encodeRune (runes s)) = s"
proof (induction s rule: valid_utf8.induct)
  case (1 s)
  show ?case
  proof (cases "s = []")
    case False
    obtain r n where rn: "decodeRune s = (r, n)" by fastforce
    with "1.prems" False have "valid_utf8 (drop n s)" "(r, n) \<noteq> (RuneError, 1)" by (simp_all add: valid_utf8.simps [of s])
    then show ?thesis using "1.IH" False rn encode_decodeRune [OF rn] by (simp add: runes.simps [of s])
  qed simp
qed

section \<open>White space and case\<close>

text \<open>
  How many bytes of white space the text starts with (ASCII and the UTF-8 encodings of the Unicode
  spaces), 0 for none.
\<close>

definition space_seqs :: "byte list list" where
  "space_seqs = [[0xC2, 0x85], [0xC2, 0xA0], [0xE1, 0x9A, 0x80], [0xE2, 0x80, 0xA8], [0xE2, 0x80, 0xA9],
     [0xE2, 0x80, 0xAF], [0xE2, 0x81, 0x9F], [0xE3, 0x80, 0x80]] @ map (\<lambda>i. [0xE2, 0x80, 0x80 + of_nat i]) [0..<11]"

definition space_len :: "string \<Rightarrow> nat" where
  "space_len s = (case s of
      [] \<Rightarrow> 0
    | c # _ \<Rightarrow> if of_char c \<in> {9, 10, 11, 12, 13, 32 :: nat} then 1
        else (case List.find (\<lambda>q. hasPrefix s (string_of q)) space_seqs of None \<Rightarrow> 0 | Some q \<Rightarrow> length q))"

lemma space_len_le: "space_len s \<le> length s"
proof -
  have "length q \<le> length s" if "List.find (\<lambda>q. hasPrefix s (string_of q)) space_seqs = Some q" for q
    using that by (auto simp: find_Some_iff hasPrefix_iff string_of_def)
  then show ?thesis by (auto simp: space_len_def split: list.split option.split)
qed

definition space_suffix_len :: "string \<Rightarrow> nat" where
  "space_suffix_len s = (case rev s of
      [] \<Rightarrow> 0
    | c # _ \<Rightarrow> if of_char c \<in> {9, 10, 11, 12, 13, 32 :: nat} then 1
        else (case List.find (\<lambda>q. hasSuffix s (string_of q)) space_seqs of None \<Rightarrow> 0 | Some q \<Rightarrow> length q))"

text \<open>\<open>strings.TrimSpace\<close>.\<close>

function trim_left :: "string \<Rightarrow> string" where
  "trim_left s = (if space_len s = 0 then s else trim_left (drop (space_len s) s))"
  by pat_completeness auto
termination trim_left
proof (relation "measure length")
  fix s
  assume "space_len s \<noteq> 0"
  moreover from this have "s \<noteq> []" by (auto simp: space_len_def)
  ultimately show "(drop (space_len s) s, s) \<in> measure length" by simp
qed simp

function trim_right :: "string \<Rightarrow> string" where
  "trim_right s = (if space_suffix_len s = 0 then s else trim_right (take (length s - space_suffix_len s) s))"
  by pat_completeness auto
termination trim_right
proof (relation "measure length")
  fix s
  assume "space_suffix_len s \<noteq> 0"
  moreover from this have "s \<noteq> []" by (auto simp: space_suffix_len_def)
  ultimately show "(take (length s - space_suffix_len s) s, s) \<in> measure length" by simp
qed simp

declare trim_left.simps [simp del] trim_right.simps [simp del]

definition strings_TrimSpace :: "string \<Rightarrow> string" where
  "strings_TrimSpace s = trim_right (trim_left s)"

definition is_ascii :: "string \<Rightarrow> bool" where
  "is_ascii s \<longleftrightarrow> list_all (\<lambda>c. of_char c < (0x80 :: nat)) s"

text \<open>\<open>strings.ToLower\<close>: bytewise on ASCII; the Unicode mapping is the parameter.\<close>

definition strings_ToLower :: "(string \<Rightarrow> string) \<Rightarrow> string \<Rightarrow> string" where
  "strings_ToLower unicode s = (if is_ascii s then toLower s else unicode s)"

text \<open>\<open>strings.EqualFold(s, "false")\<close>: besides the letters, the long s folds to s.\<close>

fun unlong_s :: "string \<Rightarrow> string" where
  "unlong_s (c # d # r) = (if of_char c = (0xC5 :: nat) \<and> of_char d = (0xBF :: nat) then CHR ''s'' # unlong_s r
     else c # unlong_s (d # r))"
| "unlong_s s = s"

definition equalFold_false :: "string \<Rightarrow> bool" where
  "equalFold_false s \<longleftrightarrow> toLower (unlong_s s) = ''false''"

text \<open>\<open>strings.Join\<close> with a colon, \<open>ReplaceAll\<close> of one word by another.\<close>

fun join_colon :: "string list \<Rightarrow> string" where
  "join_colon [] = ''''"
| "join_colon [s] = s"
| "join_colon (s # t # r) = s @ CHR '':'' # join_colon (t # r)"

function replaceAll :: "string \<Rightarrow> string \<Rightarrow> string \<Rightarrow> string" where
  "replaceAll old new s = (if s = '''' then ''''
     else if old \<noteq> '''' \<and> hasPrefix s old then new @ replaceAll old new (drop (length old) s)
     else hd s # replaceAll old new (tl s))"
  by pat_completeness auto
termination replaceAll
  by (relation "measure (\<lambda>(_, _, s). length s)") auto

declare replaceAll.simps [simp del]

end
