(* ===== verification/Proxy_Protocol.thy ===== *)
theory Proxy_Protocol
  imports Go_IP Go_Text
begin

text \<open>
  The PROXY protocol (\<open>proxy_protocol.go\<close>): trusted upstreams, the two header formats, and the
  connection that reads a header before its first byte and reports the address it carries. The
  raw connection is a stream of segments with its addresses and read deadline (nanoseconds, 0
  for none).
\<close>

definition errNoProxyProtocol :: go_error where
  "errNoProxyProtocol = Errorf ''limbgo: no proxy protocol header'' []"

definition errUntrustedProxyProtocol :: go_error where
  "errUntrustedProxyProtocol = Errorf ''limbgo: untrusted proxy protocol header'' []"

definition defaultProxyProtocolHeaderTimeout :: int where
  "defaultProxyProtocolHeaderTimeout = 5000000000"

definition proxyProtocolV2Signature :: "byte list" where
  "proxyProtocolV2Signature = [0x0d, 0x0a, 0x0d, 0x0a, 0, 0x0d, 0x0a, 0x51, 0x55, 0x49, 0x54, 0x0a]"

definition proxyProtocolV1MaxLineBytes :: nat where
  "proxyProtocolV1MaxLineBytes = 107"

section \<open>Trusted upstreams\<close>

record proxyProtocolConfig =
  px_Enabled :: bool
  px_Required :: bool
  px_TrustedProxies :: "string list"
  px_RestrictTrustedProxies :: bool
  px_ReadHeaderTimeout :: int

record proxyProtocolRuntime =
  pr_enabled :: bool
  pr_required :: bool
  pr_trusted :: "ipNet list"
  pr_headerTimeout :: int
  pr_hasTrustedList :: bool

definition parseTrustedProxy :: "string \<Rightarrow> ipNet result" where
  "parseTrustedProxy value = (case parseCIDR value of
      Some network \<Rightarrow> Inr network
    | None \<Rightarrow> (case parseIP value of
        None \<Rightarrow> Inl (Errorf ''limbgo: invalid trusted proxy %q'' [FS value])
      | Some p \<Rightarrow> (case to4 p of
          Some v4 \<Rightarrow> Inr \<lparr>nw_IP = v4, nw_Mask = cidrMask 32 4\<rparr>
        | None \<Rightarrow> Inr \<lparr>nw_IP = p, nw_Mask = cidrMask 128 16\<rparr>)))"

fun parse_trusted :: "string list \<Rightarrow> ipNet list result" where
  "parse_trusted [] = Inr []"
| "parse_trusted (t # ts) = bindR (parseTrustedProxy t) (\<lambda>n. bindR (parse_trusted ts) (\<lambda>ns. Inr (n # ns)))"

definition newProxyProtocolRuntime :: "proxyProtocolConfig \<Rightarrow> proxyProtocolRuntime result" where
  "newProxyProtocolRuntime cfg =
    (let enabled = (px_Enabled cfg \<or> px_Required cfg) in
     if \<not> enabled then
       Inr \<lparr>pr_enabled = False, pr_required = px_Required cfg, pr_trusted = [],
            pr_headerTimeout = px_ReadHeaderTimeout cfg, pr_hasTrustedList = False\<rparr>
     else
       (let t = (if px_ReadHeaderTimeout cfg = 0 then defaultProxyProtocolHeaderTimeout else px_ReadHeaderTimeout cfg);
            t' = (if t < 0 then 0 else t)
        in bindR (parse_trusted (px_TrustedProxies cfg)) (\<lambda>trusted.
          Inr \<lparr>pr_enabled = True, pr_required = px_Required cfg, pr_trusted = trusted,
            pr_headerTimeout = t', pr_hasTrustedList = (px_RestrictTrustedProxies cfg \<or> trusted \<noteq> [])\<rparr>)))"

text \<open>The receiver's address is the one of a connection, never nil.\<close>

definition trusts :: "proxyProtocolRuntime \<Rightarrow> string \<Rightarrow> bool" where
  "trusts rt addr =
    (let host = (case splitHostPort addr of Inl _ \<Rightarrow> addr | Inr (h, _) \<Rightarrow> h) in
     case parseIP host of None \<Rightarrow> False | Some p \<Rightarrow> list_ex (\<lambda>n. net_contains n p) (pr_trusted rt))"

section \<open>Buffered reading\<close>

text \<open>\<open>Peek(n)\<close> fills the buffer up to \<open>n\<close> bytes and consumes none.\<close>

fun fill_segs :: "nat \<Rightarrow> byte list \<Rightarrow> byte list list \<Rightarrow> byte list \<times> byte list list" where
  "fill_segs n buf [] = (buf, [])"
| "fill_segs n buf (s # ss) = (if n \<le> length buf then (buf, s # ss) else fill_segs n (buf @ s) ss)"

definition fill_to :: "nat \<Rightarrow> stream \<Rightarrow> stream" where
  "fill_to n s = (case fill_segs n (sbuf s) (ssegs s) of (b, ss) \<Rightarrow> Stream b ss (serr s))"

definition peek :: "nat \<Rightarrow> stream \<Rightarrow> byte list result \<times> stream" where
  "peek n s = (let s' = fill_to n s in
     (if n \<le> length (sbuf s') then Inr (take n (sbuf s')) else Inl (serr s), s'))"

text \<open>\<open>ReadString\<close>: the bytes up to and with the delimiter.\<close>

fun read_until :: "byte \<Rightarrow> byte list \<Rightarrow> byte list list \<Rightarrow> (byte list \<times> byte list \<times> byte list list) option" where
  "read_until d buf [] = (if d \<in> set buf
     then Some (takeWhile (\<lambda>b. b \<noteq> d) buf @ [d], tl (dropWhile (\<lambda>b. b \<noteq> d) buf), []) else None)"
| "read_until d buf (s # ss) = (if d \<in> set buf
     then Some (takeWhile (\<lambda>b. b \<noteq> d) buf @ [d], tl (dropWhile (\<lambda>b. b \<noteq> d) buf), s # ss)
     else (case read_until d s ss of None \<Rightarrow> None | Some (line, b, segs) \<Rightarrow> Some (buf @ line, b, segs)))"

definition readString_until :: "byte \<Rightarrow> stream \<Rightarrow> string result \<times> stream" where
  "readString_until d s = (case read_until d (sbuf s) (ssegs s) of
      None \<Rightarrow> (Inl (serr s), Stream [] [] (serr s))
    | Some (line, b, ss) \<Rightarrow> (Inr (string_of line), Stream b ss (serr s)))"

section \<open>Fields\<close>

text \<open>\<open>strings.Fields\<close>: the word read so far is kept reversed; an empty word is dropped.\<close>

definition flush :: "string \<Rightarrow> string list" where
  "flush w = (if w = '''' then [] else [rev w])"

function fields_loop :: "string \<Rightarrow> string \<Rightarrow> string list" where
  "fields_loop w s = (if s = '''' then flush w
     else (let k = space_len s in
       if 0 < k then flush w @ fields_loop '''' (drop k s) else fields_loop (hd s # w) (tl s)))"
  by pat_completeness auto

termination fields_loop
  by (relation "measure (\<lambda>(w, s). length s)") auto

declare fields_loop.simps [simp del]

definition strings_Fields :: "string \<Rightarrow> string list" where
  "strings_Fields s = fields_loop '''' s"

section \<open>Headers\<close>

type_synonym header = "tcpAddr option \<times> tcpAddr option \<times> bool"

definition CRLF :: string where "CRLF = [char_of (13 :: nat), char_of (10 :: nat)]"

definition parseProxyTCPAddr :: "string \<Rightarrow> string \<Rightarrow> tcpAddr result" where
  "parseProxyTCPAddr host portText = (case parseIP host of
      None \<Rightarrow> Inl (Errorf ''limbgo: invalid proxy protocol IP %q'' [FS host])
    | Some p \<Rightarrow> (case parseInt64 portText of
        Inl _ \<Rightarrow> Inl (Errorf ''limbgo: invalid proxy protocol port %q'' [FS portText])
      | Inr port \<Rightarrow>
          if port < 0 \<or> 65535 < port then Inl (Errorf ''limbgo: invalid proxy protocol port %q'' [FS portText])
          else Inr \<lparr>ta_IP = p, ta_Port = port\<rparr>))"

definition parse_v1_line :: "string \<Rightarrow> header result" where
  "parse_v1_line line =
    (if proxyProtocolV1MaxLineBytes < length line then Inl (Errorf ''limbgo: proxy protocol v1 header too long'' [])
     else if \<not> hasSuffix line CRLF then Inl (Errorf ''limbgo: proxy protocol v1 header missing CRLF'' [])
     else
       (let fields = strings_Fields (trimSuffix line CRLF) in
        if length fields < 2 \<or> fields ! 0 \<noteq> ''PROXY'' then Inl (Errorf ''limbgo: malformed proxy protocol v1 header'' [])
        else if fields ! 1 = ''UNKNOWN'' then Inr (None, None, True)
        else if length fields \<noteq> 6 then Inl (Errorf ''limbgo: malformed proxy protocol v1 address fields'' [])
        else if fields ! 1 \<noteq> ''TCP4'' \<and> fields ! 1 \<noteq> ''TCP6'' then
          Inl (Errorf ''limbgo: unsupported proxy protocol v1 family %q'' [FS (fields ! 1)])
        else bindR (parseProxyTCPAddr (fields ! 2) (fields ! 4)) (\<lambda>source.
             bindR (parseProxyTCPAddr (fields ! 3) (fields ! 5)) (\<lambda>dest.
               Inr (Some source, Some dest, True)))))"

definition readProxyProtocolV1Header :: "stream \<Rightarrow> header result \<times> stream" where
  "readProxyProtocolV1Header s = (case peek 6 s of
      (Inl e, s1) \<Rightarrow> (Inl e, s1)
    | (Inr prefix, s1) \<Rightarrow>
        if string_of prefix \<noteq> ''PROXY '' then (Inr (None, None, False), s1)
        else (case readString_until 0x0a s1 of
            (Inl e, s2) \<Rightarrow> (Inl e, s2)
          | (Inr line, s2) \<Rightarrow> (parse_v1_line line, s2)))"

definition uint16 :: "byte list \<Rightarrow> nat \<Rightarrow> nat" where
  "uint16 bs i = unat (bs ! i) * 256 + unat (bs ! (i + 1))"

definition parse_v2 :: "byte \<Rightarrow> byte \<Rightarrow> byte list \<Rightarrow> header result" where
  "parse_v2 command familyProtocol body =
    (if command = 0 then Inr (None, None, True)
     else if command \<noteq> 1 then
       Inl (Errorf ''limbgo: unsupported proxy protocol v2 command %d'' [FD (uint command)])
     else if familyProtocol = 0x11 then
       (if length body < 12 then Inl (Errorf ''limbgo: truncated proxy protocol v2 IPv4 address'' [])
        else Inr (
          Some \<lparr>ta_IP = IPv4 (body ! 0) (body ! 1) (body ! 2) (body ! 3), ta_Port = int (uint16 body 8)\<rparr>,
          Some \<lparr>ta_IP = IPv4 (body ! 4) (body ! 5) (body ! 6) (body ! 7), ta_Port = int (uint16 body 10)\<rparr>,
          True))
     else if familyProtocol = 0x21 then
       (if length body < 36 then Inl (Errorf ''limbgo: truncated proxy protocol v2 IPv6 address'' [])
        else Inr (
          Some \<lparr>ta_IP = take 16 body, ta_Port = int (uint16 body 32)\<rparr>,
          Some \<lparr>ta_IP = take 16 (drop 16 body), ta_Port = int (uint16 body 34)\<rparr>,
          True))
     else if familyProtocol = 0 then Inr (None, None, True)
     else Inl (Errorf ''limbgo: unsupported proxy protocol v2 family/protocol 0x%02x'' [FD (uint familyProtocol)]))"

definition readProxyProtocolV2Header :: "stream \<Rightarrow> header result \<times> stream" where
  "readProxyProtocolV2Header s = (case peek 12 s of
      (Inl e, s1) \<Rightarrow> (Inl e, s1)
    | (Inr signature, s1) \<Rightarrow>
        if signature \<noteq> proxyProtocolV2Signature then (Inr (None, None, False), s1)
        else (case peek 16 s1 of
            (Inl e, s2) \<Rightarrow> (Inl e, s2)
          | (Inr header, s2) \<Rightarrow>
              (let versionCommand = header ! 12; version = drop_bit 4 versionCommand;
                   command = versionCommand AND 0x0f; len = uint16 header 14 in
               if version \<noteq> 2 then
                 (Inl (Errorf ''limbgo: unsupported proxy protocol version %d'' [FD (uint version)]), s2)
               else (case readFull len (advance 16 s2) of
                   Inl e \<Rightarrow> (Inl e, snd (read_upto len (advance 16 s2)))
                 | Inr (body, s3) \<Rightarrow> (parse_v2 command (header ! 13) body, s3)))))"

definition readProxyProtocolHeader :: "stream \<Rightarrow> header result \<times> stream" where
  "readProxyProtocolHeader s = (case peek 1 s of
      (Inl e, s1) \<Rightarrow> (Inl e, s1)
    | (Inr first, s1) \<Rightarrow>
        if hd first = 0x50 then readProxyProtocolV1Header s1
        else if hd first = 0x0d then readProxyProtocolV2Header s1
        else (Inr (None, None, False), s1))"

section \<open>The connection\<close>

record rawConn =
  rc_stream :: stream
  rc_remote :: string
  rc_local :: string
  rc_deadline :: int
  rc_writeDeadline :: int
  rc_setDeadline :: "go_error option"

record proxyProtocolConn =
  pc_raw :: rawConn
  pc_required :: bool
  pc_trusted :: bool
  pc_headerTimeout :: int
  pc_once :: bool
  pc_headerErr :: "go_error option"
  pc_sourceAddr :: "tcpAddr option"
  pc_destAddr :: "tcpAddr option"
  pc_readDeadline :: int
  pc_writeDeadline :: int

text \<open>\<open>wrap\<close>: a plain connection when disabled (\<open>Inl\<close>), else the header-reading one.\<close>

definition proxy_wrap :: "proxyProtocolRuntime \<Rightarrow> rawConn \<Rightarrow> (rawConn + proxyProtocolConn) result" where
  "proxy_wrap rt conn =
    (if \<not> pr_enabled rt then Inr (Inl conn)
     else
       (let trusted = (\<not> pr_hasTrustedList rt \<or> trusts rt (rc_remote conn)) in
        if pr_required rt \<and> \<not> trusted then
          Inl (Wrapf errUntrustedProxyProtocol ''%w: upstream %s'' [FS (rc_remote conn)])
        else Inr (Inr \<lparr>pc_raw = conn, pc_required = pr_required rt, pc_trusted = trusted,
          pc_headerTimeout = pr_headerTimeout rt, pc_once = False, pc_headerErr = None,
          pc_sourceAddr = None, pc_destAddr = None, pc_readDeadline = 0, pc_writeDeadline = 0\<rparr>)))"

definition WrapProxyProtocolConn :: "proxyProtocolConfig \<Rightarrow> rawConn \<Rightarrow> (rawConn + proxyProtocolConn) result" where
  "WrapProxyProtocolConn cfg conn = bindR (newProxyProtocolRuntime cfg) (\<lambda>rt. proxy_wrap rt conn)"

text \<open>Setting a deadline on the raw connection fails if \<open>rc_setDeadline\<close> says so.\<close>

definition set_raw_deadline :: "int \<Rightarrow> rawConn \<Rightarrow> go_error option \<times> rawConn" where
  "set_raw_deadline t c = (case rc_setDeadline c of
      Some e \<Rightarrow> (Some e, c) | None \<Rightarrow> (None, c\<lparr>rc_deadline := t\<rparr>))"

text \<open>The header proper: what \<open>readProxyHeader\<close> does once the deadline is set.\<close>

definition take_header :: "proxyProtocolConn \<Rightarrow> go_error option \<times> proxyProtocolConn" where
  "take_header pc = (case readProxyProtocolHeader (rc_stream (pc_raw pc)) of
      (res, s) \<Rightarrow>
        (let pc1 = pc\<lparr>pc_raw := (pc_raw pc)\<lparr>rc_stream := s\<rparr>\<rparr> in
         case res of
           Inl e \<Rightarrow> (Some e, pc1)
         | Inr (source, dest, ok) \<Rightarrow>
             if \<not> ok then (if pc_required pc then (Some errNoProxyProtocol, pc1) else (None, pc1))
             else if \<not> pc_trusted pc then (Some errUntrustedProxyProtocol, pc1)
             else (None, pc1\<lparr>pc_sourceAddr := source, pc_destAddr := dest\<rparr>)))"

definition readProxyHeader :: "int \<Rightarrow> proxyProtocolConn \<Rightarrow> go_error option \<times> proxyProtocolConn" where
  "readProxyHeader now pc =
    (if 0 < pc_headerTimeout pc then
       (case set_raw_deadline (now + pc_headerTimeout pc) (pc_raw pc) of
          (Some e, c1) \<Rightarrow> (Some e, pc\<lparr>pc_raw := c1\<rparr>)
        | (None, c1) \<Rightarrow>
            (case take_header (pc\<lparr>pc_raw := c1\<rparr>) of (err, pc1) \<Rightarrow>
              (err, pc1\<lparr>pc_raw := snd (set_raw_deadline (pc_readDeadline pc1) (pc_raw pc1))\<rparr>)))
     else take_header pc)"

definition ensureHeader :: "int \<Rightarrow> proxyProtocolConn \<Rightarrow> go_error option \<times> proxyProtocolConn" where
  "ensureHeader now pc =
    (if pc_once pc then (pc_headerErr pc, pc)
     else (case readProxyHeader now pc of (err, pc1) \<Rightarrow>
       (err, pc1\<lparr>pc_once := True, pc_headerErr := err\<rparr>)))"

definition proxy_RemoteAddr :: "int \<Rightarrow> proxyProtocolConn \<Rightarrow> string \<times> proxyProtocolConn" where
  "proxy_RemoteAddr now pc = (case ensureHeader now pc of (_, pc1) \<Rightarrow>
     (case (pc_headerErr pc1, pc_sourceAddr pc1) of
        (None, Some a) \<Rightarrow> (tcpString a, pc1)
      | _ \<Rightarrow> (rc_remote (pc_raw pc1), pc1)))"

definition proxy_LocalAddr :: "int \<Rightarrow> proxyProtocolConn \<Rightarrow> string \<times> proxyProtocolConn" where
  "proxy_LocalAddr now pc = (case ensureHeader now pc of (_, pc1) \<Rightarrow>
     (case (pc_headerErr pc1, pc_destAddr pc1) of
        (None, Some a) \<Rightarrow> (tcpString a, pc1)
      | _ \<Rightarrow> (rc_local (pc_raw pc1), pc1)))"

definition proxy_SetReadDeadline :: "int \<Rightarrow> proxyProtocolConn \<Rightarrow> go_error option \<times> proxyProtocolConn" where
  "proxy_SetReadDeadline t pc = (case set_raw_deadline t (pc_raw pc) of (err, c1) \<Rightarrow>
     (err, pc\<lparr>pc_readDeadline := t, pc_raw := c1\<rparr>))"

definition proxy_SetWriteDeadline :: "int \<Rightarrow> proxyProtocolConn \<Rightarrow> go_error option \<times> proxyProtocolConn" where
  "proxy_SetWriteDeadline t pc = (let pc1 = pc\<lparr>pc_writeDeadline := t\<rparr> in
     case rc_setDeadline (pc_raw pc1) of
       Some e \<Rightarrow> (Some e, pc1)
     | None \<Rightarrow> (None, pc1\<lparr>pc_raw := (pc_raw pc1)\<lparr>rc_writeDeadline := t\<rparr>\<rparr>))"

definition proxy_SetDeadline :: "int \<Rightarrow> proxyProtocolConn \<Rightarrow> go_error option \<times> proxyProtocolConn" where
  "proxy_SetDeadline t pc = (let pc1 = pc\<lparr>pc_readDeadline := t, pc_writeDeadline := t\<rparr> in
     case rc_setDeadline (pc_raw pc1) of
       Some e \<Rightarrow> (Some e, pc1)
     | None \<Rightarrow> (None, pc1\<lparr>pc_raw := (pc_raw pc1)\<lparr>rc_deadline := t, rc_writeDeadline := t\<rparr>\<rparr>))"

text \<open>
  What a reader on top gets: nothing but the header's error, or the bytes after the header, the
  buffered ones first.
\<close>

definition proxy_stream :: "int \<Rightarrow> proxyProtocolConn \<Rightarrow> stream \<times> proxyProtocolConn" where
  "proxy_stream now pc = (case ensureHeader now pc of
      (Some e, pc1) \<Rightarrow> (Stream [] [] e, pc1)
    | (None, pc1) \<Rightarrow> (let s = rc_stream (pc_raw pc1) in (Stream [] (sbuf s # ssegs s) (serr s), pc1)))"

section \<open>Buffered reading keeps every byte\<close>

lemma fill_segs_flat: "fill_segs n b ss = (b', ss') \<Longrightarrow> b' @ concat ss' = b @ concat ss"
  by (induction n b ss rule: fill_segs.induct) (auto split: if_splits)

lemma fill_segs_length: "fill_segs n b ss = (b', ss') \<Longrightarrow> n \<le> length b' \<or> ss' = []"
  by (induction n b ss rule: fill_segs.induct) (auto split: if_splits)

lemma fill_to_facts [simp]:
  "flat (fill_to n s) = flat s" "serr (fill_to n s) = serr s"
  "n \<le> length (sbuf (fill_to n s)) \<longleftrightarrow> n \<le> length (flat s)"
proof -
  obtain b ss where f: "fill_segs n (sbuf s) (ssegs s) = (b, ss)" by (cases "fill_segs n (sbuf s) (ssegs s)")
  show fl: "flat (fill_to n s) = flat s" using fill_segs_flat [OF f] by (simp add: fill_to_def flat_def f)
  show "serr (fill_to n s) = serr s" by (simp add: fill_to_def f)
  show "n \<le> length (sbuf (fill_to n s)) \<longleftrightarrow> n \<le> length (flat s)"
    using fill_segs_length [OF f] arg_cong [OF fl, of length] by (auto simp: fill_to_def flat_def f)
qed

lemma peek_flat: "peek n s = (if n \<le> length (flat s) then Inr (take n (flat s)) else Inl (serr s), fill_to n s)"
proof -
  have "flat (fill_to n s) = sbuf (fill_to n s) @ concat (ssegs (fill_to n s))" by (simp add: flat_def)
  then have "n \<le> length (sbuf (fill_to n s)) \<Longrightarrow> take n (sbuf (fill_to n s)) = take n (flat s)"
    using fill_to_facts(1) [of n s] by (metis append_eq_conv_conj take_all_iff take_append append_Nil2 diff_is_0_eq take_0)
  then show ?thesis by (simp add: peek_def Let_def)
qed

lemma read_until_flat:
  "read_until d b ss = Some (line, b', ss') \<Longrightarrow> line @ b' @ concat ss' = b @ concat ss
    \<and> line = takeWhile (\<lambda>x. x \<noteq> d) (b @ concat ss) @ [d]"
proof (induction d b ss arbitrary: line b' ss' rule: read_until.induct)
  case (1 d buf)
  then show ?case using takeWhile_dropWhile_id [of "\<lambda>x. x \<noteq> d" buf] hd_dropWhile [of "\<lambda>x. x \<noteq> d" buf]
    by (cases "dropWhile (\<lambda>x. x \<noteq> d) buf") (auto split: if_splits)
next
  case (2 d buf s ss)
  show ?case
  proof (cases "d \<in> set buf")
    case True
    then have "takeWhile (\<lambda>x. x \<noteq> d) (buf @ s @ concat ss) = takeWhile (\<lambda>x. x \<noteq> d) buf"
      by (simp add: takeWhile_append1)
    with True show ?thesis using "2.prems" takeWhile_dropWhile_id [of "\<lambda>x. x \<noteq> d" buf] hd_dropWhile [of "\<lambda>x. x \<noteq> d" buf]
      by (cases "dropWhile (\<lambda>x. x \<noteq> d) buf") (auto split: if_splits)
  next
    case False
    then have "takeWhile (\<lambda>x. x \<noteq> d) (buf @ s @ concat ss) = buf @ takeWhile (\<lambda>x. x \<noteq> d) (s @ concat ss)"
      by (intro takeWhile_append2) auto
    with 2 False show ?thesis by (auto split: option.splits)
  qed
qed

lemma read_until_found: "d \<in> set (b @ concat ss) \<Longrightarrow> read_until d b ss \<noteq> None"
proof (induction d b ss rule: read_until.induct)
  case (2 d buf s ss)
  then show ?case by (cases "d \<in> set buf") (auto split: option.splits)
qed simp

lemma readString_until_line:
  assumes "flat s = line @ [d] @ rest" "d \<notin> set line"
  shows "\<exists>s'. readString_until d s = (Inr (string_of (line @ [d])), s') \<and> flat s' = rest \<and> serr s' = serr s"
proof -
  have "read_until d (sbuf s) (ssegs s) \<noteq> None"
    using assms by (intro read_until_found) (simp add: flat_def [symmetric])
  then obtain l b ss where r: "read_until d (sbuf s) (ssegs s) = Some (l, b, ss)" by fastforce
  have "takeWhile (\<lambda>x. x \<noteq> d) (line @ [d] @ rest) = line" using assms(2) by (induction line) auto
  then have l: "l = line @ [d]" using read_until_flat [OF r] assms(1) by (simp add: flat_def)
  moreover have "l @ b @ concat ss = line @ [d] @ rest"
    using conjunct1 [OF read_until_flat [OF r]] assms(1) by (simp add: flat_def)
  ultimately have "b @ concat ss = rest" by simp
  with r l show ?thesis by (simp add: readString_until_def flat_def)
qed

section \<open>Version 2 headers read back\<close>

text \<open>A proxy's header for two endpoints of one family, with any further bytes in its payload.\<close>

definition be16 :: "int \<Rightarrow> byte list" where
  "be16 n = [word_of_int (n div 256), word_of_int n]"

definition endpoint_ok :: "nat \<Rightarrow> tcpAddr \<Rightarrow> bool" where
  "endpoint_ok len a \<longleftrightarrow> 0 \<le> ta_Port a \<and> ta_Port a < 65536 \<and>
     (if len = 4 then (\<exists>q. length q = 4 \<and> ta_IP a = as16 q) else length (ta_IP a) = 16)"

definition endpoint_bytes :: "nat \<Rightarrow> tcpAddr \<Rightarrow> byte list" where
  "endpoint_bytes len a = (if len = 4 then drop 12 (ta_IP a) else ta_IP a)"

definition v2_body :: "nat \<Rightarrow> tcpAddr \<Rightarrow> tcpAddr \<Rightarrow> byte list" where
  "v2_body len a b = endpoint_bytes len a @ endpoint_bytes len b @ be16 (ta_Port a) @ be16 (ta_Port b)"

definition v2_header :: "byte \<Rightarrow> byte \<Rightarrow> byte list \<Rightarrow> byte list" where
  "v2_header command family body = proxyProtocolV2Signature @ [0x20 OR command, family] @ be16 (int (length body)) @ body"

lemma uint16_be16: "0 \<le> n \<Longrightarrow> n < 65536 \<Longrightarrow>
    unat (word_of_int (n div 256) :: byte) * 256 + unat (word_of_int n :: byte) = nat n"
proof -
  assume n: "0 \<le> n" "n < 65536"
  have "int (unat (word_of_int (n div 256) :: byte)) = n div 256 mod 256" "int (unat (word_of_int n :: byte)) = n mod 256"
    by (simp_all add: uint_word_of_int flip: uint_nat)
  moreover have "n div 256 mod 256 = n div 256" using n by (intro mod_pos_pos_trivial) auto
  ultimately have "int (unat (word_of_int (n div 256) :: byte) * 256 + unat (word_of_int n :: byte)) = n"
    using mult_div_mod_eq [of 256 n] by simp
  then show ?thesis by (metis nat_int)
qed

lemma command_nibbles:
  assumes "command \<in> {0, 1 :: byte}"
  shows "drop_bit 4 (0x20 OR command) = 2" "(0x20 OR command) AND 0x0f = command"
proof -
  have "drop_bit 4 (0x20 OR 0 :: byte) = 2 \<and> drop_bit 4 (0x20 OR 1 :: byte) = 2
    \<and> (0x20 OR 0 :: byte) AND 0x0f = 0 \<and> (0x20 OR 1 :: byte) AND 0x0f = 1" by code_simp
  with assms show "drop_bit 4 (0x20 OR command) = 2" "(0x20 OR command) AND 0x0f = command" by auto
qed

lemma readProxyProtocolV2Header_header:
  assumes "flat s = v2_header command family body @ rest" "length body < 65536" "command \<in> {0, 1}"
  shows "\<exists>s'. readProxyProtocolV2Header s = (parse_v2 command family body, s') \<and> flat s' = rest \<and> serr s' = serr s"
proof -
  let ?h = "proxyProtocolV2Signature @ [0x20 OR command, family] @ be16 (int (length body))"
  have fl: "flat s = ?h @ body @ rest" using assms(1) by (simp add: v2_header_def)
  have l: "length ?h = 16" "length proxyProtocolV2Signature = 12"
    by (simp_all add: proxyProtocolV2Signature_def be16_def)
  have t: "take 12 (flat s) = proxyProtocolV2Signature" "take 16 (flat s) = ?h" "16 \<le> length (flat s)"
    using l unfolding fl by simp_all
  have n: "?h ! 12 = 0x20 OR command" "?h ! 13 = family" "uint16 ?h 14 = length body"
    using uint16_be16 [of "int (length body)"] assms(2)
    by (simp_all add: proxyProtocolV2Signature_def be16_def uint16_def)
  let ?s2 = "fill_to 16 (fill_to 12 s)"
  have fl2: "flat (advance 16 ?s2) = body @ rest" using l unfolding flat_advance fill_to_facts fl by simp
  have "readFull (length body) (advance 16 ?s2) = Inr (body, advance (length body) (advance 16 ?s2))"
    by (rule readFull_append [OF fl2 refl])
  moreover have "flat (advance (length body) (advance 16 ?s2)) = rest"
    unfolding flat_advance [of "length body"] fl2 by simp
  moreover have "serr (advance (length body) (advance 16 ?s2)) = serr s" by simp
  ultimately show ?thesis
    using t n command_nibbles [OF assms(3)]
    by (simp add: readProxyProtocolV2Header_def peek_flat Let_def)
qed

lemma be16_port: "0 \<le> n \<Longrightarrow> n < 65536 \<Longrightarrow>
    int (unat (word_of_int (n div 256) :: byte) * 256 + unat (word_of_int n :: byte)) = n"
  using uint16_be16 [of n] by (simp only: nat_0_le)

lemma parse_v2_v4:
  assumes "endpoint_ok 4 a" "endpoint_ok 4 b"
  shows "parse_v2 1 0x11 (v2_body 4 a b @ tlv) = Inr (Some a, Some b, True)"
proof -
  obtain p q where pq: "length p = 4" "ta_IP a = as16 p" "length q = 4" "ta_IP b = as16 q"
    using assms by (auto simp: endpoint_ok_def)
  then obtain p0 p1 p2 p3 q0 q1 q2 q3 where e: "p = [p0, p1, p2, p3]" "q = [q0, q1, q2, q3]"
    by (auto simp: numeral_eq_Suc length_Suc_conv)
  let ?d = "v2_body 4 a b @ tlv"
  have d: "?d = [p0, p1, p2, p3, q0, q1, q2, q3, word_of_int (ta_Port a div 256), word_of_int (ta_Port a),
      word_of_int (ta_Port b div 256), word_of_int (ta_Port b)] @ tlv"
    using pq e by (simp add: v2_body_def endpoint_bytes_def as16_def v4InV6Prefix_def be16_def)
  have p: "int (uint16 ?d 8) = ta_Port a" "int (uint16 ?d 10) = ta_Port b"
    using be16_port assms unfolding d by (simp_all add: uint16_def endpoint_ok_def del: of_nat_add of_nat_mult)
  have i: "IPv4 (?d ! 0) (?d ! 1) (?d ! 2) (?d ! 3) = ta_IP a" "IPv4 (?d ! 4) (?d ! 5) (?d ! 6) (?d ! 7) = ta_IP b"
    "\<not> length ?d < 12"
    using pq e unfolding d by (simp_all add: IPv4_def as16_def)
  show ?thesis unfolding parse_v2_def using p i by (cases a; cases b) simp
qed

lemma parse_v2_v6:
  assumes "endpoint_ok 16 a" "endpoint_ok 16 b"
  shows "parse_v2 1 0x21 (v2_body 16 a b @ tlv) = Inr (Some a, Some b, True)"
proof -
  have l: "length (ta_IP a) = 16" "length (ta_IP b) = 16" using assms by (auto simp: endpoint_ok_def)
  let ?d = "v2_body 16 a b @ tlv"
  have n: "?d ! 32 = word_of_int (ta_Port a div 256)" "?d ! 33 = word_of_int (ta_Port a)"
    "?d ! 34 = word_of_int (ta_Port b div 256)" "?d ! 35 = word_of_int (ta_Port b)"
    using l by (simp_all add: v2_body_def endpoint_bytes_def be16_def nth_append)

  have t: "take 16 ?d = ta_IP a" "take 16 (drop 16 ?d) = ta_IP b" "\<not> length ?d < 36"
    using l by (simp_all add: v2_body_def endpoint_bytes_def be16_def)
  have p: "int (uint16 ?d 32) = ta_Port a" "int (uint16 ?d 34) = ta_Port b"
    using n be16_port assms by (simp_all add: uint16_def endpoint_ok_def del: of_nat_add of_nat_mult)
  show ?thesis unfolding parse_v2_def using t p by (cases a; cases b) simp
qed

lemma readProxyProtocolHeader_v2:
  assumes "flat s = v2_header command family body @ rest" "length body < 65536" "command \<in> {0, 1}"
  shows "\<exists>s'. readProxyProtocolHeader s = (parse_v2 command family body, s') \<and> flat s' = rest \<and> serr s' = serr s"
proof -
  have "flat s \<noteq> []" "hd (flat s) = 0x0d" unfolding assms(1)
    by (simp_all add: v2_header_def proxyProtocolV2Signature_def)
  then obtain x xs where fl: "flat s = x # xs" "x = 0x0d" by (cases "flat s") auto
  have "flat (fill_to 1 s) = v2_header command family body @ rest" using assms(1) by simp
  from readProxyProtocolV2Header_header [OF this assms(2,3)] show ?thesis
    using fl by (simp add: readProxyProtocolHeader_def peek_flat)
qed

section \<open>Version 1 headers read back\<close>

definition plain_char :: "char \<Rightarrow> bool" where
  "plain_char c \<longleftrightarrow> 32 < (of_char c :: nat) \<and> (of_char c :: nat) < 127"

lemma space_seqs_high: "list_all (\<lambda>q. 127 < unat (hd q) \<and> q \<noteq> []) space_seqs"
  by (simp add: space_seqs_def) code_simp

lemma of_char_of_byte [simp]: "of_char (char_of_byte b) = unat b"
  using unat_less_8 [of b] by (simp add: char_of_byte_def)

lemma space_len_plain: "plain_char c \<Longrightarrow> space_len (c # s) = 0"
proof -
  assume p: "plain_char c"
  have "\<not> hasPrefix (c # s) (string_of q)" if "q \<in> set space_seqs" for q
    using p that space_seqs_high of_char_of_byte
    by (cases q) (auto simp: list_all_iff plain_char_def string_of_def)
  then have "List.find (\<lambda>q. hasPrefix (c # s) (string_of q)) space_seqs = None"
    by (auto simp: find_None_iff)
  with p show ?thesis by (auto simp: space_len_def plain_char_def)
qed

lemma fields_loop_word:
  "list_all plain_char x \<Longrightarrow> fields_loop w (x @ CHR '' '' # s) = flush (rev x @ w) @ fields_loop '''' s"
proof (induction x arbitrary: w)
  case Nil
  have "space_len (CHR '' '' # s) = 1" by (simp add: space_len_def)
  then show ?case by (subst fields_loop.simps) (simp add: Let_def)
next
  case (Cons c x)
  then show ?case by (subst fields_loop.simps) (simp add: space_len_plain)
qed

lemma fields_loop_last: "list_all plain_char x \<Longrightarrow> fields_loop w x = flush (rev x @ w)"
proof (induction x arbitrary: w)
  case Nil
  show ?case by (subst fields_loop.simps) simp
next
  case (Cons c x)
  then show ?case by (subst fields_loop.simps) (simp add: space_len_plain)
qed

definition v1_line :: "string \<Rightarrow> string list \<Rightarrow> string" where
  "v1_line family ws = ''PROXY '' @ family @ concat (map (\<lambda>w. CHR '' '' # w) ws)"

lemma strings_Fields_words:
  "list_all (\<lambda>w. w \<noteq> '''' \<and> list_all plain_char w) (w0 # ws) \<Longrightarrow>
    strings_Fields (w0 @ concat (map (\<lambda>w. CHR '' '' # w) ws)) = w0 # ws"
proof (induction ws arbitrary: w0)
  case Nil
  then show ?case by (simp add: strings_Fields_def fields_loop_last flush_def)
next
  case (Cons w ws)
  then have "strings_Fields (w @ concat (map (\<lambda>w. CHR '' '' # w) ws)) = w # ws" by simp
  then show ?case using Cons.prems
    by (simp add: strings_Fields_def fields_loop_word flush_def)
qed

lemma strings_Fields_v1:
  assumes "family \<noteq> ''''" "list_all plain_char family" "list_all (\<lambda>w. w \<noteq> '''' \<and> list_all plain_char w) ws"
  shows "strings_Fields (v1_line family ws) = ''PROXY'' # family # ws"
proof -
  have "list_all plain_char ''PROXY''" by code_simp
  then show ?thesis
    using strings_Fields_words [of "''PROXY''" "family # ws"] assms by (simp add: v1_line_def)
qed

text \<open>The texts \<open>ParseIP\<close> accepts and port numbers are plain words.\<close>

lemma plain_digit: "isDigit c \<Longrightarrow> plain_char c"
  by (simp add: isDigit_def plain_char_def)

lemma plain_hex: "hexVal c \<noteq> None \<Longrightarrow> plain_char c"
  by (auto simp: hexVal_def Let_def plain_char_def split: if_splits)

lemma plain_punct [simp]: "plain_char CHR ''.''" "plain_char CHR '':''"
  by (simp_all add: plain_char_def)

lemma set_splitByte: "set s \<subseteq> {c} \<union> \<Union> (set (map set (splitByte s c)))"
proof (induction s)
  case (Cons a s)
  then show ?case by (cases "splitByte s c") (auto dest!: subsetD)
qed simp

lemma parseOctet_digits: "parseOctet w = Some b \<Longrightarrow> list_all isDigit w"
  by (simp add: parseOctet_def split: if_splits)

lemma parseIPv4_plain: "parseIPv4 s = Some p \<Longrightarrow> list_all plain_char s"
proof -
  assume "parseIPv4 s = Some p"
  then obtain a b c d where m: "map parseOctet (splitByte s (CHR ''.'')) = [Some a, Some b, Some c, Some d]"
    by (auto simp: parseIPv4_def split: list.splits option.splits)
  have "plain_char x" if x: "x \<in> set s" for x
  proof (cases "x = CHR ''.''")
    case False
    then obtain w where w: "w \<in> set (splitByte s (CHR ''.''))" "x \<in> set w"
      using set_splitByte [of s "CHR ''.''"] x by auto
    then have "parseOctet w \<in> set [Some a, Some b, Some c, Some d]" using m by (metis image_eqI set_map)
    then have "list_all isDigit w" using parseOctet_digits by auto
    with w show ?thesis using plain_digit by (auto simp: list_all_iff)
  qed simp
  then show ?thesis by (simp add: list_all_iff)
qed

lemma spanHex_split: "spanHex s = (h, r) \<Longrightarrow> s = h @ r \<and> list_all plain_char h"
  by (induction s arbitrary: h r) (auto simp: plain_hex split: if_splits prod.splits)

lemma parse_groups_plain: "parse_groups n acc ell s = Some x \<Longrightarrow> list_all plain_char s"
proof (induction n acc ell s arbitrary: x rule: parse_groups.induct)
  case (2 n acc ell s)
  obtain h r where hr: "spanHex s = (h, r)" by (cases "spanHex s")
  note s = spanHex_split [OF hr]
  show ?case
  proof (cases "r \<noteq> [] \<and> hd r = CHR ''.''")
    case True
    with "2.prems" hr have "parseIPv4 s \<noteq> None" by (auto split: if_splits option.splits)
    then show ?thesis using parseIPv4_plain by blast
  next
    case False
    have "list_all plain_char r"
    proof (cases r)
      case (Cons c r1)
      with False "2.prems" hr have c: "c = CHR '':''" "r1 \<noteq> []" by (auto simp: Let_def split: if_splits)
      have ih: "parse_groups n (acc @ group_bytes (hexGroup h)) e t = Some x \<Longrightarrow>
          (hd r1 = CHR '':'' \<Longrightarrow> t = tl r1) \<Longrightarrow> (hd r1 \<noteq> CHR '':'' \<Longrightarrow> t = r1) \<Longrightarrow> list_all plain_char t" for e t
        using "2.IH" "2.prems" hr Cons c False by (cases "hd r1 = CHR '':''") (auto simp: Let_def split: if_splits)
      show ?thesis
      proof (cases "hd r1 = CHR '':''")
        case True
        then have "list_all plain_char (tl r1)"
          using "2.prems" hr Cons c False ih by (cases "tl r1 = []") (auto simp: Let_def split: if_splits)
        then show ?thesis using True c Cons by (cases r1) auto
      next
        case F: False
        then have "list_all plain_char r1"
          using "2.prems" hr Cons c False ih by (auto simp: Let_def split: if_splits)
        then show ?thesis using c Cons by simp
      qed
    qed simp
    with s show ?thesis by simp
  qed
qed (simp split: if_splits)

lemma parseIPv6_plain: "parseIPv6 s = Some p \<Longrightarrow> list_all plain_char s"
proof -
  assume p: "parseIPv6 s = Some p"
  show ?thesis
  proof (cases "hasPrefix s ''::''")
    case True
    then obtain r where s: "s = ''::'' @ r" by (auto simp: hasPrefix_iff)
    then have "list_all plain_char r" using p True parse_groups_plain
      by (cases "r = []") (auto simp: parseIPv6_def split: option.splits prod.splits)
    then show ?thesis using s by simp
  next
    case False
    then show ?thesis using p parse_groups_plain by (auto simp: parseIPv6_def split: option.splits prod.splits)
  qed
qed

lemma parseIP_plain: "parseIP s = Some p \<Longrightarrow> s \<noteq> '''' \<and> list_all plain_char s"
  by (auto simp: parseIP_def parseAddr_def dest: parseIPv4_plain parseIPv6_plain split: if_splits option.splits)

lemma itoa_plain: "0 \<le> n \<Longrightarrow> itoa n \<noteq> '''' \<and> list_all plain_char (itoa n)"
  using isDigit_showNat [of "nat n"] plain_digit by (auto simp: itoa_def list_all_iff)

lemma parseProxyTCPAddr_text:
  "parseIP h = Some p \<Longrightarrow> 0 \<le> port \<Longrightarrow> port < 65536 \<Longrightarrow>
    parseProxyTCPAddr h (itoa port) = Inr \<lparr>ta_IP = p, ta_Port = port\<rparr>"
  by (simp add: parseProxyTCPAddr_def parseInt64_itoa is_int64_def)

lemma hasSuffix_append [simp]: "hasSuffix (a @ b) b"
  by (simp add: hasSuffix_def hasPrefix_iff)

lemma trimSuffix_append [simp]: "trimSuffix (a @ b) b = a"
  by (simp add: trimSuffix_def)

text \<open>The line a proxy sends for two endpoints, their addresses in any accepted text.\<close>

definition v1_endpoints :: "string \<Rightarrow> string \<Rightarrow> string \<Rightarrow> int \<Rightarrow> int \<Rightarrow> string" where
  "v1_endpoints family h1 h2 p1 p2 = v1_line family [h1, h2, itoa p1, itoa p2] @ CRLF"

lemma parse_v1_line_endpoints:
  assumes "family \<in> {''TCP4'', ''TCP6''}" "parseIP h1 = Some a1" "parseIP h2 = Some a2"
    "0 \<le> p1" "p1 < 65536" "0 \<le> p2" "p2 < 65536"
    "length (v1_endpoints family h1 h2 p1 p2) \<le> 107"
  shows "parse_v1_line (v1_endpoints family h1 h2 p1 p2)
    = Inr (Some \<lparr>ta_IP = a1, ta_Port = p1\<rparr>, Some \<lparr>ta_IP = a2, ta_Port = p2\<rparr>, True)"
proof -
  have f: "family \<noteq> ''''" "list_all plain_char family" "family \<noteq> ''UNKNOWN''"
    using assms(1) by (auto simp: plain_char_def)
  have "strings_Fields (v1_line family [h1, h2, itoa p1, itoa p2]) = [''PROXY'', family, h1, h2, itoa p1, itoa p2]"
    using strings_Fields_v1 [OF f(1,2)] parseIP_plain assms itoa_plain by simp
  then show ?thesis
    using assms f unfolding v1_endpoints_def parse_v1_line_def
    by (auto simp: parseProxyTCPAddr_text proxyProtocolV1MaxLineBytes_def Let_def)
qed

lemma readProxyProtocolHeader_v1:
  assumes "flat s = bytes_of line @ rest" "line = v1_line family ws @ CRLF"
    "list_all plain_char family" "list_all (list_all plain_char) ws"
  shows "\<exists>s'. readProxyProtocolHeader s = (parse_v1_line line, s') \<and> flat s' = rest \<and> serr s' = serr s"
proof -
  let ?b = "bytes_of (v1_line family ws) @ [13]"
  have line: "bytes_of line = ?b @ [10]"
    by (simp add: assms(2) CRLF_def bytes_of_def byte_of_char_def)
  have pre: "bytes_of line = bytes_of ''PROXY '' @ bytes_of (family @ concat (map (\<lambda>w. CHR '' '' # w) ws) @ CRLF)"
    by (simp add: assms(2) v1_line_def bytes_of_def)
  have pl: "plain_char c \<Longrightarrow> byte_of_char c \<noteq> 10" for c
  proof
    assume p: "plain_char c" and "byte_of_char c = 10"
    then have "of_char (char_of_byte (byte_of_char c)) = unat (10 :: byte)" by (simp only: of_char_of_byte)
    then have "(of_char c :: nat) = 10" by simp
    with p show False by (simp add: plain_char_def)
  qed
  have sp: "byte_of_char (CHR '' '') \<noteq> 10" by code_simp
  have pr: "10 \<notin> set (bytes_of ''PROXY '')" by code_simp
  have "10 \<notin> set ?b"
    using assms(3,4) pl sp pr by (auto simp: v1_line_def bytes_of_def list_all_iff)
  then obtain s' where r: "readString_until 10 (fill_to 6 (fill_to 1 s)) = (Inr (string_of (?b @ [10])), s')"
      "flat s' = rest" "serr s' = serr s"
    using readString_until_line [of "fill_to 6 (fill_to 1 s)" ?b 10 rest] assms(1) line by auto
  have six: "take 6 (flat s) = bytes_of ''PROXY ''" "6 \<le> length (flat s)"
    unfolding assms(1) pre by simp_all
  then have hd: "flat s \<noteq> []" "hd (take 1 (flat s)) = 0x50"
  proof -
    have "hd (take 6 (flat s)) = 0x50" unfolding six(1) by code_simp
    then show "flat s \<noteq> []" "hd (take 1 (flat s)) = 0x50" using six(2) by (cases "flat s"; simp)+
  qed
  have "string_of (?b @ [10]) = line" using line by (metis string_of_bytes_of)
  then show ?thesis
    using r six hd by (simp add: readProxyProtocolHeader_def readProxyProtocolV1Header_def peek_flat Suc_le_eq)
qed

section \<open>What the connection reports\<close>

lemma set_raw_deadline_stream [simp]:
  "rc_stream (snd (set_raw_deadline t c)) = rc_stream c" "rc_remote (snd (set_raw_deadline t c)) = rc_remote c"
  "rc_setDeadline (snd (set_raw_deadline t c)) = rc_setDeadline c"
  by (simp_all add: set_raw_deadline_def split: option.split)

text \<open>The header is read once: asking again changes nothing.\<close>

lemma ensureHeader_once: "ensureHeader now pc = (e, pc1) \<Longrightarrow> ensureHeader now' pc1 = (e, pc1)"
  by (auto simp: ensureHeader_def split: if_splits prod.splits)

lemma take_header_remote: "rc_remote (pc_raw (snd (take_header pc))) = rc_remote (pc_raw pc)"
  "pc_trusted (snd (take_header pc)) = pc_trusted pc"
  "pc_readDeadline (snd (take_header pc)) = pc_readDeadline pc"
  "rc_setDeadline (pc_raw (snd (take_header pc))) = rc_setDeadline (pc_raw pc)"
  by (simp_all add: take_header_def Let_def split: prod.split sum.split)

lemma take_header_source:
  assumes "take_header pc = (None, pc1)" "pc_sourceAddr pc1 = Some a" "pc_sourceAddr pc = None"
  shows "pc_trusted pc \<and> (\<exists>d. fst (readProxyProtocolHeader (rc_stream (pc_raw pc))) = Inr (Some a, d, True))"
  using assms by (auto simp: take_header_def Let_def split: prod.splits sum.splits if_splits)

lemma readProxyHeader_take:
  assumes "readProxyHeader now pc = (None, pc1)"
  obtains c pc2 where "take_header (pc\<lparr>pc_raw := c\<rparr>) = (None, pc2)" "rc_stream c = rc_stream (pc_raw pc)"
    "rc_remote c = rc_remote (pc_raw pc)" "pc_sourceAddr pc1 = pc_sourceAddr pc2"
proof (cases "0 < pc_headerTimeout pc")
  case True
  obtain e c where s: "set_raw_deadline (now + pc_headerTimeout pc) (pc_raw pc) = (e, c)" by fastforce
  moreover obtain r pc2 where t: "take_header (pc\<lparr>pc_raw := c\<rparr>) = (r, pc2)" by fastforce
  ultimately have "e = None" "r = None" "pc_sourceAddr pc1 = pc_sourceAddr pc2"
    using assms True by (auto simp: readProxyHeader_def split: option.splits)
  then show ?thesis using that [of c pc2] t s
      set_raw_deadline_stream [of "now + pc_headerTimeout pc" "pc_raw pc"] by simp
next
  case False
  then show ?thesis using assms that [of "pc_raw pc" pc1] by (simp add: readProxyHeader_def)
qed

lemma fresh_wrapped:
  "proxy_wrap rt conn = Inr (Inr pc) \<Longrightarrow> pc_raw pc = conn \<and> pc_once pc = False \<and> pc_sourceAddr pc = None
    \<and> pc_destAddr pc = None \<and> pc_required pc = pr_required rt
    \<and> pc_trusted pc = (\<not> pr_hasTrustedList rt \<or> trusts rt (rc_remote conn))"
  by (auto simp: proxy_wrap_def Let_def split: if_splits)

lemma set_raw_deadline_ok: "rc_setDeadline c = None \<Longrightarrow> set_raw_deadline t c = (None, c\<lparr>rc_deadline := t\<rparr>)"
  by (simp add: set_raw_deadline_def)

definition header_outcome :: "bool \<Rightarrow> bool \<Rightarrow> header result \<Rightarrow> go_error option" where
  "header_outcome required trusted res = (case res of
      Inl e \<Rightarrow> Some e
    | Inr (_, _, ok) \<Rightarrow>
        if \<not> ok then (if required then Some errNoProxyProtocol else None)
        else if \<not> trusted then Some errUntrustedProxyProtocol
        else None)"

lemma take_header_outcome:
  assumes "readProxyProtocolHeader (rc_stream (pc_raw pc)) = (res, s')"
  shows "fst (take_header pc) = header_outcome (pc_required pc) (pc_trusted pc) res"
    "rc_stream (pc_raw (snd (take_header pc))) = s'"
    "rc_deadline (pc_raw (snd (take_header pc))) = rc_deadline (pc_raw pc)"
  using assms by (auto simp: take_header_def header_outcome_def Let_def split: sum.split prod.split)

text \<open>The header of any unread connection, with the deadline it leaves behind.\<close>

lemma ensureHeader_outcome:
  assumes "\<not> pc_once pc" "readProxyProtocolHeader (rc_stream (pc_raw pc)) = (res, s')"
    "rc_setDeadline (pc_raw pc) = None \<or> \<not> 0 < pc_headerTimeout pc"
  shows "fst (ensureHeader now pc) = header_outcome (pc_required pc) (pc_trusted pc) res"
    "rc_stream (pc_raw (snd (ensureHeader now pc))) = s'"
    "rc_deadline (pc_raw (snd (ensureHeader now pc)))
      = (if 0 < pc_headerTimeout pc then pc_readDeadline pc else rc_deadline (pc_raw pc))"
proof -
  let ?pc = "if 0 < pc_headerTimeout pc then pc\<lparr>pc_raw := (pc_raw pc)\<lparr>rc_deadline := now + pc_headerTimeout pc\<rparr>\<rparr> else pc"
  obtain r pc1 where t: "take_header ?pc = (r, pc1)" by fastforce
  have h: "readProxyProtocolHeader (rc_stream (pc_raw ?pc)) = (res, s')" using assms(2) by simp
  note o = take_header_outcome [OF h, unfolded t] take_header_remote [of ?pc, unfolded t]
  show "fst (ensureHeader now pc) = header_outcome (pc_required pc) (pc_trusted pc) res"
    "rc_stream (pc_raw (snd (ensureHeader now pc))) = s'"
    "rc_deadline (pc_raw (snd (ensureHeader now pc)))
      = (if 0 < pc_headerTimeout pc then pc_readDeadline pc else rc_deadline (pc_raw pc))"
    using o t assms(1,3)
    by (auto simp: ensureHeader_def readProxyHeader_def set_raw_deadline_ok split: if_splits)
qed

lemma ensureHeader_no_deadline:
  assumes "\<not> pc_once pc" "rc_setDeadline (pc_raw pc) = Some e" "0 < pc_headerTimeout pc"
  shows "fst (ensureHeader now pc) = Some e" "pc_raw (snd (ensureHeader now pc)) = pc_raw pc"
  using assms by (simp_all add: ensureHeader_def readProxyHeader_def set_raw_deadline_def)

text \<open>Deadlines set through the wrapper before the header is read.\<close>

definition set_deadlines :: "int list \<Rightarrow> proxyProtocolConn \<Rightarrow> proxyProtocolConn" where
  "set_deadlines ts pc = foldl (\<lambda>pc t. snd (proxy_SetReadDeadline t pc)) pc ts"

lemma proxy_SetReadDeadline_fields:
  "pc_once (snd (proxy_SetReadDeadline t pc)) = pc_once pc" "pc_required (snd (proxy_SetReadDeadline t pc)) = pc_required pc"
  "pc_trusted (snd (proxy_SetReadDeadline t pc)) = pc_trusted pc"
  "pc_headerTimeout (snd (proxy_SetReadDeadline t pc)) = pc_headerTimeout pc"
  "pc_readDeadline (snd (proxy_SetReadDeadline t pc)) = t"
  "pc_raw (snd (proxy_SetReadDeadline t pc)) = snd (set_raw_deadline t (pc_raw pc))"
  by (simp_all add: proxy_SetReadDeadline_def split: prod.split)

lemma set_deadlines_fields:
  "pc_once (set_deadlines ts pc) = pc_once pc" "pc_required (set_deadlines ts pc) = pc_required pc"
  "pc_trusted (set_deadlines ts pc) = pc_trusted pc" "pc_headerTimeout (set_deadlines ts pc) = pc_headerTimeout pc"
  "pc_readDeadline (set_deadlines ts pc) = (if ts = [] then pc_readDeadline pc else last ts)"
  "rc_stream (pc_raw (set_deadlines ts pc)) = rc_stream (pc_raw pc)"
  "rc_setDeadline (pc_raw (set_deadlines ts pc)) = rc_setDeadline (pc_raw pc)"
  "rc_deadline (pc_raw (set_deadlines ts pc)) = (if ts = [] \<or> rc_setDeadline (pc_raw pc) \<noteq> None
     then rc_deadline (pc_raw pc) else last ts)"
  by (induction ts rule: rev_induct)
    (auto simp: set_deadlines_def proxy_SetReadDeadline_fields set_raw_deadline_def split: option.split)

lemma wrapped_timeout:
  assumes "newProxyProtocolRuntime cfg = Inr rt" "proxy_wrap rt conn = Inr (Inr pc)"
  shows "0 < pc_headerTimeout pc \<longleftrightarrow> 0 \<le> px_ReadHeaderTimeout cfg" "pc_required pc = px_Required cfg" "pc_readDeadline pc = 0"
  using assms by (auto simp: newProxyProtocolRuntime_def proxy_wrap_def Let_def bindR_Inr_conv
      defaultProxyProtocolHeaderTimeout_def split: if_splits)

lemma proxy_RemoteAddr_source:
  assumes "proxy_wrap rt conn = Inr (Inr pc)" "fst (proxy_RemoteAddr now pc) \<noteq> rc_remote conn"
  shows "pc_trusted pc \<and> (\<exists>a d. fst (readProxyProtocolHeader (rc_stream conn)) = Inr (Some a, d, True)
    \<and> fst (proxy_RemoteAddr now pc) = tcpString a)"
proof -
  note fresh = fresh_wrapped [OF assms(1)]
  obtain e pc1 where r: "readProxyHeader now pc = (e, pc1)" by fastforce
  have remote: "rc_remote (pc_raw pc1) = rc_remote conn"
  proof -
    have "rc_remote (pc_raw (snd (readProxyHeader now pc))) = rc_remote (pc_raw pc)"
      by (auto simp: readProxyHeader_def take_header_remote
          split: option.split prod.split dest!: arg_cong [of "take_header _" _ snd] arg_cong [of "set_raw_deadline _ _" _ snd])
    with r fresh show ?thesis by simp
  qed
  have en: "ensureHeader now pc = (e, pc1\<lparr>pc_once := True, pc_headerErr := e\<rparr>)" using r fresh by (simp add: ensureHeader_def)
  then obtain a where a: "e = None" "pc_sourceAddr pc1 = Some a" "fst (proxy_RemoteAddr now pc) = tcpString a"
    using assms(2) remote by (auto simp: proxy_RemoteAddr_def split: option.splits)
  with r obtain c pc2 where "take_header (pc\<lparr>pc_raw := c\<rparr>) = (None, pc2)" "rc_stream c = rc_stream (pc_raw pc)"
    "pc_sourceAddr pc2 = Some a" using readProxyHeader_take [of now pc pc1] by metis
  then show ?thesis using take_header_source [of "pc\<lparr>pc_raw := c\<rparr>" pc2 a] fresh a(3) by auto
qed

lemma parse_trusted_set: "parse_trusted ts = Inr ns \<Longrightarrow> set ns = {n. \<exists>t \<in> set ts. parseTrustedProxy t = Inr n}"
  by (induction ts arbitrary: ns) (auto simp: bindR_Inr_conv)

text \<open>The upstreams a configuration trusts.\<close>

definition config_trusts :: "proxyProtocolConfig \<Rightarrow> string \<Rightarrow> bool" where
  "config_trusts cfg addr \<longleftrightarrow> px_TrustedProxies cfg = [] \<and> \<not> px_RestrictTrustedProxies cfg
    \<or> (\<exists>t \<in> set (px_TrustedProxies cfg). \<exists>n p. parseTrustedProxy t = Inr n
        \<and> parseIP (case splitHostPort addr of Inl _ \<Rightarrow> addr | Inr (h, _) \<Rightarrow> h) = Some p \<and> net_contains n p)"

lemma newProxyProtocolRuntime_trusts:
  assumes "newProxyProtocolRuntime cfg = Inr rt" "px_Enabled cfg \<or> px_Required cfg"
  shows "(\<not> pr_hasTrustedList rt \<or> trusts rt addr) \<longleftrightarrow> config_trusts cfg addr"
proof -
  obtain ns where ns: "parse_trusted (px_TrustedProxies cfg) = Inr ns"
    "pr_trusted rt = ns" "pr_hasTrustedList rt = (px_RestrictTrustedProxies cfg \<or> ns \<noteq> [])"
    using assms by (auto simp: newProxyProtocolRuntime_def Let_def bindR_Inr_conv)
  have e: "ns = [] \<longleftrightarrow> px_TrustedProxies cfg = []"
    using ns(1) by (cases "px_TrustedProxies cfg") (auto simp: bindR_Inr_conv)
  show ?thesis
    using ns parse_trusted_set [OF ns(1)] e
    by (auto simp: config_trusts_def trusts_def Let_def list_ex_iff split: option.splits)
qed

text \<open>A list of IPv4 networks in the configuration.\<close>

definition v4_networks :: "(byte list \<times> nat) list \<Rightarrow> string list" where
  "v4_networks nets = map (\<lambda>(p, n). v4String p @ CHR ''/'' # showNat n) nets"

lemma parse_v4_networks:
  assumes "\<forall>(p, n) \<in> set nets. length p = 4 \<and> n \<le> 32"
  shows "\<exists>ns. parse_trusted (v4_networks nets) = Inr ns \<and> (ns = [] \<longleftrightarrow> nets = [])
    \<and> (\<forall>q. length q = 4 \<longrightarrow> list_ex (\<lambda>n. net_contains n (as16 q)) ns
          = (\<exists>(p, n) \<in> set nets. \<forall>i < n. addr_bit p i = addr_bit q i))"
  using assms
proof (induction nets)
  case (Cons pn nets)
  obtain p n where pn: "pn = (p, n)" "length p = 4" "n \<le> 32" using Cons.prems by (cases pn) auto
  from Cons obtain ns where "parse_trusted (v4_networks nets) = Inr ns"
    "\<forall>q. length q = 4 \<longrightarrow> list_ex (\<lambda>n. net_contains n (as16 q)) ns
          = (\<exists>(p, n) \<in> set nets. \<forall>i < n. addr_bit p i = addr_bit q i)" by auto
  then show ?case using pn net_contains_v4 [of p _ n]
    by (simp add: v4_networks_def parseTrustedProxy_def parseCIDR_v4String)
qed (simp add: v4_networks_def)

lemma trusts_v4:
  "length q = 4 \<Longrightarrow> 0 \<le> port \<Longrightarrow> trusts rt (tcpString \<lparr>ta_IP = as16 q, ta_Port = port\<rparr>)
    = list_ex (\<lambda>n. net_contains n (as16 q)) (pr_trusted rt)"
  by (simp add: trusts_def tcpString_v4 parseIP_v4String)

end
