(* ===== verification/Server.thy ===== *)
theory Server
  imports Proxy_Protocol Join_Flows "HOL-Library.Multiset"
begin

text \<open>
  The embeddable server (\<open>server.go\<close>): its configuration, the join bookkeeping of
  \<open>ResolveJoin\<close> and \<open>releaseJoin\<close>, and the life of its connections as a step relation. A
  connection is a number; each critical section of the mutex is one step, and a handler may
  resolve joins between any two of them.
\<close>

section \<open>Configuration\<close>

record joinTarget =
  jt_World :: "world option"
  jt_Spawn :: spawnTarget

text \<open>A resolver that implements \<open>JoinReleaser\<close> has a release operation.\<close>

record joinResolver =
  jr_ResolveJoin :: "player \<Rightarrow> joinTarget result"
  jr_ReleaseJoin :: "(player \<Rightarrow> joinTarget \<Rightarrow> go_error option) option"

text \<open>Of the protocol router only its presence matters here: a handler is any use of the services.\<close>

record serverConfig =
  scf_Addr :: string
  scf_ProtocolRouter :: bool
  scf_JoinResolver :: "joinResolver option"
  scf_Worlds :: "(string \<Rightarrow> world result) option"
  scf_SpawnResolver :: "(player \<Rightarrow> spawnTarget result) option"
  scf_Events :: "handler option"
  scf_ProxyProtocol :: proxyProtocolConfig

type_synonym activeJoin = "player \<times> joinTarget"

record server =
  srv_cfg :: serverConfig
  srv_proxyProtocol :: proxyProtocolRuntime
  srv_listener :: bool
  srv_conns :: "nat set"
  srv_joins :: "string \<rightharpoonup> activeJoin"
  srv_closed :: bool

definition NewServer :: "serverConfig \<Rightarrow> server result" where
  "NewServer cfg0 =
    (let cfg = (if scf_Addr cfg0 = '''' then cfg0\<lparr>scf_Addr := '':25565''\<rparr> else cfg0) in
     if \<not> scf_ProtocolRouter cfg then Inl ErrMissingProtocolRouter
     else if scf_JoinResolver cfg = None \<and> scf_Worlds cfg = None then Inl ErrMissingWorldProvider
     else if scf_JoinResolver cfg = None \<and> scf_SpawnResolver cfg = None then Inl ErrMissingSpawnResolver
     else bindR (newProxyProtocolRuntime (scf_ProxyProtocol cfg)) (\<lambda>proxyProtocol.
       Inr \<lparr>srv_cfg = cfg, srv_proxyProtocol = proxyProtocol, srv_listener = False, srv_conns = {},
            srv_joins = Map.empty, srv_closed = False\<rparr>))"

section \<open>Joins\<close>

definition normalizeJoinTarget :: "joinTarget \<Rightarrow> joinTarget result" where
  "normalizeJoinTarget target = (case jt_World target of
      None \<Rightarrow> Inl ErrMissingWorld
    | Some w \<Rightarrow>
        if sp_World (jt_Spawn target) = '''' then
          Inr (target\<lparr>jt_Spawn := (jt_Spawn target)\<lparr>sp_World := w_ID w\<rparr>\<rparr>)
        else Inr target)"

definition remoteAddrKey :: "net_addr \<Rightarrow> string" where
  "remoteAddrKey remote = (case remote of None \<Rightarrow> '''' | Some a \<Rightarrow> a)"

text \<open>The configuration's joiner: what a join of this player resolves to.\<close>

definition resolve_target :: "serverConfig \<Rightarrow> player \<Rightarrow> joinTarget result" where
  "resolve_target cfg pl = (case scf_JoinResolver cfg of
      Some r \<Rightarrow> bindR (jr_ResolveJoin r pl) normalizeJoinTarget
    | None \<Rightarrow> (case (scf_SpawnResolver cfg, scf_Worlds cfg) of
        (Some spawns, Some worlds) \<Rightarrow>
          bindR (spawns pl) (\<lambda>spawn. bindR (worlds (sp_World spawn)) (\<lambda>w.
            normalizeJoinTarget \<lparr>jt_World = Some w, jt_Spawn = spawn\<rparr>))
      | _ \<Rightarrow> Inl ErrMissingSpawnResolver))"

definition releases :: "serverConfig \<Rightarrow> bool" where
  "releases cfg = (case scf_JoinResolver cfg of None \<Rightarrow> False | Some r \<Rightarrow> jr_ReleaseJoin r \<noteq> None)"

definition server_ResolveJoin :: "server \<Rightarrow> player \<Rightarrow> joinTarget result \<times> server" where
  "server_ResolveJoin s pl = (case resolve_target (srv_cfg s) pl of
      Inl e \<Rightarrow> (Inl e, s)
    | Inr target \<Rightarrow>
        if releases (srv_cfg s) then
          (Inr target, s\<lparr>srv_joins := (srv_joins s)(remoteAddrKey (pl_RemoteAddr pl) \<mapsto> (pl, target))\<rparr>)
        else (Inr target, s))"

definition server_ResolveSpawn :: "server \<Rightarrow> player \<Rightarrow> spawnTarget result \<times> server" where
  "server_ResolveSpawn s pl = (case scf_JoinResolver (srv_cfg s) of
      Some _ \<Rightarrow> (case server_ResolveJoin s pl of
          (Inl e, s1) \<Rightarrow> (Inl e, s1) | (Inr target, s1) \<Rightarrow> (Inr (jt_Spawn target), s1))
    | None \<Rightarrow> (case scf_SpawnResolver (srv_cfg s) of
        Some spawns \<Rightarrow> (spawns pl, s) | None \<Rightarrow> (Inl ErrMissingSpawnResolver, s)))"

text \<open>\<open>World\<close>: without a world provider the call on the nil interface panics (\<open>None\<close>).\<close>

definition server_World :: "server \<Rightarrow> string \<Rightarrow> world result option" where
  "server_World s i = map_option (\<lambda>worlds. worlds i) (scf_Worlds (srv_cfg s))"

definition server_Events :: "server \<Rightarrow> handler option" where
  "server_Events s = scf_Events (srv_cfg s)"

text \<open>The locked part of \<open>releaseJoin\<close>.\<close>

definition take_join :: "server \<Rightarrow> net_addr \<Rightarrow> activeJoin option \<times> server" where
  "take_join s remote =
    (if \<not> releases (srv_cfg s) then (None, s)
     else let key = remoteAddrKey remote in
       (srv_joins s key, s\<lparr>srv_joins := (srv_joins s)(key := None)\<rparr>))"

section \<open>Connections\<close>

text \<open>\<open>trackConn\<close>: on a closed server the connection is closed instead (the flag).\<close>

definition trackConn :: "server \<Rightarrow> nat \<Rightarrow> bool \<times> server" where
  "trackConn s i = (if srv_closed s then (True, s) else (False, s\<lparr>srv_conns := insert i (srv_conns s)\<rparr>))"

definition forgetConn :: "server \<Rightarrow> nat \<Rightarrow> server" where
  "forgetConn s i = s\<lparr>srv_conns := srv_conns s - {i}\<rparr>"

text \<open>The locked part of \<open>Shutdown\<close>: the connections to close, if it was not closed before.\<close>

definition shutdown_mark :: "server \<Rightarrow> nat set \<times> server" where
  "shutdown_mark s = (if srv_closed s then ({}, s) else (srv_conns s, s\<lparr>srv_closed := True\<rparr>))"

text \<open>\<open>Serve\<close> on a listener: refused on a closed server. Its accept loop ends on an error.\<close>

definition serve_start :: "server \<Rightarrow> unit result \<times> server" where
  "serve_start s = (if srv_closed s then (Inl NetErrClosed, s) else (Inr (), s\<lparr>srv_listener := True\<rparr>))"

definition accept_error :: "bool \<Rightarrow> go_error \<Rightarrow> go_error option" where
  "accept_error cancelled err = (if errors_is err NetErrClosed \<or> cancelled then None else Some err)"

text \<open>
  What a handler goroutine is doing: \<open>ServeConn\<close>, then \<open>untrackConn\<close> in three parts: after
  closing the connection, while calling the releaser, before the connection is forgotten.
\<close>

datatype handlerPhase = Serving | Untracking | Releasing activeJoin | Forgetting

record serverRun =
  run_server :: server
  run_listening :: bool
  run_accepted :: "nat option"
  run_phase :: "nat \<rightharpoonup> handlerPhase"
  run_addr :: "nat \<rightharpoonup> net_addr"
  run_connClosed :: "nat set"
  run_toClose :: "nat set"
  run_resolved :: "activeJoin multiset"
  run_replaced :: "activeJoin multiset"
  run_released :: "activeJoin multiset"

datatype serverLabel =
    LServe | LAccepted nat net_addr | LRejected | LTrack | LResolve nat player | LHandled nat
  | LTake nat | LReleased nat | LForget nat | LShutdown | LCloseListener | LCloseConn nat

text \<open>What a resolution records and what it overwrites.\<close>

definition recorded :: "server \<Rightarrow> player \<Rightarrow> activeJoin multiset" where
  "recorded s pl = (case resolve_target (srv_cfg s) pl of
      Inl _ \<Rightarrow> {#} | Inr target \<Rightarrow> if releases (srv_cfg s) then {#(pl, target)#} else {#})"

definition overwritten :: "server \<Rightarrow> player \<Rightarrow> activeJoin multiset" where
  "overwritten s pl = (if recorded s pl = {#} then {#}
     else case srv_joins s (remoteAddrKey (pl_RemoteAddr pl)) of None \<Rightarrow> {#} | Some j \<Rightarrow> {#j#})"

inductive server_step :: "serverRun \<Rightarrow> serverLabel \<Rightarrow> serverRun \<Rightarrow> bool" where
  serve: "serve_start (run_server x) = (Inr (), s) \<Longrightarrow>
    server_step x LServe (x\<lparr>run_server := s, run_listening := True\<rparr>)"
| accepted: "run_listening x \<Longrightarrow> run_accepted x = None \<Longrightarrow> run_addr x i = None \<Longrightarrow>
    server_step x (LAccepted i a) (x\<lparr>run_accepted := Some i, run_addr := (run_addr x)(i \<mapsto> a)\<rparr>)"
| rejected: "run_accepted x = Some i \<Longrightarrow>
    server_step x LRejected (x\<lparr>run_accepted := None, run_connClosed := insert i (run_connClosed x)\<rparr>)"
| track: "run_accepted x = Some i \<Longrightarrow> trackConn (run_server x) i = (shut, s) \<Longrightarrow>
    server_step x LTrack (x\<lparr>run_accepted := None, run_server := s, run_phase := (run_phase x)(i \<mapsto> Serving),
      run_connClosed := (if shut then insert i (run_connClosed x) else run_connClosed x)\<rparr>)"
| resolve: "run_phase x i = Some Serving \<Longrightarrow> run_addr x i = Some (pl_RemoteAddr pl) \<Longrightarrow>
    server_ResolveJoin (run_server x) pl = (r, s) \<Longrightarrow>
    server_step x (LResolve i pl) (x\<lparr>run_server := s,
      run_resolved := run_resolved x + recorded (run_server x) pl,
      run_replaced := run_replaced x + overwritten (run_server x) pl\<rparr>)"
| handled: "run_phase x i = Some Serving \<Longrightarrow>
    server_step x (LHandled i) (x\<lparr>run_phase := (run_phase x)(i \<mapsto> Untracking),
      run_connClosed := insert i (run_connClosed x)\<rparr>)"
| take: "run_phase x i = Some Untracking \<Longrightarrow> run_addr x i = Some a \<Longrightarrow> take_join (run_server x) a = (j, s) \<Longrightarrow>
    server_step x (LTake i) (x\<lparr>run_server := s,
      run_phase := (run_phase x)(i \<mapsto> (case j of None \<Rightarrow> Forgetting | Some j \<Rightarrow> Releasing j))\<rparr>)"
| released: "run_phase x i = Some (Releasing j) \<Longrightarrow>
    server_step x (LReleased i) (x\<lparr>run_phase := (run_phase x)(i \<mapsto> Forgetting),
      run_released := add_mset j (run_released x)\<rparr>)"
| forget: "run_phase x i = Some Forgetting \<Longrightarrow>
    server_step x (LForget i) (x\<lparr>run_server := forgetConn (run_server x) i, run_phase := (run_phase x)(i := None)\<rparr>)"
| shutdown: "shutdown_mark (run_server x) = (cs, s) \<Longrightarrow>
    server_step x LShutdown (x\<lparr>run_server := s, run_toClose := run_toClose x \<union> cs\<rparr>)"
| close_listener: "srv_closed (run_server x) \<Longrightarrow> server_step x LCloseListener (x\<lparr>run_listening := False\<rparr>)"
| close_conn: "i \<in> run_toClose x \<Longrightarrow>
    server_step x (LCloseConn i) (x\<lparr>run_connClosed := insert i (run_connClosed x), run_toClose := run_toClose x - {i}\<rparr>)"

inductive_cases server_step_resolveE: "server_step x (LResolve i pl) y"
inductive_simps server_step_shutdown_iff: "server_step x LShutdown y"

definition server_init :: "serverConfig \<Rightarrow> serverRun \<Rightarrow> bool" where
  "server_init cfg x \<longleftrightarrow> (\<exists>s. NewServer cfg = Inr s \<and> x = \<lparr>run_server = s, run_listening = False,
     run_accepted = None, run_phase = Map.empty, run_addr = Map.empty, run_connClosed = {}, run_toClose = {},
     run_resolved = {#}, run_replaced = {#}, run_released = {#}\<rparr>)"

section \<open>Maps as multisets of values\<close>

definition map_values :: "('k \<rightharpoonup> 'v) \<Rightarrow> 'v multiset" where
  "map_values m = image_mset (\<lambda>k. the (m k)) (mset_set (dom m))"

lemma map_values_empty [simp]: "map_values Map.empty = {#}"
  by (simp add: map_values_def)

lemma map_values_upd_new: "finite (dom m) \<Longrightarrow> m k = None \<Longrightarrow> map_values (m(k \<mapsto> v)) = add_mset v (map_values m)"
proof -
  assume f: "finite (dom m)" and n: "m k = None"
  then have k: "k \<notin> dom m" by auto
  have "image_mset (\<lambda>i. the ((m(k \<mapsto> v)) i)) (mset_set (dom m)) = image_mset (\<lambda>i. the (m i)) (mset_set (dom m))"
    using k f by (intro image_mset_cong) auto
  then show ?thesis using f k by (simp add: map_values_def)
qed

lemma map_values_delete: "finite (dom m) \<Longrightarrow> m k = Some v \<Longrightarrow> map_values m = add_mset v (map_values (m(k := None)))"
  using map_values_upd_new [of "m(k := None)" k v] by (simp add: fun_upd_idem)

lemma map_values_upd: "finite (dom m) \<Longrightarrow>
    map_values (m(k \<mapsto> v)) + (case m k of None \<Rightarrow> {#} | Some w \<Rightarrow> {#w#}) = add_mset v (map_values m)"
  using map_values_upd_new [of "m(k := None)" k v] map_values_delete [of m k]
  by (cases "m k") (auto simp: map_values_upd_new)

section \<open>Invariants\<close>

text \<open>The joins being released right now.\<close>

definition releasing :: "(nat \<rightharpoonup> handlerPhase) \<Rightarrow> nat \<rightharpoonup> activeJoin" where
  "releasing ph = (\<lambda>i. case ph i of Some (Releasing j) \<Rightarrow> Some j | _ \<Rightarrow> None)"

text \<open>
  Ids: a connection that was accepted and not tracked yet runs nothing; every running handler
  belongs to an accepted connection, every tracked connection to a running handler.
\<close>

definition ids_inv :: "serverRun \<Rightarrow> bool" where
  "ids_inv x \<longleftrightarrow> finite (dom (run_phase x)) \<and> finite (dom (srv_joins (run_server x)))
    \<and> dom (run_phase x) \<subseteq> dom (run_addr x)
    \<and> (\<forall>i. run_accepted x = Some i \<longrightarrow> i \<in> dom (run_addr x) - dom (run_phase x))
    \<and> srv_conns (run_server x) \<subseteq> dom (run_phase x)"

text \<open>Closing: whatever is not being served is closed; a closed server closes what it tracks.\<close>

definition closing_inv :: "serverRun \<Rightarrow> bool" where
  "closing_inv x \<longleftrightarrow>
    (\<forall>i a. run_addr x i = Some a \<longrightarrow> run_accepted x = Some i \<or> run_phase x i = Some Serving \<or> i \<in> run_connClosed x)
    \<and> (\<forall>i. run_phase x i = Some Serving \<longrightarrow> i \<in> srv_conns (run_server x) \<union> run_connClosed x)
    \<and> (srv_closed (run_server x) \<longrightarrow> srv_conns (run_server x) \<subseteq> run_connClosed x \<union> run_toClose x)"

text \<open>
  Every recorded join belongs to a connection that will still release it, and without a releaser
  none is recorded.
\<close>

definition owned :: "(nat \<rightharpoonup> handlerPhase) \<Rightarrow> (nat \<rightharpoonup> net_addr) \<Rightarrow> string \<Rightarrow> bool" where
  "owned ph addr k \<longleftrightarrow> (\<exists>i a. (ph i = Some Serving \<or> ph i = Some Untracking)
     \<and> addr i = Some a \<and> remoteAddrKey a = k)"

definition joins_inv :: "serverRun \<Rightarrow> bool" where
  "joins_inv x \<longleftrightarrow> (\<forall>k j. srv_joins (run_server x) k = Some j \<longrightarrow>
     releases (srv_cfg (run_server x)) \<and> owned (run_phase x) (run_addr x) k)"

text \<open>No join is lost or released twice.\<close>

definition count_inv :: "serverRun \<Rightarrow> bool" where
  "count_inv x \<longleftrightarrow> run_resolved x = run_released x + run_replaced x + map_values (srv_joins (run_server x))
     + map_values (releasing (run_phase x))"

definition server_inv :: "serverRun \<Rightarrow> bool" where
  "server_inv x \<longleftrightarrow> ids_inv x \<and> closing_inv x \<and> joins_inv x \<and> count_inv x"

lemma releasing_upd: "releasing (ph(i := p)) = (releasing ph)(i := (case p of Some (Releasing j) \<Rightarrow> Some j | _ \<Rightarrow> None))"
  by (auto simp: releasing_def fun_eq_iff)

lemma dom_releasing: "dom (releasing ph) \<subseteq> dom ph"
  by (auto simp: releasing_def split: option.splits handlerPhase.splits)

lemma map_values_same: "m k = v \<Longrightarrow> map_values (m(k := v)) = map_values m"
  by (simp add: fun_upd_idem)

lemma server_inv_init: "server_init cfg x \<Longrightarrow> server_inv x"
  by (auto simp: server_init_def server_inv_def ids_inv_def closing_inv_def joins_inv_def count_inv_def
      NewServer_def Let_def releasing_def bindR_Inr_conv split: if_splits)

text \<open>Each group of invariants against each step.\<close>

lemma finite_joins_ResolveJoin:
  "server_ResolveJoin s pl = (r, s') \<Longrightarrow> finite (dom (srv_joins s')) \<longleftrightarrow> finite (dom (srv_joins s))"
  by (auto simp: server_ResolveJoin_def split: sum.splits if_splits)

lemma ResolveJoin_frame:
  "server_ResolveJoin s pl = (r, s') \<Longrightarrow> srv_conns s' = srv_conns s \<and> srv_closed s' = srv_closed s \<and> srv_cfg s' = srv_cfg s"
  by (auto simp: server_ResolveJoin_def split: sum.splits if_splits)

lemma ResolveJoin_joins:
  assumes "server_ResolveJoin s pl = (r, s')"
  shows "srv_joins s' = srv_joins s \<and> recorded s pl = {#}
    \<or> (\<exists>target. srv_joins s' = (srv_joins s)(remoteAddrKey (pl_RemoteAddr pl) \<mapsto> (pl, target))
        \<and> recorded s pl = {#(pl, target)#})"
  using assms by (auto simp: server_ResolveJoin_def recorded_def split: sum.splits if_splits)

lemma ResolveJoin_conserves:
  assumes "server_ResolveJoin s pl = (r, s')" "finite (dom (srv_joins s))"
  shows "map_values (srv_joins s') + overwritten s pl = map_values (srv_joins s) + recorded s pl"
proof -
  let ?k = "remoteAddrKey (pl_RemoteAddr pl)"
  from ResolveJoin_joins [OF assms(1)] show ?thesis
  proof (elim disjE exE conjE)
    assume "srv_joins s' = srv_joins s" "recorded s pl = {#}"
    then show ?thesis by (simp add: overwritten_def)
  next
    fix target
    assume "srv_joins s' = (srv_joins s)(?k \<mapsto> (pl, target))" "recorded s pl = {#(pl, target)#}"
    then show ?thesis using map_values_upd [OF assms(2), of ?k "(pl, target)"]
      by (simp add: overwritten_def)
  qed
qed

lemma take_join_facts:
  assumes "take_join s a = (j, s')"
  shows "srv_conns s' = srv_conns s \<and> srv_closed s' = srv_closed s"
    "srv_joins s' k = (if releases (srv_cfg s) \<and> k = remoteAddrKey a then None else srv_joins s k)"
    "finite (dom (srv_joins s)) \<Longrightarrow> finite (dom (srv_joins s'))"
    "finite (dom (srv_joins s)) \<Longrightarrow>
      map_values (srv_joins s) = map_values (srv_joins s') + (case j of None \<Rightarrow> {#} | Some x \<Rightarrow> {#x#})"
  using assms map_values_delete [of "srv_joins s" "remoteAddrKey a"]
  by (auto simp: take_join_def Let_def map_values_same split: if_splits option.splits)

lemma ids_inv_step: "server_step x l y \<Longrightarrow> ids_inv x \<Longrightarrow> ids_inv y"
proof (induction rule: server_step.induct)
  case (serve x s)
  then show ?case by (auto simp: ids_inv_def serve_start_def split: if_splits)
next
  case (accepted x i a)
  then show ?case unfolding ids_inv_def by auto
next
  case (track x i shut s)
  then show ?case unfolding ids_inv_def by (auto simp: trackConn_def split: if_splits)
next
  case (resolve x i pl r s)
  then show ?case using ResolveJoin_frame [of _ pl r s] finite_joins_ResolveJoin [of _ pl r s]
    unfolding ids_inv_def by simp
next
  case (take x i a j s)
  then show ?case using take_join_facts(1,3) [of _ a j s] unfolding ids_inv_def by (simp add: insert_absorb) auto
next
  case (forget x i)
  then show ?case unfolding ids_inv_def by (auto simp: forgetConn_def)
next
  case (shutdown x cs s)
  then show ?case unfolding ids_inv_def by (auto simp: shutdown_mark_def split: if_splits)
qed (unfold ids_inv_def, auto)

lemma closing_inv_step: "server_step x l y \<Longrightarrow> ids_inv x \<Longrightarrow> closing_inv x \<Longrightarrow> closing_inv y"
proof (induction rule: server_step.induct)
  case (serve x s)
  then show ?case by (auto simp: closing_inv_def serve_start_def split: if_splits)
next
  case (accepted x i a)
  then show ?case unfolding closing_inv_def ids_inv_def by auto
next
  case (track x i shut s)
  then show ?case unfolding closing_inv_def ids_inv_def by (auto simp: trackConn_def split: if_splits)
next
  case (resolve x i pl r s)
  then show ?case using ResolveJoin_frame [of _ pl r s] unfolding closing_inv_def by simp
next
  case (handled x i)
  then show ?case unfolding closing_inv_def by auto
next
  case (take x i a j s)
  then show ?case using take_join_facts(1) [of _ a j s] unfolding closing_inv_def
    by (auto split: option.splits)
next
  case (released x i j)
  then show ?case unfolding closing_inv_def by auto
next
  case (forget x i)
  then show ?case unfolding closing_inv_def by (auto simp: forgetConn_def)
next
  case (shutdown x cs s)
  then show ?case unfolding closing_inv_def by (auto simp: shutdown_mark_def split: if_splits)
qed (unfold closing_inv_def, auto)

lemma owned_other: "owned ph addr k \<Longrightarrow> addr i = Some a \<Longrightarrow> remoteAddrKey a \<noteq> k \<Longrightarrow> owned (ph(i := p)) addr k"
  unfolding owned_def by (metis fun_upd_other option.inject)

lemma owned_idle: "owned ph addr k \<Longrightarrow> ph i \<noteq> Some Serving \<Longrightarrow> ph i \<noteq> Some Untracking \<Longrightarrow> owned (ph(i := p)) addr k"
  unfolding owned_def by (metis fun_upd_other)

lemma owned_addr: "owned ph addr k \<Longrightarrow> addr i = None \<Longrightarrow> owned ph (addr(i := b)) k"
  unfolding owned_def by (metis fun_upd_other option.distinct(1))

lemma owned_untracking: "owned ph addr k \<Longrightarrow> owned (ph(i \<mapsto> Untracking)) addr k"
  if "ph i = Some Serving"
  using that unfolding owned_def by (metis fun_upd_apply)

lemma joins_inv_step: "server_step x l y \<Longrightarrow> ids_inv x \<Longrightarrow> joins_inv x \<Longrightarrow> joins_inv y"
proof (induction rule: server_step.induct)
  case (serve x s)
  then have "srv_joins s = srv_joins (run_server x) \<and> srv_cfg s = srv_cfg (run_server x)"
    by (auto simp: serve_start_def split: if_splits)
  with serve show ?case by (simp add: joins_inv_def)
next
  case (accepted x i a)
  then show ?case by (simp add: joins_inv_def owned_addr)
next
  case (track x i shut s)
  then have "run_phase x i = None" by (auto simp: ids_inv_def)
  moreover have "srv_joins s = srv_joins (run_server x) \<and> srv_cfg s = srv_cfg (run_server x)"
    using track(2) by (auto simp: trackConn_def split: if_splits)
  ultimately show ?case using track by (simp add: joins_inv_def owned_idle)
next
  case (resolve x i pl r s)
  then have "owned (run_phase x) (run_addr x) (remoteAddrKey (pl_RemoteAddr pl))" by (auto simp: owned_def)
  moreover have "srv_joins s = srv_joins (run_server x)
      \<or> releases (srv_cfg (run_server x)) \<and> (\<exists>t. srv_joins s = (srv_joins (run_server x))(remoteAddrKey (pl_RemoteAddr pl) \<mapsto> (pl, t)))"
    using resolve(3) by (auto simp: server_ResolveJoin_def split: sum.splits if_splits)
  moreover have "srv_cfg s = srv_cfg (run_server x)" using ResolveJoin_frame [OF resolve(3)] by simp
  ultimately show ?case using resolve(5) by (elim disjE conjE exE) (simp_all add: joins_inv_def)
next
  case (handled x i)
  then show ?case by (simp add: joins_inv_def owned_untracking)
next
  case (take x i a j s)
  have c: "srv_cfg s = srv_cfg (run_server x)" using take(3) by (auto simp: take_join_def Let_def split: if_splits)
  have "releases (srv_cfg (run_server x)) \<and> owned ((run_phase x)(i := p)) (run_addr x) k"
    if "srv_joins s k = Some v" for k v p
  proof -
    have old: "srv_joins (run_server x) k = Some v" "\<not> (releases (srv_cfg (run_server x)) \<and> k = remoteAddrKey a)"
      using that take_join_facts(2) [OF take(3), of k] by (simp_all split: if_splits)
    with take(5) have "releases (srv_cfg (run_server x))" "owned (run_phase x) (run_addr x) k"
      unfolding joins_inv_def by blast+
    with old(2) owned_other [of "run_phase x" "run_addr x" k i a p] take(2) show ?thesis by blast
  qed
  with c show ?case by (simp add: joins_inv_def)
next
  case (released x i j)
  then show ?case by (simp add: joins_inv_def owned_idle)
next
  case (forget x i)
  then show ?case by (simp add: joins_inv_def owned_idle forgetConn_def)
next
  case (shutdown x cs s)
  then have "srv_joins s = srv_joins (run_server x) \<and> srv_cfg s = srv_cfg (run_server x)"
    by (auto simp: shutdown_mark_def split: if_splits)
  with shutdown show ?case by (simp add: joins_inv_def)
qed (simp_all add: joins_inv_def)

lemma finite_releasing: "ids_inv x \<Longrightarrow> finite (dom (releasing (run_phase x)))"
  using finite_subset [OF dom_releasing] by (auto simp: ids_inv_def)

lemma count_inv_step: "server_step x l y \<Longrightarrow> ids_inv x \<Longrightarrow> count_inv x \<Longrightarrow> count_inv y"
proof (induction rule: server_step.induct)
  case (serve x s)
  then show ?case by (auto simp: count_inv_def serve_start_def split: if_splits)
next
  case (track x i shut s)
  then have "run_phase x i = None" by (auto simp: ids_inv_def)
  then have "releasing (run_phase x) i = None" by (simp add: releasing_def)
  with track show ?case by (auto simp: count_inv_def trackConn_def releasing_upd map_values_same split: if_splits)
next
  case (resolve x i pl r s)
  then have "finite (dom (srv_joins (run_server x)))" by (simp add: ids_inv_def)
  from ResolveJoin_conserves [OF resolve(3) this] resolve(5) show ?case
    by (simp add: count_inv_def ac_simps)
next
  case (handled x i)
  then have "releasing (run_phase x) i = None" by (simp add: releasing_def)
  with handled show ?case by (simp add: count_inv_def releasing_upd map_values_same)
next
  case (take x i a j s)
  then have "releasing (run_phase x) i = None" "finite (dom (srv_joins (run_server x)))"
    by (simp_all add: releasing_def ids_inv_def)
  then show ?case using take take_join_facts(4) [OF take(3)] finite_releasing [of x]
    by (cases j) (simp_all add: count_inv_def releasing_upd map_values_same map_values_upd_new)
next
  case (released x i j)
  then have r: "releasing (run_phase x) i = Some j" by (simp add: releasing_def)
  show ?case using released map_values_delete [OF finite_releasing r]
    by (simp add: count_inv_def releasing_upd)
next
  case (forget x i)
  then have "releasing (run_phase x) i = None" by (simp add: releasing_def)
  with forget show ?case by (simp add: count_inv_def releasing_upd map_values_same forgetConn_def)
next
  case (shutdown x cs s)
  then show ?case by (auto simp: count_inv_def shutdown_mark_def split: if_splits)
qed (simp_all add: count_inv_def)

lemma server_inv_step: "server_step x l y \<Longrightarrow> server_inv x \<Longrightarrow> server_inv y"
  unfolding server_inv_def using ids_inv_step closing_inv_step joins_inv_step count_inv_step by blast

text \<open>Shutting down and closing are for good.\<close>

lemma server_closed_step: "server_step x l y \<Longrightarrow> srv_closed (run_server x) \<Longrightarrow> srv_closed (run_server y)"
  by (induction rule: server_step.induct)
    (auto simp: serve_start_def trackConn_def forgetConn_def shutdown_mark_def
      dest: ResolveJoin_frame take_join_facts(1) split: if_splits)

lemma connClosed_step: "server_step x l y \<Longrightarrow> i \<in> run_connClosed x \<Longrightarrow> i \<in> run_connClosed y"
  by (induction rule: server_step.induct) auto

interpretation server_run: state_machine "server_init cfg" server_step server_inv for cfg
  by unfold_locales (blast intro: server_inv_init server_inv_step)+

interpretation server_shut: state_machine "\<lambda>x. srv_closed (run_server x)" server_step "\<lambda>x. srv_closed (run_server x)"
  by unfold_locales (blast intro: server_closed_step)+

text \<open>When every handler has returned nothing is left behind.\<close>

lemma server_idle:
  assumes "server_inv x" "run_phase x = Map.empty"
  shows "srv_joins (run_server x) = Map.empty \<and> srv_conns (run_server x) = {}
    \<and> run_resolved x = run_released x + run_replaced x
    \<and> (\<forall>i \<in> dom (run_addr x). run_accepted x \<noteq> Some i \<longrightarrow> i \<in> run_connClosed x)"
proof -
  have "srv_joins (run_server x) k = None" for k
    using assms by (cases "srv_joins (run_server x) k") (auto simp: server_inv_def joins_inv_def owned_def)
  then have "srv_joins (run_server x) = Map.empty" by (rule ext)
  moreover have "releasing Map.empty = Map.empty" by (simp add: releasing_def)
  ultimately show ?thesis using assms by (auto simp: server_inv_def ids_inv_def closing_inv_def count_inv_def)
qed

text \<open>A join is only overwritten while a connection with the same address is still active.\<close>

lemma overwritten_owned:
  assumes "server_inv x" "j \<in># overwritten (run_server x) pl"
  shows "owned (run_phase x) (run_addr x) (remoteAddrKey (pl_RemoteAddr pl))"
  using assms by (auto simp: server_inv_def joins_inv_def overwritten_def split: if_splits option.splits)

section \<open>Handlers can always finish\<close>

text \<open>Whatever a handler is doing, it and its clean-up can run to the end.\<close>

lemma forgets: "run_phase x i = Some Forgetting \<Longrightarrow>
    \<exists>ls y. path server_step x ls y \<and> run_phase y = (run_phase x)(i := None)"
  using path_single [of server_step, OF server_step.forget [of x i]] by fastforce

lemma path_extend:
  assumes "server_step x l z" "run_phase z = (run_phase x)(i := p)"
    "\<exists>ls y. path server_step z ls y \<and> run_phase y = (run_phase z)(i := None)"
  shows "\<exists>ls y. path server_step x ls y \<and> run_phase y = (run_phase x)(i := None)"
  using assms path.path_Cons [of server_step, OF assms(1)] by (metis fun_upd_upd)

lemma releases_join: "run_phase x i = Some (Releasing j) \<Longrightarrow>
    \<exists>ls y. path server_step x ls y \<and> run_phase y = (run_phase x)(i := None)"
  by (rule path_extend [OF server_step.released [of x i j] _ forgets]) simp_all

lemma untracks: "run_phase x i = Some Untracking \<Longrightarrow> run_addr x i = Some a \<Longrightarrow>
    \<exists>ls y. path server_step x ls y \<and> run_phase y = (run_phase x)(i := None)"
proof -
  assume u: "run_phase x i = Some Untracking" "run_addr x i = Some a"
  obtain j s where t: "take_join (run_server x) a = (j, s)" by fastforce
  show ?thesis
  proof (cases j)
    case None
    show ?thesis by (rule path_extend [OF server_step.take [OF u t] _ forgets]) (simp_all add: None)
  next
    case (Some j')
    show ?thesis by (rule path_extend [OF server_step.take [OF u t] _ releases_join [of _ i j']]) (simp_all add: Some)
  qed
qed

lemma handler_finishes:
  assumes "server_inv x" "i \<in> dom (run_phase x)"
  shows "\<exists>ls y. path server_step x ls y \<and> run_phase y = (run_phase x)(i := None)"
proof -
  obtain p a where p: "run_phase x i = Some p" "run_addr x i = Some a"
    using assms by (fastforce simp: server_inv_def ids_inv_def)
  show ?thesis
  proof (cases p)
    case Serving
    show ?thesis
      by (rule path_extend [OF server_step.handled [of x i] _ untracks [of _ i a]]) (simp_all add: p Serving)
  qed (use p forgets releases_join untracks in blast)+
qed

lemma handlers_finish:
  assumes "server_inv x"
  shows "\<exists>ls y. path server_step x ls y \<and> run_phase y = Map.empty"
  using assms
proof (induction "card (dom (run_phase x))" arbitrary: x)
  case 0
  then have "run_phase x = Map.empty" by (simp add: server_inv_def ids_inv_def)
  then show ?case by (blast intro: path.path_Nil)
next
  case (Suc n)
  then have f: "finite (dom (run_phase x))" by (simp add: server_inv_def ids_inv_def)
  from Suc(2) obtain i where i: "i \<in> dom (run_phase x)" by fastforce
  from handler_finishes [OF Suc.prems i] obtain ls y
    where y: "path server_step x ls y" "run_phase y = (run_phase x)(i := None)" by blast
  have "server_inv y" by (rule server_run.inv_path [OF y(1) Suc.prems])
  moreover have "n = card (dom (run_phase y))" using Suc(2) f i y(2) by simp
  ultimately obtain ms z where z: "path server_step y ms z" "run_phase z = Map.empty" using Suc(1) by blast
  show ?case using path_append [OF y(1) z(1)] z(2) by blast
qed

section \<open>The services a session gets\<close>

definition server_services :: "server \<Rightarrow> services" where
  "server_services s =
    \<lparr>sv_ResolveJoin = Some (\<lambda>pl. bindR (fst (server_ResolveJoin s pl)) (\<lambda>target.
       case jt_World target of None \<Rightarrow> Inl ErrMissingWorld | Some w \<Rightarrow> Inr (w, jt_Spawn target))),
     sv_ResolveSpawn = (\<lambda>pl. fst (server_ResolveSpawn s pl)),
     sv_World = (\<lambda>i. case server_World s i of None \<Rightarrow> Inl ErrMissingWorldProvider | Some r \<Rightarrow> r),
     sv_Events = server_Events s\<rparr>"

text \<open>Whatever the configuration, a resolved join has a world and its spawn names one.\<close>

lemma normalizeJoinTarget_Inr:
  "normalizeJoinTarget t = Inr t' \<Longrightarrow> \<exists>w. jt_World t' = Some w \<and> jt_World t = Some w
    \<and> sp_World (jt_Spawn t') = (if sp_World (jt_Spawn t) = '''' then w_ID w else sp_World (jt_Spawn t))"
  by (auto simp: normalizeJoinTarget_def split: option.splits if_splits)

lemma resolve_target_Inr: "resolve_target cfg pl = Inr t \<Longrightarrow>
    \<exists>w. jt_World t = Some w \<and> (sp_World (jt_Spawn t) = '''' \<longrightarrow> w_ID w = '''')"
  by (auto simp: resolve_target_def bindR_Inr_conv dest!: normalizeJoinTarget_Inr split: option.splits if_splits)

lemma resolveJoin_server:
  "resolveJoin (server_services s) pl = Inr (w, spawn) \<longleftrightarrow>
    (\<exists>t. resolve_target (srv_cfg s) pl = Inr t \<and> jt_World t = Some w \<and> jt_Spawn t = spawn)"
  by (auto simp: resolveJoin_def server_services_def server_ResolveJoin_def bindR_Inr_conv
      split: sum.splits option.splits)

section \<open>Cleaning up terminates\<close>

text \<open>The steps of handlers that return and clean up, and how many of them are left.\<close>

definition cleanup :: "serverLabel \<Rightarrow> bool" where
  "cleanup l = (case l of LHandled _ \<Rightarrow> True | LTake _ \<Rightarrow> True | LReleased _ \<Rightarrow> True | LForget _ \<Rightarrow> True | _ \<Rightarrow> False)"

definition phase_weight :: "handlerPhase \<Rightarrow> nat" where
  "phase_weight p = (case p of Serving \<Rightarrow> 4 | Untracking \<Rightarrow> 3 | Releasing _ \<Rightarrow> 2 | Forgetting \<Rightarrow> 1)"

definition work :: "serverRun \<Rightarrow> nat" where
  "work x = (\<Sum>i \<in> dom (run_phase x). phase_weight (the (run_phase x i)))"

lemma sum_phase_upd:
  fixes f :: "'p \<Rightarrow> nat"
  assumes "finite (dom m)" "m i = Some p"
  shows "(\<Sum>k \<in> dom m. f (the (m k))) = f p + (\<Sum>k \<in> dom (m(i := None)). f (the ((m(i := None)) k)))"
proof -
  have "(\<Sum>k \<in> dom m - {i}. f (the ((m(i := None)) k))) = (\<Sum>k \<in> dom m - {i}. f (the (m k)))"
    by (rule sum.cong) auto
  then show ?thesis using assms sum.remove [of "dom m" i "\<lambda>k. f (the (m k))"] by auto
qed

lemma work_step:
  assumes "run_phase x i = Some p" "run_phase y = (run_phase x)(i := q)" "finite (dom (run_phase x))"
    "case q of None \<Rightarrow> True | Some q \<Rightarrow> phase_weight q < phase_weight p"
  shows "work y < work x"
proof (cases q)
  case None
  then show ?thesis using sum_phase_upd [OF assms(3,1), of phase_weight] assms
    by (cases p) (simp_all add: work_def phase_weight_def)
next
  case (Some r)
  have "finite (dom (run_phase y))" "run_phase y i = Some r" "(run_phase y)(i := None) = (run_phase x)(i := None)"
    using assms Some by simp_all
  then show ?thesis
    using sum_phase_upd [OF assms(3,1), of phase_weight] sum_phase_upd [of "run_phase y" i r phase_weight] assms Some
    by (simp add: work_def)
qed

lemma cleanup_decreases:
  assumes "server_step x l y" "cleanup l" "finite (dom (run_phase x))"
  shows "work y < work x"
  using assms
proof (cases rule: server_step.cases)
  case (handled i)
  then show ?thesis using assms(3) by (intro work_step [of x i Serving y]) (auto simp: phase_weight_def)
next
  case (take i a j s)
  then show ?thesis using assms(3)
    by (intro work_step [of x i Untracking y]) (auto simp: phase_weight_def split: option.split)
next
  case (released i j)
  then show ?thesis using assms(3) by (intro work_step [of x i "Releasing j" y]) (auto simp: phase_weight_def)
next
  case (forget i)
  then show ?thesis using assms(3) by (intro work_step [of x i Forgetting y]) auto
qed (simp_all add: cleanup_def)

lemma cleanup_enabled:
  assumes "server_inv x" "run_phase x \<noteq> Map.empty"
  shows "\<exists>l y. cleanup l \<and> server_step x l y"
proof -
  from assms(2) obtain i p where p: "run_phase x i = Some p" by (metis ext option.exhaust)
  with assms(1) obtain a where a: "run_addr x i = Some a" by (fastforce simp: server_inv_def ids_inv_def)
  obtain j s where t: "take_join (run_server x) a = (j, s)" by fastforce
  show ?thesis
  proof (cases p)
    case Serving
    then show ?thesis using server_step.handled [of x i] p
      by (intro exI [of _ "LHandled i"]) (auto simp: cleanup_def)
  next
    case Untracking
    then show ?thesis using server_step.take [of x i a j s] p a t
      by (intro exI [of _ "LTake i"]) (auto simp: cleanup_def)
  next
    case (Releasing k)
    then show ?thesis using server_step.released [of x i k] p
      by (intro exI [of _ "LReleased i"]) (auto simp: cleanup_def)
  next
    case Forgetting
    then show ?thesis using server_step.forget [of x i] p
      by (intro exI [of _ "LForget i"]) (auto simp: cleanup_def)
  qed
qed

lemma cleanup_bounded:
  assumes "path server_step x ms y" "server_inv x" "list_all cleanup ms"
  shows "length ms + work y \<le> work x"
  using assms
proof (induction rule: path.induct)
  case (path_Cons s l s' ls t)
  have "work s' < work s"
    using cleanup_decreases [OF path_Cons.hyps(1)] path_Cons.prems by (simp add: server_inv_def ids_inv_def)
  with path_Cons.IH server_inv_step [OF path_Cons.hyps(1)] path_Cons.prems show ?case by fastforce
qed simp

lemma work_bound: "finite (dom (run_phase x)) \<Longrightarrow> work x \<le> 4 * card (dom (run_phase x))"
proof -
  have "phase_weight p \<le> 4" for p by (cases p) (simp_all add: phase_weight_def)
  then show ?thesis
    using sum_bounded_above [of "dom (run_phase x)" "\<lambda>i. phase_weight (the (run_phase x i))" 4]
    by (simp add: work_def mult.commute)
qed

lemma NewServer_fresh: "NewServer cfg = Inr s \<Longrightarrow>
    srv_closed s = False \<and> srv_conns s = {} \<and> srv_listener s = False \<and> srv_joins s = Map.empty"
  by (auto simp: NewServer_def Let_def bindR_Inr_conv split: if_splits)

end
