(* ===== verification/Schematic.thy ===== *)
theory Schematic
  imports Chunk_Data "HOL-Library.AList"
begin

text \<open>
  The Sponge schematic loader (\<open>world/schematic/load.go\<close>): the decoded schematic, its palette and
  block array, and the chunks built from them. The gzip and NBT decoders are parameters. Block
  ids are \<open>uint32\<close> words; \<open>None\<close> as the result of an operation is a run-time panic of the Go
  code (an index or length out of range).
\<close>

record options =
  sg_WorldID :: string
  sg_Dimension :: dimension

record spongeSchematic =
  sg_Version :: int
  sg_Width :: int
  sg_Height :: int
  sg_Length :: int
  sg_Palette :: "(string \<times> int) list"
  sg_BlockData :: "byte list"

section \<open>Palette\<close>

text \<open>\<open>strings.Cut\<close> at \<open>=\<close>; a later pair with the same key wins.\<close>

definition cut_pair :: "string \<Rightarrow> (string \<times> string) option" where
  "cut_pair pair = map_option (\<lambda>i. (take i pair, drop (i + 1) pair)) (indexByte pair (CHR ''=''))"

definition parse_properties :: "string list \<Rightarrow> (string \<times> string) list" where
  "parse_properties pairs = foldl (\<lambda>m pair. case cut_pair pair of None \<Rightarrow> m | Some (k, v) \<Rightarrow> AList.update k v m) [] pairs"

definition parseBlockState :: "string \<Rightarrow> blockState" where
  "parseBlockState raw =
    (let (name0, properties) = (case indexByte raw (CHR ''['') of
           Some i \<Rightarrow> if hasSuffix raw '']'' then
               (take i raw, parse_properties (splitByte (trimSuffix (drop (i + 1) raw) '']'') (CHR '','')))
             else (raw, [])
         | None \<Rightarrow> (raw, []));
         name = (if containsByte name0 (CHR '':'') then name0 else ''minecraft:'' @ name0)
     in \<lparr>bs_Name = name, bs_Properties = properties\<rparr>)"

text \<open>The first loop: the largest id, or the error for a negative one.\<close>

fun max_palette_id :: "int \<Rightarrow> (string \<times> int) list \<Rightarrow> int result" where
  "max_palette_id m [] = Inr m"
| "max_palette_id m ((_, i) # xs) =
     (if i < 0 then Inl (Wrapf ErrInvalidSchematic ''%w: negative palette id %d'' [FD i])
      else max_palette_id (if m < i then i else m) xs)"

definition zero_state :: blockState where
  "zero_state = \<lparr>bs_Name = '''', bs_Properties = []\<rparr>"

definition fill_palette :: "(string \<times> int) list \<Rightarrow> blockState list \<Rightarrow> blockState list" where
  "fill_palette input palette = foldl (\<lambda>p (raw, i). p[nat i := parseBlockState raw]) palette input"

text \<open>\<open>make\<close> with the wrapped length panics when it is negative.\<close>

definition decodePalette :: "(string \<times> int) list \<Rightarrow> blockState list result option" where
  "decodePalette input = (case max_palette_id (- 1) input of
      Inl e \<Rightarrow> Some (Inl e)
    | Inr maxID \<Rightarrow>
        (let n = wrap32 (maxID + 1) in
         if n < 0 then None
         else
           (let palette = fill_palette input (replicate (nat n) zero_state) in
            case List.find (\<lambda>i. bs_Name (palette ! i) = '''') [0..<length palette] of
              Some i \<Rightarrow> Some (Inl (Wrapf ErrInvalidSchematic ''%w: missing palette entry %d'' [FD (int i)]))
            | None \<Rightarrow> Some (Inr palette))))"

section \<open>Block data\<close>

text \<open>\<open>readSchematicVarInt\<close> from an offset is read from the rest of the data.\<close>

function readSchematicVarInt_loop :: "nat \<Rightarrow> 32 word \<Rightarrow> byte list \<Rightarrow> (32 word \<times> byte list) result" where
  "readSchematicVarInt_loop shift value bs =
     (if shift < 35 then
        (case bs of
           [] \<Rightarrow> Inl (Wrapf ErrInvalidSchematic ''%w: truncated block varint'' [])
         | b # r \<Rightarrow>
             (let value' = value OR push_bit shift (ucast (b AND 0x7f)) in
              if b AND 0x80 = 0 then Inr (value', r) else readSchematicVarInt_loop (shift + 7) value' r))
      else Inl (Wrapf ErrInvalidSchematic ''%w: block varint too long'' []))"
  by pat_completeness auto
termination readSchematicVarInt_loop
  by (relation "measure (\<lambda>(shift, _, _). 35 - shift)") auto

declare readSchematicVarInt_loop.simps [simp del]

definition readSchematicVarInt :: "byte list \<Rightarrow> (32 word \<times> byte list) result" where
  "readSchematicVarInt bs = readSchematicVarInt_loop 0 0 bs"

lemma readSchematicVarInt_loop_less:
  "readSchematicVarInt_loop shift v bs = Inr (w, r) \<Longrightarrow> length r < length bs"
proof (induction shift v bs rule: readSchematicVarInt_loop.induct)
  case (1 shift v bs)
  from "1.prems" show ?case
    by (subst (asm) readSchematicVarInt_loop.simps)
      (auto simp: Let_def split: if_splits list.splits dest!: "1.IH" [OF _ _ refl])
qed

lemma readSchematicVarInt_less: "readSchematicVarInt bs = Inr (w, r) \<Longrightarrow> length r < length bs"
  unfolding readSchematicVarInt_def by (rule readSchematicVarInt_loop_less)

function decode_ids :: "byte list \<Rightarrow> 32 word list result" where
  "decode_ids bs = (if bs = [] then Inr []
     else (case readSchematicVarInt bs of
         Inl e \<Rightarrow> Inl e
       | Inr (v, r) \<Rightarrow> bindR (decode_ids r) (\<lambda>ids. Inr (v # ids))))"
  by pat_completeness auto
termination decode_ids
  by (relation "measure length") (auto dest: readSchematicVarInt_less)

declare decode_ids.simps [simp del]

definition decodeBlockData :: "byte list \<Rightarrow> int \<Rightarrow> 32 word list result" where
  "decodeBlockData bs expected = bindR (decode_ids bs) (\<lambda>ids.
     if int (length ids) \<noteq> expected then
       Inl (Wrapf ErrInvalidSchematic ''%w: decoded %d blocks, want %d'' [FD (int (length ids)), FD expected])
     else Inr ids)"

section \<open>Chunks\<close>

type_synonym chunks = "((int \<times> int) \<times> chunk) list"

definition blockIndex :: "int \<Rightarrow> int \<Rightarrow> int \<Rightarrow> int \<Rightarrow> int \<Rightarrow> int" where
  "blockIndex x y z width len = wrap32 (wrap32 (wrap32 (wrap32 (y * len) + z) * width) + x)"

definition sectionIndexInChunk :: "int \<Rightarrow> int \<Rightarrow> int \<Rightarrow> int" where
  "sectionIndexInChunk x y z = wrap32 ((y * 16 + z) * 16 + x)"

definition floorDiv :: "int \<Rightarrow> int \<Rightarrow> int" where
  "floorDiv value divisor = (if 0 \<le> value then go_div value divisor
     else wrap32 (- go_div (wrap32 (- value + divisor - 1)) divisor))"

definition schematic_mod :: "int \<Rightarrow> int \<Rightarrow> int" where
  "schematic_mod value divisor = (let result = go_mod value divisor in
     if result < 0 then result + divisor else result)"

text \<open>The index of the first section at a height; the number of sections if there is none.\<close>

definition section_pos :: "chunkSection list \<Rightarrow> int \<Rightarrow> nat" where
  "section_pos ss y = length (takeWhile (\<lambda>s. cs_Y s \<noteq> y) ss)"

definition with_section :: "chunkSection list \<Rightarrow> int \<Rightarrow> chunkSection list" where
  "with_section ss y = (if section_pos ss y = length ss then
     sort_key cs_Y (ss @ [\<lparr>cs_Y = y, cs_BlockStateIDs = replicate (16 * 16 * 16) 0, cs_BiomeIDs = []\<rparr>])
     else ss)"

definition setBlock :: "chunks \<Rightarrow> int \<Rightarrow> int \<Rightarrow> int \<Rightarrow> nat \<Rightarrow> chunks" where
  "setBlock chunks x y z paletteID =
    (let chunkX = floorDiv x 16; chunkZ = floorDiv z 16; sectionY = floorDiv y 16;
         chunk0 = (case map_of chunks (chunkX, chunkZ) of
             Some c \<Rightarrow> if ch_Sections c = [] then \<lparr>ch_X = chunkX, ch_Z = chunkZ, ch_MinY = 0, ch_Sections = []\<rparr> else c
           | None \<Rightarrow> \<lparr>ch_X = chunkX, ch_Z = chunkZ, ch_MinY = 0, ch_Sections = []\<rparr>);
         sections = with_section (ch_Sections chunk0) sectionY;
         sectionIndex = section_pos sections sectionY;
         s = sections ! sectionIndex;
         local = nat (sectionIndexInChunk (schematic_mod x 16) (schematic_mod y 16) (schematic_mod z 16))
     in AList.update (chunkX, chunkZ)
          (chunk0\<lparr>ch_Sections := sections[sectionIndex := s\<lparr>cs_BlockStateIDs := (cs_BlockStateIDs s)[local := paletteID]\<rparr>]\<rparr>)
          chunks)"

text \<open>The three nested loops, over the positions in the order they are visited.\<close>

definition positions :: "int \<Rightarrow> int \<Rightarrow> int \<Rightarrow> (int \<times> int \<times> int) list" where
  "positions width height len =
    concat (map (\<lambda>y. concat (map (\<lambda>z. map (\<lambda>x. (x, y, z)) [0..width - 1]) [0..len - 1])) [0..height - 1])"

fun place_blocks :: "32 word list \<Rightarrow> nat \<Rightarrow> int \<Rightarrow> int \<Rightarrow> (int \<times> int \<times> int) list \<Rightarrow> chunks \<Rightarrow> chunks result option" where
  "place_blocks ids n width len [] chunks = Some (Inr chunks)"
| "place_blocks ids n width len ((x, y, z) # ps) chunks =
     (let i = blockIndex x y z width len in
      if i < 0 \<or> int (length ids) \<le> i then None
      else (let paletteID = unat (ids ! nat i) in
        if n \<le> paletteID then
          Some (Inl (Wrapf ErrInvalidSchematic ''%w: block palette id %d outside palette size %d''
            [FD (int paletteID), FD (int n)]))
        else place_blocks ids n width len ps (setBlock chunks x y z paletteID)))"

definition defaultDimension :: "int \<Rightarrow> dimension" where
  "defaultDimension height = dimensionPreset DimensionOverworld height"

definition buildWorld :: "spongeSchematic \<Rightarrow> options \<Rightarrow> memoryWorld result option" where
  "buildWorld data opts =
    (if sg_Width data \<le> 0 \<or> sg_Height data \<le> 0 \<or> sg_Length data \<le> 0 then
       Some (Inl (Wrapf ErrInvalidSchematic ''%w: non-positive dimensions %dx%dx%d''
         [FD (sg_Width data), FD (sg_Height data), FD (sg_Length data)]))
     else if sg_Palette data = [] then Some (Inl (Wrapf ErrInvalidSchematic ''%w: missing palette'' []))
     else (case decodePalette (sg_Palette data) of
         None \<Rightarrow> None
       | Some (Inl e) \<Rightarrow> Some (Inl e)
       | Some (Inr palette) \<Rightarrow>
           (case decodeBlockData (sg_BlockData data) (sg_Width data * sg_Height data * sg_Length data) of
              Inl e \<Rightarrow> Some (Inl e)
            | Inr ids \<Rightarrow>
                (let worldID = (if sg_WorldID opts = '''' then ''default'' else sg_WorldID opts);
                     dimension = (if dm_Name (sg_Dimension opts) = '''' \<and> dm_Environment (sg_Dimension opts) = ''''
                       then defaultDimension (sg_Height data)
                       else normalizeDimension (sg_Dimension opts) (sg_Height data))
                 in (case place_blocks ids (length palette) (sg_Width data) (sg_Length data)
                       (positions (sg_Width data) (sg_Height data) (sg_Length data)) [] of
                     None \<Rightarrow> None
                   | Some (Inl e) \<Rightarrow> Some (Inl e)
                   | Some (Inr chunks) \<Rightarrow> Some (Inr \<lparr>mw_WorldID = worldID, mw_WorldDimension = dimension,
                       mw_Palette = palette, mw_Chunks = chunks\<rparr>))))))"

text \<open>
  \<open>Load\<close>: \<open>openGzip\<close> is the error of \<open>gzip.NewReader\<close>, \<open>decode\<close> the NBT decoder on the plain or
  (\<open>True\<close>) the gzip reader.
\<close>

definition is_gzip :: "byte list \<Rightarrow> bool" where
  "is_gzip raw \<longleftrightarrow> 2 \<le> length raw \<and> raw ! 0 = 0x1f \<and> raw ! 1 = 0x8b"

definition schematic_Load :: "(byte list \<Rightarrow> go_error option) \<Rightarrow> (bool \<Rightarrow> byte list \<Rightarrow> spongeSchematic result) \<Rightarrow>
    byte list \<Rightarrow> options \<Rightarrow> memoryWorld result option" where
  "schematic_Load openGzip decode raw opts =
    (case (if is_gzip raw then openGzip raw else None) of
       Some e \<Rightarrow> Some (Inl e)
     | None \<Rightarrow> (case decode (is_gzip raw) raw of
         Inl e \<Rightarrow> Some (Inl (Wrapf ErrInvalidSchematic ''%w: decode nbt: %v'' []))
       | Inr data \<Rightarrow> buildWorld data opts))"

section \<open>Reading blocks back\<close>

text \<open>The block at a position of a world, as the protocol adapters look it up.\<close>

definition local_index :: "int \<Rightarrow> int \<Rightarrow> int \<Rightarrow> nat" where
  "local_index x y z = nat (((y mod 16) * 16 + z mod 16) * 16 + x mod 16)"

definition block_at :: "(int \<Rightarrow> int \<Rightarrow> chunk option) \<Rightarrow> int \<Rightarrow> int \<Rightarrow> int \<Rightarrow> nat option" where
  "block_at chnks x y z = (case chnks (x div 16) (z div 16) of
      None \<Rightarrow> None
    | Some c \<Rightarrow> map_option (\<lambda>s. cs_BlockStateIDs s ! local_index x y z) (findSection (ch_Sections c) (y div 16)))"

definition sections_ok :: "chunkSection list \<Rightarrow> bool" where
  "sections_ok ss \<longleftrightarrow> distinct (map cs_Y ss) \<and> sorted (map cs_Y ss) \<and> (\<forall>s \<in> set ss. length (cs_BlockStateIDs s) = 4096)"

definition chunks_ok :: "chunks \<Rightarrow> bool" where
  "chunks_ok cs \<longleftrightarrow> distinct (map fst cs) \<and> (\<forall>((cx, cz), c) \<in> set cs. ch_X c = cx \<and> ch_Z c = cz \<and> ch_MinY c = 0
     \<and> sections_ok (ch_Sections c) \<and> ch_Sections c \<noteq> [])"

lemma index_bounds:
  "0 \<le> a \<and> a < 16 \<Longrightarrow> 0 \<le> b \<and> b < 16 \<Longrightarrow> 0 \<le> c \<and> c < 16 \<Longrightarrow>
    0 \<le> (b * 16 + c) * 16 + a \<and> (b * 16 + c) * 16 + a < 4096" for a b c :: int
proof -
  assume b: "0 \<le> a \<and> a < 16" "0 \<le> b \<and> b < 16" "0 \<le> c \<and> c < 16"
  have "(b * 16 + c) * 16 + a = 256 * b + 16 * c + a" by (simp add: algebra_simps)
  with b show ?thesis by linarith
qed

lemma base_16: "0 \<le> a \<and> a < 16 \<Longrightarrow> (m * 16 + a) mod 16 = a \<and> (m * 16 + a) div 16 = m" for a m :: int
  by simp

lemma index_unique:
  "0 \<le> a \<and> a < 16 \<Longrightarrow> 0 \<le> b \<and> b < 16 \<Longrightarrow> 0 \<le> c \<and> c < 16 \<Longrightarrow>
    0 \<le> a' \<and> a' < 16 \<Longrightarrow> 0 \<le> b' \<and> b' < 16 \<Longrightarrow> 0 \<le> c' \<and> c' < 16 \<Longrightarrow>
    (b * 16 + c) * 16 + a = (b' * 16 + c') * 16 + a' \<Longrightarrow> a = a' \<and> b = b' \<and> c = c'" for a b c :: int
  using base_16 [of a "b * 16 + c"] base_16 [of a' "b' * 16 + c'"] base_16 [of c b] base_16 [of c' b']
  by metis

lemma mod_16: "0 \<le> v mod 16 \<and> v mod 16 < 16" for v :: int
  by simp

lemmas index_mod = index_bounds [OF mod_16 mod_16 mod_16]

lemma local_index_less: "local_index x y z < 4096"
  using index_mod [of y z x] by (simp add: local_index_def nat_less_iff)

lemma local_index_inj:
  "local_index x y z = local_index x' y' z' \<longleftrightarrow> x mod 16 = x' mod 16 \<and> y mod 16 = y' mod 16 \<and> z mod 16 = z' mod 16"
proof
  assume e: "local_index x y z = local_index x' y' z'"
  then have "((y mod 16) * 16 + z mod 16) * 16 + x mod 16 = ((y' mod 16) * 16 + z' mod 16) * 16 + x' mod 16"
    unfolding local_index_def by (rule eq_nat_nat_iff [THEN iffD1, rotated 2]) (use index_mod in blast)+
  then show "x mod 16 = x' mod 16 \<and> y mod 16 = y' mod 16 \<and> z mod 16 = z' mod 16"
    by (rule index_unique [OF mod_16 mod_16 mod_16 mod_16 mod_16 mod_16])
qed (simp add: local_index_def)

lemma same_position: "x div 16 = x' div 16 \<Longrightarrow> x mod 16 = x' mod 16 \<Longrightarrow> x = x'" for x x' :: int
  by (metis div_mult_mod_eq)

lemma local_index_position:
  assumes "x' div 16 = x div 16" "y' div 16 = y div 16" "z' div 16 = z div 16"
  shows "local_index x' y' z' = local_index x y z \<longleftrightarrow> (x', y', z') = (x, y, z)"
  unfolding local_index_inj prod.inject using same_position [OF assms(1)] same_position [OF assms(2)] same_position [OF assms(3)] by blast

lemma floorDiv_16: "0 \<le> v \<Longrightarrow> floorDiv v 16 = v div 16"
  by (simp add: floorDiv_def go_div_nonneg)

lemma schematic_mod_16: "0 \<le> v \<Longrightarrow> schematic_mod v 16 = v mod 16"
  by (simp add: schematic_mod_def go_mod_nonneg Let_def)

lemma sectionIndex_local: "0 \<le> x \<Longrightarrow> 0 \<le> y \<Longrightarrow> 0 \<le> z \<Longrightarrow>
    nat (sectionIndexInChunk (schematic_mod x 16) (schematic_mod y 16) (schematic_mod z 16)) = local_index x y z"
proof -
  assume p: "0 \<le> x" "0 \<le> y" "0 \<le> z"
  have "is_int32 ((y mod 16 * 16 + z mod 16) * 16 + x mod 16)"
    using index_mod [of y z x] unfolding is_int32_def by simp
  with p show ?thesis by (simp add: sectionIndexInChunk_def schematic_mod_16 wrap32_id local_index_def)
qed

section \<open>Sections\<close>

lemma section_pos_None: "section_pos ss y = length ss \<longleftrightarrow> findSection ss y = None"
  by (induction ss) (auto simp: section_pos_def)

lemma section_pos_Some:
  "findSection ss y = Some s \<Longrightarrow> section_pos ss y < length ss \<and> ss ! section_pos ss y = s"
  by (induction ss) (auto simp: section_pos_def split: if_splits)

lemma findSection_update:
  "findSection ss y \<noteq> None \<Longrightarrow> cs_Y s' = y \<Longrightarrow>
    findSection (ss[section_pos ss y := s']) y' = (if y' = y then Some s' else findSection ss y')"
  by (induction ss) (auto simp: section_pos_def split: if_splits)

lemma map_Y_update: "findSection ss y \<noteq> None \<Longrightarrow> cs_Y s' = y \<Longrightarrow>
    map cs_Y (ss[section_pos ss y := s']) = map cs_Y ss"
  by (induction ss) (auto simp: section_pos_def split: if_splits)

text \<open>In a list of sections at distinct heights the search finds the one section there.\<close>

lemma findSection_distinct:
  "distinct (map cs_Y ss) \<Longrightarrow> findSection ss y = Some s \<longleftrightarrow> s \<in> set ss \<and> cs_Y s = y"
  by (induction ss) auto

lemma findSection_same_set:
  assumes "distinct (map cs_Y ss)" "distinct (map cs_Y ts)" "set ss = set ts"
  shows "findSection ss y = findSection ts y"
proof (cases "findSection ss y")
  case None
  then have "findSection ts y = None" using assms(3) by (auto simp: findSection_None)
  with None show ?thesis by simp
next
  case (Some s)
  then have "findSection ts y = Some s" using assms by (metis findSection_distinct)
  with Some show ?thesis by simp
qed

definition empty_section :: "int \<Rightarrow> chunkSection" where
  "empty_section y = \<lparr>cs_Y = y, cs_BlockStateIDs = replicate (16 * 16 * 16) 0, cs_BiomeIDs = []\<rparr>"

lemma with_section_facts:
  assumes "sections_ok ss"
  shows "sections_ok (with_section ss y)" "findSection (with_section ss y) y \<noteq> None"
    "findSection (with_section ss y) y' = (if y' = y \<and> findSection ss y = None then Some (empty_section y) else findSection ss y')"
proof -
  let ?new = "sort_key cs_Y (ss @ [empty_section y])"
  have w: "with_section ss y = (if findSection ss y = None then ?new else ss)"
    by (simp add: with_section_def section_pos_None empty_section_def)
  have new: "distinct (map cs_Y ?new)" "distinct (map cs_Y (ss @ [empty_section y]))" if "findSection ss y = None"
  proof -
    show d: "distinct (map cs_Y (ss @ [empty_section y]))"
      using assms that by (auto simp: sections_ok_def findSection_None empty_section_def)
    then show "distinct (map cs_Y ?new)" by (simp only: distinct_map distinct_sort set_sort)
  qed
  have find: "findSection ?new y' = (if y' = y then Some (empty_section y) else findSection ss y')"
    if n: "findSection ss y = None" for y'
  proof -
    have "findSection ?new y' = findSection (ss @ [empty_section y]) y'"
      by (rule findSection_same_set [OF new [OF n]]) simp
    moreover have "findSection (ss @ [empty_section y]) y' = (case findSection ss y' of
        None \<Rightarrow> if y' = y then Some (empty_section y) else None | Some s \<Rightarrow> Some s)"
      by (induction ss) (auto simp: empty_section_def)
    ultimately show ?thesis using n by (auto split: option.split)
  qed
  show "sections_ok (with_section ss y)"
    using assms new unfolding w by (auto simp: sections_ok_def empty_section_def)
  show "findSection (with_section ss y) y \<noteq> None" using find [of y] unfolding w by auto
  show "findSection (with_section ss y) y' = (if y' = y \<and> findSection ss y = None then Some (empty_section y) else findSection ss y')"
    using find unfolding w by auto
qed

section \<open>Setting one block\<close>

definition sec_of :: "int \<times> int \<times> int \<Rightarrow> int \<times> int \<times> int" where
  "sec_of p = (case p of (x, y, z) \<Rightarrow> (x div 16, y div 16, z div 16))"

abbreviation blk :: "chunks \<Rightarrow> int \<times> int \<times> int \<Rightarrow> nat option" where
  "blk cs p \<equiv> block_at (\<lambda>a b. map_of cs (a, b)) (fst p) (fst (snd p)) (snd (snd p))"

definition nonneg :: "int \<times> int \<times> int \<Rightarrow> bool" where
  "nonneg p = (case p of (x, y, z) \<Rightarrow> 0 \<le> x \<and> 0 \<le> y \<and> 0 \<le> z)"

lemma setBlock_facts:
  assumes ok: "chunks_ok cs" and p: "nonneg (x, y, z)"
  shows "chunks_ok (setBlock cs x y z v) \<and> blk (setBlock cs x y z v) q
    = (if q = (x, y, z) then Some v
       else if sec_of q = sec_of (x, y, z) \<and> blk cs q = None then Some 0 else blk cs q)"
proof -
  let ?pos = "(x div 16, z div 16)" and ?Y = "y div 16"
  obtain x' y' z' where q: "q = (x', y', z')" by (cases q)
  define c0 where "c0 = (case map_of cs ?pos of Some c \<Rightarrow> c
      | None \<Rightarrow> \<lparr>ch_X = x div 16, ch_Z = z div 16, ch_MinY = 0, ch_Sections = []\<rparr>)"
  have c0: "ch_X c0 = x div 16" "ch_Z c0 = z div 16" "ch_MinY c0 = 0" "sections_ok (ch_Sections c0)"
    using ok by (auto simp: c0_def chunks_ok_def sections_ok_def split: option.split dest!: map_of_SomeD)
  have c0': "(case map_of cs ?pos of
             Some c \<Rightarrow> if ch_Sections c = [] then \<lparr>ch_X = x div 16, ch_Z = z div 16, ch_MinY = 0, ch_Sections = []\<rparr> else c
           | None \<Rightarrow> \<lparr>ch_X = x div 16, ch_Z = z div 16, ch_MinY = 0, ch_Sections = []\<rparr>) = c0"
    using ok by (auto simp: c0_def chunks_ok_def split: option.split dest!: map_of_SomeD)
  define ss where "ss = with_section (ch_Sections c0) ?Y"
  note ss = with_section_facts [OF c0(4), of ?Y, folded ss_def]
  define s where "s = ss ! section_pos ss ?Y"
  obtain s0 where s0: "findSection ss ?Y = Some s0" using ss(2) by auto
  have s: "findSection ss ?Y = Some s" "cs_Y s = ?Y" "length (cs_BlockStateIDs s) = 4096" "s \<in> set ss"
    using section_pos_Some [OF s0] findSection_Some [OF s0] s0 ss(1) by (auto simp: s_def sections_ok_def)
  define s' where "s' = s\<lparr>cs_BlockStateIDs := (cs_BlockStateIDs s)[local_index x y z := v]\<rparr>"
  have s': "cs_Y s' = ?Y" "length (cs_BlockStateIDs s') = 4096" using s by (simp_all add: s'_def)
  define ss' where "ss' = ss[section_pos ss ?Y := s']"
  have set: "setBlock cs x y z v = AList.update ?pos (c0\<lparr>ch_Sections := ss'\<rparr>) cs"
    using p by (simp add: setBlock_def Let_def floorDiv_16 nonneg_def sectionIndex_local c0' ss_def [symmetric]
        s_def [symmetric] s'_def ss'_def)
  have Y: "map cs_Y ss' = map cs_Y ss" unfolding ss'_def using ss(2) s'(1) by (rule map_Y_update)
  have "set ss' \<subseteq> insert s' (set ss)" unfolding ss'_def by (rule set_update_subset_insert)
  then have ok': "sections_ok ss'" using ss(1) s'(2) unfolding sections_ok_def Y by auto
  have "ss' \<noteq> []" using s(4) by (auto simp: ss'_def)
  have ok1: "chunks_ok (setBlock cs x y z v)"
  proof -
    have "set (AList.update ?pos (c0\<lparr>ch_Sections := ss'\<rparr>) cs) \<subseteq> insert (?pos, c0\<lparr>ch_Sections := ss'\<rparr>) (set cs)"
      by (induction cs) auto
    then show ?thesis using ok ok' c0 \<open>ss' \<noteq> []\<close> unfolding set chunks_ok_def
      by (auto simp: distinct_update)
  qed
  have old: "blk cs q = map_option (\<lambda>s. cs_BlockStateIDs s ! local_index x' y' z') (findSection (ch_Sections c0) (y' div 16))"
    if "(x' div 16, z' div 16) = ?pos"
    using that by (cases "map_of cs ?pos") (simp_all add: q block_at_def c0_def)
  have find: "findSection ss' Y = (if Y = ?Y then Some s' else findSection ss Y)" for Y
    unfolding ss'_def using ss(2) s'(1) by (rule findSection_update)
  have at': "blk (setBlock cs x y z v) q = (if (x' div 16, z' div 16) = ?pos
      then map_option (\<lambda>s. cs_BlockStateIDs s ! local_index x' y' z') (findSection ss' (y' div 16))
      else blk cs q)"
    unfolding set by (simp add: q block_at_def update_conv')
  have "blk (setBlock cs x y z v) q = (if q = (x, y, z) then Some v
       else if sec_of q = sec_of (x, y, z) \<and> blk cs q = None then Some 0 else blk cs q)"
  proof (cases "sec_of q = sec_of (x, y, z)")
    case True
    then have e: "x' div 16 = x div 16" "y' div 16 = ?Y" "z' div 16 = z div 16" by (auto simp: q sec_of_def)
    have l: "local_index x' y' z' = local_index x y z \<longleftrightarrow> q = (x, y, z)"
      unfolding q by (rule local_index_position [OF e])
    have a: "blk (setBlock cs x y z v) q = Some (cs_BlockStateIDs s' ! local_index x' y' z')"
      unfolding at' find using e by simp
    have "cs_BlockStateIDs s' ! local_index x' y' z' = (if q = (x, y, z) then v else cs_BlockStateIDs s ! local_index x' y' z')"
      using local_index_less s(3) l by (auto simp: s'_def nth_list_update)
    moreover have "cs_BlockStateIDs s ! local_index x' y' z' = (case blk cs q of None \<Rightarrow> 0 | Some b \<Rightarrow> b)"
      using old e ss(3) [of ?Y] s(1) local_index_less [of x' y' z']
      by (cases "findSection (ch_Sections c0) ?Y") (auto simp: empty_section_def)
    ultimately show ?thesis using a True by (auto split: option.split)
  next
    case False
    then have n: "q \<noteq> (x, y, z)" by auto
    show ?thesis
    proof (cases "(x' div 16, z' div 16) = ?pos")
      case True
      then have "y' div 16 \<noteq> ?Y" using False by (auto simp: q sec_of_def)
      then show ?thesis using at' True old find ss(3) False n by simp
    qed (use at' False n in auto)
  qed
  with ok1 show ?thesis by blast
qed

end
