(* ===== verification/Schematic_Load.thy ===== *)
theory Schematic_Load
  imports Schematic
begin

text \<open>
  What the schematic loader (\<open>world/schematic/load.go\<close>) builds: the loop over all positions, the
  palette and block data it reads, the world it returns and its one panic.
\<close>

section \<open>Placing all blocks\<close>

lemma place_blocks_ok:
  assumes "chunks_ok cs" "\<forall>p \<in> set ps. nonneg p"
    "\<forall>(x, y, z) \<in> set ps. 0 \<le> blockIndex x y z width len \<and> blockIndex x y z width len < int (length ids)
      \<and> unat (ids ! nat (blockIndex x y z width len)) < n"
  shows "\<exists>cs'. place_blocks ids n width len ps cs = Some (Inr cs') \<and> chunks_ok cs'
    \<and> (\<forall>q. blk cs' q =
        (if q \<in> set ps then Some (unat (ids ! nat (blockIndex (fst q) (fst (snd q)) (snd (snd q)) width len)))
         else if (\<exists>p \<in> set ps. sec_of q = sec_of p) \<and> blk cs q = None then Some 0 else blk cs q))"
  using assms
proof (induction ps arbitrary: cs)
  case (Cons p ps)
  obtain x y z where p: "p = (x, y, z)" by (cases p)
  let ?v = "unat (ids ! nat (blockIndex x y z width len))"
  let ?cs = "setBlock cs x y z ?v"
  have nn: "nonneg (x, y, z)" using Cons.prems(2) p by simp
  note set = setBlock_facts [OF Cons.prems(1) nn, of ?v]
  have ok: "chunks_ok ?cs" using set by blast
  obtain cs' where cs': "place_blocks ids n width len ps ?cs = Some (Inr cs')" "chunks_ok cs'"
    "\<forall>q. blk cs' q =
        (if q \<in> set ps then Some (unat (ids ! nat (blockIndex (fst q) (fst (snd q)) (snd (snd q)) width len)))
         else if (\<exists>p \<in> set ps. sec_of q = sec_of p) \<and> blk ?cs q = None then Some 0 else blk ?cs q)"
    using Cons.IH [OF ok] Cons.prems(2,3) by auto
  have "place_blocks ids n width len (p # ps) cs = Some (Inr cs')"
    using cs'(1) Cons.prems(3) p by (simp add: Let_def)
  moreover have "blk cs' q =
        (if q \<in> set (p # ps) then Some (unat (ids ! nat (blockIndex (fst q) (fst (snd q)) (snd (snd q)) width len)))
         else if (\<exists>p' \<in> set (p # ps). sec_of q = sec_of p') \<and> blk cs q = None then Some 0 else blk cs q)" for q
    using set [THEN conjunct2, of q] cs'(3) by (auto simp: p)
  ultimately show ?case using cs'(2) by blast
qed simp

text \<open>An id outside the palette stops the loop with an error.\<close>

lemma place_blocks_Inr:
  "place_blocks ids n width len ps cs = Some (Inr cs') \<Longrightarrow> (x, y, z) \<in> set ps \<Longrightarrow>
    0 \<le> blockIndex x y z width len \<and> blockIndex x y z width len < int (length ids)
      \<and> unat (ids ! nat (blockIndex x y z width len)) < n"
  by (induction ids n width len ps cs rule: place_blocks.induct) (auto simp: Let_def split: if_splits)

lemma set_positions: "set (positions w h l) = {(x, y, z). 0 \<le> x \<and> x < w \<and> 0 \<le> y \<and> y < h \<and> 0 \<le> z \<and> z < l}"
proof -
  have "set (positions w h l) = (\<Union>y \<in> {0..h - 1}. \<Union>z \<in> {0..l - 1}. (\<lambda>x. (x, y, z)) ` {0..w - 1})"
    by (simp add: positions_def)
  then show ?thesis by (auto simp: set_eq_iff image_iff)
qed

section \<open>Indices\<close>

lemma scaled_less: "0 \<le> a \<Longrightarrow> a < m \<Longrightarrow> 0 \<le> b \<Longrightarrow> b < k \<Longrightarrow> 0 \<le> a * k + b \<and> a * k + b < m * k" for a b k m :: int
proof -
  assume h: "0 \<le> a" "a < m" "0 \<le> b" "b < k"
  have "(a + 1) * k \<le> m * k" using h by (intro mult_right_mono) auto
  with h show ?thesis by (simp add: algebra_simps)
qed

lemma nonneg_int32: "0 \<le> v \<Longrightarrow> v < 2147483648 \<Longrightarrow> is_int32 v"
  by (simp add: is_int32_def)

lemma blockIndex_nowrap:
  assumes "0 \<le> x" "x < w" "0 \<le> y" "y < h" "0 \<le> z" "z < l" "w * h * l < 2147483648"
  shows "blockIndex x y z w l = (y * l + z) * w + x" "0 \<le> (y * l + z) * w + x" "(y * l + z) * w + x < w * h * l"
proof -
  let ?r = "y * l + z"
  have r: "0 \<le> ?r" "?r < h * l" using scaled_less [of y h z l] assms by auto
  have i: "0 \<le> ?r * w + x" "?r * w + x < (h * l) * w" using scaled_less [of ?r "h * l" x w] r assms by auto
  have "h * l * 1 \<le> h * l * w" using assms r by (intro mult_left_mono) auto
  then have hl: "h * l \<le> w * h * l" by (simp add: ac_simps)
  have e: "(h * l) * w = w * h * l" by (simp add: ac_simps)
  have "0 \<le> y * l" "y * l \<le> ?r" "0 \<le> ?r * w" "?r * w \<le> ?r * w + x" using assms r by auto
  with r i hl e assms(7) have "is_int32 (y * l)" "is_int32 ?r" "is_int32 (?r * w)" "is_int32 (?r * w + x)"
    by (auto intro!: nonneg_int32)
  then show "blockIndex x y z w l = ?r * w + x" by (simp add: blockIndex_def wrap32_id)
  show "0 \<le> ?r * w + x" "?r * w + x < w * h * l" using i e by simp_all
qed

lemma decode_ids_length: "decode_ids bs = Inr ids \<Longrightarrow> length ids \<le> length bs"
proof (induction bs arbitrary: ids rule: decode_ids.induct)
  case (1 bs)
  show ?case
  proof (cases "bs = []")
    case False
    with "1.prems" obtain v r ids' where r: "readSchematicVarInt bs = Inr (v, r)" "decode_ids r = Inr ids'" "ids = v # ids'"
      by (auto simp: decode_ids.simps [of bs] bindR_Inr_conv split: sum.splits)
    then have "length ids' \<le> length r" using "1.IH" [OF False r(1) refl] by simp
    with readSchematicVarInt_less [OF r(1)] r(3) show ?thesis by simp
  qed (use "1.prems" in \<open>simp add: decode_ids.simps\<close>)
qed

lemma nth_concat_uniform:
  "\<forall>xs \<in> set xss. length xs = k \<Longrightarrow> i < length xss \<Longrightarrow> j < k \<Longrightarrow> concat xss ! (i * k + j) = xss ! i ! j"
  by (induction xss arbitrary: i) (auto simp: nth_append nth_Cons split: nat.split)

lemma length_concat_uniform: "\<forall>xs \<in> set xss. length xs = k \<Longrightarrow> length (concat xss) = length xss * k"
  by (induction xss) auto

lemma length_positions: "0 \<le> w \<Longrightarrow> 0 \<le> h \<Longrightarrow> 0 \<le> l \<Longrightarrow> int (length (positions w h l)) = w * h * l"
proof -
  assume p: "0 \<le> w" "0 \<le> h" "0 \<le> l"
  have row: "length (concat (map (\<lambda>z. map (\<lambda>x. (x, y, z)) [0..w - 1]) [0..l - 1])) = nat l * nat w" for y :: int
    by (subst length_concat_uniform [where k = "nat w"]) auto
  have "length (positions w h l) = nat h * (nat l * nat w)"
    unfolding positions_def by (subst length_concat_uniform [where k = "nat l * nat w"]) (auto simp: row)
  with p show ?thesis by (simp add: ac_simps)
qed

lemma nth_positions:
  assumes "0 \<le> x" "x < w" "0 \<le> y" "y < h" "0 \<le> z" "z < l"
  shows "positions w h l ! nat ((y * l + z) * w + x) = (x, y, z)"
proof -
  let ?row = "\<lambda>y z. map (\<lambda>x. (x, y, z)) [0..w - 1]"
  let ?plane = "\<lambda>y. concat (map (?row y) [0..l - 1])"
  have lp: "length (?plane y) = nat l * nat w" for y
    by (subst length_concat_uniform [where k = "nat w"]) auto
  have "?plane y ! (nat z * nat w + nat x) = map (?row y) [0..l - 1] ! nat z ! nat x"
    using assms by (intro nth_concat_uniform) auto
  then have p: "?plane y ! (nat z * nat w + nat x) = (x, y, z)" using assms by simp
  have "nat z * nat w + nat x < nat l * nat w"
  proof -
    have "int (nat z * nat w + nat x) < int (nat l * nat w)" using assms scaled_less [of z l x w] by simp
    then show ?thesis by linarith
  qed
  then have "positions w h l ! (nat y * (nat l * nat w) + (nat z * nat w + nat x)) = map ?plane [0..h - 1] ! nat y ! (nat z * nat w + nat x)"
    unfolding positions_def using assms lp by (intro nth_concat_uniform) auto
  moreover have "map ?plane [0..h - 1] ! nat y = ?plane y" using assms by simp
  moreover have "nat ((y * l + z) * w + x) = nat y * (nat l * nat w) + (nat z * nat w + nat x)"
  proof -
    have "int (nat y * (nat l * nat w) + (nat z * nat w + nat x)) = (y * l + z) * w + x"
      using assms by (simp add: algebra_simps)
    then show ?thesis by linarith
  qed
  ultimately show ?thesis using p by simp
qed


section \<open>VarInts of block data\<close>

lemma readSchematicVarInt_loop_wire:
  "readVarInt_loop shift v s = Inr (x, s') \<Longrightarrow> readSchematicVarInt_loop shift v (flat s) = Inr (x, flat s')"
proof (induction shift v s rule: readVarInt_loop.induct)
  case (1 shift v s)
  have sh: "shift < 35" by (rule ccontr) (use "1.prems" in \<open>simp add: readVarInt_loop.simps [of shift]\<close>)
  have "flat s \<noteq> []" using "1.prems" sh by (auto simp: readVarInt_loop.simps [of shift v s] readByte_Nil)
  then obtain b r where f: "flat s = b # r" by (cases "flat s") auto
  then have rb: "readByte s = Inr (b, advance 1 s)" "flat (advance 1 s) = r" using readByte_advance [OF f] by simp_all
  show ?case
    using "1.prems" sh rb "1.IH" [OF sh rb(1) refl refl]
    by (auto simp: readVarInt_loop.simps [of shift v s] readSchematicVarInt_loop.simps [of shift v] f Let_def
        split: if_splits)
qed

lemma readSchematicVarInt_write: "readSchematicVarInt (writeVarInt_loop u @ rest) = Inr (u, rest)"
proof -
  have "readVarInt_loop 0 0 (bytes_reader (writeVarInt_loop u @ rest))
      = Inr (0 OR push_bit 0 u, advance (length (writeVarInt_loop u)) (bytes_reader (writeVarInt_loop u @ rest)))"
    using unat_less_32 [of u] by (intro readVarInt_loop_write) simp_all
  from readSchematicVarInt_loop_wire [OF this] show ?thesis by (simp add: readSchematicVarInt_def)
qed

lemma decode_ids_write: "decode_ids (concat (map writeVarInt_loop us)) = Inr us"
proof (induction us)
  case (Cons u us)
  have "writeVarInt_loop u \<noteq> []" by (subst writeVarInt_loop.simps) simp
  with Cons show ?case by (simp add: decode_ids.simps [of "writeVarInt_loop u @ _"] readSchematicVarInt_write)
qed (simp add: decode_ids.simps)

lemma decodeBlockData_write:
  "decodeBlockData (concat (map writeVarInt_loop us)) (int (length us)) = Inr us"
  by (simp add: decodeBlockData_def decode_ids_write)

section \<open>Palettes\<close>

lemma max_palette_id:
  "max_palette_id m xs = (if \<forall>i \<in> set (map snd xs). 0 \<le> i then Inr (Max (insert m (set (map snd xs))))
     else Inl (Wrapf ErrInvalidSchematic ''%w: negative palette id %d'' [FD (the (List.find (\<lambda>i. i < 0) (map snd xs)))]))"
proof (induction m xs rule: max_palette_id.induct)
  case (2 m r i xs)
  have "Max (insert m (insert i A)) = Max (insert (if m < i then i else m) A)" if "finite A" for A
  proof (cases "A = {}")
    case False
    then show ?thesis using that by (simp add: Max_insert max_def)
  qed (simp add: max_def)
  with 2 show ?case by auto
qed simp

lemma parseBlockState_named: "bs_Name (parseBlockState raw) \<noteq> ''''"
proof -
  have n: "(if containsByte n (CHR '':'') then n else ''minecraft:'' @ n) \<noteq> ''''" for n
    by (auto simp: containsByte_def)
  show ?thesis unfolding parseBlockState_def Let_def case_prod_beta blockState.simps by (rule n)
qed

lemma length_fill_palette [simp]: "length (fill_palette xs p) = length p"
  unfolding fill_palette_def by (induction xs arbitrary: p) auto

lemma nth_fill_palette:
  "i < length p \<Longrightarrow> fill_palette xs p ! i = (case List.find (\<lambda>x. nat (snd x) = i) (rev xs) of
      None \<Rightarrow> p ! i | Some (raw, _) \<Rightarrow> parseBlockState raw)"
proof (induction xs rule: rev_induct)
  case (snoc y xs)
  obtain raw j where y: "y = (raw, j)" by (cases y)
  have "fill_palette (xs @ [y]) p = (fill_palette xs p)[nat j := parseBlockState raw]"
    by (simp add: fill_palette_def y)
  with snoc show ?case by (simp add: y nth_list_update)
qed (simp add: fill_palette_def)

lemma find_first: "List.find P xs = Some x \<Longrightarrow> x \<in> set xs \<and> P x"
  by (induction xs) (auto split: if_splits)

lemma decodePalette_ids:
  assumes "set (map snd input) = {0..<int n}" "0 < n" "n < 2147483648"
  shows "\<exists>palette. decodePalette input = Some (Inr palette) \<and> length palette = n
    \<and> (\<forall>i < n. \<exists>raw. (raw, int i) \<in> set input \<and> palette ! i = parseBlockState raw)"
proof -
  let ?p = "fill_palette input (replicate n zero_state)"
  have "Max (insert (- 1) {0..<int n}) = int n - 1"
    using assms(2) by (intro Max_eqI) auto
  then have m: "max_palette_id (- 1) input = Inr (int n - 1)"
    using assms(1) by (simp only: max_palette_id) auto
  have nw: "wrap32 (int n) = int n" using assms(3) by (simp add: wrap32_id nonneg_int32)
  have at: "\<exists>raw. (raw, int i) \<in> set input \<and> ?p ! i = parseBlockState raw" if i: "i < n" for i
  proof -
    have "int i \<in> set (map snd input)" using assms(1) i by simp
    then obtain raw0 where raw0: "(raw0, int i) \<in> set input" by auto
    then have "List.find (\<lambda>x. nat (snd x) = i) (rev input) \<noteq> None" unfolding find_None_iff by force
    then obtain raw j where f: "List.find (\<lambda>x. nat (snd x) = i) (rev input) = Some (raw, j)" by auto
    then have "(raw, j) \<in> set input" "nat j = i" using find_first [OF f] by auto
    moreover have "0 \<le> j" using calculation(1) assms(1) by force
    ultimately show ?thesis using nth_fill_palette [of i "replicate n zero_state" input] f i by auto
  qed
  then have "List.find (\<lambda>i. bs_Name (?p ! i) = '''') [0..<length ?p] = None"
    using parseBlockState_named by (fastforce simp: find_None_iff)
  then have "decodePalette input = Some (Inr ?p)"
    using m nw by (simp add: decodePalette_def Let_def)
  with at show ?thesis by auto
qed

text \<open>The one way \<open>decodePalette\<close> panics.\<close>

lemma decodePalette_None:
  assumes "\<forall>i \<in> set (map snd input). is_int32 i"
  shows "decodePalette input = None \<longleftrightarrow> (\<forall>i \<in> set (map snd input). 0 \<le> i) \<and> 2147483647 \<in> set (map snd input)"
proof (cases "\<forall>i \<in> set (map snd input). 0 \<le> i")
  case True
  define M where "M = Max (insert (- 1) (set (map snd input)))"
  have M: "M \<in> insert (- 1) (set (map snd input))" "\<forall>i \<in> set (map snd input). i \<le> M" "- 1 \<le> M"
    using Max_in [of "insert (- 1) (set (map snd input))"] unfolding M_def by auto
  then have b: "M \<le> 2147483647" using assms by (auto simp: is_int32_def)
  have w: "wrap32 (M + 1) < 0 \<longleftrightarrow> M = 2147483647"
  proof (cases "M = 2147483647")
    case True
    have "wrap32 (2147483647 + 1) < 0" by code_simp
    with True show ?thesis by simp
  next
    case False
    then have "wrap32 (M + 1) = M + 1" using b M(3) by (intro wrap32_id nonneg_int32) auto
    with M(3) False show ?thesis by simp
  qed
  have e: "M = 2147483647 \<longleftrightarrow> 2147483647 \<in> set (map snd input)"
  proof
    show "M = 2147483647 \<Longrightarrow> 2147483647 \<in> set (map snd input)" using M(1) by simp
  qed (use M(2) b in \<open>metis order_antisym\<close>)
  have "max_palette_id (- 1) input = Inr M" using True by (simp add: max_palette_id M_def)
  then show ?thesis using True w e by (simp add: decodePalette_def Let_def split: option.split)
qed (auto simp: decodePalette_def max_palette_id)


section \<open>Loaded worlds\<close>

definition in_box :: "int \<Rightarrow> int \<Rightarrow> int \<Rightarrow> int \<times> int \<times> int \<Rightarrow> bool" where
  "in_box w h l q = (case q of (x, y, z) \<Rightarrow> 0 \<le> x \<and> x < w \<and> 0 \<le> y \<and> y < h \<and> 0 \<le> z \<and> z < l)"

lemma section_hit: "0 < w \<Longrightarrow> (\<exists>x'. 0 \<le> x' \<and> x' < w \<and> x div 16 = x' div 16) \<longleftrightarrow> 0 \<le> x div 16 \<and> x div 16 \<le> (w - 1) div 16"
  for x w :: int
proof
  assume w: "0 < w" and "\<exists>x'. 0 \<le> x' \<and> x' < w \<and> x div 16 = x' div 16"
  then obtain x' where x': "0 \<le> x'" "x' \<le> w - 1" "x div 16 = x' div 16" by auto
  then show "0 \<le> x div 16 \<and> x div 16 \<le> (w - 1) div 16" using zdiv_mono1 [of x' "w - 1" 16] by simp
next
  assume w: "0 < w" and x: "0 \<le> x div 16 \<and> x div 16 \<le> (w - 1) div 16"
  have "(w - 1) div 16 * 16 \<le> w - 1" using div_mult_mod_eq [of "w - 1" 16] pos_mod_sign [of 16 "w - 1"] by linarith
  then have "x div 16 * 16 < w" using x by linarith
  then show "\<exists>x'. 0 \<le> x' \<and> x' < w \<and> x div 16 = x' div 16" using x by (intro exI [of _ "x div 16 * 16"]) simp
qed

lemma sections_hit: "0 < w \<Longrightarrow> 0 < h \<Longrightarrow> 0 < l \<Longrightarrow>
    (\<exists>p \<in> set (positions w h l). sec_of q = sec_of p) \<longleftrightarrow>
    in_box ((w - 1) div 16 + 1) ((h - 1) div 16 + 1) ((l - 1) div 16 + 1) (sec_of q)"
proof -
  assume p: "0 < w" "0 < h" "0 < l"
  obtain x y z where q: "q = (x, y, z)" by (cases q)
  have "(\<exists>p \<in> set (positions w h l). sec_of q = sec_of p) \<longleftrightarrow>
    (\<exists>x'. 0 \<le> x' \<and> x' < w \<and> x div 16 = x' div 16) \<and> (\<exists>y'. 0 \<le> y' \<and> y' < h \<and> y div 16 = y' div 16)
    \<and> (\<exists>z'. 0 \<le> z' \<and> z' < l \<and> z div 16 = z' div 16)"
    unfolding set_positions by (auto simp: q sec_of_def)
  then show ?thesis unfolding section_hit [OF p(1)] section_hit [OF p(2)] section_hit [OF p(3)]
    by (simp add: q sec_of_def in_box_def)
qed

lemma buildWorld_blocks:
  assumes "buildWorld data opts = Some (Inr w)" "length (sg_BlockData data) < 2147483648"
    "W = sg_Width data" "H = sg_Height data" "L = sg_Length data"
  shows "\<exists>ids. decodeBlockData (sg_BlockData data) (W * H * L) = Inr ids
    \<and> (\<forall>x y z. block_at (w_Chunk (memory_world w)) x y z =
        (if in_box W H L (x, y, z) then Some (unat (ids ! nat ((y * L + z) * W + x)))
         else if in_box ((W - 1) div 16 + 1) ((H - 1) div 16 + 1) ((L - 1) div 16 + 1) (x div 16, y div 16, z div 16)
         then Some 0 else None))
    \<and> (\<forall>x y z. in_box W H L (x, y, z) \<longrightarrow> unat (ids ! nat ((y * L + z) * W + x)) < length (mw_Palette w))"
proof -
  have d: "0 < W" "0 < H" "0 < L" using assms by (auto simp: buildWorld_def split: if_splits)
  from assms(1) d obtain palette ids cs where b: "decodeBlockData (sg_BlockData data) (W * H * L) = Inr ids"
    "place_blocks ids (length palette) W L (positions W H L) [] = Some (Inr cs)"
    "mw_Palette w = palette" "mw_Chunks w = cs"
    unfolding buildWorld_def assms(3-5) by (auto simp: Let_def split: if_splits option.splits sum.splits)
  have n: "int (length ids) = W * H * L" "decode_ids (sg_BlockData data) = Inr ids"
    using b(1) by (auto simp: decodeBlockData_def bindR_Inr_conv split: if_splits)
  with decode_ids_length [OF n(2)] assms(2) have small: "W * H * L < 2147483648" by linarith
  have idx: "blockIndex x y z W L = (y * L + z) * W + x" if "in_box W H L (x, y, z)" for x y z
    using that small by (intro blockIndex_nowrap) (auto simp: in_box_def)
  have ps: "p \<in> set (positions W H L) \<longleftrightarrow> in_box W H L p" for p by (cases p) (simp add: set_positions in_box_def)
  have "chunks_ok []" by (simp add: chunks_ok_def)
  moreover have "\<forall>p \<in> set (positions W H L). nonneg p" by (auto simp: ps in_box_def nonneg_def)
  moreover have inr: "0 \<le> blockIndex x y z W L \<and> blockIndex x y z W L < int (length ids)
      \<and> unat (ids ! nat (blockIndex x y z W L)) < length palette" if "in_box W H L (x, y, z)" for x y z
    using place_blocks_Inr [OF b(2)] that ps by blast
  moreover from this have "\<forall>(x, y, z) \<in> set (positions W H L). 0 \<le> blockIndex x y z W L
      \<and> blockIndex x y z W L < int (length ids) \<and> unat (ids ! nat (blockIndex x y z W L)) < length palette"
    using ps by fastforce
  moreover have "block_at (\<lambda>a b. None) x y z = None" for x y z by (simp add: block_at_def)
  ultimately have blk: "\<forall>q. blk cs q = (if in_box W H L q
         then Some (unat (ids ! nat (blockIndex (fst q) (fst (snd q)) (snd (snd q)) W L)))
       else if \<exists>p \<in> set (positions W H L). sec_of q = sec_of p then Some 0 else None)"
    using place_blocks_ok [of "[]" "positions W H L" W L ids "length palette"] b(2) unfolding ps by simp
  have at: "block_at (w_Chunk (memory_world w)) x y z = blk cs (x, y, z)" for x y z
    by (simp add: memory_world_def b(4))
  have "blk cs (x, y, z) = (if in_box W H L (x, y, z) then Some (unat (ids ! nat ((y * L + z) * W + x)))
      else if in_box ((W - 1) div 16 + 1) ((H - 1) div 16 + 1) ((L - 1) div 16 + 1) (x div 16, y div 16, z div 16)
      then Some 0 else None)" for x y z
    using blk [rule_format, of "(x, y, z)"] idx [of x y z] unfolding sections_hit [OF d] by (simp add: sec_of_def)
  then show ?thesis using b(1,3) inr idx unfolding at by metis
qed

lemma buildWorld_written:
  assumes "0 < W" "0 < H" "0 < L" "set (map snd input) = {0..<int n}" "n < 2147483648"
    "\<forall>p \<in> set (positions W H L). f p < n" "sg_Width data = W" "sg_Height data = H" "sg_Length data = L"
    "sg_Palette data = input" "sg_BlockData data = concat (map (\<lambda>p. writeVarInt (int (f p))) (positions W H L))"
    "length (sg_BlockData data) < 2147483648"
  shows "\<exists>w. buildWorld data opts = Some (Inr w) \<and>
    (\<forall>x y z. in_box W H L (x, y, z) \<longrightarrow> block_at (w_Chunk (memory_world w)) x y z = Some (f (x, y, z))
       \<and> (\<exists>raw. (raw, int (f (x, y, z))) \<in> set input \<and> mw_Palette w ! f (x, y, z) = parseBlockState raw))"
proof -
  let ?ids = "map (\<lambda>p. word_of_int (int (f p)) :: 32 word) (positions W H L)"
  have "(0, 0, 0) \<in> set (positions W H L)" using assms(1-3) by (simp add: set_positions)
  with assms(6) have n: "0 < n" by fastforce
  then have ne: "input \<noteq> []" using assms(4) by auto
  obtain palette where p: "decodePalette input = Some (Inr palette)" "length palette = n"
    "\<forall>i < n. \<exists>raw. (raw, int i) \<in> set input \<and> palette ! i = parseBlockState raw"
    using decodePalette_ids [OF assms(4) n assms(5)] by blast
  have len: "int (length ?ids) = W * H * L" using length_positions [of W H L] assms by simp
  have "concat (map (\<lambda>p. writeVarInt (int (f p))) (positions W H L)) = concat (map writeVarInt_loop ?ids)"
    by (simp add: writeVarInt_def comp_def)
  then have dec: "decodeBlockData (sg_BlockData data) (W * H * L) = Inr ?ids"
    using decodeBlockData_write [of ?ids] len assms(11) by simp
  have "length ?ids \<le> length (sg_BlockData data)"
    using dec decode_ids_length [of "sg_BlockData data" ?ids] by (auto simp: decodeBlockData_def bindR_Inr_conv split: if_splits)
  with len assms(12) have small: "W * H * L < 2147483648" by linarith
  have id: "blockIndex x y z W L = (y * L + z) * W + x" "0 \<le> (y * L + z) * W + x" "(y * L + z) * W + x < W * H * L"
    "unat (?ids ! nat ((y * L + z) * W + x)) = f (x, y, z)" if "(x, y, z) \<in> set (positions W H L)" for x y z
  proof -
    have q: "0 \<le> x" "x < W" "0 \<le> y" "y < H" "0 \<le> z" "z < L" using that by (auto simp: set_positions)
    from blockIndex_nowrap [OF q small] show i: "blockIndex x y z W L = (y * L + z) * W + x"
      "0 \<le> (y * L + z) * W + x" "(y * L + z) * W + x < W * H * L" by simp_all
    have "f (x, y, z) < 2 ^ 32" using assms(5,6) that by fastforce
    moreover have "nat ((y * L + z) * W + x) < length (positions W H L)" using i(2,3) len by simp
    ultimately show "unat (?ids ! nat ((y * L + z) * W + x)) = f (x, y, z)"
      using nth_positions [OF q] by (simp add: unat_of_nat)
  qed
  have b: "\<forall>(x, y, z) \<in> set (positions W H L). 0 \<le> blockIndex x y z W L \<and> blockIndex x y z W L < int (length ?ids)
      \<and> unat (?ids ! nat (blockIndex x y z W L)) < length palette"
    using id assms(6) len p(2) by fastforce
  have "\<forall>q \<in> set (positions W H L). nonneg q" by (auto simp: set_positions nonneg_def)
  then obtain cs where "place_blocks ?ids (length palette) W L (positions W H L) [] = Some (Inr cs)"
    using place_blocks_ok [of "[]" _ W L ?ids "length palette", OF _ _ b] by (auto simp: chunks_ok_def)
  then obtain w where w: "buildWorld data opts = Some (Inr w)" "mw_Palette w = palette"
    using assms p(1) dec ne by (auto simp: buildWorld_def Let_def)
  from buildWorld_blocks [OF w(1) assms(12) assms(7-9) [symmetric]] dec
  have "block_at (w_Chunk (memory_world w)) x y z = Some (unat (?ids ! nat ((y * L + z) * W + x)))"
    if "in_box W H L (x, y, z)" for x y z using that by simp
  moreover have "(x, y, z) \<in> set (positions W H L)" if "in_box W H L (x, y, z)" for x y z
    using that by (simp add: set_positions in_box_def)
  ultimately show ?thesis using w id(4) p(3) assms(6) by fastforce
qed


lemma place_blocks_no_panic:
  "\<forall>(x, y, z) \<in> set ps. 0 \<le> blockIndex x y z width len \<and> blockIndex x y z width len < int (length ids) \<Longrightarrow>
    place_blocks ids n width len ps cs \<noteq> None"
  by (induction ids n width len ps cs rule: place_blocks.induct) (auto simp: Let_def)

text \<open>Whatever the input, loading returns, except for one palette.\<close>

lemma buildWorld_panics:
  assumes "\<forall>i \<in> set (map snd (sg_Palette data)). is_int32 i" "length (sg_BlockData data) < 2147483648"
  shows "buildWorld data opts = None \<longleftrightarrow> 0 < sg_Width data \<and> 0 < sg_Height data \<and> 0 < sg_Length data
    \<and> (\<forall>i \<in> set (map snd (sg_Palette data)). 0 \<le> i) \<and> 2147483647 \<in> set (map snd (sg_Palette data))"
proof -
  let ?W = "sg_Width data" and ?H = "sg_Height data" and ?L = "sg_Length data"
  have "place_blocks ids n ?W ?L (positions ?W ?H ?L) [] \<noteq> None"
    if "decodeBlockData (sg_BlockData data) (?W * ?H * ?L) = Inr ids" for ids n
  proof -
    have n: "int (length ids) = ?W * ?H * ?L" "decode_ids (sg_BlockData data) = Inr ids"
      using that by (auto simp: decodeBlockData_def bindR_Inr_conv split: if_splits)
    with decode_ids_length [OF n(2)] assms(2) have small: "?W * ?H * ?L < 2147483648" by linarith
    have "0 \<le> blockIndex x y z ?W ?L \<and> blockIndex x y z ?W ?L < int (length ids)"
      if "(x, y, z) \<in> set (positions ?W ?H ?L)" for x y z
    proof -
      have q: "0 \<le> x" "x < ?W" "0 \<le> y" "y < ?H" "0 \<le> z" "z < ?L" using that by (auto simp: set_positions)
      from blockIndex_nowrap [OF q small] show ?thesis by (simp add: n(1))
    qed
    then show ?thesis by (intro place_blocks_no_panic) auto
  qed
  note places = this
  have "buildWorld data opts = None \<longleftrightarrow> 0 < ?W \<and> 0 < ?H \<and> 0 < ?L \<and> sg_Palette data \<noteq> []
      \<and> decodePalette (sg_Palette data) = None"
  proof (cases "decodePalette (sg_Palette data)")
    case (Some r)
    show ?thesis
    proof (cases r)
      case (Inr palette)
      show ?thesis
      proof (cases "decodeBlockData (sg_BlockData data) (?W * ?H * ?L)")
        case (Inr ids)
        from places [OF Inr, of "length palette"] obtain r' where
          "place_blocks ids (length palette) ?W ?L (positions ?W ?H ?L) [] = Some r'" by blast
        then show ?thesis using Some Inr \<open>r = Inr palette\<close> by (simp add: buildWorld_def Let_def split: sum.split)
      qed (simp add: Some Inr buildWorld_def)
    qed (simp add: Some buildWorld_def)
  qed (auto simp: buildWorld_def)
  moreover have "2147483647 \<in> set (map snd (sg_Palette data)) \<Longrightarrow> sg_Palette data \<noteq> []" by auto
  ultimately show ?thesis unfolding decodePalette_None [OF assms(1)] by blast
qed

end
