(* ===== verification/Config.thy ===== *)
theory Config
  imports World Rate_Limit Status Proxy_Protocol
begin

text \<open>
  The deployment configuration (\<open>config.go\<close>): the JSON shapes as records, the defaults
  \<open>LoadFileConfig\<close> fills in, and the API values derived from them. Reading the file and decoding
  its JSON are parameters; durations are nanoseconds.
\<close>

record fileAuthConfig =
  fa_Mode :: string
  fa_YggdrasilBaseURL :: string
  fa_OnlineServerID :: string

record fileProxyProtocolConfig =
  fp_Enabled :: bool
  fp_Required :: bool
  fp_TrustedProxies :: "string list"
  fp_RestrictTrustedProxies :: bool
  fp_ReadHeaderTimeoutMillis :: int

record fileStatusRateLimitConfig =
  fr_Enabled :: "bool option"
  fr_Requests :: int
  fr_WindowMillis :: int

record fileStatusConfig =
  fs_Description :: string
  fs_MOTD :: string
  fs_MOTDMiniMessage :: string
  fs_VersionName :: string
  fs_VersionProtocol :: int
  fs_MaxPlayers :: int
  fs_OnlinePlayers :: int
  fs_SamplePlayers :: "statusSamplePlayer list"
  fs_HidePlayers :: bool
  fs_Favicon :: string
  fs_EnforcesSecureChat :: "bool option"
  fs_PreviewsChat :: "bool option"
  fs_PreventsChatReports :: "bool option"
  fs_RateLimit :: fileStatusRateLimitConfig

record dimensionConfig =
  dc_Environment :: string
  dc_Name :: string
  dc_MinY :: "int option"
  dc_Height :: "int option"
  dc_LogicalHeight :: "int option"
  dc_Natural :: "bool option"
  dc_HasSkylight :: "bool option"
  dc_HasCeiling :: "bool option"
  dc_UltraWarm :: "bool option"
  dc_AmbientLight :: "f32 option"
  dc_FixedTime :: "int option"
  dc_TimeOfDay :: "int option"
  dc_WorldAge :: "int option"
  dc_CoordinateScale :: "f64 option"
  dc_Effects :: string

record fileConfig =
  fc_Listen :: string
  fc_Status :: fileStatusConfig
  fc_Auth :: fileAuthConfig
  fc_ProxyProtocol :: fileProxyProtocolConfig
  fc_ModernProtocols :: string
  fc_RegistryData :: string
  fc_WorldID :: string
  fc_Schematic :: string
  fc_Dimension :: dimensionConfig
  fc_SpawnWorld :: string
  fc_SpawnPos :: vec3
  fc_SpawnLook :: rotation
  fc_SpawnMode :: int

section \<open>Loading\<close>

text \<open>Floats compare by value: both zeros are zero.\<close>

definition f32_is_0 :: "f32 \<Rightarrow> bool" where
  "f32_is_0 w \<longleftrightarrow> w = 0 \<or> w = 0x80000000"

definition spawn_unset :: "fileConfig \<Rightarrow> bool" where
  "spawn_unset cfg \<longleftrightarrow> f64_is_0 (v_X (fc_SpawnPos cfg)) \<and> f64_is_0 (v_Y (fc_SpawnPos cfg)) \<and> f64_is_0 (v_Z (fc_SpawnPos cfg))
     \<and> f32_is_0 (rot_Yaw (fc_SpawnLook cfg)) \<and> f32_is_0 (rot_Pitch (fc_SpawnLook cfg)) \<and> fc_SpawnMode cfg = 0"

definition default_listen :: "fileConfig \<Rightarrow> fileConfig" where
  "default_listen c = (if fc_Listen c = '''' then c\<lparr>fc_Listen := '':25565''\<rparr> else c)"

definition default_description :: "fileConfig \<Rightarrow> fileConfig" where
  "default_description c = (if fs_Description (fc_Status c) = ''''
     then c\<lparr>fc_Status := (fc_Status c)\<lparr>fs_Description := ''limbgo''\<rparr>\<rparr> else c)"

definition default_maxPlayers :: "fileConfig \<Rightarrow> fileConfig" where
  "default_maxPlayers c = (if fs_MaxPlayers (fc_Status c) \<le> 0
     then c\<lparr>fc_Status := (fc_Status c)\<lparr>fs_MaxPlayers := 1\<rparr>\<rparr> else c)"

definition default_worldID :: "fileConfig \<Rightarrow> fileConfig" where
  "default_worldID c = (if fc_WorldID c = '''' then c\<lparr>fc_WorldID := ''default''\<rparr> else c)"

definition default_spawnWorld :: "fileConfig \<Rightarrow> fileConfig" where
  "default_spawnWorld c = (if fc_SpawnWorld c = '''' then c\<lparr>fc_SpawnWorld := fc_WorldID c\<rparr> else c)"

definition default_spawn :: "fileConfig \<Rightarrow> fileConfig" where
  "default_spawn c = (if fc_Schematic c = '''' \<and> spawn_unset c then
       (let spawn = defaultSpawn (fc_WorldID c) in
        c\<lparr>fc_SpawnWorld := sp_World spawn, fc_SpawnPos := sp_Position spawn,
          fc_SpawnLook := sp_Rotation spawn, fc_SpawnMode := sp_GameMode spawn\<rparr>)
     else c)"

definition config_defaults :: "fileConfig \<Rightarrow> fileConfig" where
  "config_defaults c = default_spawn (default_spawnWorld (default_worldID (default_maxPlayers
     (default_description (default_listen c)))))"

lemmas default_defs = default_listen_def default_description_def default_maxPlayers_def default_worldID_def
  default_spawnWorld_def

definition LoadFileConfig :: "(string \<Rightarrow> byte list result) \<Rightarrow> (byte list \<Rightarrow> fileConfig result) \<Rightarrow> string \<Rightarrow> fileConfig result" where
  "LoadFileConfig readFile unmarshal file =
    bindR (readFile file) (\<lambda>data. bindR (unmarshal data) (\<lambda>cfg. Inr (config_defaults cfg)))"

section \<open>API values\<close>

text \<open>The MiniMessage parser is a parameter here.\<close>

definition config_Component :: "(string \<Rightarrow> component result) \<Rightarrow> fileStatusConfig \<Rightarrow> component result" where
  "config_Component parse cfg =
    (if fs_MOTDMiniMessage cfg \<noteq> '''' then parse (fs_MOTDMiniMessage cfg)
     else if fs_MOTD cfg \<noteq> '''' then Inr (TextC (fs_MOTD cfg))
     else if fs_Description cfg \<noteq> '''' then Inr (TextC (fs_Description cfg))
     else Inr (TextC ''limbgo''))"

definition config_Options :: "fileStatusConfig \<Rightarrow> component option \<Rightarrow> statusOptions" where
  "config_Options cfg description =
    \<lparr>so_VersionName = fs_VersionName cfg, so_Protocol = fs_VersionProtocol cfg, so_Description = description,
     so_MaxPlayers = fs_MaxPlayers cfg, so_OnlinePlayers = fs_OnlinePlayers cfg,
     so_SamplePlayers = fs_SamplePlayers cfg, so_HidePlayers = fs_HidePlayers cfg, so_Favicon = fs_Favicon cfg,
     so_EnforcesSecureChat = fs_EnforcesSecureChat cfg, so_PreviewsChat = fs_PreviewsChat cfg,
     so_PreventsChatReports = fs_PreventsChatReports cfg, so_Raw = []\<rparr>"

definition millis :: "int \<Rightarrow> int" where
  "millis n = wrap64 (n * 1000000)"

definition config_RateLimiter :: "fileStatusRateLimitConfig \<Rightarrow> rateLimiter option" where
  "config_RateLimiter cfg =
    (if fr_Enabled cfg = Some False then None
     else Some (newRateLimiter \<lparr>cfg_requests = fr_Requests cfg, cfg_window = millis (fr_WindowMillis cfg)\<rparr>))"

definition config_ProxyProtocol :: "fileProxyProtocolConfig \<Rightarrow> proxyProtocolConfig" where
  "config_ProxyProtocol cfg =
    \<lparr>px_Enabled = (fp_Enabled cfg \<or> fp_Required cfg), px_Required = fp_Required cfg,
     px_TrustedProxies = fp_TrustedProxies cfg, px_RestrictTrustedProxies = fp_RestrictTrustedProxies cfg,
     px_ReadHeaderTimeout = millis (fp_ReadHeaderTimeoutMillis cfg)\<rparr>"

definition config_SpawnTarget :: "fileConfig \<Rightarrow> spawnTarget" where
  "config_SpawnTarget cfg =
    \<lparr>sp_World = fc_SpawnWorld cfg, sp_Position = fc_SpawnPos cfg, sp_Rotation = fc_SpawnLook cfg,
     sp_GameMode = fc_SpawnMode cfg\<rparr>"

text \<open>A field of the preset is replaced when the configuration has one.\<close>

definition override :: "'a option \<Rightarrow> ('a \<Rightarrow> dimension \<Rightarrow> dimension) \<Rightarrow> dimension \<Rightarrow> dimension" where
  "override opt f d = (case opt of None \<Rightarrow> d | Some v \<Rightarrow> f v d)"

definition override_text :: "string \<Rightarrow> (string \<Rightarrow> dimension \<Rightarrow> dimension) \<Rightarrow> dimension \<Rightarrow> dimension" where
  "override_text s f d = (if s \<noteq> '''' then f s d else d)"

definition config_env :: "dimensionConfig \<Rightarrow> string" where
  "config_env cfg = (if dc_Environment cfg = '''' then inferDimensionEnvironment (dc_Name cfg) else dc_Environment cfg)"

definition config_fields :: "dimensionConfig \<Rightarrow> dimension \<Rightarrow> dimension" where
  "config_fields cfg d =
    override_text (dc_Effects cfg) (\<lambda>v d. d\<lparr>dm_Effects := v\<rparr>)
    (override (dc_CoordinateScale cfg) (\<lambda>v d. d\<lparr>dm_CoordinateScale := v\<rparr>)
    (override (dc_WorldAge cfg) (\<lambda>v d. d\<lparr>dm_WorldAge := v\<rparr>)
    (override (dc_TimeOfDay cfg) (\<lambda>v d. d\<lparr>dm_TimeOfDay := Some v\<rparr>)
    (override (dc_FixedTime cfg) (\<lambda>v d. d\<lparr>dm_FixedTime := Some v\<rparr>)
    (override (dc_AmbientLight cfg) (\<lambda>v d. d\<lparr>dm_AmbientLight := v\<rparr>)
    (override (dc_UltraWarm cfg) (\<lambda>v d. d\<lparr>dm_UltraWarm := v\<rparr>)
    (override (dc_HasCeiling cfg) (\<lambda>v d. d\<lparr>dm_HasCeiling := v\<rparr>)
    (override (dc_HasSkylight cfg) (\<lambda>v d. d\<lparr>dm_HasSkylight := v\<rparr>)
    (override (dc_Natural cfg) (\<lambda>v d. d\<lparr>dm_Natural := v\<rparr>)
    (override (dc_LogicalHeight cfg) (\<lambda>v d. d\<lparr>dm_LogicalHeight := v\<rparr>)
    (override (dc_Height cfg) (\<lambda>v d. d\<lparr>dm_Height := normalizeDimensionHeight v\<rparr>)
    (override (dc_MinY cfg) (\<lambda>v d. d\<lparr>dm_MinY := v\<rparr>)
    (override_text (dc_Name cfg) (\<lambda>v d. d\<lparr>dm_Name := v\<rparr>) d)))))))))))))"

definition dimensionConfig_Dimension :: "dimensionConfig \<Rightarrow> int \<Rightarrow> dimension" where
  "dimensionConfig_Dimension cfg schematicHeight =
    normalizeDimension (config_fields cfg (dimensionPreset (config_env cfg) schematicHeight)) schematicHeight"

definition fileConfig_Dimension :: "fileConfig \<Rightarrow> int \<Rightarrow> dimension" where
  "fileConfig_Dimension cfg schematicHeight = dimensionConfig_Dimension (fc_Dimension cfg) schematicHeight"

definition dimensionConfig_Empty :: "dimensionConfig \<Rightarrow> bool" where
  "dimensionConfig_Empty cfg \<longleftrightarrow> dc_Environment cfg = '''' \<and> dc_Name cfg = '''' \<and> dc_MinY cfg = None
     \<and> dc_Height cfg = None \<and> dc_LogicalHeight cfg = None \<and> dc_Natural cfg = None \<and> dc_HasSkylight cfg = None
     \<and> dc_HasCeiling cfg = None \<and> dc_UltraWarm cfg = None \<and> dc_AmbientLight cfg = None \<and> dc_FixedTime cfg = None
     \<and> dc_TimeOfDay cfg = None \<and> dc_WorldAge cfg = None \<and> dc_CoordinateScale cfg = None \<and> dc_Effects cfg = ''''"

section \<open>What the defaults establish\<close>

definition config_complete :: "fileConfig \<Rightarrow> bool" where
  "config_complete c \<longleftrightarrow> fc_Listen c \<noteq> '''' \<and> fs_Description (fc_Status c) \<noteq> '''' \<and> 0 < fs_MaxPlayers (fc_Status c)
     \<and> fc_WorldID c \<noteq> '''' \<and> fc_SpawnWorld c \<noteq> '''' \<and> \<not> (fc_Schematic c = '''' \<and> spawn_unset c)"

lemma f64_65_nonzero: "\<not> f64_is_0 f64_65"
  by code_simp

lemma default_spawn_complete:
  assumes "fc_WorldID c \<noteq> ''''" "fc_SpawnWorld c \<noteq> ''''"
  shows "fc_SpawnWorld (default_spawn c) \<noteq> '''' \<and> \<not> (fc_Schematic (default_spawn c) = '''' \<and> spawn_unset (default_spawn c))"
  using assms by (simp add: default_spawn_def defaultSpawn_def spawn_unset_def f64_65_nonzero)

lemma default_spawn_frame:
  "fc_Listen (default_spawn c) = fc_Listen c" "fc_Status (default_spawn c) = fc_Status c"
  "fc_WorldID (default_spawn c) = fc_WorldID c" "fc_Schematic (default_spawn c) = fc_Schematic c"
  "fc_Auth (default_spawn c) = fc_Auth c" "fc_ProxyProtocol (default_spawn c) = fc_ProxyProtocol c"
  "fc_Dimension (default_spawn c) = fc_Dimension c"
  "fc_ModernProtocols (default_spawn c) = fc_ModernProtocols c" "fc_RegistryData (default_spawn c) = fc_RegistryData c"
  by (simp_all add: default_spawn_def Let_def)

lemma config_defaults_complete: "config_complete (config_defaults c)"
proof -
  let ?c = "default_spawnWorld (default_worldID (default_maxPlayers (default_description (default_listen c))))"
  have "fc_Listen ?c \<noteq> ''''" "fs_Description (fc_Status ?c) \<noteq> ''''" "0 < fs_MaxPlayers (fc_Status ?c)"
    "fc_WorldID ?c \<noteq> ''''" "fc_SpawnWorld ?c \<noteq> ''''" by (simp_all add: default_defs)
  then show ?thesis using default_spawn_complete [of ?c]
    by (simp add: config_complete_def config_defaults_def default_spawn_frame)
qed

text \<open>A complete configuration is left alone, so loading twice changes nothing.\<close>

lemma config_defaults_id: "config_complete c \<Longrightarrow> config_defaults c = c"
  by (auto simp: config_defaults_def config_complete_def default_defs default_spawn_def)

text \<open>What the defaults may touch, field by field.\<close>

lemma config_defaults_keeps:
  "fc_Auth (config_defaults c) = fc_Auth c" "fc_ProxyProtocol (config_defaults c) = fc_ProxyProtocol c"
  "fc_Dimension (config_defaults c) = fc_Dimension c" "fc_Schematic (config_defaults c) = fc_Schematic c"
  "fc_ModernProtocols (config_defaults c) = fc_ModernProtocols c" "fc_RegistryData (config_defaults c) = fc_RegistryData c"
  "fc_Listen c \<noteq> '''' \<Longrightarrow> fc_Listen (config_defaults c) = fc_Listen c"
  "fc_WorldID c \<noteq> '''' \<Longrightarrow> fc_WorldID (config_defaults c) = fc_WorldID c"
  by (simp_all add: config_defaults_def default_spawn_frame default_defs)

section \<open>Configured dimensions\<close>

definition value_or :: "'a option \<Rightarrow> 'a \<Rightarrow> 'a" where
  "value_or opt v = (case opt of None \<Rightarrow> v | Some w \<Rightarrow> w)"

definition some_or :: "'a option \<Rightarrow> 'a option \<Rightarrow> 'a option" where
  "some_or opt v = (case opt of None \<Rightarrow> v | t \<Rightarrow> t)"

definition height_or :: "int option \<Rightarrow> int \<Rightarrow> int" where
  "height_or opt v = (case opt of None \<Rightarrow> v | Some h \<Rightarrow> normalizeDimensionHeight h)"

lemma override_value:
  "override x (\<lambda>v d. d\<lparr>dm_MinY := v\<rparr>) d = d\<lparr>dm_MinY := value_or x (dm_MinY d)\<rparr>"
  "override x (\<lambda>v d. d\<lparr>dm_Height := normalizeDimensionHeight v\<rparr>) d
      = d\<lparr>dm_Height := height_or x (dm_Height d)\<rparr>"
  "override x (\<lambda>v d. d\<lparr>dm_LogicalHeight := v\<rparr>) d = d\<lparr>dm_LogicalHeight := value_or x (dm_LogicalHeight d)\<rparr>"
  "override y (\<lambda>v d. d\<lparr>dm_Natural := v\<rparr>) d = d\<lparr>dm_Natural := value_or y (dm_Natural d)\<rparr>"
  "override y (\<lambda>v d. d\<lparr>dm_HasSkylight := v\<rparr>) d = d\<lparr>dm_HasSkylight := value_or y (dm_HasSkylight d)\<rparr>"
  "override y (\<lambda>v d. d\<lparr>dm_HasCeiling := v\<rparr>) d = d\<lparr>dm_HasCeiling := value_or y (dm_HasCeiling d)\<rparr>"
  "override y (\<lambda>v d. d\<lparr>dm_UltraWarm := v\<rparr>) d = d\<lparr>dm_UltraWarm := value_or y (dm_UltraWarm d)\<rparr>"
  "override z (\<lambda>v d. d\<lparr>dm_AmbientLight := v\<rparr>) d = d\<lparr>dm_AmbientLight := value_or z (dm_AmbientLight d)\<rparr>"
  "override x (\<lambda>v d. d\<lparr>dm_FixedTime := Some v\<rparr>) d = d\<lparr>dm_FixedTime := some_or x (dm_FixedTime d)\<rparr>"
  "override x (\<lambda>v d. d\<lparr>dm_TimeOfDay := Some v\<rparr>) d = d\<lparr>dm_TimeOfDay := some_or x (dm_TimeOfDay d)\<rparr>"
  "override x (\<lambda>v d. d\<lparr>dm_WorldAge := v\<rparr>) d = d\<lparr>dm_WorldAge := value_or x (dm_WorldAge d)\<rparr>"
  "override w (\<lambda>v d. d\<lparr>dm_CoordinateScale := v\<rparr>) d = d\<lparr>dm_CoordinateScale := value_or w (dm_CoordinateScale d)\<rparr>"
  "override_text s (\<lambda>v d. d\<lparr>dm_Name := v\<rparr>) d = d\<lparr>dm_Name := (if s \<noteq> '''' then s else dm_Name d)\<rparr>"
  "override_text s (\<lambda>v d. d\<lparr>dm_Effects := v\<rparr>) d = d\<lparr>dm_Effects := (if s \<noteq> '''' then s else dm_Effects d)\<rparr>"
  by (simp_all add: override_def override_text_def value_or_def some_or_def height_or_def split: option.split)

lemma config_fields_eq:
  "config_fields cfg p =
    \<lparr>dm_Name = (if dc_Name cfg \<noteq> '''' then dc_Name cfg else dm_Name p),
     dm_Environment = dm_Environment p, dm_MinY = value_or (dc_MinY cfg) (dm_MinY p),
     dm_Height = height_or (dc_Height cfg) (dm_Height p),
     dm_LogicalHeight = value_or (dc_LogicalHeight cfg) (dm_LogicalHeight p),
     dm_Natural = value_or (dc_Natural cfg) (dm_Natural p),
     dm_HasSkylight = value_or (dc_HasSkylight cfg) (dm_HasSkylight p),
     dm_HasCeiling = value_or (dc_HasCeiling cfg) (dm_HasCeiling p),
     dm_UltraWarm = value_or (dc_UltraWarm cfg) (dm_UltraWarm p),
     dm_AmbientLight = value_or (dc_AmbientLight cfg) (dm_AmbientLight p),
     dm_FixedTime = some_or (dc_FixedTime cfg) (dm_FixedTime p),
     dm_TimeOfDay = some_or (dc_TimeOfDay cfg) (dm_TimeOfDay p),
     dm_WorldAge = value_or (dc_WorldAge cfg) (dm_WorldAge p),
     dm_CoordinateScale = value_or (dc_CoordinateScale cfg) (dm_CoordinateScale p),
     dm_Effects = (if dc_Effects cfg \<noteq> '''' then dc_Effects cfg else dm_Effects p)\<rparr>"
  unfolding config_fields_def override_value by (cases p) simp

lemma normalizeDimension_fields:
  assumes "dm_Name d \<noteq> ''''" "dm_Environment d \<noteq> ''''" "dm_Effects d \<noteq> ''''"
  shows "normalizeDimension d h =
    (let height = (if dm_Height d \<noteq> 0 then dm_Height d
       else if normalizeDimensionHeight h \<noteq> 0 then normalizeDimensionHeight h else 256)
     in d\<lparr>dm_Height := height,
          dm_LogicalHeight := (if dm_LogicalHeight d = 0 then height else dm_LogicalHeight d),
          dm_CoordinateScale := (if f64_is_0 (dm_CoordinateScale d) then f64_1 else dm_CoordinateScale d)\<rparr>)"
  using assms by (cases d) (simp add: normalizeDimension_def Let_def)

lemma dimensionConfig_dimension:
  "dimensionConfig_Dimension cfg h =
    (let p = dimensionPreset (config_env cfg) h;
         height = height_or (dc_Height cfg) (dm_Height p);
         height' = (if height \<noteq> 0 then height else if normalizeDimensionHeight h \<noteq> 0 then normalizeDimensionHeight h else 256);
         logical = value_or (dc_LogicalHeight cfg) (dm_LogicalHeight p);
         scale = value_or (dc_CoordinateScale cfg) (dm_CoordinateScale p)
     in \<lparr>dm_Name = (if dc_Name cfg \<noteq> '''' then dc_Name cfg else dm_Name p),
         dm_Environment = dm_Environment p, dm_MinY = value_or (dc_MinY cfg) (dm_MinY p),
         dm_Height = height', dm_LogicalHeight = (if logical = 0 then height' else logical),
         dm_Natural = value_or (dc_Natural cfg) (dm_Natural p),
         dm_HasSkylight = value_or (dc_HasSkylight cfg) (dm_HasSkylight p),
         dm_HasCeiling = value_or (dc_HasCeiling cfg) (dm_HasCeiling p),
         dm_UltraWarm = value_or (dc_UltraWarm cfg) (dm_UltraWarm p),
         dm_AmbientLight = value_or (dc_AmbientLight cfg) (dm_AmbientLight p),
         dm_FixedTime = some_or (dc_FixedTime cfg) (dm_FixedTime p),
         dm_TimeOfDay = some_or (dc_TimeOfDay cfg) (dm_TimeOfDay p),
         dm_WorldAge = value_or (dc_WorldAge cfg) (dm_WorldAge p),
         dm_CoordinateScale = (if f64_is_0 scale then f64_1 else scale),
         dm_Effects = (if dc_Effects cfg \<noteq> '''' then dc_Effects cfg else dm_Effects p)\<rparr>)"
proof -
  let ?p = "dimensionPreset (config_env cfg) h"
  have c: "dm_Name ?p \<noteq> ''''" "dm_Environment ?p \<noteq> ''''" "dm_Effects ?p \<noteq> ''''" "dm_Height ?p \<noteq> 0"
    using dimensionPreset_complete [of "config_env cfg" h] by (simp_all add: dimension_complete_def)
  note f = config_fields_eq [of cfg ?p]
  have "dm_Name (config_fields cfg ?p) \<noteq> ''''" "dm_Environment (config_fields cfg ?p) \<noteq> ''''"
    "dm_Effects (config_fields cfg ?p) \<noteq> ''''" using c unfolding f by simp_all
  note n = normalizeDimension_fields [OF this, of h]
  show ?thesis unfolding dimensionConfig_Dimension_def n unfolding f using c(4)
    by (simp add: Let_def)
qed

lemma dimensionConfig_complete: "dimension_complete (dimensionConfig_Dimension cfg h)"
  unfolding dimensionConfig_Dimension_def Let_def by (rule normalizeDimension_complete)

lemma dimensionConfig_Empty_preset:
  "dimensionConfig_Empty cfg \<Longrightarrow> dimensionConfig_Dimension cfg h = dimensionPreset DimensionOverworld h"
proof -
  assume e: "dimensionConfig_Empty cfg"
  then have "config_env cfg = DimensionOverworld"
    by (simp add: dimensionConfig_Empty_def config_env_def inferDimensionEnvironment_def)
  with e show ?thesis
    by (simp add: dimensionConfig_Dimension_def dimensionConfig_Empty_def override_def
        override_text_def config_fields_def normalizeDimension_id [OF dimensionPreset_complete])
qed

end
