(* ===== verification/Dimension_Sent.thy ===== *)
theory Dimension_Sent
  imports Config Chunk_Data
begin

text \<open>
  From the dimension of a configuration file (\<open>config.go\<close>, \<open>world.go\<close>) to the \<open>dimension_type\<close>
  registry a modern client decodes (\<open>protocol766_data.go\<close>), attribute by attribute.
\<close>

text \<open>A height in whole sections, rounded up.\<close>

definition whole_sections :: "int \<Rightarrow> int" where
  "whole_sections v = (v + 15) div 16 * 16"

lemma whole_sections_unique: "n mod 16 = 0 \<Longrightarrow> v \<le> n \<Longrightarrow> n < v + 16 \<Longrightarrow> n = whole_sections v"
  unfolding whole_sections_def by presburger

lemma normalizeDimensionHeight_whole:
  assumes "v \<le> 2 ^ 31 - 16"
  shows "normalizeDimensionHeight v = (if 0 < v then whole_sections v else 0)"
proof (cases "0 < v")
  case True
  then show ?thesis using normalizeDimensionHeight_up [OF True assms] whole_sections_unique by simp
qed (simp add: normalizeDimensionHeight_def)

lemma whole_sections_pos: "0 < v \<Longrightarrow> 0 < whole_sections v"
  unfolding whole_sections_def by presburger

text \<open>The environment a configuration chooses: named, or guessed from the name of the dimension.\<close>

definition chooses :: "string \<Rightarrow> string \<Rightarrow> dimensionConfig \<Rightarrow> bool" where
  "chooses environment name cfg \<longleftrightarrow>
    (if dc_Environment cfg = '''' then dc_Name cfg = name else dc_Environment cfg = environment)"

lemma chooses_env:
  "config_env cfg = ''nether'' \<longleftrightarrow> chooses ''nether'' ''minecraft:the_nether'' cfg"
  "config_env cfg = ''end'' \<longleftrightarrow> chooses ''end'' ''minecraft:the_end'' cfg"
  by (auto simp: config_env_def chooses_def inferDimensionEnvironment_def environment_defs)

lemma chooses_one: "chooses ''nether'' ''minecraft:the_nether'' cfg \<Longrightarrow> \<not> chooses ''end'' ''minecraft:the_end'' cfg"
  by (auto simp: chooses_def)

text \<open>The built-in environments, by what a player notices of them.\<close>

lemma preset_nether:
  "dimensionPreset ''nether'' h = \<lparr>dm_Name = ''minecraft:the_nether'', dm_Environment = ''nether'', dm_MinY = 0,
     dm_Height = fallbackHeight (normalizeDimensionHeight h) 256, dm_LogicalHeight = 128, dm_Natural = False,
     dm_HasSkylight = False, dm_HasCeiling = True, dm_UltraWarm = True, dm_AmbientLight = 0x3dcccccd,
     dm_FixedTime = Some 18000, dm_TimeOfDay = None, dm_WorldAge = 0, dm_CoordinateScale = 0x4020000000000000,
     dm_Effects = ''minecraft:the_nether''\<rparr>"
  by (simp add: dimensionPreset_def environment_defs Let_def f32_0_1_def f64_8_def)

lemma preset_end:
  "dimensionPreset ''end'' h = \<lparr>dm_Name = ''minecraft:the_end'', dm_Environment = ''end'', dm_MinY = 0,
     dm_Height = fallbackHeight (normalizeDimensionHeight h) 256,
     dm_LogicalHeight = fallbackHeight (normalizeDimensionHeight h) 256, dm_Natural = False,
     dm_HasSkylight = False, dm_HasCeiling = False, dm_UltraWarm = False, dm_AmbientLight = 0,
     dm_FixedTime = Some 6000, dm_TimeOfDay = None, dm_WorldAge = 0, dm_CoordinateScale = 0x3ff0000000000000,
     dm_Effects = ''minecraft:the_end''\<rparr>"
  by (simp add: dimensionPreset_def environment_defs Let_def f64_1_def)

lemma preset_overworld:
  "env \<noteq> ''nether'' \<Longrightarrow> env \<noteq> ''end'' \<Longrightarrow> dimensionPreset env h =
   \<lparr>dm_Name = ''minecraft:overworld'', dm_Environment = ''overworld'', dm_MinY = 0,
     dm_Height = fallbackHeight (normalizeDimensionHeight h) 256,
     dm_LogicalHeight = fallbackHeight (normalizeDimensionHeight h) 256, dm_Natural = True,
     dm_HasSkylight = True, dm_HasCeiling = False, dm_UltraWarm = False, dm_AmbientLight = 0,
     dm_FixedTime = None, dm_TimeOfDay = None, dm_WorldAge = 0, dm_CoordinateScale = 0x3ff0000000000000,
     dm_Effects = ''minecraft:overworld''\<rparr>"
  by (simp add: dimensionPreset_def environment_defs Let_def f64_1_def)

text \<open>
  The attributes of the configured dimension, without reference to the presets: \<open>nether\<close> and \<open>the_end\<close>
  say what the configuration chooses, \<open>fallback\<close> is the height of a dimension that configures none.
\<close>

lemma dimension_attributes:
  fixes cfg h
  defines "nether \<equiv> chooses ''nether'' ''minecraft:the_nether'' cfg"
    and "the_end \<equiv> chooses ''end'' ''minecraft:the_end'' cfg"
    and "fallback \<equiv> if 0 < h then whole_sections h else 256"
  defines "height \<equiv> (case dc_Height cfg of Some v \<Rightarrow> if 0 < v then whole_sections v else fallback | None \<Rightarrow> fallback)"
  assumes small: "h \<le> 2 ^ 31 - 16" "\<forall>v. dc_Height cfg = Some v \<longrightarrow> v \<le> 2 ^ 31 - 16"
  shows "dm_Name (dimensionConfig_Dimension cfg h) = (if dc_Name cfg \<noteq> '''' then dc_Name cfg
      else if nether then ''minecraft:the_nether'' else if the_end then ''minecraft:the_end'' else ''minecraft:overworld'')"
    "dm_Environment (dimensionConfig_Dimension cfg h) = (if nether then ''nether'' else if the_end then ''end'' else ''overworld'')"
    "dm_MinY (dimensionConfig_Dimension cfg h) = (case dc_MinY cfg of Some v \<Rightarrow> v | None \<Rightarrow> 0)"
    "dm_Height (dimensionConfig_Dimension cfg h) = height"
    "dm_LogicalHeight (dimensionConfig_Dimension cfg h) = (case dc_LogicalHeight cfg of
        Some v \<Rightarrow> if v = 0 then height else v | None \<Rightarrow> if nether then 128 else fallback)"
    "dm_Natural (dimensionConfig_Dimension cfg h) = (case dc_Natural cfg of Some b \<Rightarrow> b | None \<Rightarrow> \<not> nether \<and> \<not> the_end)"
    "dm_HasSkylight (dimensionConfig_Dimension cfg h) = (case dc_HasSkylight cfg of Some b \<Rightarrow> b | None \<Rightarrow> \<not> nether \<and> \<not> the_end)"
    "dm_HasCeiling (dimensionConfig_Dimension cfg h) = (case dc_HasCeiling cfg of Some b \<Rightarrow> b | None \<Rightarrow> nether)"
    "dm_UltraWarm (dimensionConfig_Dimension cfg h) = (case dc_UltraWarm cfg of Some b \<Rightarrow> b | None \<Rightarrow> nether)"
    "dm_AmbientLight (dimensionConfig_Dimension cfg h) = (case dc_AmbientLight cfg of
        Some w \<Rightarrow> w | None \<Rightarrow> if nether then 0x3dcccccd else 0)"
    "dm_FixedTime (dimensionConfig_Dimension cfg h) = (case dc_FixedTime cfg of Some t \<Rightarrow> Some t
        | None \<Rightarrow> if nether then Some 18000 else if the_end then Some 6000 else None)"
    "dm_CoordinateScale (dimensionConfig_Dimension cfg h) = (case dc_CoordinateScale cfg of
        Some w \<Rightarrow> if f64_is_0 w then 0x3ff0000000000000 else w
      | None \<Rightarrow> if nether then 0x4020000000000000 else 0x3ff0000000000000)"
    "dm_Effects (dimensionConfig_Dimension cfg h) = (if dc_Effects cfg \<noteq> '''' then dc_Effects cfg
      else if nether then ''minecraft:the_nether'' else if the_end then ''minecraft:the_end'' else ''minecraft:overworld'')"
proof -
  have z: "\<not> f64_is_0 0x4020000000000000" "\<not> f64_is_0 0x3ff0000000000000" by code_simp+
  have n: "normalizeDimensionHeight h = (if 0 < h then whole_sections h else 0)"
    by (rule normalizeDimensionHeight_whole [OF small(1)])
  have fb: "fallbackHeight (normalizeDimensionHeight h) 256 = fallback" "fallback \<noteq> 0"
    "(if normalizeDimensionHeight h \<noteq> 0 then normalizeDimensionHeight h else 256) = fallback"
    using whole_sections_pos [of h] by (auto simp: n fallbackHeight_def fallback_def)
  have ho: "(if height_or (dc_Height cfg) fallback \<noteq> 0 then height_or (dc_Height cfg) fallback else fallback) = height"
  proof (cases "dc_Height cfg")
    case None
    then show ?thesis by (simp add: height_or_def height_def)
  next
    case (Some v)
    then have "normalizeDimensionHeight v = (if 0 < v then whole_sections v else 0)"
      using small(2) by (intro normalizeDimensionHeight_whole) simp
    then show ?thesis using Some whole_sections_pos [of v] by (auto simp: height_or_def height_def)
  qed
  let ?d = "\<lambda>p. \<lparr>dm_Name = (if dc_Name cfg \<noteq> '''' then dc_Name cfg else dm_Name p),
         dm_Environment = dm_Environment p, dm_MinY = value_or (dc_MinY cfg) (dm_MinY p),
         dm_Height = height, dm_LogicalHeight = (if value_or (dc_LogicalHeight cfg) (dm_LogicalHeight p) = 0 then height
           else value_or (dc_LogicalHeight cfg) (dm_LogicalHeight p)),
         dm_Natural = value_or (dc_Natural cfg) (dm_Natural p),
         dm_HasSkylight = value_or (dc_HasSkylight cfg) (dm_HasSkylight p),
         dm_HasCeiling = value_or (dc_HasCeiling cfg) (dm_HasCeiling p),
         dm_UltraWarm = value_or (dc_UltraWarm cfg) (dm_UltraWarm p),
         dm_AmbientLight = value_or (dc_AmbientLight cfg) (dm_AmbientLight p),
         dm_FixedTime = some_or (dc_FixedTime cfg) (dm_FixedTime p),
         dm_TimeOfDay = some_or (dc_TimeOfDay cfg) (dm_TimeOfDay p),
         dm_WorldAge = value_or (dc_WorldAge cfg) (dm_WorldAge p),
         dm_CoordinateScale = (if f64_is_0 (value_or (dc_CoordinateScale cfg) (dm_CoordinateScale p)) then f64_1
           else value_or (dc_CoordinateScale cfg) (dm_CoordinateScale p)),
         dm_Effects = (if dc_Effects cfg \<noteq> '''' then dc_Effects cfg else dm_Effects p)\<rparr>"
  have height: "dm_Height (dimensionPreset (config_env cfg) h) = fallback"
    using fb(1) by (simp add: dimensionPreset_def Let_def)
  have e: "dimensionConfig_Dimension cfg h = ?d (dimensionPreset (config_env cfg) h)"
    unfolding dimensionConfig_dimension Let_def height fb(3) ho ..
  have p: "dimensionPreset (config_env cfg) h = (if nether then dimensionPreset ''nether'' h
      else if the_end then dimensionPreset ''end'' h else dimensionPreset '''' h)" "\<not> (nether \<and> the_end)"
    using chooses_env [of cfg] chooses_one [of cfg] preset_overworld [of "config_env cfg" h] preset_overworld [of "''''" h]
    unfolding nether_def the_end_def by auto
  show "dm_Name (dimensionConfig_Dimension cfg h) = (if dc_Name cfg \<noteq> '''' then dc_Name cfg
      else if nether then ''minecraft:the_nether'' else if the_end then ''minecraft:the_end'' else ''minecraft:overworld'')"
    "dm_Environment (dimensionConfig_Dimension cfg h) = (if nether then ''nether'' else if the_end then ''end'' else ''overworld'')"
    unfolding e p by (simp_all add: preset_nether preset_end preset_overworld)
  show "dm_MinY (dimensionConfig_Dimension cfg h) = (case dc_MinY cfg of Some v \<Rightarrow> v | None \<Rightarrow> 0)"
    "dm_Height (dimensionConfig_Dimension cfg h) = height"
    "dm_LogicalHeight (dimensionConfig_Dimension cfg h) = (case dc_LogicalHeight cfg of
        Some v \<Rightarrow> if v = 0 then height else v | None \<Rightarrow> if nether then 128 else fallback)"
    unfolding e p using fb(2)
    by (simp_all add: preset_nether preset_end preset_overworld value_or_def fb(1) split: option.split)
  show "dm_Natural (dimensionConfig_Dimension cfg h) = (case dc_Natural cfg of Some b \<Rightarrow> b | None \<Rightarrow> \<not> nether \<and> \<not> the_end)"
    "dm_HasSkylight (dimensionConfig_Dimension cfg h) = (case dc_HasSkylight cfg of Some b \<Rightarrow> b | None \<Rightarrow> \<not> nether \<and> \<not> the_end)"
    "dm_HasCeiling (dimensionConfig_Dimension cfg h) = (case dc_HasCeiling cfg of Some b \<Rightarrow> b | None \<Rightarrow> nether)"
    "dm_UltraWarm (dimensionConfig_Dimension cfg h) = (case dc_UltraWarm cfg of Some b \<Rightarrow> b | None \<Rightarrow> nether)"
    unfolding e p by (simp_all add: preset_nether preset_end preset_overworld value_or_def split: option.split)
  show "dm_AmbientLight (dimensionConfig_Dimension cfg h) = (case dc_AmbientLight cfg of
        Some w \<Rightarrow> w | None \<Rightarrow> if nether then 0x3dcccccd else 0)"
    "dm_FixedTime (dimensionConfig_Dimension cfg h) = (case dc_FixedTime cfg of Some t \<Rightarrow> Some t
        | None \<Rightarrow> if nether then Some 18000 else if the_end then Some 6000 else None)"
    unfolding e p by (simp_all add: preset_nether preset_end preset_overworld value_or_def some_or_def split: option.split)
  show "dm_CoordinateScale (dimensionConfig_Dimension cfg h) = (case dc_CoordinateScale cfg of
        Some w \<Rightarrow> if f64_is_0 w then 0x3ff0000000000000 else w
      | None \<Rightarrow> if nether then 0x4020000000000000 else 0x3ff0000000000000)"
    "dm_Effects (dimensionConfig_Dimension cfg h) = (if dc_Effects cfg \<noteq> '''' then dc_Effects cfg
      else if nether then ''minecraft:the_nether'' else if the_end then ''minecraft:the_end'' else ''minecraft:overworld'')"
    unfolding e p by (simp_all add: preset_nether preset_end preset_overworld value_or_def z f64_1_def split: option.split)
qed

section \<open>What a modern client reads\<close>

text \<open>The attributes only the environment decides.\<close>

lemma profile_fields:
  fixes a b
  defines "profile \<equiv> dimensionProtocolProfile (if a then ''nether'' else if b then ''end'' else ''overworld'')"
  shows "ds_piglinSafe profile \<longleftrightarrow> a" "ds_respawnAnchorWorks profile \<longleftrightarrow> a" "ds_bedWorks profile \<longleftrightarrow> \<not> a \<and> \<not> b"
    "ds_hasRaids profile \<longleftrightarrow> \<not> a" "ds_hasEnderDragonFight profile \<longleftrightarrow> \<not> a \<and> b"
    "ds_infiniburn profile = (if a then ''#minecraft:infiniburn_nether''
       else if b then ''#minecraft:infiniburn_end'' else ''#minecraft:infiniburn_overworld'')"
    "ds_monsterSpawnBlockLightLimit profile = (if a then 15 else 0)"
    "light_level_nbt (ds_monsterSpawnLightLevel profile) = (if a then NInt 7 else NCompound
       [(''min_inclusive'', NInt 0), (''max_inclusive'', NInt 7), (''type'', NString ''minecraft:uniform'')])"
  unfolding profile_def
  by (simp_all add: dimensionProtocolProfile_def environment_defs light_level_nbt_def fixedDimensionInt_def uniformDimensionInt_def)

text \<open>The registry a flow sends for the configured world has one entry, which decodes to these fields.\<close>

lemma configured_registry:
  assumes "length (dm_Effects (dimensionConfig_Dimension cfg h)) < 65536"
  shows "\<exists>v. dimensionTypeRegistry766 (dimensionConfig_Dimension cfg h) = \<lparr>rg_ID = ''minecraft:dimension_type'',
      rg_Entries = [\<lparr>re_Key = dm_Name (dimensionConfig_Dimension cfg h), re_Value = v\<rparr>]\<rparr>
    \<and> d_anonymous 3 v = Some (NCompound (dimension_fields (dimensionConfig_Dimension cfg h)), [])"
proof -
  have "normalizeDimension (dimensionConfig_Dimension cfg h) 256 = dimensionConfig_Dimension cfg h"
    unfolding dimensionConfig_Dimension_def by (rule normalizeDimension_idem)
  then show ?thesis using dimensionTypeNBT_decodes [OF assms, of "[]"]
    by (simp add: dimensionTypeRegistry766_def Let_def)
qed

end
