(* ===== verification/Versions.thy ===== *)
theory Versions
  imports Prelude
begin

text \<open>
  The release table of \<open>protocol/versions\<close>: the generated lists, the override appended when the
  program starts, and the lookups. The map from protocols is an association list.
\<close>

record mcVersion =
  ver_MinecraftVersion :: string
  ver_Protocol :: int
  ver_MajorVersion :: string
  ver_ReleaseType :: string
  ver_HasProtocol :: bool
  ver_HasLoginPacket :: bool

definition version :: "string \<Rightarrow> int \<Rightarrow> string \<Rightarrow> string \<Rightarrow> bool \<Rightarrow> bool \<Rightarrow> mcVersion" where
  "version name protocol major release hasProtocol hasLogin =
    \<lparr>ver_MinecraftVersion = name, ver_Protocol = protocol, ver_MajorVersion = major, ver_ReleaseType = release,
     ver_HasProtocol = hasProtocol, ver_HasLoginPacket = hasLogin\<rparr>"

definition generatedVersions :: "mcVersion list" where
  "generatedVersions = [
     version ''1.7.10'' 5 ''1.7'' ''release'' True False,
     version ''1.8.8'' 47 ''1.8'' ''release'' True False,
     version ''1.9'' 107 ''1.9'' ''release'' True False,
     version ''1.9.2'' 109 ''1.9'' ''release'' True False,
     version ''1.9.4'' 110 ''1.9'' ''release'' True False,
     version ''1.10'' 210 ''1.10'' ''release'' True False,
     version ''1.10.1'' 210 ''1.10'' ''release'' False False,
     version ''1.10.2'' 210 ''1.10'' ''release'' False False,
     version ''1.11'' 315 ''1.11'' ''release'' True False,
     version ''1.11.2'' 316 ''1.11'' ''release'' False False,
     version ''1.12'' 335 ''1.12'' ''release'' True False,
     version ''1.12.1'' 338 ''1.12'' ''release'' True False,
     version ''1.12.2'' 340 ''1.12'' ''release'' True False,
     version ''1.13'' 393 ''1.13'' ''release'' True False,
     version ''1.13.1'' 401 ''1.13'' ''release'' True False,
     version ''1.13.2'' 404 ''1.13'' ''release'' True False,
     version ''1.14'' 477 ''1.14'' ''release'' True False,
     version ''1.14.1'' 480 ''1.14'' ''release'' True False,
     version ''1.14.3'' 490 ''1.14'' ''release'' True False,
     version ''1.14.4'' 498 ''1.14'' ''release'' True False,
     version ''1.15'' 573 ''1.15'' ''release'' True False,
     version ''1.15.1'' 575 ''1.15'' ''release'' True False,
     version ''1.15.2'' 578 ''1.15'' ''release'' True False,
     version ''1.16'' 735 ''1.16'' ''release'' True True,
     version ''1.16.1'' 736 ''1.16'' ''release'' True False,
     version ''1.16.2'' 751 ''1.16'' ''release'' True True,
     version ''1.16.3'' 753 ''1.16'' ''release'' False False,
     version ''1.16.4'' 754 ''1.16'' ''release'' False False,
     version ''1.16.5'' 754 ''1.16'' ''release'' False False,
     version ''1.17'' 755 ''1.17'' ''release'' True True,
     version ''1.17.1'' 756 ''1.17'' ''release'' True False,
     version ''1.18'' 757 ''1.18'' ''release'' True True,
     version ''1.18.1'' 757 ''1.18'' ''release'' False False,
     version ''1.18.2'' 758 ''1.18'' ''release'' True True,
     version ''1.19'' 759 ''1.19'' ''release'' True True,
     version ''1.19.2'' 760 ''1.19'' ''release'' True True,
     version ''1.19.3'' 761 ''1.19'' ''release'' True False,
     version ''1.19.4'' 762 ''1.19'' ''release'' True True,
     version ''1.20'' 763 ''1.20'' ''release'' True True,
     version ''1.20.1'' 763 ''1.20'' ''release'' False False,
     version ''1.20.2'' 764 ''1.20'' ''release'' True True,
     version ''1.20.3'' 765 ''1.20'' ''release'' True False,
     version ''1.20.4'' 765 ''1.20'' ''release'' False False,
     version ''1.20.5'' 766 ''1.20'' ''release'' True True,
     version ''1.20.6'' 766 ''1.20'' ''release'' False False,
     version ''1.21'' 767 ''1.21'' ''release'' False False,
     version ''1.21.1'' 767 ''1.21'' ''release'' True True,
     version ''1.21.3'' 768 ''1.21'' ''release'' True True,
     version ''1.21.4'' 769 ''1.21'' ''release'' True False,
     version ''1.21.5'' 770 ''1.21'' ''release'' True False,
     version ''1.21.6'' 771 ''1.21'' ''release'' True False,
     version ''1.21.8'' 772 ''1.21'' ''release'' True False,
     version ''1.21.9'' 773 ''1.21'' ''release'' True True,
     version ''1.21.11'' 774 ''1.21'' ''release'' True True]"

definition generatedByProtocol :: "(int \<times> mcVersion list) list" where
  "generatedByProtocol = [
     (5, [version ''1.7.10'' 5 ''1.7'' ''release'' True False]),
     (47, [version ''1.8.8'' 47 ''1.8'' ''release'' True False]),
     (107, [version ''1.9'' 107 ''1.9'' ''release'' True False]),
     (109, [version ''1.9.2'' 109 ''1.9'' ''release'' True False]),
     (110, [version ''1.9.4'' 110 ''1.9'' ''release'' True False]),
     (210, [version ''1.10'' 210 ''1.10'' ''release'' True False,
       version ''1.10.1'' 210 ''1.10'' ''release'' False False,
       version ''1.10.2'' 210 ''1.10'' ''release'' False False]),
     (315, [version ''1.11'' 315 ''1.11'' ''release'' True False]),
     (316, [version ''1.11.2'' 316 ''1.11'' ''release'' False False]),
     (335, [version ''1.12'' 335 ''1.12'' ''release'' True False]),
     (338, [version ''1.12.1'' 338 ''1.12'' ''release'' True False]),
     (340, [version ''1.12.2'' 340 ''1.12'' ''release'' True False]),
     (393, [version ''1.13'' 393 ''1.13'' ''release'' True False]),
     (401, [version ''1.13.1'' 401 ''1.13'' ''release'' True False]),
     (404, [version ''1.13.2'' 404 ''1.13'' ''release'' True False]),
     (477, [version ''1.14'' 477 ''1.14'' ''release'' True False]),
     (480, [version ''1.14.1'' 480 ''1.14'' ''release'' True False]),
     (490, [version ''1.14.3'' 490 ''1.14'' ''release'' True False]),
     (498, [version ''1.14.4'' 498 ''1.14'' ''release'' True False]),
     (573, [version ''1.15'' 573 ''1.15'' ''release'' True False]),
     (575, [version ''1.15.1'' 575 ''1.15'' ''release'' True False]),
     (578, [version ''1.15.2'' 578 ''1.15'' ''release'' True False]),
     (735, [version ''1.16'' 735 ''1.16'' ''release'' True True]),
     (736, [version ''1.16.1'' 736 ''1.16'' ''release'' True False]),
     (751, [version ''1.16.2'' 751 ''1.16'' ''release'' True True]),
     (753, [version ''1.16.3'' 753 ''1.16'' ''release'' False False]),
     (754, [version ''1.16.4'' 754 ''1.16'' ''release'' False False,
       version ''1.16.5'' 754 ''1.16'' ''release'' False False]),
     (755, [version ''1.17'' 755 ''1.17'' ''release'' True True]),
     (756, [version ''1.17.1'' 756 ''1.17'' ''release'' True False]),
     (757, [version ''1.18'' 757 ''1.18'' ''release'' True True,
       version ''1.18.1'' 757 ''1.18'' ''release'' False False]),
     (758, [version ''1.18.2'' 758 ''1.18'' ''release'' True True]),
     (759, [version ''1.19'' 759 ''1.19'' ''release'' True True]),
     (760, [version ''1.19.2'' 760 ''1.19'' ''release'' True True]),
     (761, [version ''1.19.3'' 761 ''1.19'' ''release'' True False]),
     (762, [version ''1.19.4'' 762 ''1.19'' ''release'' True True]),
     (763, [version ''1.20'' 763 ''1.20'' ''release'' True True,
       version ''1.20.1'' 763 ''1.20'' ''release'' False False]),
     (764, [version ''1.20.2'' 764 ''1.20'' ''release'' True True]),
     (765, [version ''1.20.3'' 765 ''1.20'' ''release'' True False,
       version ''1.20.4'' 765 ''1.20'' ''release'' False False]),
     (766, [version ''1.20.5'' 766 ''1.20'' ''release'' True True,
       version ''1.20.6'' 766 ''1.20'' ''release'' False False]),
     (767, [version ''1.21'' 767 ''1.21'' ''release'' False False,
       version ''1.21.1'' 767 ''1.21'' ''release'' True True]),
     (768, [version ''1.21.3'' 768 ''1.21'' ''release'' True True]),
     (769, [version ''1.21.4'' 769 ''1.21'' ''release'' True False]),
     (770, [version ''1.21.5'' 770 ''1.21'' ''release'' True False]),
     (771, [version ''1.21.6'' 771 ''1.21'' ''release'' True False]),
     (772, [version ''1.21.8'' 772 ''1.21'' ''release'' True False]),
     (773, [version ''1.21.9'' 773 ''1.21'' ''release'' True True]),
     (774, [version ''1.21.11'' 774 ''1.21'' ''release'' True True])]"

definition releaseOverrides :: "mcVersion list" where
  "releaseOverrides = [version ''26.1.2'' 775 ''26.1'' ''release'' True True]"

text \<open>\<open>init\<close>: each override is appended to both tables.\<close>

fun add_version :: "mcVersion \<Rightarrow> (int \<times> mcVersion list) list \<Rightarrow> (int \<times> mcVersion list) list" where
  "add_version v [] = [(ver_Protocol v, [v])]"
| "add_version v ((p, vs) # r) = (if p = ver_Protocol v then (p, vs @ [v]) # r else (p, vs) # add_version v r)"

definition allVersions :: "mcVersion list" where
  "allVersions = generatedVersions @ releaseOverrides"

definition byProtocol :: "(int \<times> mcVersion list) list" where
  "byProtocol = fold add_version releaseOverrides generatedByProtocol"

definition lookupProtocol :: "int \<Rightarrow> mcVersion list" where
  "lookupProtocol protocol = (case map_of byProtocol protocol of None \<Rightarrow> [] | Some vs \<Rightarrow> vs)"

definition versions_All :: "mcVersion list" where
  "versions_All = allVersions"

definition latestRelease :: "mcVersion option" where
  "latestRelease = List.find (\<lambda>v. ver_ReleaseType v = '''' \<or> ver_ReleaseType v = ''release'') (rev allVersions)"

definition versions_Protocols :: "int list" where
  "versions_Protocols = sort (map fst byProtocol)"

section \<open>The two tables agree\<close>

text \<open>The releases grouped by protocol, in the order of their first release.\<close>

definition grouped :: "mcVersion list \<Rightarrow> (int \<times> mcVersion list) list" where
  "grouped vs = map (\<lambda>p. (p, filter (\<lambda>v. ver_Protocol v = p) vs)) (remdups_adj (map ver_Protocol vs))"

lemma byProtocol_grouped: "byProtocol = grouped allVersions"
  by code_simp

lemma protocols_ascending: "sorted_wrt (<) (map fst byProtocol)"
  by code_simp

lemma map_of_grouped: "map_of (map (\<lambda>p. (p, f p)) ps) q = (if q \<in> set ps then Some (f q) else None)"
  by (induction ps) auto

lemma lookupProtocol_filter: "lookupProtocol p = filter (\<lambda>v. ver_Protocol v = p) versions_All"
  by (auto simp: lookupProtocol_def byProtocol_grouped grouped_def map_of_grouped versions_All_def filter_empty_conv
      eq_commute [of "[]"])

lemma versions_Protocols_set:
  "set versions_Protocols = ver_Protocol ` set versions_All \<and> sorted_wrt (<) versions_Protocols"
proof -
  have "sort (map fst byProtocol) = map fst byProtocol"
    using protocols_ascending by (intro sort_key_id_if_sorted) (simp add: strict_sorted_iff)
  then show ?thesis using protocols_ascending
    by (simp add: versions_Protocols_def versions_All_def) (simp add: byProtocol_grouped grouped_def comp_def image_image)
qed

lemma latestRelease_override: "latestRelease = Some (version ''26.1.2'' 775 ''26.1'' ''release'' True True)"
  by code_simp

lemma releases_ascending: "sorted (map ver_Protocol versions_All)"
  by code_simp

end
