(* ===== verification/Releases.thy ===== *)
theory Releases
  imports Router Versions
begin

text \<open>
  Which join flow a client gets (\<open>router.go\<close> with its built-in table of modern protocols), for every
  protocol number a handshake can carry, beside the releases of \<open>protocol/versions\<close>.
\<close>

section \<open>The protocols of each table\<close>

definition legacy_protocols :: "int set" where "legacy_protocols = {107, 109, 110, 210, 315, 316, 335, 338}"
definition flat_protocols :: "int set" where
  "flat_protocols = {393, 401, 404, 477, 480, 490, 498, 573, 575, 578}"
definition codec_protocols :: "int set" where "codec_protocols = {735, 736, 751, 753, 754, 755, 756}"

lemma legacy_dom:
  "p \<in> legacy_protocols \<Longrightarrow> \<exists>cfg. legacyProtocolConfigFor p = Some cfg \<and> lc_protocol cfg = p"
  "p \<notin> legacy_protocols \<Longrightarrow> legacyProtocolConfigFor p = None"
  by (auto simp: legacyProtocolConfigFor_def legacy_protocols_def)

lemma flat_dom:
  "p \<in> flat_protocols \<Longrightarrow> \<exists>cfg. flatProtocolConfigFor p = Some cfg \<and> fc_protocol cfg = p"
  "p \<notin> flat_protocols \<Longrightarrow> flatProtocolConfigFor p = None"
  by (auto simp: flatProtocolConfigFor_def flat_protocols_def)

lemma codec_dom:
  "p \<in> codec_protocols \<Longrightarrow> \<exists>cfg. codecProtocolConfigFor p = Some cfg \<and> cc_protocol cfg = p"
  "p \<notin> codec_protocols \<Longrightarrow> codecProtocolConfigFor p = None"
  by (auto simp: codecProtocolConfigFor_def codec_protocols_def)

text \<open>The embedded table: the entry of a protocol comes from the record of that number.\<close>

lemma load_modern_records_entry:
  "load_modern_records rs configs = Inr out \<Longrightarrow> configFor out p = Some cfg \<Longrightarrow>
    configFor configs p = Some cfg \<or> (\<exists>(k, r) \<in> set rs. parseInt32 k = Inr p \<and> cfg = modern_config_of p r)"
  by (induction rs configs rule: load_modern_records.induct)
    (auto split: sum.splits if_splits simp: configFor_def update_conv')

lemma modern_record_phases:
  "list_all (\<lambda>(k, r). case parseInt32 k of Inl e \<Rightarrow> False | Inr p \<Rightarrow> mr_PreConfiguration r \<longleftrightarrow> p \<le> 763) modern_records"
  by code_simp

lemma modern_entry:
  assumes "DefaultModernProtocols = Inr configs"
  shows "p \<in> {757..775} \<Longrightarrow> \<exists>cfg. configFor configs p = Some cfg \<and> mc_protocol cfg = p \<and> (mc_preConfiguration cfg \<longleftrightarrow> p \<le> 763)"
    "p \<notin> {757..775} \<Longrightarrow> configFor configs p = None"
proof -
  have l: "load_modern_records modern_records [] = Inr configs" using assms by (simp add: DefaultModernProtocols_def)
  have d: "set (supportedProtocols configs) = {757..775}"
    using load_modern_records_dom [OF l] unfolding modern_keys_set by (simp add: supportedProtocols_def)
  show "p \<notin> {757..775} \<Longrightarrow> configFor configs p = None" unfolding configFor_None_iff d .
  assume "p \<in> {757..775}"
  then obtain cfg where c: "configFor configs p = Some cfg" using configFor_None_iff [of configs p] d by auto
  then obtain k r where k: "(k, r) \<in> set modern_records" "parseInt32 k = Inr p" "cfg = modern_config_of p r"
    using load_modern_records_entry [OF l c] by (auto simp: configFor_def)
  have "mr_PreConfiguration r \<longleftrightarrow> p \<le> 763"
    using modern_record_phases k(1,2) unfolding list_all_iff by fastforce
  with c k(3) show "\<exists>cfg. configFor configs p = Some cfg \<and> mc_protocol cfg = p \<and> (mc_preConfiguration cfg \<longleftrightarrow> p \<le> 763)"
    by (simp add: modern_config_of_def)
qed

section \<open>The releases are the protocols with a flow\<close>

lemma release_protocols:
  "versions_Protocols = [5, 47, 107, 109, 110, 210, 315, 316, 335, 338, 340, 393, 401, 404, 477, 480, 490, 498,
     573, 575, 578, 735, 736, 751, 753, 754, 755, 756] @ [757..775]"
  by code_simp

lemma served_protocols:
  "p \<in> set versions_Protocols - {5} \<longleftrightarrow> p = 47 \<or> p = 340 \<or> p \<in> legacy_protocols \<or> p \<in> flat_protocols
     \<or> p \<in> codec_protocols \<or> p \<in> {757..775}"
  unfolding release_protocols set_append set_upto legacy_protocols_def flat_protocols_def codec_protocols_def by auto

text \<open>The dispatch, flow by flow.\<close>

lemma flow_ranges:
  "p \<in> legacy_protocols \<Longrightarrow> 107 \<le> p \<and> p \<le> 338" "p \<in> flat_protocols \<Longrightarrow> 393 \<le> p \<and> p \<le> 578"
  "p \<in> codec_protocols \<Longrightarrow> 735 \<le> p \<and> p \<le> 756"
  by (auto simp: legacy_protocols_def flat_protocols_def codec_protocols_def)

lemma default_table:
  assumes "rt_ModernProtocols r = None"
  obtains configs where "DefaultModernProtocols = Inr configs" "router_modernProtocols r = Inr configs"
  using assms modern_records_load by (auto simp: router_modernProtocols_def DefaultModernProtocols_def)

lemma login_config_default:
  assumes "router_modernProtocols r = Inr configs" "p \<noteq> 47" "p \<noteq> 340"
  shows "login_config r p = (case configFor configs p of Some cfg \<Rightarrow> Inr (packetProtocol cfg, Some cfg) | None \<Rightarrow> Inr (p, None))"
  using assms by (simp add: login_config_def protocol47_def protocol340_def)

text \<open>No protocol is in two of the tables.\<close>

lemma tables_apart:
  "p \<in> legacy_protocols \<Longrightarrow> p \<noteq> 47 \<and> p \<noteq> 340"
  "p \<in> flat_protocols \<Longrightarrow> p \<noteq> 47 \<and> p \<noteq> 340 \<and> p \<notin> legacy_protocols"
  "p \<in> codec_protocols \<Longrightarrow> p \<noteq> 47 \<and> p \<noteq> 340 \<and> p \<notin> legacy_protocols \<and> p \<notin> flat_protocols"
  "757 \<le> p \<Longrightarrow> p \<noteq> 47 \<and> p \<noteq> 340 \<and> p \<notin> legacy_protocols \<and> p \<notin> flat_protocols \<and> p \<notin> codec_protocols"
  by (auto simp: legacy_protocols_def flat_protocols_def codec_protocols_def)

text \<open>What the router does with a logged-in client of a protocol, for the configuration its login chose.\<close>

definition flow_of :: "env \<Rightarrow> outside \<Rightarrow> router \<Rightarrow> services \<Rightarrow> int \<Rightarrow> player \<Rightarrow> (conn, unit) act" where
  "flow_of E ou r sv p pl = bindE (liftE (login_config r p)) (\<lambda>(pp, modern). serve_flow E ou r sv p modern pl)"

lemma flow_of_default:
  assumes "rt_ModernProtocols r = None"
  shows "p = 47 \<Longrightarrow> flow_of E ou r sv p pl = serveProtocol47 E sv pl"
    "p = 340 \<Longrightarrow> flow_of E ou r sv p pl = serveProtocol340 E sv pl"
    "p \<in> legacy_protocols \<Longrightarrow> \<exists>cfg. lc_protocol cfg = p \<and> flow_of E ou r sv p pl = serveLegacyProtocol E sv pl cfg"
    "p \<in> flat_protocols \<Longrightarrow> \<exists>cfg. fc_protocol cfg = p \<and> flow_of E ou r sv p pl = serveFlatProtocol E sv pl cfg"
    "p \<in> codec_protocols \<Longrightarrow> \<exists>cfg. cc_protocol cfg = p \<and>
       flow_of E ou r sv p pl = bindE (liftE (router_registryData ou r)) (serveCodecProtocol E sv pl cfg)"
    "757 \<le> p \<Longrightarrow> p \<le> 775 \<Longrightarrow> \<exists>cfg. mc_protocol cfg = p \<and>
       flow_of E ou r sv p pl = bindE (liftE (router_registryData ou r)) (\<lambda>rd.
         if p \<le> 763 then serveModernPreConfigurationProtocol E sv pl cfg rd else serveModernProtocol E sv pl cfg rd)"
    "p \<notin> set versions_Protocols - {5} \<Longrightarrow> flow_of E ou r sv p pl = writeLoginDisconnect E p
       (''limbgo play support currently implements protocols '' @ supportedPlayProtocols r)"
proof -
  obtain configs where c: "DefaultModernProtocols = Inr configs" "router_modernProtocols r = Inr configs"
    by (rule default_table [OF assms])
  note lc = login_config_default [OF c(2)]
  note none = modern_entry(2) [OF c(1)]
  note unfold = flow_of_def serve_flow_def protocol47_def protocol340_def
  have "login_config r 47 = Inr (47, None)" "login_config r 340 = Inr (340, None)"
    by (simp_all add: login_config_def protocol47_def protocol340_def)
  then show "p = 47 \<Longrightarrow> flow_of E ou r sv p pl = serveProtocol47 E sv pl"
    "p = 340 \<Longrightarrow> flow_of E ou r sv p pl = serveProtocol340 E sv pl" by (simp_all add: unfold result_simps)
  show "\<exists>cfg. lc_protocol cfg = p \<and> flow_of E ou r sv p pl = serveLegacyProtocol E sv pl cfg" if "p \<in> legacy_protocols"
  proof -
    have "configFor configs p = None" using flow_ranges(1) [OF that] by (intro none) simp
    then show ?thesis using that legacy_dom(1) [OF that] tables_apart(1) [OF that] lc [of p]
      by (auto simp: unfold result_simps)
  qed
  show "\<exists>cfg. fc_protocol cfg = p \<and> flow_of E ou r sv p pl = serveFlatProtocol E sv pl cfg" if "p \<in> flat_protocols"
  proof -
    have "configFor configs p = None" using flow_ranges(2) [OF that] by (intro none) simp
    then show ?thesis using that flat_dom(1) [OF that] tables_apart(2) [OF that] legacy_dom(2) [of p] lc [of p]
      by (auto simp: unfold result_simps)
  qed
  show "\<exists>cfg. cc_protocol cfg = p \<and>
       flow_of E ou r sv p pl = bindE (liftE (router_registryData ou r)) (serveCodecProtocol E sv pl cfg)"
    if "p \<in> codec_protocols"
  proof -
    have "configFor configs p = None" using flow_ranges(3) [OF that] by (intro none) simp
    then show ?thesis using that codec_dom(1) [OF that] tables_apart(3) [OF that] legacy_dom(2) [of p] flat_dom(2) [of p] lc [of p]
      by (auto simp: unfold result_simps)
  qed
  show "\<exists>cfg. mc_protocol cfg = p \<and>
       flow_of E ou r sv p pl = bindE (liftE (router_registryData ou r)) (\<lambda>rd.
         if p \<le> 763 then serveModernPreConfigurationProtocol E sv pl cfg rd else serveModernProtocol E sv pl cfg rd)"
    if "757 \<le> p" "p \<le> 775"
  proof -
    have "p \<in> {757..775}" using that by simp
    from modern_entry(1) [OF c(1) this] obtain cfg
      where "configFor configs p = Some cfg" "mc_protocol cfg = p" "mc_preConfiguration cfg \<longleftrightarrow> p \<le> 763" by blast
    then show ?thesis using tables_apart(4) [OF that(1)] legacy_dom(2) [of p] flat_dom(2) [of p] codec_dom(2) [of p] lc [of p]
      by (intro exI [of _ cfg]) (simp add: unfold result_simps)
  qed
  show "flow_of E ou r sv p pl = writeLoginDisconnect E p
       (''limbgo play support currently implements protocols '' @ supportedPlayProtocols r)"
    if "p \<notin> set versions_Protocols - {5}"
  proof -
    have n: "p \<noteq> 47" "p \<noteq> 340" "p \<notin> legacy_protocols" "p \<notin> flat_protocols" "p \<notin> codec_protocols" "p \<notin> {757..775}"
      using that unfolding served_protocols by blast+
    then show ?thesis using none [OF n(6)] lc [of p] legacy_dom(2) [of p] flat_dom(2) [of p] codec_dom(2) [of p]
      by (simp add: unfold result_simps)
  qed
qed

end
