(* ===== verification/Chunk_Decode.thy ===== *)
theory Chunk_Decode
  imports Chunk_Data
begin

text \<open>
  What a client reads of the chunk bodies of the protocols 107 to 756 (\<open>protocol340.go\<close>,
  \<open>protocol_legacy.go\<close>, \<open>protocol_flat.go\<close>, \<open>protocol_codec.go\<close>): for every section its mask names,
  the block count if the protocol has one, the paletted blocks, and the light arrays if it has them.
\<close>

definition client_section :: "bool \<Rightarrow> bool \<Rightarrow> stream \<Rightarrow> (int list \<times> stream) result" where
  "client_section hasCount hasLight s =
    bindR (if hasCount then readFull 2 s else Inr ([], s)) (\<lambda>(_, s1).
    bindR (readPaletted False s1) (\<lambda>(pl, s2).
    bindR (if hasLight then readFull 4096 s2 else Inr ([], s2)) (\<lambda>(_, s3). Inr (decodeBlocks pl, s3))))"

fun client_sections :: "bool \<Rightarrow> bool \<Rightarrow> nat list \<Rightarrow> stream \<Rightarrow> ((nat \<times> int list) list \<times> stream) result" where
  "client_sections hasCount hasLight [] s = Inr ([], s)"
| "client_sections hasCount hasLight (y # ys) s =
    bindR (client_section hasCount hasLight s) (\<lambda>(blocks, s1).
    bindR (client_sections hasCount hasLight ys s1) (\<lambda>(rest, s2). Inr ((y, blocks) # rest, s2)))"

definition client_chunk :: "bool \<Rightarrow> bool \<Rightarrow> 'a::len word \<Rightarrow> stream \<Rightarrow> ((nat \<times> int list) list \<times> stream) result" where
  "client_chunk hasCount hasLight msk s = client_sections hasCount hasLight (filter (\<lambda>y. bit msk y) [0..<16]) s"

text \<open>The blocks of a chunk, section by section: the first of the sections with a height, padded with air.\<close>

definition chunk_blocks :: "blockTable \<Rightarrow> int \<Rightarrow> blockState list \<Rightarrow> chunk \<Rightarrow> (nat \<times> int list) list" where
  "chunk_blocks blocks protocol palette chnk =
    map (\<lambda>y. (y, map int (section_states blocks protocol palette (findSection (ch_Sections chnk) (int y))))) (present chnk)"

text \<open>Chunks whose sections have at most sixteen states each, as the writers need.\<close>

definition few_states :: "blockTable \<Rightarrow> int \<Rightarrow> blockState list \<Rightarrow> chunk \<Rightarrow> bool" where
  "few_states blocks protocol palette chnk \<longleftrightarrow> (\<forall>sec \<in> set (ch_Sections chnk).
     length (buildLocalPaletteModern blocks palette (Some sec) protocol) \<le> 16
     \<and> (\<forall>x \<in> set (buildLocalPaletteModern blocks palette (Some sec) protocol). x < 2 ^ 31))"

definition section_bytes :: "bool \<Rightarrow> bool \<Rightarrow> blockTable \<Rightarrow> int \<Rightarrow> blockState list \<Rightarrow> chunkSection option \<Rightarrow> byte list" where
  "section_bytes hasCount hasLight blocks protocol palette sec =
    (if hasCount then writeShort (int (nonAirBlockCountModern blocks palette sec protocol)) else []) @
    writeBlockStates766 blocks palette sec protocol False @ (if hasLight then replicate 4096 0 else [])"

lemma section_writers:
  "writeSection340 blocks palette sec protocol = section_bytes False True blocks protocol palette sec"
  "writeSectionFlatSolid blocks palette sec protocol = section_bytes True False blocks protocol palette sec"
  by (simp_all add: section_bytes_def writeSection340_paletted writeSectionFlatSolid_def)

lemma client_section_reads:
  assumes "flat s = section_bytes hasCount hasLight blocks protocol palette sec @ rest"
    "length (buildLocalPaletteModern blocks palette sec protocol) \<le> 16"
    "\<forall>x \<in> set (buildLocalPaletteModern blocks palette sec protocol). x < 2 ^ 31"
  shows "\<exists>s'. client_section hasCount hasLight s = Inr (map int (section_states blocks protocol palette sec), s') \<and> flat s' = rest"
proof -
  let ?C = "if hasCount then writeShort (int (nonAirBlockCountModern blocks palette sec protocol)) else []"
  let ?B = "writeBlockStates766 blocks palette sec protocol False"
  let ?L = "if hasLight then replicate 4096 0 else [] :: byte list"
  define s1 where "s1 = advance (length ?C) s"
  define s2 where "s2 = advance (length ?B) s1"
  define s3 where "s3 = advance (length ?L) s2"
  have f: "flat s = ?C @ ?B @ ?L @ rest" using assms(1) by (simp add: section_bytes_def)
  then have f1: "flat s1 = ?B @ ?L @ rest" unfolding s1_def by (rule flat_step)
  then have f2: "flat s2 = ?L @ rest" unfolding s2_def by (rule flat_step)
  then have f3: "flat s3 = rest" unfolding s3_def by (rule flat_step)
  have "length (writeShort v) = 2" for v by simp
  then have c: "(if hasCount then readFull 2 s else Inr ([], s)) = Inr (?C, s1)"
    using readFull_append [of s ?C "?B @ ?L @ rest"] f by (auto simp: s1_def)
  obtain pl where b: "readPaletted False s1 = Inr (pl, s2)"
    "decodeBlocks pl = map int (section_states blocks protocol palette sec)"
    using section_roundtrip [OF f1 assms(3,2)] by (auto simp: s2_def)
  have l: "(if hasLight then readFull 4096 s2 else Inr ([], s2)) = Inr (?L, s3)"
    using readFull_append [of s2 ?L rest] f2 by (auto simp: s3_def)
  show ?thesis using c b l f3 by (simp add: client_section_def)
qed

lemma client_sections_read:
  assumes "flat s = concat (map (\<lambda>y. section_bytes hasCount hasLight blocks protocol palette (sec y)) ys) @ rest"
    "\<forall>y \<in> set ys. length (buildLocalPaletteModern blocks palette (sec y) protocol) \<le> 16
       \<and> (\<forall>x \<in> set (buildLocalPaletteModern blocks palette (sec y) protocol). x < 2 ^ 31)"
  shows "\<exists>s'. client_sections hasCount hasLight ys s
    = Inr (map (\<lambda>y. (y, map int (section_states blocks protocol palette (sec y)))) ys, s') \<and> flat s' = rest"
  using assms
proof (induction ys arbitrary: s)
  case (Cons y ys)
  from client_section_reads [of s hasCount hasLight blocks protocol palette "sec y"
      "concat (map (\<lambda>y. section_bytes hasCount hasLight blocks protocol palette (sec y)) ys) @ rest"] Cons.prems
  obtain s1 where "client_section hasCount hasLight s = Inr (map int (section_states blocks protocol palette (sec y)), s1)"
    "flat s1 = concat (map (\<lambda>y. section_bytes hasCount hasLight blocks protocol palette (sec y)) ys) @ rest" by auto
  with Cons.IH [of s1] Cons.prems(2) show ?case by auto
qed simp

lemma masked_present: "16 \<le> LENGTH('a::len) \<Longrightarrow> filter (\<lambda>y. bit (section_mask chnk :: 'a word) y) [0..<16] = present chnk"
  unfolding present_def by (rule filter_cong) (simp_all add: bit_section_mask)

lemma over_mask_present:
  "16 \<le> LENGTH('a::len) \<Longrightarrow> over_mask (section_mask chnk :: 'a word) f = concat (map f (present chnk))"
  by (simp add: over_mask_section_mask present_def)

text \<open>Any body made of such sections and a tail.\<close>

lemma client_chunk_reads:
  assumes "flat s = over_mask (section_mask chnk :: 'a::len word)
      (\<lambda>y. section_bytes hasCount hasLight blocks protocol palette (findSection (ch_Sections chnk) (int y))) @ rest"
    "few_states blocks protocol palette chnk" "16 \<le> LENGTH('a)"
  shows "\<exists>s'. client_chunk hasCount hasLight (section_mask chnk :: 'a word) s
    = Inr (chunk_blocks blocks protocol palette chnk, s') \<and> flat s' = rest"
proof -
  have "length (buildLocalPaletteModern blocks palette (findSection (ch_Sections chnk) (int y)) protocol) \<le> 16
      \<and> (\<forall>x \<in> set (buildLocalPaletteModern blocks palette (findSection (ch_Sections chnk) (int y)) protocol). x < 2 ^ 31)" for y
  proof (cases "findSection (ch_Sections chnk) (int y)")
    case None
    then show ?thesis by (simp add: buildLocalPaletteModern_def)
  next
    case (Some sec)
    then show ?thesis using assms(2) findSection_Some [OF Some] by (auto simp: few_states_def)
  qed
  then show ?thesis
    using client_sections_read [of s hasCount hasLight blocks protocol palette
        "\<lambda>y. findSection (ch_Sections chnk) (int y)" "present chnk" rest] assms(1)
    by (simp add: client_chunk_def chunk_blocks_def masked_present [OF assms(3)] over_mask_present [OF assms(3)])
qed

end
