(* ===== verification/Adapters.thy ===== *)
theory Adapters
  imports Server
begin

text \<open>
  The pieces a program that embeds limbgo plugs in: event handlers from functions (\<open>events.go\<close>), static
  resolvers (\<open>types.go\<close>), and where registry data comes from (\<open>registrydata.go\<close>, \<open>store.go\<close>).
\<close>

section \<open>Handlers from functions\<close>

record handlerFuncs =
  hf_Join :: "(nat \<Rightarrow> event \<Rightarrow> prog) option"
  hf_Chat :: "(nat \<Rightarrow> event \<Rightarrow> prog) option"
  hf_Command :: "(nat \<Rightarrow> event \<Rightarrow> prog) option"
  hf_DialogClick :: "(nat \<Rightarrow> event \<Rightarrow> prog) option"
  hf_ResourcePackResponse :: "(nat \<Rightarrow> event \<Rightarrow> prog) option"

text \<open>A nil function does nothing and reports no error.\<close>

definition call_or_nil :: "(nat \<Rightarrow> event \<Rightarrow> prog) option \<Rightarrow> nat \<Rightarrow> event \<Rightarrow> prog" where
  "call_or_nil f k ev = (case f of None \<Rightarrow> Return None | Some g \<Rightarrow> g k ev)"

definition funcs_handle :: "handlerFuncs \<Rightarrow> nat \<Rightarrow> event \<Rightarrow> prog" where
  "funcs_handle h k ev = (case ev of
      JoinEvent _ _ \<Rightarrow> call_or_nil (hf_Join h) k ev
    | ChatEvent _ _ _ \<Rightarrow> call_or_nil (hf_Chat h) k ev
    | CommandEvent _ _ _ \<Rightarrow> call_or_nil (hf_Command h) k ev
    | DialogClick _ \<Rightarrow> call_or_nil (hf_DialogClick h) k ev
    | ResourcePackResponse _ \<Rightarrow> call_or_nil (hf_ResourcePackResponse h) k ev)"

text \<open>The adapter has all five methods, so it takes resource pack responses.\<close>

definition funcs_handler :: "handlerFuncs \<Rightarrow> handler" where
  "funcs_handler h = \<lparr>hd_handle = funcs_handle h, hd_resourcePacks = True\<rparr>"

definition TitleTimesTicks :: "int \<Rightarrow> int \<Rightarrow> int \<Rightarrow> titleTimes" where
  "TitleTimesTicks fadeIn stay fadeOut =
    \<lparr>tt_FadeInTicks = fadeIn, tt_StayTicks = stay, tt_FadeOutTicks = fadeOut\<rparr>"

definition no_funcs :: handlerFuncs where
  "no_funcs = \<lparr>hf_Join = None, hf_Chat = None, hf_Command = None, hf_DialogClick = None, hf_ResourcePackResponse = None\<rparr>"

text \<open>Without functions a packet can end the session by being malformed, but it never changes it.\<close>

lemma no_funcs_quiet: "snd (handlePlayPacket E (funcs_handler no_funcs) k p s) = s"
  by (auto simp: handlePlayPacket_def funcs_handler_def funcs_handle_def no_funcs_def call_or_nil_def
      split: sum.split option.split event.split)

text \<open>Only the function of the event's kind decides what happens.\<close>

lemma funcs_handle_chat:
  assumes "hf_Chat h = hf_Chat h'" "packet_event E True s p = Inr (Some (ChatEvent pl m v))"
  shows "handlePlayPacket E (funcs_handler h) k p s = handlePlayPacket E (funcs_handler h') k p s"
  using assms by (simp add: handlePlayPacket_def funcs_handler_def funcs_handle_def)

section \<open>Static resolvers\<close>

definition StaticSpawn :: "spawnTarget \<Rightarrow> player \<Rightarrow> spawnTarget result" where
  "StaticSpawn target pl = Inr target"

definition StaticJoin :: "world option \<Rightarrow> spawnTarget \<Rightarrow> joinResolver" where
  "StaticJoin wrld spawn = \<lparr>jr_ResolveJoin = (\<lambda>pl. Inr \<lparr>jt_World = wrld, jt_Spawn = spawn\<rparr>), jr_ReleaseJoin = None\<rparr>"

text \<open>
  A server with a static join gives every player the same world and spawn, named after the world where
  the spawn names none, and keeps no record of it.
\<close>

definition named_spawn :: "world \<Rightarrow> spawnTarget \<Rightarrow> spawnTarget" where
  "named_spawn w spawn = (if sp_World spawn = '''' then spawn\<lparr>sp_World := w_ID w\<rparr> else spawn)"

lemma static_join_resolves:
  assumes "scf_JoinResolver (srv_cfg s) = Some (StaticJoin (Some w) spawn)"
  shows "server_ResolveJoin s pl = (Inr \<lparr>jt_World = Some w, jt_Spawn = named_spawn w spawn\<rparr>, s)"
    "server_ResolveSpawn s pl = (Inr (named_spawn w spawn), s)"
  using assms
  by (simp_all add: server_ResolveJoin_def server_ResolveSpawn_def resolve_target_def normalizeJoinTarget_def releases_def
      StaticJoin_def named_spawn_def)

section \<open>Registry data of the program\<close>

text \<open>
  \<open>Default\<close>: the embedded archive is loaded once (\<open>sync.Once\<close>); the state is the result kept, \<open>load\<close> what
  loading gives. The functions of the package read through it.
\<close>

type_synonym onceData = "registryData result option"

definition default_data :: "registryData result \<Rightarrow> onceData \<Rightarrow> registryData result \<times> onceData" where
  "default_data load once = (case once of Some r \<Rightarrow> (r, once) | None \<Rightarrow> (load, Some load))"

definition through_default :: "(registryData \<Rightarrow> 'a option) \<Rightarrow> registryData result \<Rightarrow> onceData \<Rightarrow> 'a option \<times> onceData" where
  "through_default f load once = (case default_data load once of
      (Inl e, once1) \<Rightarrow> (None, once1) | (Inr d, once1) \<Rightarrow> (f d, once1))"

definition package_Registries :: "int \<Rightarrow> registryData result \<Rightarrow> onceData \<Rightarrow> registry list option \<times> onceData" where
  "package_Registries protocol = through_default (\<lambda>d. registries d protocol)"

definition package_Tags :: "int \<Rightarrow> registryData result \<Rightarrow> onceData \<Rightarrow> tagRegistry list option \<times> onceData" where
  "package_Tags protocol = through_default (\<lambda>d. tags d protocol)"

definition package_DimensionCodec :: "int \<Rightarrow> registryData result \<Rightarrow> onceData \<Rightarrow> byte list option \<times> onceData" where
  "package_DimensionCodec protocol = through_default (\<lambda>d. dimensionCodec d protocol)"

text \<open>Files: \<open>read\<close> is what \<open>os.ReadFile\<close> gives for the path, \<open>load_zip\<close> is \<open>LoadZipBytes\<close>.\<close>

definition loadZipFile :: "(byte list \<Rightarrow> registryData result) \<Rightarrow> byte list result \<Rightarrow> registryData result" where
  "loadZipFile load_zip read = bindR read load_zip"

definition loadFile :: "(byte list \<Rightarrow> zipFile list result) \<Rightarrow> (byte list \<Rightarrow> encodedProtocolData result) \<Rightarrow>
    (byte list \<Rightarrow> encodedData result) \<Rightarrow> byte list result \<Rightarrow> registryData result" where
  "loadFile unzip unmarshalProtocol unmarshal read = bindR read (loadFileBytes unzip unmarshalProtocol unmarshal)"

definition newStoreFrom :: "registryData result \<Rightarrow> registryData option result" where
  "newStoreFrom loaded = bindR loaded (\<lambda>d. newStore (Some d))"

definition newDefaultStore :: "registryData result \<Rightarrow> onceData \<Rightarrow> registryData option result \<times> onceData" where
  "newDefaultStore load once = (case default_data load once of (r, once1) \<Rightarrow> (newStoreFrom r, once1))"

definition store_updateZipFile :: "(byte list \<Rightarrow> registryData result) \<Rightarrow> byte list result \<Rightarrow> registryData option
    \<Rightarrow> unit result \<times> registryData option" where
  "store_updateZipFile load_zip read st = (case read of Inl e \<Rightarrow> (Inl e, st) | Inr raw \<Rightarrow> store_updateZip (load_zip raw) st)"

text \<open>Once loaded, later loads are not looked at: every reader sees one snapshot.\<close>

lemma default_data_once:
  "default_data load once = (r, once1) \<Longrightarrow> default_data load' once1 = (r, once1) \<and> once1 = Some r"
  by (auto simp: default_data_def split: option.splits)

lemma package_reads_agree:
  assumes "default_data load None = (Inr d, once)"
  shows "fst (package_Registries p load' once) = registries d p" "fst (package_Tags p load' once) = tags d p"
    "fst (package_DimensionCodec p load' once) = dimensionCodec d p"
    "newDefaultStore load' once = (Inr (Some d), once)"
proof -
  have "once = Some (Inr d)" using default_data_once [OF assms] by blast
  then show "fst (package_Registries p load' once) = registries d p" "fst (package_Tags p load' once) = tags d p"
    "fst (package_DimensionCodec p load' once) = dimensionCodec d p" "newDefaultStore load' once = (Inr (Some d), once)"
    by (simp_all add: default_data_def package_Registries_def package_Tags_def package_DimensionCodec_def through_default_def
        newDefaultStore_def newStoreFrom_def newStore_def)
qed

text \<open>A file that cannot be read or loaded leaves the snapshot of a store as it was.\<close>

lemma store_updateZipFile_failed: "store_updateZipFile load_zip read st = (Inl e, st') \<Longrightarrow> st' = st"
  using store_updateZip_failed by (auto simp: store_updateZipFile_def split: sum.splits)

lemma store_updateZipFile_reads:
  "store_updateZipFile load_zip read st = (Inr (), st') \<Longrightarrow> store_registryData st' = bindR read load_zip"
  by (auto simp: store_updateZipFile_def store_updateZip_def store_update_def store_registryData_def split: sum.splits)

end
