(* ===== verification/Dialog.thy ===== *)
theory Dialog
  imports Play_Packets Go_Text "HOL-Library.AList"
begin

text \<open>
  The dialog builders (\<open>dialog/dialog.go\<close>): a dialog is a map of Go values, built field by field and
  normalised before \<open>json.Marshal\<close>. A map is an association list without order; a nil map is \<open>None\<close>.
\<close>

section \<open>Values\<close>

text \<open>The values a field may hold; \<open>DNil\<close> is the nil interface, \<open>DOther\<close> any other value of the caller.\<close>

datatype dvalue =
    DNil
  | DRich component
  | DRaw "(string \<times> dvalue) list option"
  | DMap "(string \<times> dvalue) list"
  | DRaws "(string \<times> dvalue) list option list"
  | DArr "dvalue list"
  | DStr string
  | DInt int
  | DBool bool
  | DFloat f64
  | DOther nat

type_synonym fields = "(string \<times> dvalue) list"
type_synonym raw = "fields option"

abbreviation raw_fields :: "raw \<Rightarrow> fields" where
  "raw_fields r \<equiv> case_option [] id r"


text \<open>\<open>componentJSON.MarshalJSON\<close>: the flags of the codec.\<close>

definition dialog_flags :: codecFlags where
  "dialog_flags =
    \<lparr>cf_UseLegacyFieldNames = False, cf_UseLegacyClickEventStructure = False, cf_UseLegacyHoverEventStructure = False,
     cf_EmitChangePageClickEventPageAsString = False, cf_EmitCompactTextComponent = False,
     cf_EmitHoverShowEntityIdAsIntArray = True, cf_EmitHoverShowEntityKeyAsTypeAndUuidAsId = False,
     cf_EmitDefaultItemHoverQuantity = True, cf_NoDownsampleColor = True, cf_StdJson = True\<rparr>"

definition componentJSON_MarshalJSON :: "env \<Rightarrow> component \<Rightarrow> byte list result" where
  "componentJSON_MarshalJSON E c = ev_marshal E dialog_flags c"

text \<open>What \<open>json.Marshal\<close> gets: components are wrapped in every map and list the code knows.\<close>

fun normalizeJSONValue :: "dvalue \<Rightarrow> jval" where
  "normalizeJSONValue DNil = VNull"
| "normalizeJSONValue (DRich c) = VComponent c"
| "normalizeJSONValue (DRaw r) = VObj (map (\<lambda>(k, v). (k, normalizeJSONValue v)) (case r of None \<Rightarrow> [] | Some fs \<Rightarrow> fs))"
| "normalizeJSONValue (DMap fs) = VObj (map (\<lambda>(k, v). (k, normalizeJSONValue v)) fs)"
| "normalizeJSONValue (DRaws rs) =
     VArr (map (\<lambda>r. VObj (map (\<lambda>(k, v). (k, normalizeJSONValue v)) (case r of None \<Rightarrow> [] | Some fs \<Rightarrow> fs))) rs)"
| "normalizeJSONValue (DArr vs) = VArr (map normalizeJSONValue vs)"
| "normalizeJSONValue (DStr s) = VStr s"
| "normalizeJSONValue (DInt n) = VInt n"
| "normalizeJSONValue (DBool b) = VBool b"
| "normalizeJSONValue (DFloat f) = VFloat f"
| "normalizeJSONValue (DOther n) = VAny n"

definition raw_MarshalJSON :: "env \<Rightarrow> raw \<Rightarrow> byte list result" where
  "raw_MarshalJSON E r = ev_jsonMarshal E (normalizeJSONValue (DRaw r))"

section \<open>Fields\<close>

text \<open>\<open>out[k] = v\<close>, unconditionally and under the conditions of the builders.\<close>

abbreviation put :: "string \<Rightarrow> dvalue \<Rightarrow> fields \<Rightarrow> fields" where
  "put k v out \<equiv> AList.update k v out"

definition put_some :: "string \<Rightarrow> ('a \<Rightarrow> dvalue) \<Rightarrow> 'a option \<Rightarrow> fields \<Rightarrow> fields" where
  "put_some k f m out = (case m of None \<Rightarrow> out | Some v \<Rightarrow> put k (f v) out)"

definition put_pos :: "string \<Rightarrow> int \<Rightarrow> fields \<Rightarrow> fields" where
  "put_pos k n out = (if n > 0 then put k (DInt n) out else out)"

definition put_text :: "string \<Rightarrow> string \<Rightarrow> fields \<Rightarrow> fields" where
  "put_text k s out = (if s \<noteq> '''' then put k (DStr s) out else out)"

definition put_list :: "string \<Rightarrow> raw list \<Rightarrow> fields \<Rightarrow> fields" where
  "put_list k rs out = (if rs \<noteq> [] then put k (DRaws rs) out else out)"

definition put_any :: "string \<Rightarrow> dvalue \<Rightarrow> fields \<Rightarrow> fields" where
  "put_any k v out = (if v \<noteq> DNil then put k v out else out)"

definition put_raw :: "string \<Rightarrow> raw \<Rightarrow> fields \<Rightarrow> fields" where
  "put_raw k r out = (if r \<noteq> None then put k (DRaw r) out else out)"

section \<open>Dialogs\<close>

record dialogCommon =
  cm_Title :: "component option"
  cm_ExternalTitle :: "component option"
  cm_Body :: "raw list"
  cm_Inputs :: "raw list"
  cm_CanCloseWithEscape :: "bool option"
  cm_Pause :: "bool option"
  cm_AfterAction :: string

definition common_apply :: "dialogCommon \<Rightarrow> fields \<Rightarrow> fields" where
  "common_apply c out0 =
    (let out1 = put_some ''title'' DRich (cm_Title c) out0;
         out2 = put_some ''external_title'' DRich (cm_ExternalTitle c) out1;
         out3 = put_list ''body'' (cm_Body c) out2;
         out4 = put_list ''inputs'' (cm_Inputs c) out3;
         out5 = put_some ''can_close_with_escape'' DBool (cm_CanCloseWithEscape c) out4;
         out6 = put_some ''pause'' DBool (cm_Pause c) out5
     in put_text ''after_action'' (cm_AfterAction c) out6)"

record actionButton =
  ab_Label :: "component option"
  ab_Tooltip :: "component option"
  ab_Width :: int
  ab_Action :: raw

definition no_button :: actionButton where
  "no_button = \<lparr>ab_Label = None, ab_Tooltip = None, ab_Width = 0, ab_Action = None\<rparr>"

definition Button :: "component option \<Rightarrow> raw \<Rightarrow> actionButton" where
  "Button label action = \<lparr>ab_Label = label, ab_Tooltip = None, ab_Width = 0, ab_Action = action\<rparr>"

definition button_raw :: "actionButton \<Rightarrow> raw" where
  "button_raw b =
    (if ab_Label b = None \<and> ab_Tooltip b = None \<and> ab_Width b = 0 \<and> ab_Action b = None then None
     else Some (put_raw ''action'' (ab_Action b) (put_pos ''width'' (ab_Width b)
       (put_some ''tooltip'' DRich (ab_Tooltip b) (put_some ''label'' DRich (ab_Label b) [])))))"

definition typed :: "string \<Rightarrow> fields" where "typed t = [(''type'', DStr t)]"

definition dialog_Notice :: "dialogCommon \<Rightarrow> actionButton \<Rightarrow> fields" where
  "dialog_Notice common action = put_raw ''action'' (button_raw action) (common_apply common (typed ''minecraft:notice''))"

definition dialog_Confirmation :: "dialogCommon \<Rightarrow> actionButton \<Rightarrow> actionButton \<Rightarrow> fields" where
  "dialog_Confirmation common yes no =
    (let out = common_apply common (typed ''minecraft:confirmation'')
     in put ''no'' (DRaw (button_raw no)) (put ''yes'' (DRaw (button_raw yes)) out))"

definition dialog_MultiActionWithExit :: "dialogCommon \<Rightarrow> actionButton list \<Rightarrow> actionButton \<Rightarrow> int \<Rightarrow> fields" where
  "dialog_MultiActionWithExit common actions exitAction columns =
    (let out1 = common_apply common (typed ''minecraft:multi_action'');
         out2 = put_list ''actions'' (map button_raw actions) out1;
         out3 = put_raw ''exit_action'' (button_raw exitAction) out2
     in put_pos ''columns'' columns out3)"

definition dialog_MultiAction :: "dialogCommon \<Rightarrow> actionButton list \<Rightarrow> int \<Rightarrow> fields" where
  "dialog_MultiAction common actions columns = dialog_MultiActionWithExit common actions no_button columns"

definition dialog_DialogList :: "dialogCommon \<Rightarrow> dvalue \<Rightarrow> actionButton \<Rightarrow> int \<Rightarrow> int \<Rightarrow> fields" where
  "dialog_DialogList common dialogs action columns buttonWidth =
    (let out1 = common_apply common (typed ''minecraft:dialog_list'');
         out2 = put_any ''dialogs'' dialogs out1;
         out3 = put_raw ''exit_action'' (button_raw action) out2;
         out4 = put_pos ''columns'' columns out3
     in put_pos ''button_width'' buttonWidth out4)"

definition dialog_ServerLinksWithOptions :: "dialogCommon \<Rightarrow> actionButton \<Rightarrow> int \<Rightarrow> int \<Rightarrow> fields" where
  "dialog_ServerLinksWithOptions common action columns buttonWidth =
    (let out1 = common_apply common (typed ''minecraft:server_links'');
         out2 = put_raw ''exit_action'' (button_raw action) out1;
         out3 = put_pos ''columns'' columns out2
     in put_pos ''button_width'' buttonWidth out3)"

definition dialog_ServerLinks :: "dialogCommon \<Rightarrow> actionButton \<Rightarrow> fields" where
  "dialog_ServerLinks common action = dialog_ServerLinksWithOptions common action 0 0"

section \<open>Bodies and inputs\<close>

text \<open>A component argument stored without a test: nil is the nil interface.\<close>

definition rich_or_nil :: "component option \<Rightarrow> dvalue" where
  "rich_or_nil m = (case m of None \<Rightarrow> DNil | Some c \<Rightarrow> DRich c)"

definition dialog_PlainMessage :: "component option \<Rightarrow> int \<Rightarrow> fields" where
  "dialog_PlainMessage contents width =
    put_pos ''width'' width [(''type'', DStr ''minecraft:plain_message''), (''contents'', rich_or_nil contents)]"

definition dialog_ItemDescription :: "component option \<Rightarrow> int \<Rightarrow> fields" where
  "dialog_ItemDescription contents width = put_pos ''width'' width (put_some ''contents'' DRich contents [])"

definition dialog_ItemWithDescription :: "dvalue \<Rightarrow> dvalue \<Rightarrow> bool option \<Rightarrow> bool option \<Rightarrow> int \<Rightarrow> int \<Rightarrow> fields" where
  "dialog_ItemWithDescription item description showDecorations showTooltip width height =
    (let out1 = [(''type'', DStr ''minecraft:item''), (''item'', item)];
         out2 = put_any ''description'' description out1;
         out3 = put_some ''show_decorations'' DBool showDecorations out2;
         out4 = put_some ''show_tooltip'' DBool showTooltip out3;
         out5 = put_pos ''width'' width out4
     in put_pos ''height'' height out5)"

definition dialog_Item :: "dvalue \<Rightarrow> component option \<Rightarrow> bool option \<Rightarrow> bool option \<Rightarrow> int \<Rightarrow> int \<Rightarrow> fields" where
  "dialog_Item item description showDecorations showTooltip width height =
    dialog_ItemWithDescription item (rich_or_nil description) showDecorations showTooltip width height"

record textInputOptions =
  ti_Initial :: string
  ti_MaxLength :: int
  ti_Width :: int
  ti_LabelVisible :: "bool option"
  ti_Multiline :: bool
  ti_MultilineLines :: int
  ti_MultilineHeight :: int

definition dialog_TextInput :: "string \<Rightarrow> component option \<Rightarrow> textInputOptions \<Rightarrow> fields" where
  "dialog_TextInput key label options =
    (let out1 = [(''type'', DStr ''minecraft:text''), (''key'', DStr key)];
         out2 = put_some ''label'' DRich label out1;
         out3 = put_text ''initial'' (ti_Initial options) out2;
         out4 = put_pos ''max_length'' (ti_MaxLength options) out3;
         out5 = put_pos ''width'' (ti_Width options) out4;
         out6 = put_some ''label_visible'' DBool (ti_LabelVisible options) out5
     in if ti_Multiline options
        then put ''multiline'' (DRaw (Some (put_pos ''height'' (ti_MultilineHeight options)
               (put_pos ''max_lines'' (ti_MultilineLines options) [])))) out6
        else out6)"

definition dialog_BooleanInput :: "string \<Rightarrow> component option \<Rightarrow> bool \<Rightarrow> string \<Rightarrow> string \<Rightarrow> fields" where
  "dialog_BooleanInput key label initial onTrue onFalse =
    (let out1 = [(''type'', DStr ''minecraft:boolean''), (''key'', DStr key)];
         out2 = put_some ''label'' DRich label out1;
         out3 = put ''initial'' (DBool initial) out2;
         out4 = put_text ''on_true'' onTrue out3
     in put_text ''on_false'' onFalse out4)"

record dialogOption =
  op_ID :: string
  op_Display :: "component option"
  op_Initial :: bool

definition option_raw :: "dialogOption \<Rightarrow> raw" where
  "option_raw opt =
    (let out1 = put_some ''display'' DRich (op_Display opt) [(''id'', DStr (op_ID opt))]
     in Some (if op_Initial opt then put ''initial'' (DBool True) out1 else out1))"

record singleOptionInputOptions =
  so_Initial :: string
  so_Width :: int
  so_LabelVisible :: "bool option"

definition select_initial :: "string \<Rightarrow> dialogOption \<Rightarrow> dialogOption" where
  "select_initial initial opt = (if initial \<noteq> '''' \<and> op_ID opt = initial then opt\<lparr>op_Initial := True\<rparr> else opt)"

definition dialog_SingleOptionInputWithOptions ::
    "string \<Rightarrow> component option \<Rightarrow> dialogOption list \<Rightarrow> singleOptionInputOptions \<Rightarrow> fields" where
  "dialog_SingleOptionInputWithOptions key label options inputOptions =
    (let out1 = [(''type'', DStr ''minecraft:single_option''), (''key'', DStr key)];
         out2 = put_some ''label'' DRich label out1;
         out3 = put_some ''label_visible'' DBool (so_LabelVisible inputOptions) out2;
         out4 = put_list ''options'' (map (\<lambda>opt. option_raw (select_initial (so_Initial inputOptions) opt)) options) out3
     in put_pos ''width'' (so_Width inputOptions) out4)"

definition dialog_SingleOptionInput :: "string \<Rightarrow> component option \<Rightarrow> dialogOption list \<Rightarrow> string \<Rightarrow> int \<Rightarrow> fields" where
  "dialog_SingleOptionInput key label options initial width =
    dialog_SingleOptionInputWithOptions key label options
      \<lparr>so_Initial = initial, so_Width = width, so_LabelVisible = None\<rparr>"

record numberRangeOptions =
  nr_Start :: f64
  nr_End :: f64
  nr_Initial :: "f64 option"
  nr_Step :: "f64 option"
  nr_Width :: int
  nr_LabelFormat :: string

definition dialog_NumberRangeInput :: "string \<Rightarrow> component option \<Rightarrow> numberRangeOptions \<Rightarrow> fields" where
  "dialog_NumberRangeInput key label options =
    (let out1 = [(''type'', DStr ''minecraft:number_range''), (''key'', DStr key), (''start'', DFloat (nr_Start options)),
           (''end'', DFloat (nr_End options))];
         out2 = put_some ''label'' DRich label out1;
         out3 = put_text ''label_format'' (nr_LabelFormat options) out2;
         out4 = put_some ''initial'' DFloat (nr_Initial options) out3;
         out5 = put_some ''step'' DFloat (nr_Step options) out4
     in put_pos ''width'' (nr_Width options) out5)"

section \<open>Actions\<close>

definition action_of :: "string \<Rightarrow> string \<Rightarrow> dvalue \<Rightarrow> fields" where
  "action_of t k v = [(''type'', DStr t), (k, v)]"

definition dialog_RunCommand :: "string \<Rightarrow> fields" where
  "dialog_RunCommand command = action_of ''run_command'' ''command'' (DStr command)"

definition dialog_SuggestCommand :: "string \<Rightarrow> fields" where
  "dialog_SuggestCommand command = action_of ''suggest_command'' ''command'' (DStr command)"

definition dialog_OpenURL :: "string \<Rightarrow> fields" where
  "dialog_OpenURL url = action_of ''open_url'' ''url'' (DStr url)"

definition dialog_CopyToClipboard :: "string \<Rightarrow> fields" where
  "dialog_CopyToClipboard value = action_of ''copy_to_clipboard'' ''value'' (DStr value)"

definition dialog_ChangePage :: "int \<Rightarrow> fields" where
  "dialog_ChangePage page = action_of ''change_page'' ''page'' (DInt page)"

definition dialog_ShowDialog :: "dvalue \<Rightarrow> fields" where
  "dialog_ShowDialog dialog = action_of ''show_dialog'' ''dialog'' dialog"

definition dialog_Custom :: "string \<Rightarrow> dvalue \<Rightarrow> fields" where
  "dialog_Custom ident data = put_any ''payload'' data (action_of ''custom'' ''id'' (DStr ident))"

definition dialog_DynamicRunCommand :: "string \<Rightarrow> fields" where
  "dialog_DynamicRunCommand template = action_of ''minecraft:dynamic/run_command'' ''template'' (DStr template)"

definition dialog_DynamicCustom :: "string \<Rightarrow> dvalue \<Rightarrow> fields" where
  "dialog_DynamicCustom ident additions =
    put_any ''additions'' additions (action_of ''minecraft:dynamic/custom'' ''id'' (DStr ident))"

section \<open>What a client gets\<close>

text \<open>
  The value a decoder finds in what \<open>json.Marshal\<close> wrote: strings become valid UTF-8, integers their
  decimals; the texts of floats and of the values of other packages are parameters.
\<close>

record json_spec =
  js_float :: "f64 \<Rightarrow> string"
  js_component :: "component \<Rightarrow> json"
  js_other :: "nat \<Rightarrow> json"
  js_raw :: "byte list \<Rightarrow> json"

definition to_valid :: "string \<Rightarrow> string" where
  "to_valid s = concat (map encodeRune (runes s))"

fun json_of :: "json_spec \<Rightarrow> jval \<Rightarrow> json" where
  "json_of S (VStr s) = JStr (to_valid s)"
| "json_of S (VInt n) = JNum (itoa n)"
| "json_of S (VBool b) = JBool b"
| "json_of S (VRaw bs) = js_raw S bs"
| "json_of S VNull = JNull"
| "json_of S (VFloat f) = JNum (js_float S f)"
| "json_of S (VComponent c) = js_component S c"
| "json_of S (VArr vs) = JArr (map (json_of S) vs)"
| "json_of S (VObj fs) = JObj (map (\<lambda>(k, v). (to_valid k, json_of S v)) fs)"
| "json_of S (VAny n) = js_other S n"

definition value_json :: "json_spec \<Rightarrow> dvalue \<Rightarrow> json" where
  "value_json S v = json_of S (normalizeJSONValue v)"

definition value_ok :: "json_spec \<Rightarrow> dvalue \<Rightarrow> bool" where
  "value_ok S v \<longleftrightarrow> json_ok (value_json S v)"

definition fields_ok :: "json_spec \<Rightarrow> fields \<Rightarrow> bool" where
  "fields_ok S fs \<longleftrightarrow> (\<forall>(k, v) \<in> set fs. length (to_valid k) < 65536 \<and> value_ok S v)"

lemma value_json_raw: "value_json S (DRaw r) = JObj (map (\<lambda>(k, v). (to_valid k, value_json S v)) (raw_fields r))"
  by (cases r) (auto simp: value_json_def comp_def)

lemma value_ok_raw: "value_ok S (DRaw r) \<longleftrightarrow> fields_ok S (raw_fields r)"
  by (auto simp: value_ok_def value_json_raw fields_ok_def)

text \<open>A list of maps is always a list of one kind of element.\<close>

lemma value_json_raws: "value_json S (DRaws rs) = JArr (map (\<lambda>r. value_json S (DRaw r)) rs)"
  by (simp add: value_json_def comp_def)

lemma value_ok_raws: "value_ok S (DRaws rs) \<longleftrightarrow> length rs < 2 ^ 31 \<and> (\<forall>r \<in> set rs. fields_ok S (raw_fields r))"
  by (cases rs) (auto simp: value_ok_def value_json_raws value_json_raw fields_ok_def)

lemma to_valid_id: "valid_utf8 s \<Longrightarrow> to_valid s = s"
  by (simp add: to_valid_def concat_runes)

lemma value_ok_simps [simp]:
  "value_ok S (DBool b)" "value_ok S (DStr s) \<longleftrightarrow> length (to_valid s) < 65536" "value_ok S (DRich c) \<longleftrightarrow> json_ok (js_component S c)"
  "\<not> value_ok S DNil"
  by (simp_all add: value_ok_def value_json_def)

lemma itoa_digits: "c \<in> set (itoa n) \<Longrightarrow> isDigit c \<or> c = CHR ''-''"
  using isDigit_showNat by (auto simp: itoa_def list_all_iff split: if_splits)

lemma jsonNumberNBTTag_itoa: "is_int64 n \<Longrightarrow> jsonNumberNBTTag (itoa n) = Inr nbtInt"
  using itoa_digits [of _ n] parseInt64_itoa [of n] by (fastforce simp: jsonNumberNBTTag_def isDigit_def)

lemma value_ok_int [simp]: "is_int64 n \<Longrightarrow> value_ok S (DInt n)"
  by (simp add: value_ok_def value_json_def jsonNumberNBTTag_itoa)

text \<open>Strings the code writes itself.\<close>

lemma to_valid_ascii: "is_ascii s \<Longrightarrow> to_valid s = s"
proof (induction s)
  case (Cons c s)
  then have c: "of_char c < (0x80 :: nat)" by (simp add: is_ascii_def)
  then have "runes (c # s) = of_char c # runes s" by (simp add: runes.simps [of "c # s"] decodeRune_def decode_bytes_def)
  moreover have "encodeRune (of_char c) = [c]" using c by (simp add: encodeRune_def encode_bytes_def)
  ultimately show ?case using Cons by (simp add: to_valid_def is_ascii_def)
qed (simp add: to_valid_def)

definition key_ok :: "string \<Rightarrow> bool" where
  "key_ok k \<longleftrightarrow> is_ascii k \<and> length k < 65536"

lemma fields_ok_put: "key_ok k \<Longrightarrow> value_ok S v \<Longrightarrow> fields_ok S fs \<Longrightarrow> fields_ok S (put k v fs)"
  by (induction fs) (auto simp: fields_ok_def to_valid_ascii key_ok_def)

lemma fields_ok_simps [simp]:
  "fields_ok S []"
  "key_ok k \<Longrightarrow> fields_ok S ((k, v) # fs) \<longleftrightarrow> value_ok S v \<and> fields_ok S fs"
  by (auto simp: fields_ok_def to_valid_ascii key_ok_def)

text \<open>What the parts of a dialog must be: their components and strings within range.\<close>

definition rich_ok :: "json_spec \<Rightarrow> component option \<Rightarrow> bool" where
  "rich_ok S m \<longleftrightarrow> (\<forall>c. m = Some c \<longrightarrow> json_ok (js_component S c))"

definition text_ok :: "string \<Rightarrow> bool" where
  "text_ok s \<longleftrightarrow> length (to_valid s) < 65536"

definition raws_ok :: "json_spec \<Rightarrow> raw list \<Rightarrow> bool" where
  "raws_ok S rs \<longleftrightarrow> length rs < 2 ^ 31 \<and> (\<forall>r \<in> set rs. fields_ok S (raw_fields r))"

named_theorems dialog_puts

lemma put_ok [dialog_puts]:
  "key_ok k \<Longrightarrow> rich_ok S m \<Longrightarrow> fields_ok S fs \<Longrightarrow> fields_ok S (put_some k DRich m fs)"
  "key_ok k \<Longrightarrow> fields_ok S fs \<Longrightarrow> fields_ok S (put_some k DBool b fs)"
  "key_ok k \<Longrightarrow> is_int64 n \<Longrightarrow> fields_ok S fs \<Longrightarrow> fields_ok S (put_pos k n fs)"
  "key_ok k \<Longrightarrow> text_ok s \<Longrightarrow> fields_ok S fs \<Longrightarrow> fields_ok S (put_text k s fs)"
  "key_ok k \<Longrightarrow> raws_ok S rs \<Longrightarrow> fields_ok S fs \<Longrightarrow> fields_ok S (put_list k rs fs)"
  "key_ok k \<Longrightarrow> v = DNil \<or> value_ok S v \<Longrightarrow> fields_ok S fs \<Longrightarrow> fields_ok S (put_any k v fs)"
  "key_ok k \<Longrightarrow> fields_ok S (raw_fields r) \<Longrightarrow> fields_ok S fs \<Longrightarrow> fields_ok S (put_raw k r fs)"
  by (auto simp: put_some_def put_pos_def put_text_def put_list_def put_any_def put_raw_def rich_ok_def text_ok_def raws_ok_def
      value_ok_raws value_ok_raw intro!: fields_ok_put split: option.split)

definition button_ok :: "json_spec \<Rightarrow> actionButton \<Rightarrow> bool" where
  "button_ok S b \<longleftrightarrow> rich_ok S (ab_Label b) \<and> rich_ok S (ab_Tooltip b) \<and> is_int64 (ab_Width b) \<and> fields_ok S (raw_fields (ab_Action b))"

definition common_ok :: "json_spec \<Rightarrow> dialogCommon \<Rightarrow> bool" where
  "common_ok S c \<longleftrightarrow> rich_ok S (cm_Title c) \<and> rich_ok S (cm_ExternalTitle c) \<and> raws_ok S (cm_Body c) \<and> raws_ok S (cm_Inputs c)
     \<and> text_ok (cm_AfterAction c)"

lemma button_raw_ok [dialog_puts]: "button_ok S b \<Longrightarrow> fields_ok S (raw_fields (button_raw b))"
  by (auto simp: button_raw_def button_ok_def key_ok_def is_ascii_def intro!: dialog_puts)

lemma typed_ok: "is_ascii t \<Longrightarrow> length t < 65536 \<Longrightarrow> fields_ok S (typed t)"
  by (simp add: typed_def key_ok_def is_ascii_def to_valid_ascii)

lemma common_apply_ok [dialog_puts]: "common_ok S c \<Longrightarrow> fields_ok S fs \<Longrightarrow> fields_ok S (common_apply c fs)"
  unfolding common_apply_def Let_def common_ok_def
  by (intro dialog_puts) (auto simp: key_ok_def is_ascii_def)

text \<open>Every dialog builder keeps its parts within what the conversion to NBT carries.\<close>

lemma Notice_ok: "common_ok S c \<Longrightarrow> button_ok S b \<Longrightarrow> fields_ok S (dialog_Notice c b)"
  unfolding dialog_Notice_def by (intro dialog_puts typed_ok) (auto simp: key_ok_def is_ascii_def)

lemma Confirmation_ok:
  "common_ok S c \<Longrightarrow> button_ok S y \<Longrightarrow> button_ok S n \<Longrightarrow> fields_ok S (dialog_Confirmation c y n)"
  unfolding dialog_Confirmation_def Let_def
  by (intro fields_ok_put dialog_puts typed_ok) (auto simp: key_ok_def is_ascii_def value_ok_raw dialog_puts)

lemma MultiAction_ok:
  assumes "common_ok S c" "\<forall>b \<in> set bs. button_ok S b" "length bs < 2 ^ 31" "button_ok S e" "is_int64 n"
  shows "fields_ok S (dialog_MultiActionWithExit c bs e n)"
proof -
  have "raws_ok S (map button_raw bs)" using assms(2,3) by (auto simp: raws_ok_def button_raw_ok)
  then show ?thesis unfolding dialog_MultiActionWithExit_def Let_def
    using assms by (intro dialog_puts typed_ok) (auto simp: key_ok_def is_ascii_def)
qed

lemma DialogList_ok:
  assumes "common_ok S c" "v = DNil \<or> value_ok S v" "button_ok S b" "is_int64 n" "is_int64 w"
  shows "fields_ok S (dialog_DialogList c v b n w)"
  unfolding dialog_DialogList_def Let_def
  using assms by (intro dialog_puts typed_ok) (auto simp: key_ok_def is_ascii_def)

lemma ServerLinks_ok:
  assumes "common_ok S c" "button_ok S b" "is_int64 n" "is_int64 w"
  shows "fields_ok S (dialog_ServerLinksWithOptions c b n w)"
  unfolding dialog_ServerLinksWithOptions_def Let_def
  using assms by (intro dialog_puts typed_ok) (auto simp: key_ok_def is_ascii_def)

text \<open>Bodies and inputs.\<close>

lemma PlainMessage_ok: "json_ok (js_component S c) \<Longrightarrow> is_int64 w \<Longrightarrow> fields_ok S (dialog_PlainMessage (Some c) w)"
  unfolding dialog_PlainMessage_def
  by (intro dialog_puts) (auto simp: key_ok_def is_ascii_def rich_or_nil_def to_valid_ascii)

lemma TextInput_ok:
  assumes "text_ok key" "rich_ok S label" "text_ok (ti_Initial opts)" "is_int64 (ti_MaxLength opts)" "is_int64 (ti_Width opts)"
    "is_int64 (ti_MultilineLines opts)" "is_int64 (ti_MultilineHeight opts)"
  shows "fields_ok S (dialog_TextInput key label opts)"
proof -
  have keys: "key_ok ''height''" "key_ok ''max_lines''" "key_ok ''multiline''" "key_ok ''label''" "key_ok ''initial''"
    "key_ok ''max_length''" "key_ok ''width''" "key_ok ''label_visible''" "key_ok ''type''" "key_ok ''key''" by (simp_all add: key_ok_def is_ascii_def)
  have base: "fields_ok S [(''type'', DStr ''minecraft:text''), (''key'', DStr key)]"
    using assms(1) keys by (simp add: text_ok_def to_valid_ascii is_ascii_def)
  have multi: "value_ok S (DRaw (Some (put_pos ''height'' (ti_MultilineHeight opts) (put_pos ''max_lines'' (ti_MultilineLines opts) []))))"
    unfolding value_ok_raw using assms(6,7) keys by (auto intro!: dialog_puts)
  show ?thesis unfolding dialog_TextInput_def Let_def
    using assms keys base multi by (auto intro!: dialog_puts fields_ok_put)
qed

text \<open>The option whose id is the initial one is marked, the others are as given.\<close>

lemma select_initial_marks:
  "initial \<noteq> '''' \<Longrightarrow> op_Initial (select_initial initial opt) \<longleftrightarrow> op_Initial opt \<or> op_ID opt = initial"
  "select_initial '''' opt = opt"
  by (simp_all add: select_initial_def)

section \<open>The fields of a dialog\<close>

lemma map_of_put [simp]:
  "map_of (put_some k f m fs) = (case m of None \<Rightarrow> map_of fs | Some v \<Rightarrow> (map_of fs)(k \<mapsto> f v))"
  "map_of (put_text k s fs) = (if s = [] then map_of fs else (map_of fs)(k \<mapsto> DStr s))"
  "map_of (put_list k rs fs) = (if rs = [] then map_of fs else (map_of fs)(k \<mapsto> DRaws rs))"
  "map_of (put_pos k n fs) = (if n \<le> 0 then map_of fs else (map_of fs)(k \<mapsto> DInt n))"
  "map_of (put_raw k r fs) = (case r of None \<Rightarrow> map_of fs | Some _ \<Rightarrow> (map_of fs)(k \<mapsto> DRaw r))"
  by (auto simp: put_some_def put_text_def put_list_def put_pos_def put_raw_def update_conv' split: option.split)

text \<open>The shared fields are there exactly when they are set, and everything else is left alone.\<close>

definition common_field :: "dialogCommon \<Rightarrow> string \<Rightarrow> dvalue option" where
  "common_field c k =
    (if k = ''title'' then map_option DRich (cm_Title c)
     else if k = ''external_title'' then map_option DRich (cm_ExternalTitle c)
     else if k = ''body'' then (if cm_Body c = [] then None else Some (DRaws (cm_Body c)))
     else if k = ''inputs'' then (if cm_Inputs c = [] then None else Some (DRaws (cm_Inputs c)))
     else if k = ''can_close_with_escape'' then map_option DBool (cm_CanCloseWithEscape c)
     else if k = ''pause'' then map_option DBool (cm_Pause c)
     else if k = ''after_action'' then (if cm_AfterAction c = [] then None else Some (DStr (cm_AfterAction c)))
     else None)"

lemma common_apply_fields:
  "map_of (common_apply c fs) k = (case common_field c k of Some v \<Rightarrow> Some v | None \<Rightarrow> map_of fs k)"
  by (cases "cm_Title c"; cases "cm_ExternalTitle c"; cases "cm_CanCloseWithEscape c"; cases "cm_Pause c")
    (simp_all add: common_apply_def common_field_def)

lemma Notice_fields:
  "map_of (dialog_Notice c b) k =
    (if k = ''type'' then Some (DStr ''minecraft:notice'')
     else if k = ''action'' then map_option (\<lambda>r. DRaw (Some r)) (button_raw b)
     else common_field c k)"
  by (cases "button_raw b") (simp_all add: dialog_Notice_def common_apply_fields typed_def common_field_def split: option.split)

section \<open>Through the NBT conversion\<close>

text \<open>The fields of a dialog as the client reads them.\<close>

definition client_fields :: "json_spec \<Rightarrow> fields \<Rightarrow> (string \<times> nbt) list" where
  "client_fields S fs = map (\<lambda>(k, v). (to_valid k, tree_of (value_json S v))) fs"

lemma dialog_decodes:
  assumes "fields_ok S d" "nbt_depth (NCompound (client_fields S d)) \<le> fuel" "ev_jsonDecode E bs = Inr (value_json S (DRaw (Some d)))"
  shows "\<exists>out. jsonNBT E bs = Inr out \<and> d_anonymous fuel out = Some (NCompound (client_fields S d), [])"
proof -
  let ?j = "value_json S (DRaw (Some d))"
  have "json_ok ?j" using assms(1) value_ok_raw [of S "Some d"] by (simp add: value_ok_def)
  moreover have "tree_of ?j = NCompound (client_fields S d)"
    by (simp add: value_json_raw client_fields_def comp_def case_prod_unfold)
  ultimately show ?thesis
    using writeAnonymousJSONNBT_decodes [of ?j fuel] assms(2,3) by (simp add: jsonNBT_def componentJSONToAnonymousNBT_def)
qed

lemma dialog_sent:
  assumes "clientID E ad ''show_dialog'' = Some i" "raw_MarshalJSON E (Some d) = Inr bs"
    "ev_jsonDecode E bs = Inr (value_json S (DRaw (Some d)))" "fields_ok S d" "nbt_depth (NCompound (client_fields S d)) \<le> fuel"
  shows "\<exists>out. sends (writeShowDialog E ad (Some (raw_MarshalJSON E (Some d)))) [mk_packet i (writeVarInt 0 @ out)]
    \<and> d_anonymous fuel out = Some (NCompound (client_fields S d), [])"
proof -
  obtain out where out: "jsonNBT E bs = Inr out" "d_anonymous fuel out = Some (NCompound (client_fields S d), [])"
    using dialog_decodes [OF assms(4,5,3)] by blast
  then have "writeShowDialog E ad (Some (raw_MarshalJSON E (Some d))) = writePacket (mk_packet i (writeVarInt 0 @ out))"
    using assms(1,2) by (simp add: writeShowDialog_def emit_def bindE_def liftE_def fun_eq_iff)
  then show ?thesis using out(2) sends_writePacket by auto
qed

end
