(* ===== verification/Mini_Tags.thy ===== *)
theory Mini_Tags
  imports Go_Text Go_Number
begin

text \<open>
  The MiniMessage parser (\<open>minimessage/minimessage.go\<close>), first half: from text to a tree of tags. The
  colour, component, key and uuid packages are parameters (\<open>mm_env\<close>); a colour is an opaque number.
\<close>

type_synonym mm_color = nat

text \<open>
  What the code takes from other packages: Unicode lower case, \<open>color.Hex\<close>, \<open>color.Names\<close> and its constants,
  \<open>RGBA\<close> (16 bits per channel), \<open>HexInt\<close>, the \<open>key\<close> package, \<open>uuid.Parse\<close>, \<open>ParseFloat\<close> (\<open>None\<close> its error) and
  the int a NaN converts to.
\<close>

datatype go_float = Finite rat | NotANumber | PosInf | NegInf

record mm_env =
  mx_lower :: "string \<Rightarrow> string"
  mx_Hex :: "string \<Rightarrow> mm_color option"
  mx_Names :: "string \<Rightarrow> mm_color option"
  mx_White :: mm_color
  mx_Aqua :: mm_color
  mx_Red :: mm_color
  mx_RGBA :: "mm_color \<Rightarrow> nat \<times> nat \<times> nat"
  mx_HexInt :: "int \<Rightarrow> mm_color"
  mx_MinecraftNamespace :: string
  mx_key :: "string \<Rightarrow> string option"
  mx_uuid :: "string \<Rightarrow> byte list option"
  mx_ParseFloat :: "string \<Rightarrow> go_float option"
  mx_int_NaN :: int

section \<open>Tags\<close>

record mm_tag =
  tg_name :: string
  tg_args :: "string list"
  tg_literal :: string

text \<open>\<open>node\<close>: a text node has no tag and no children, a tag node no text.\<close>

datatype mm_node = Node (nd_text: string) (nd_tag: mm_tag) (nd_children: "mm_node list")

definition no_tag :: mm_tag where "no_tag = \<lparr>tg_name = [], tg_args = [], tg_literal = []\<rparr>"

abbreviation TextNode :: "string \<Rightarrow> mm_node" where "TextNode t \<equiv> Node t no_tag []"
abbreviation TagNode :: "mm_tag \<Rightarrow> mm_node list \<Rightarrow> mm_node" where "TagNode t ns \<equiv> Node [] t ns"

text \<open>\<open>findTagEnd\<close>: the offset of the closing bracket; the quote is the rune that ends the quotation.\<close>

function findTagEnd :: "nat option \<Rightarrow> string \<Rightarrow> nat option" where
  "findTagEnd quote s = (if s = [] then None
     else (let (r, k) = decodeRune s; t = drop k s in
       case quote of
         Some q \<Rightarrow>
           if r = 92 then
             (if t = [] then None
              else (let nx = snd (decodeRune t) in map_option ((+) (k + nx)) (findTagEnd quote (drop nx t))))
           else map_option ((+) k) (findTagEnd (if r = q then None else quote) t)
       | None \<Rightarrow>
           if r = 39 \<or> r = 34 then map_option ((+) k) (findTagEnd (Some r) t)
           else if r = 62 then Some 0
           else map_option ((+) k) (findTagEnd None t)))"
  by pat_completeness auto

lemma drop_rune_less: "s \<noteq> [] \<Longrightarrow> (r, k) = decodeRune s \<Longrightarrow> length s - k < length s"
  using decodeRune_size [of s r k] by auto

lemma drop_drop_rune_less: "s \<noteq> [] \<Longrightarrow> (r, k) = decodeRune s \<Longrightarrow> length s - (k + m) < length s"
  using drop_rune_less [of s r k] by linarith

termination findTagEnd
  by (relation "measure (\<lambda>(_, s). length s)") (auto dest: drop_rune_less intro: drop_drop_rune_less)

declare findTagEnd.simps [simp del]

function splitArgs_loop :: "nat option \<Rightarrow> string \<Rightarrow> string \<Rightarrow> string list option" where
  "splitArgs_loop quote cur s = (if s = [] then (if quote \<noteq> None then None else Some [cur])
     else (let (r, k) = decodeRune s; t = drop k s in
       case quote of
         Some q \<Rightarrow>
           if r = 92 then
             (if t = [] then splitArgs_loop quote cur t
              else (let (n, nsize) = decodeRune t in splitArgs_loop quote (cur @ encodeRune n) (drop nsize t)))
           else if r = q then splitArgs_loop None cur t
           else splitArgs_loop quote (cur @ encodeRune r) t
       | None \<Rightarrow>
           if r = 39 \<or> r = 34 then splitArgs_loop (Some r) cur t
           else if r = 58 then map_option ((#) cur) (splitArgs_loop None '''' t)
           else splitArgs_loop None (cur @ encodeRune r) t))"
  by pat_completeness auto

termination splitArgs_loop
  by (relation "measure (\<lambda>(_, _, s). length s)") (auto dest: drop_rune_less intro: drop_drop_rune_less)

declare splitArgs_loop.simps [simp del]

definition splitArgs :: "string \<Rightarrow> string list option" where
  "splitArgs value = splitArgs_loop None '''' value"

definition tagBase :: "string \<Rightarrow> string" where
  "tagBase name = (case indexByte name (CHR '':'') of Some i \<Rightarrow> take i name | None \<Rightarrow> name)"

definition selfClosingNames :: "string list" where
  "selfClosingNames = [''reset'', ''br'', ''newline'', ''lang'', ''tr'', ''translate'', ''lang_or'', ''tr_or'',
     ''translate_or'', ''key'', ''keybind'', ''selector'', ''score'', ''nbt'', ''sprite'', ''head'']"

definition isSelfClosingTag :: "string \<Rightarrow> bool" where
  "isSelfClosingTag name \<longleftrightarrow> tagBase name \<in> set selfClosingNames"

definition parseTag :: "mm_env \<Rightarrow> string \<Rightarrow> (mm_tag \<times> bool) option" where
  "parseTag E raw =
    (let trimmed0 = strings_TrimSpace raw in
     if trimmed0 = '''' then None
     else
       (let trimmed1 = (if hasSuffix trimmed0 ''/'' then strings_TrimSpace (trimSuffix trimmed0 ''/'') else trimmed0);
            closeTag = hasPrefix trimmed1 ''/'';
            trimmed2 = (if closeTag then strings_TrimSpace (trimPrefix trimmed1 ''/'') else trimmed1)
        in case splitArgs trimmed2 of
             None \<Rightarrow> None
           | Some parts \<Rightarrow>
               if parts = [] \<or> hd parts = '''' then None
               else Some (\<lparr>tg_name = strings_ToLower (mx_lower E) (hd parts), tg_args = tl parts, tg_literal = raw\<rparr>, closeTag)))"

definition flush_text :: "string \<Rightarrow> mm_node list" where
  "flush_text acc = (if acc = '''' then [] else [TextNode acc])"

text \<open>\<open>parseNodes\<close>: \<open>text\<close> is the builder; the result is the nodes and the input that is left.\<close>

function parseNodes :: "mm_env \<Rightarrow> string \<Rightarrow> string \<Rightarrow> string \<Rightarrow> mm_node list \<times> string" where
  "parseNodes E closing acc s = (case s of
      [] \<Rightarrow> (flush_text acc, [])
    | c # r \<Rightarrow>
        if of_char c = (92 :: nat) then
          (case r of d # r' \<Rightarrow> if of_char d = (60 :: nat) \<or> of_char d = (92 :: nat)
               then parseNodes E closing (acc @ [d]) r' else parseNodes E closing (acc @ [c]) r
           | [] \<Rightarrow> parseNodes E closing (acc @ [c]) r)
        else if of_char c \<noteq> (60 :: nat) then
          (let (rn, k) = decodeRune s in parseNodes E closing (acc @ encodeRune rn) (drop k s))
        else (case findTagEnd None r of
            None \<Rightarrow> parseNodes E closing (acc @ [c]) r
          | Some e \<Rightarrow>
              (let raw = take e r; rest = drop (e + 1) r in
               case parseTag E raw of
                 None \<Rightarrow> parseNodes E closing (acc @ take (e + 2) s) rest
               | Some (parsed, closeTag) \<Rightarrow>
                   if closeTag then
                     (if closing \<noteq> '''' \<and> tagBase (tg_name parsed) = closing then (flush_text acc, rest)
                      else parseNodes E closing (acc @ take (e + 2) s) rest)
                   else if isSelfClosingTag (tg_name parsed) \<or> hasSuffix (strings_TrimSpace raw) ''/'' then
                     (case parseNodes E closing '''' rest of (out, nx) \<Rightarrow>
                       (flush_text acc @ TagNode parsed [] # out, nx))
                   else
                     (case parseNodes E (tagBase (tg_name parsed)) '''' rest of (children, nx) \<Rightarrow>
                       (case parseNodes E closing '''' nx of (out, nx') \<Rightarrow>
                         (flush_text acc @ TagNode parsed children # out, nx'))))))"
  by pat_completeness auto

lemma parseNodes_rest:
  assumes "parseNodes_dom (E, closing, acc, s)"
  shows "length (snd (parseNodes E closing acc s)) \<le> length s"
  using assms
proof (induction rule: parseNodes.pinduct)
  case (1 E closing acc s)
  note IH = 1(2-)
  have u: "parseNodes E closing acc s = X \<Longrightarrow> length (snd X) \<le> length s \<Longrightarrow>
    length (snd (parseNodes E closing acc s)) \<le> length s" for X by simp
  show ?case
  proof (cases s)
    case Nil
    then show ?thesis by (subst parseNodes.psimps [OF 1(1)]) simp
  next
    case (Cons c r)
    note un = parseNodes.psimps [OF 1(1), unfolded Cons]
    show ?thesis
    proof (cases "of_char c = (92 :: nat)")
      case True
      show ?thesis using IH(1-3) [OF Cons True] True by (fastforce simp: un Cons split: list.splits)
    next
      case bs: False
      show ?thesis
      proof (cases "of_char c = (60 :: nat)")
        case False
        show ?thesis using IH(4) [OF Cons bs False refl prod.collapse] bs False
          by (auto simp: un Cons Let_def split_def)
      next
        case lt: True
        then have nlt: "\<not> of_char c \<noteq> (60 :: nat)" by simp
        show ?thesis
        proof (cases "findTagEnd None r")
          case None
          show ?thesis using IH(5) [OF Cons bs nlt None] bs lt None
            by (auto simp: un Cons)
        next
          case (Some e)
          note IHs = IH(6-) [OF Cons bs nlt Some refl refl]
          show ?thesis
          proof (cases "parseTag E (take e r)")
            case None
            show ?thesis using IHs(1) [OF None] bs lt Some None
              by (auto simp: un Cons)
          next
            case tag: (Some q)
            obtain p cl where q: "(p, cl) = q" by (cases q) auto
            obtain ch nx where ch: "(ch, nx) = parseNodes E (tagBase (tg_name p)) '''' (drop (e + 1) r)"
              by (cases "parseNodes E (tagBase (tg_name p)) '''' (drop (e + 1) r)") auto
            show ?thesis using IHs(2-4) [OF tag q] IHs(5) [OF tag q _ _ ch] bs lt Some tag q [symmetric] ch [symmetric]
              by (auto simp: un Cons Let_def split: prod.splits)
          qed
        qed
      qed
    qed
  qed
qed

termination parseNodes
proof (relation "measure (\<lambda>(_, _, _, s). length s)", goal_cases)
  case (11 E closing acc s c r e x xa q p cl ch nx)
  then have "nx = snd (parseNodes E (tagBase (tg_name p)) [] xa)" by (metis snd_conv)
  then show ?case using 11 parseNodes_rest [of E "tagBase (tg_name p)" "[]" xa] by simp
qed (auto dest: drop_rune_less [OF list.simps(3)])

declare parseNodes.simps [simp del]

lemma of_char_60: "of_char c = (60 :: nat) \<longleftrightarrow> c = CHR ''<''"
  using of_char_eq_iff [of c "CHR ''<''", where ?'a = nat] by simp

lemma of_char_92: "of_char c = (92 :: nat) \<longleftrightarrow> c = CHR 0x5C"
  using of_char_eq_iff [of c "CHR 0x5C", where ?'a = nat] by simp

text \<open>Induction over the parser: the end of the input, a piece of text, a closing tag, an empty tag, a tag with children.\<close>

lemma parseNodes_rule:
  assumes nil: "\<And>closing acc. P closing acc [] (flush_text acc, [])"
    and chars: "\<And>closing acc x k s res. s \<noteq> [] \<Longrightarrow> 0 < k \<Longrightarrow> P closing (acc @ x) (drop k s) res \<Longrightarrow> P closing acc s res"
    and close: "\<And>closing acc r e p. closing \<noteq> [] \<Longrightarrow> parseTag E (take e r) = Some (p, True) \<Longrightarrow> tagBase (tg_name p) = closing
      \<Longrightarrow> P closing acc (CHR ''<'' # r) (flush_text acc, drop (e + 1) r)"
    and self: "\<And>closing acc r e p out nx. parseTag E (take e r) = Some (p, False) \<Longrightarrow> P closing [] (drop (e + 1) r) (out, nx)
      \<Longrightarrow> P closing acc (CHR ''<'' # r) (flush_text acc @ TagNode p [] # out, nx)"
    and child: "\<And>closing acc r e p ch out nx nx'. parseTag E (take e r) = Some (p, False) \<Longrightarrow> \<not> isSelfClosingTag (tg_name p)
      \<Longrightarrow> P (tagBase (tg_name p)) [] (drop (e + 1) r) (ch, nx) \<Longrightarrow> P closing [] nx (out, nx')
      \<Longrightarrow> P closing acc (CHR ''<'' # r) (flush_text acc @ TagNode p ch # out, nx')"
  shows "P closing acc s (parseNodes E closing acc s)"
proof (induction E\<equiv>E closing acc s rule: parseNodes.induct)
  case (1 closing acc s)
  note IH = 1
  show ?case
  proof (cases s)
    case Nil
    then show ?thesis using nil by (simp add: parseNodes.simps)
  next
    case (Cons c r)
    have piece: "P closing acc s (parseNodes E closing (acc @ x) (drop k s))"
      if "P closing (acc @ x) (drop k s) (parseNodes E closing (acc @ x) (drop k s))" "0 < k" for x k
      using chars [of s k closing acc x] that Cons by simp
    note un = parseNodes.simps [of E closing acc s, unfolded Cons list.case]
    show ?thesis
    proof (cases "of_char c = (92 :: nat)")
      case True
      show ?thesis unfolding Cons un
        using IH(1-3) [OF Cons True] True piece [of "[c]" 1] piece [of "[hd r]" 2]
        by (cases r) (auto simp: Cons)
    next
      case bs: False
      show ?thesis
      proof (cases "of_char c = (60 :: nat)")
        case False
        have "0 < snd (decodeRune s)" using decodeRune_size [of s "fst (decodeRune s)" "snd (decodeRune s)"] Cons by simp
        then show ?thesis using IH(4) [OF Cons bs False refl prod.collapse] bs False
            piece [of "encodeRune (fst (decodeRune s))" "snd (decodeRune s)"]
          by (simp add: un Cons Let_def split_def)
      next
        case lt: True
        then have c: "c = CHR ''<''" using of_char_60 by blast
        from lt have nlt: "\<not> of_char c \<noteq> (60 :: nat)" by simp
        note Cons = Cons [unfolded c] and un = un [unfolded c] and lt = lt [unfolded c]
          and nlt = nlt [unfolded c] and bs = bs [unfolded c]
        show ?thesis
        proof (cases "findTagEnd None r")
          case None
          show ?thesis using IH(5) [OF Cons bs nlt None] bs lt None piece [of "''<''" 1] by (simp add: un Cons)
        next
          case (Some e)
          note IHs = IH(6-) [OF Cons bs nlt Some refl refl]
          have piece1: "P closing acc s (parseNodes E closing (acc @ take (e + 2) s) (drop (e + 1) r))"
            if "P closing (acc @ take (e + 2) s) (drop (e + 1) r) (parseNodes E closing (acc @ take (e + 2) s) (drop (e + 1) r))"
            using piece [of "take (e + 2) s" "e + 2"] that Cons by simp
          show ?thesis
          proof (cases "parseTag E (take e r)")
            case None
            show ?thesis using piece1 [OF IHs(1) [OF None]] bs lt Some None by (simp add: un Cons)
          next
            case tag: (Some q)
            obtain p cl where q: "(p, cl) = q" by (cases q) auto
            obtain ch nx where ch: "(ch, nx) = parseNodes E (tagBase (tg_name p)) [] (drop (e + 1) r)"
              by (cases "parseNodes E (tagBase (tg_name p)) [] (drop (e + 1) r)") auto
            show ?thesis
            proof (cases cl)
              case True
              show ?thesis
              proof (cases "closing \<noteq> [] \<and> tagBase (tg_name p) = closing")
                case False
                show ?thesis using piece1 [OF IHs(2) [OF tag q True False]] bs lt Some tag q [symmetric] True False
                  by (auto simp: un Cons Let_def)
              next
                case end_tag: True
                then show ?thesis using close [of closing e r p acc] bs lt Some tag q [symmetric] True
                  by (simp add: un Cons Let_def)
              qed
            next
              case False
              show ?thesis
              proof (cases "isSelfClosingTag (tg_name p) \<or> hasSuffix (strings_TrimSpace (take e r)) ''/''")
                case True
                show ?thesis
                  using self [of e r p closing "fst (parseNodes E closing [] (drop (e + 1) r))" "snd (parseNodes E closing [] (drop (e + 1) r))" acc]
                    IHs(3) [OF tag q False True] bs lt Some tag q [symmetric] False True
                  by (simp add: un Cons Let_def split_def)
              next
                case kids: False
                show ?thesis
                  using child [of e r p ch nx closing "fst (parseNodes E closing [] nx)" "snd (parseNodes E closing [] nx)" acc]
                    IHs(4) [OF tag q False kids] IHs(5) [OF tag q False kids ch] bs lt Some tag q [symmetric] ch [symmetric] False kids
                  by (simp add: un Cons Let_def split_def)
              qed
            qed
          qed
        qed
      qed
    qed
  qed
qed

section \<open>What the parser keeps\<close>

text \<open>What is left is the end of the input; without an enclosing tag nothing is left.\<close>

lemma parseNodes_suffix: "\<exists>k. snd (parseNodes E closing acc s) = drop k s"
proof (rule parseNodes_rule [where P = "\<lambda>_ _ s res. \<exists>k. snd res = drop k s"])
  show "\<exists>k. snd (flush_text acc, []) = drop k []" for acc by simp
next
  fix x k s and res :: "mm_node list \<times> string"
  assume "\<exists>j. snd res = drop j (drop k s)"
  then show "\<exists>j. snd res = drop j s" by (metis drop_drop)
next
  fix acc :: string and r e and p :: mm_tag
  show "\<exists>k. snd (flush_text acc, drop (e + 1) r) = drop k (CHR ''<'' # r)" by (intro exI [of _ "e + 2"]) simp
next
  fix acc :: string and r e and p :: mm_tag and out and nx :: string
  assume "\<exists>k. snd (out :: mm_node list, nx) = drop k (drop (e + 1) r)"
  then obtain k where "nx = drop (k + (e + 1)) r" by auto
  then show "\<exists>k. snd (flush_text acc @ TagNode p [] # out, nx) = drop k (CHR ''<'' # r)"
    by (intro exI [of _ "k + (e + 2)"]) simp
next
  fix acc :: string and r e and p :: mm_tag and ch out :: "mm_node list" and nx nx' :: string
  assume "\<exists>k. snd (ch, nx) = drop k (drop (e + 1) r)" "\<exists>k. snd (out, nx') = drop k nx"
  then obtain k j where "nx' = drop j (drop k (drop (e + 1) r))" by auto
  then show "\<exists>k. snd (flush_text acc @ TagNode p ch # out, nx') = drop k (CHR ''<'' # r)"
    by (intro exI [of _ "j + (k + (e + 2))"]) simp
qed

lemma parseNodes_all_read: "snd (parseNodes E [] acc s) = []"
proof -
  have "closing = [] \<longrightarrow> snd (parseNodes E closing acc s) = []" for closing
    by (rule parseNodes_rule [where P = "\<lambda>closing _ _ res. closing = [] \<longrightarrow> snd res = []"]) auto
  then show ?thesis by blast
qed

text \<open>Text nodes are not empty, tag nodes have no text, and an empty element has no children.\<close>

fun node_ok :: "mm_node \<Rightarrow> bool" where
  "node_ok (Node t g ns) \<longleftrightarrow> (if t \<noteq> '''' then g = no_tag \<and> ns = []
     else (isSelfClosingTag (tg_name g) \<longrightarrow> ns = []) \<and> list_all node_ok ns)"

lemma flush_text_ok [simp]: "list_all node_ok (flush_text acc)"
  by (simp add: flush_text_def)

lemma parseNodes_ok: "list_all node_ok (fst (parseNodes E closing acc s))"
  by (rule parseNodes_rule [where P = "\<lambda>_ _ _ res. list_all node_ok (fst res)"]) auto

text \<open>The tags of a tree.\<close>

fun node_tags :: "mm_node \<Rightarrow> mm_tag list" where
  "node_tags (Node t g ns) = g # concat (map node_tags ns)"

abbreviation nodes_tags :: "mm_node list \<Rightarrow> mm_tag list" where
  "nodes_tags ns \<equiv> concat (map node_tags ns)"

text \<open>
  The brackets that open tags: an argument of a tag has fewer of them than the input, which is why a
  text inside a tag can be parsed again without end.
\<close>

abbreviation opens :: "string \<Rightarrow> nat" where "opens s \<equiv> count_list s (CHR ''<'')"

lemma opens_take: "opens (take n s) \<le> opens s"
  by (metis append_take_drop_id count_list_append le_add1)

lemma opens_drop: "opens (drop n s) \<le> opens s"
  by (metis append_take_drop_id count_list_append le_add2)

lemma opens_split: "opens (take n s) + opens (drop n s) = opens s"
  by (metis append_take_drop_id count_list_append)

lemma opens_encodeRune: "opens (encodeRune r) = (if r = 60 then 1 else 0)"
proof -
  have ne: "char_of b \<noteq> CHR ''<''" if "b < 256" "b \<noteq> 60" for b :: nat
  proof
    assume "char_of b = CHR ''<''"
    then have "of_char (char_of b :: char) = (60 :: nat)" by simp
    with that show False by simp
  qed
  have "char_of (60 :: nat) = CHR ''<''" by (metis char_of_char of_char_60)
  moreover have "opens (map char_of bs) = 0" if "\<forall>b \<in> set bs. b < 256 \<and> b \<noteq> 60" for bs :: "nat list"
    using that ne by (induction bs) auto
  moreover have "\<forall>b \<in> set (encode_bytes r). b < 256 \<and> b \<noteq> 60" if "r \<noteq> 60"
    using that by (auto simp: encode_bytes_def)
  moreover have "encode_bytes 60 = [60]" by (simp add: encode_bytes_def)
  ultimately show ?thesis by (auto simp: encodeRune_def)
qed

lemma opens_decodeRune:
  assumes "decodeRune s = (r, k)" "s \<noteq> []"
  shows "opens (encodeRune r) + opens (drop k s) \<le> opens s"
proof (cases "r = 60")
  case True
  then have "encodeRune r = take k s" using encode_decodeRune [OF assms(1) _ assms(2)] by (simp add: RuneError_def)
  then show ?thesis using opens_split [of k s] by simp
qed (use opens_drop [of k s] in \<open>simp add: opens_encodeRune\<close>)

lemma opens_splitArgs_loop:
  "splitArgs_loop quote cur s = Some parts \<Longrightarrow> sum_list (map opens parts) \<le> opens cur + opens s"
proof (induction quote cur s arbitrary: parts rule: splitArgs_loop.induct)
  case (1 quote cur s)
  note IH = 1(1-7) and prem = 1(8)
  show ?case
  proof (cases "s = []")
    case True
    then show ?thesis using prem [unfolded splitArgs_loop.simps [of quote cur s]] by (auto split: if_splits)
  next
    case False
    obtain r k where rk: "decodeRune s = (r, k)" by fastforce
    define t where "t = drop k s"
    obtain n j where nj: "decodeRune t = (n, j)" by fastforce
    have le: "opens (encodeRune r) + opens t \<le> opens s" using opens_decodeRune [OF rk False] by (simp add: t_def)
    have le2: "opens (encodeRune n) + opens (drop j t) \<le> opens t" if "t \<noteq> []" using opens_decodeRune [OF nj that] .
    note un = prem [unfolded splitArgs_loop.simps [of quote cur s] rk]
    note IH = IH [OF False rk [symmetric] refl, folded t_def]
    show ?thesis
    proof (cases quote)
      case (Some q)
      show ?thesis using IH(4,6,7) [OF refl Some] IH(5) [OF refl Some _ _ refl nj [symmetric]] un False Some le le2 nj
        by (auto simp: t_def [symmetric] Let_def split: if_splits)
    next
      case None
      show ?thesis using IH(1-3) [OF refl None] un False None le
        by (auto simp: t_def [symmetric] Let_def split: if_splits)
    qed
  qed
qed

lemma opens_splitArgs: "splitArgs v = Some parts \<Longrightarrow> sum_list (map opens parts) \<le> opens v"
  using opens_splitArgs_loop [of None "[]" v parts] by (simp add: splitArgs_def)

lemma opens_trim_left: "opens (trim_left s) \<le> opens s"
proof (induction s rule: trim_left.induct)
  case (1 s)
  then show ?case using opens_drop [of "space_len s" s] by (auto simp: trim_left.simps [of s])
qed

lemma opens_trim_right: "opens (trim_right s) \<le> opens s"
proof (induction s rule: trim_right.induct)
  case (1 s)
  then show ?case using opens_take [of "length s - space_suffix_len s" s] by (auto simp: trim_right.simps [of s])
qed

lemma opens_TrimSpace: "opens (strings_TrimSpace s) \<le> opens s"
  using opens_trim_left [of s] opens_trim_right [of "trim_left s"] by (simp add: strings_TrimSpace_def)

lemma opens_trimSuffix: "opens (trimSuffix s x) \<le> opens s"
  using opens_take by (simp add: trimSuffix_def)

lemma opens_trimPrefix: "opens (trimPrefix s x) \<le> opens s"
  using opens_drop by (simp add: trimPrefix_def)

lemma opens_parseTag:
  assumes "parseTag E raw = Some (p, cl)"
  shows "sum_list (map opens (tg_args p)) \<le> opens raw"
proof -
  define s0 where "s0 = strings_TrimSpace raw"
  define s1 where "s1 = (if hasSuffix s0 ''/'' then strings_TrimSpace (trimSuffix s0 ''/'') else s0)"
  define s2 where "s2 = (if hasPrefix s1 ''/'' then strings_TrimSpace (trimPrefix s1 ''/'') else s1)"
  obtain parts where parts: "splitArgs s2 = Some parts" "tg_args p = tl parts" "parts \<noteq> []"
    using assms by (auto simp: parseTag_def Let_def s0_def s1_def s2_def split: if_splits option.splits)
  have "sum_list (map opens (tg_args p)) \<le> sum_list (map opens parts)"
    unfolding parts(2) using parts(3) by (cases parts) auto
  also have "\<dots> \<le> opens s2" by (rule opens_splitArgs [OF parts(1)])
  also have "\<dots> \<le> opens s1"
    unfolding s2_def using opens_TrimSpace [of "trimPrefix s1 ''/''"] opens_trimPrefix [of s1 "''/''"] by simp
  also have "\<dots> \<le> opens s0"
    unfolding s1_def using opens_TrimSpace [of "trimSuffix s0 ''/''"] opens_trimSuffix [of s0 "''/''"] by simp
  also have "\<dots> \<le> opens raw" unfolding s0_def by (rule opens_TrimSpace)
  finally show ?thesis .
qed

definition args_below :: "nat \<Rightarrow> mm_tag \<Rightarrow> bool" where
  "args_below n g \<longleftrightarrow> tg_args g = [] \<or> sum_list (map opens (tg_args g)) < n"

lemma args_below_mono: "args_below m g \<Longrightarrow> m \<le> n \<Longrightarrow> args_below n g"
  by (auto simp: args_below_def)

lemma flush_text_tags [simp]: "list_all (args_below n) (nodes_tags (flush_text acc))"
  by (simp add: flush_text_def no_tag_def args_below_def)

lemma opens_parseNodes_rest: "opens (snd (parseNodes E closing acc s)) \<le> opens s"
  using parseNodes_suffix [of E closing acc s] opens_drop by metis

lemma parseNodes_tags: "list_all (args_below (opens s)) (nodes_tags (fst (parseNodes E closing acc s)))"
proof -
  let ?P = "\<lambda>closing acc s res. opens (snd res) \<le> opens s \<and> list_all (args_below (opens s)) (nodes_tags (fst res))"
  have up: "list_all (args_below n) gs" if "list_all (args_below m) gs" "m \<le> n" for m n gs
    using that by (auto simp: list_all_iff intro: args_below_mono)
  have le: "opens (take e r) + opens (drop (Suc e) r) \<le> opens r" for e r
    using opens_split [of e r] opens_drop [of 1 "drop e r"] by simp
  have arg: "args_below (Suc (opens r)) p" "opens (drop (Suc e) r) \<le> opens r" if "parseTag E (take e r) = Some (p, cl)" for p cl e r
    using opens_parseTag [OF that] le [of e r] by (simp_all add: args_below_def)
  have "?P closing acc s (parseNodes E closing acc s)"
  proof (rule parseNodes_rule [where P = ?P])
    fix closing acc x k s and res :: "mm_node list \<times> string"
    assume "?P closing (acc @ x) (drop k s) res"
    then show "?P closing acc s res" using up opens_drop [of k s] le_trans by blast
  next
    fix closing acc :: string and r e p and out :: "mm_node list" and nx :: string
    assume "parseTag E (take e r) = Some (p, False)" "?P closing [] (drop (e + 1) r) (out, nx)"
    then show "?P closing acc (CHR ''<'' # r) (flush_text acc @ TagNode p [] # out, nx)"
      using arg [of e r p False] up [of "opens (drop (Suc e) r)" _ "Suc (opens r)"] by auto
  next
    fix closing acc :: string and r e p and ch out :: "mm_node list" and nx nx' :: string
    assume "parseTag E (take e r) = Some (p, False)" "?P (tagBase (tg_name p)) [] (drop (e + 1) r) (ch, nx)"
      "?P closing [] nx (out, nx')"
    then show "?P closing acc (CHR ''<'' # r) (flush_text acc @ TagNode p ch # out, nx')"
      using arg [of e r p False] up [of "opens (drop (Suc e) r)" _ "Suc (opens r)"] up [of "opens nx" _ "Suc (opens r)"] by auto
  qed (use arg in \<open>auto simp: le_SucI\<close>)
  then show ?thesis by blast
qed

section \<open>Escaped text\<close>

text \<open>Text written so that the parser reads it back: a backslash before each bracket and each backslash.\<close>

definition mm_escape :: "string \<Rightarrow> string" where
  "mm_escape s = concat (map (\<lambda>c. if c = CHR ''<'' \<or> c = CHR 0x5C then [CHR 0x5C, c] else [c]) s)"

lemma mm_escape_simps [simp]:
  "mm_escape [] = []"
  "mm_escape (s @ t) = mm_escape s @ mm_escape t"
  by (simp_all add: mm_escape_def)

lemma decode_bytes_take4: "decode_bytes (take 4 bs) = decode_bytes bs"
proof (cases "length bs \<le> 4")
  case False
  then obtain a b c d u where "bs = a # b # c # d # u"
    by (cases bs; cases "tl bs"; cases "tl (tl bs)"; cases "tl (tl (tl bs))") auto
  then show ?thesis by (simp add: decode_bytes_def)
qed simp

lemma mm_escape_id: "\<forall>c \<in> set s. c \<noteq> CHR 0x3C \<and> c \<noteq> CHR 0x5C \<Longrightarrow> mm_escape s = s"
  unfolding mm_escape_def by (induction s) auto

lemma decodeRune_prefix:
  assumes "decodeRune s = (r, n)" "(r, n) \<noteq> (RuneError, 1)" "s \<noteq> []"
  shows "decodeRune (encodeRune r @ u) = (r, n)"
proof -
  have "decode_bytes (map of_char s) = (r, n)" using assms(1) by (simp add: decodeRune_def take_map [symmetric] decode_bytes_take4)
  then have "decode_bytes (take n (map of_char s) @ map of_char u) = (r, n)"
    using decode_bytes_prefix assms(2,3) by simp
  then have "decode_bytes (map of_char (take n s @ u)) = (r, n)" by (simp add: take_map)
  then show ?thesis using encode_decodeRune [OF assms]
    by (simp add: decodeRune_def take_map [symmetric] decode_bytes_take4 del: map_append take_append)
qed

lemma encodeRune_escape:
  assumes "r \<noteq> 60" "r \<noteq> 92"
  shows "mm_escape (encodeRune r) = encodeRune r" "encodeRune r = c # t \<Longrightarrow> of_char c \<noteq> (60 :: nat) \<and> of_char c \<noteq> (92 :: nat)"
proof -
  have b: "\<forall>b \<in> set (encode_bytes r). b < 256 \<and> b \<noteq> 60 \<and> b \<noteq> 92" using assms by (auto simp: encode_bytes_def)
  then have "\<forall>c \<in> set (encodeRune r). of_char c \<noteq> (60 :: nat) \<and> of_char c \<noteq> (92 :: nat)"
    by (auto simp: encodeRune_def)
  then show "mm_escape (encodeRune r) = encodeRune r" by (intro mm_escape_id) force
  show "of_char c \<noteq> (60 :: nat) \<and> of_char c \<noteq> (92 :: nat)" if "encodeRune r = c # t"
    using \<open>\<forall>c \<in> set (encodeRune r). of_char c \<noteq> (60 :: nat) \<and> of_char c \<noteq> (92 :: nat)\<close> that by simp
qed

lemma parseNodes_escape_char:
  "c = CHR ''<'' \<or> c = CHR 0x5C \<Longrightarrow> parseNodes E closing acc (CHR 0x5C # c # t) = parseNodes E closing (acc @ [c]) t"
  by (subst parseNodes.simps) auto

lemma parseNodes_rune:
  assumes "decodeRune s = (r, k)" "s \<noteq> []" "of_char (hd s) \<noteq> (60 :: nat)" "of_char (hd s) \<noteq> (92 :: nat)"
  shows "parseNodes E closing acc s = parseNodes E closing (acc @ encodeRune r) (drop k s)"
  using assms by (subst parseNodes.simps) (cases s, simp_all)

lemma parseNodes_escaped:
  "valid_utf8 s \<Longrightarrow> parseNodes E closing acc (mm_escape s @ t) = parseNodes E closing (acc @ s) t"
proof (induction s arbitrary: acc rule: valid_utf8.induct)
  case (1 s)
  show ?case
  proof (cases "s = []")
    case False
    obtain r n where rn: "decodeRune s = (r, n)" by fastforce
    have ok: "(r, n) \<noteq> (RuneError, 1)" "valid_utf8 (drop n s)"
      using "1.prems" False rn by (simp_all add: valid_utf8.simps [of s])
    have enc: "encodeRune r = take n s" and s: "s = encodeRune r @ drop n s"
      using encode_decodeRune [OF rn ok(1) False] by simp_all
    have IH: "parseNodes E closing acc' (mm_escape (drop n s) @ t) = parseNodes E closing (acc' @ drop n s) t" for acc'
      using "1.IH" [OF False] ok(2) rn by simp
    have "parseNodes E closing acc (mm_escape (encodeRune r) @ mm_escape (drop n s) @ t) =
      parseNodes E closing (acc @ encodeRune r) (mm_escape (drop n s) @ t)"
    proof (cases "r = 60 \<or> r = 92")
      case True
      then have e: "encodeRune r = [char_of r]" by (auto simp: encodeRune_def encode_bytes_def)
      have c: "char_of (60 :: nat) = CHR ''<''" "char_of (92 :: nat) = CHR 0x5C"
        by (metis char_of_char of_char_60, metis char_of_char of_char_92)
      then show ?thesis using True parseNodes_escape_char [of "char_of r"] unfolding e by (auto simp: mm_escape_def c)
    next
      case False
      have len: "length (encodeRune r) = n" using decodeRune_size [OF \<open>s \<noteq> []\<close> rn] by (simp add: enc)
      then obtain c u where cu: "encodeRune r = c # u"
        using decodeRune_size [OF \<open>s \<noteq> []\<close> rn] by (cases "encodeRune r") auto
      have "of_char c \<noteq> (60 :: nat) \<and> of_char c \<noteq> (92 :: nat)" using encodeRune_escape(2) [OF _ _ cu] False by blast
      then show ?thesis
        using parseNodes_rune [OF decodeRune_prefix [OF rn ok(1) \<open>s \<noteq> []\<close>], of "mm_escape (drop n s) @ t" E closing acc]
          encodeRune_escape(1) [of r] False len cu by auto
    qed
    then show ?thesis using IH s mm_escape_simps(2) [of "encodeRune r" "drop n s"] by simp
  qed simp
qed

lemma parseNodes_end: "parseNodes E closing acc [] = (flush_text acc, [])"
  by (simp add: parseNodes.simps)

text \<open>Text without brackets and backslashes is one text node; invalid bytes become \<open>U+FFFD\<close>.\<close>

lemma parseNodes_plain:
  "\<forall>c \<in> set s. c \<noteq> CHR ''<'' \<and> c \<noteq> CHR 0x5C \<Longrightarrow>
    parseNodes E closing acc s = (flush_text (acc @ concat (map encodeRune (runes s))), [])"
proof (induction s arbitrary: acc rule: runes.induct)
  case (1 s)
  show ?case
  proof (cases "s = []")
    case False
    obtain r n where rn: "decodeRune s = (r, n)" by fastforce
    have "hd s \<in> set s" using False by simp
    then have "hd s \<noteq> CHR ''<''" "hd s \<noteq> CHR 0x5C" using "1.prems" by blast+
    then have "of_char (hd s) \<noteq> (60 :: nat)" "of_char (hd s) \<noteq> (92 :: nat)"
      by (simp_all add: of_char_60 of_char_92)
    moreover have "\<forall>c \<in> set (drop n s). c \<noteq> CHR ''<'' \<and> c \<noteq> CHR 0x5C" using "1.prems" by (meson in_set_dropD)
    ultimately show ?thesis
      using parseNodes_rune [OF rn False, of E closing acc] "1.IH" [OF False, of "acc @ encodeRune r"] rn False
      by (simp add: runes.simps [of s])
  qed (simp add: parseNodes_end)
qed

section \<open>Elements with a plain name\<close>

text \<open>Names of lower-case letters, digits and underscores, as all tags of the format but \<open>!\<close> and \<open>#\<close> have.\<close>

definition simple_char :: "char \<Rightarrow> bool" where
  "simple_char c \<longleftrightarrow> (let b = of_char c :: nat in 97 \<le> b \<and> b \<le> 122 \<or> 48 \<le> b \<and> b \<le> 57 \<or> b = 95)"

definition simple_name :: "string \<Rightarrow> bool" where
  "simple_name n \<longleftrightarrow> n \<noteq> [] \<and> list_all simple_char n"

lemma decodeRune_ascii: "of_char c < (0x80 :: nat) \<Longrightarrow> decodeRune (c # s) = (of_char c, 1)"
  by (simp add: decodeRune_def decode_bytes_def)

lemma encodeRune_ascii: "of_char c < (0x80 :: nat) \<Longrightarrow> encodeRune (of_char c) = [c]"
  by (simp add: encodeRune_def encode_bytes_def)

lemma simple_charD:
  assumes "simple_char c"
  shows "of_char c < (0x80 :: nat)" "of_char c \<noteq> (39 :: nat)" "of_char c \<noteq> (34 :: nat)" "of_char c \<noteq> (62 :: nat)"
    "of_char c \<noteq> (58 :: nat)" "of_char c \<noteq> (47 :: nat)" "of_char c \<notin> {9, 10, 11, 12, 13, 32 :: nat}"
    "\<not> (65 \<le> (of_char c :: nat) \<and> (of_char c :: nat) \<le> 90)"
  using assms by (auto simp: simple_char_def Let_def)

lemma findTagEnd_simple:
  "list_all simple_char n \<Longrightarrow> findTagEnd None (n @ CHR ''>'' # t) = Some (length n)"
proof (induction n)
  case (Cons c n)
  then show ?case
    by (subst findTagEnd.simps) (simp add: decodeRune_ascii simple_charD)
qed (subst findTagEnd.simps, simp add: decodeRune_ascii)

lemma splitArgs_loop_simple:
  "list_all simple_char n \<Longrightarrow> splitArgs_loop None cur n = Some [cur @ n]"
proof (induction n arbitrary: cur)
  case (Cons c n)
  then show ?case
    by (subst splitArgs_loop.simps) (simp add: decodeRune_ascii encodeRune_ascii simple_charD)
qed (subst splitArgs_loop.simps, simp)

lemma space_seqs_bytes: "q \<in> set space_seqs \<Longrightarrow> q \<noteq> [] \<and> 0x80 \<le> unat (hd q) \<and> 0x80 \<le> unat (last q)"
  by (auto simp: space_seqs_def upt_rec)

lemma string_of_byte: "of_char (char_of_byte b) = unat b"
  using unsigned_less [of b, where ?'a = nat] by (simp add: char_of_byte_def)

lemma hasSuffix_iff: "hasSuffix s q \<longleftrightarrow> (\<exists>r. s = r @ q)"
proof
  assume "hasSuffix s q"
  then obtain r where "rev s = rev q @ r" by (auto simp: hasSuffix_def hasPrefix_iff)
  then have "s = rev r @ q" by (metis rev_append rev_rev_ident)
  then show "\<exists>r. s = r @ q" by blast
qed (auto simp: hasSuffix_def)

lemma no_space:
  assumes "\<And>c. c \<in> set s \<Longrightarrow> of_char c < (0x80 :: nat) \<and> of_char c \<notin> {9, 10, 11, 12, 13, 32 :: nat}"
  shows "strings_TrimSpace s = s"
proof -
  have h: "\<not> hasPrefix s (string_of q)" "\<not> hasSuffix s (string_of q)" if "q \<in> set space_seqs" for q
  proof -
    have "char_of_byte (hd q) \<in> set (string_of q)" "char_of_byte (last q) \<in> set (string_of q)"
      using space_seqs_bytes [OF that] by (simp_all add: string_of_def)
    moreover have "char_of_byte (hd q) \<notin> set s" using assms [of "char_of_byte (hd q)"] space_seqs_bytes [OF that]
      by (auto simp: string_of_byte)
    ultimately show "\<not> hasPrefix s (string_of q)" "\<not> hasSuffix s (string_of q)"
      by (auto simp: hasPrefix_iff hasSuffix_iff)
  qed
  then have "List.find (\<lambda>q. hasPrefix s (string_of q)) space_seqs = None"
    "List.find (\<lambda>q. hasSuffix s (string_of q)) space_seqs = None"
    by (auto simp: find_None_iff)
  note found = this
  have "space_len s = 0"
    using assms found(1) by (cases s) (auto simp: space_len_def)
  moreover have "space_suffix_len s = 0"
  proof (cases "rev s")
    case (Cons c r)
    then have "c \<in> set s" by (metis list.set_intros(1) set_rev)
    then show ?thesis using assms found(2) Cons by (auto simp: space_suffix_len_def)
  qed (simp add: space_suffix_len_def)
  ultimately show ?thesis by (simp add: strings_TrimSpace_def trim_left.simps trim_right.simps)
qed


lemma slash: "of_char c = (47 :: nat) \<longleftrightarrow> c = CHR ''/''"
  using of_char_eq_iff [of c "CHR ''/''", where ?'a = nat] by simp

lemma colon: "of_char c = (58 :: nat) \<longleftrightarrow> c = CHR '':''"
  using of_char_eq_iff [of c "CHR '':''", where ?'a = nat] by simp

lemma simple_nameD:
  assumes "simple_name n"
  shows "strings_TrimSpace n = n" "strings_TrimSpace (CHR ''/'' # n) = CHR ''/'' # n" "CHR ''/'' \<notin> set n" "CHR '':'' \<notin> set n"
    "\<not> hasSuffix n ''/''" "\<not> hasSuffix (CHR ''/'' # n) ''/''" "\<not> hasPrefix n ''/''"
    "strings_ToLower f n = n" "tagBase n = n" "splitArgs n = Some [n]"
proof -
  have ch: "simple_char c" if "c \<in> set n" for c using assms that by (auto simp: simple_name_def list_all_iff)
  have ne: "n \<noteq> []" using assms by (simp add: simple_name_def)
  show ts: "strings_TrimSpace n = n" by (rule no_space) (use ch simple_charD in blast)
  show "strings_TrimSpace (CHR ''/'' # n) = CHR ''/'' # n"
    by (rule no_space) (use ch simple_charD in fastforce)
  show sl: "CHR ''/'' \<notin> set n" using ch simple_charD(6) slash by blast
  show co: "CHR '':'' \<notin> set n" using ch simple_charD(5) colon by blast
  show "\<not> hasSuffix n ''/''" "\<not> hasPrefix n ''/''" using sl by (auto simp: hasSuffix_iff hasPrefix_iff)
  show "\<not> hasSuffix (CHR ''/'' # n) ''/''" using sl ne by (auto simp: hasSuffix_iff Cons_eq_append_conv)
  have "is_ascii n" using ch simple_charD(1) by (auto simp: is_ascii_def list_all_iff)
  moreover have "toLower n = n"
    unfolding toLower_def using ch simple_charD(8) by (intro map_idI) (auto simp: lowerChar_def Let_def)
  ultimately show "strings_ToLower f n = n" by (simp add: strings_ToLower_def)
  have "indexByte n (CHR '':'') = None" using co by (induction n) auto
  then show "tagBase n = n" by (simp add: tagBase_def)
  show "splitArgs n = Some [n]" using assms splitArgs_loop_simple [of n "[]"] by (simp add: splitArgs_def simple_name_def)
qed

definition plain_tag :: "string \<Rightarrow> mm_tag" where
  "plain_tag n = \<lparr>tg_name = n, tg_args = [], tg_literal = n\<rparr>"

lemma parseTag_simple:
  assumes "simple_name n"
  shows "parseTag E n = Some (plain_tag n, False)"
    "parseTag E (CHR ''/'' # n) = Some (\<lparr>tg_name = n, tg_args = [], tg_literal = CHR ''/'' # n\<rparr>, True)"
proof -
  have "n \<noteq> []" using assms by (simp add: simple_name_def)
  then show "parseTag E n = Some (plain_tag n, False)"
    "parseTag E (CHR ''/'' # n) = Some (\<lparr>tg_name = n, tg_args = [], tg_literal = CHR ''/'' # n\<rparr>, True)"
    by (simp_all add: parseTag_def simple_nameD [OF assms] plain_tag_def trimPrefix_def)
qed

definition element :: "string \<Rightarrow> string \<Rightarrow> string" where
  "element n body = CHR ''<'' # n @ CHR ''>'' # body @ CHR ''<'' # CHR ''/'' # n @ [CHR ''>'']"

lemma parseNodes_open:
  assumes "simple_name n" "\<not> isSelfClosingTag n"
  shows "parseNodes E closing acc (CHR ''<'' # n @ CHR ''>'' # t) =
    (case parseNodes E n [] t of (ch, nx) \<Rightarrow> case parseNodes E closing [] nx of (out, nx') \<Rightarrow>
       (flush_text acc @ TagNode (plain_tag n) ch # out, nx'))"
proof -
  have "findTagEnd None (n @ CHR ''>'' # t) = Some (length n)"
    using assms(1) by (simp add: simple_name_def findTagEnd_simple)
  then show ?thesis
    using assms(2) parseTag_simple [OF assms(1)]
    by (subst parseNodes.simps) (simp add: simple_nameD [OF assms(1)] plain_tag_def)
qed

lemma parseNodes_close:
  assumes "simple_name n"
  shows "parseNodes E n acc (CHR ''<'' # CHR ''/'' # n @ CHR ''>'' # t) = (flush_text acc, t)"
proof -
  have "findTagEnd None (CHR ''/'' # n @ CHR ''>'' # t) = Some (Suc (length n))"
    using assms by (subst findTagEnd.simps) (simp add: simple_name_def findTagEnd_simple decodeRune_ascii)
  moreover have "n \<noteq> []" using assms by (simp add: simple_name_def)
  ultimately show ?thesis
    using parseTag_simple [OF assms] by (subst parseNodes.simps) (simp add: simple_nameD [OF assms])
qed

text \<open>An element around escaped text is one tag node around one text node, whatever follows.\<close>

lemma parseNodes_element:
  assumes "simple_name n" "\<not> isSelfClosingTag n" "valid_utf8 s"
  shows "parseNodes E closing acc (element n (mm_escape s) @ t) =
    (case parseNodes E closing [] t of (out, nx) \<Rightarrow> (flush_text acc @ TagNode (plain_tag n) (flush_text s) # out, nx))"
  using parseNodes_open [OF assms(1,2), of E closing acc "mm_escape s @ CHR ''<'' # CHR ''/'' # n @ CHR ''>'' # t"]
    parseNodes_escaped [OF assms(3), of E n "[]"] parseNodes_close [OF assms(1)]
  by (simp add: element_def)

end
