(* ===== verification/Go_Fl64.thy ===== *)
theory Go_Fl64
  imports Go_Number
begin

text \<open>
  Go's \<open>float64\<close> arithmetic on finite values as rationals: each operation is the exact result rounded to
  53 bits. The lemmas bound the rounding error and show that rounding never crosses an integer.
\<close>

section \<open>float64\<close>

text \<open>
  Arithmetic on finite \<open>float64\<close> values: the exact result, rounded to 53 bits, ties to even. Every operation
  is rounded (no fused multiply-add); values beyond the largest \<open>float64\<close> are outside this model.
\<close>

definition fl_exp :: "rat \<Rightarrow> int" where
  "fl_exp x = (case quotient_of x of (p, q) \<Rightarrow>
     let e = int (bit_len (nat p)) - int (bit_len (nat q)) - 53
     in max (- 1074) (if x * two_pow (- e) \<ge> 2 ^ 53 then e + 1 else e))"

definition fl64 :: "rat \<Rightarrow> rat" where
  "fl64 x =
    (if x = 0 then 0
     else (let e = fl_exp \<bar>x\<bar>; m = of_int (round_even (\<bar>x\<bar> * two_pow (- e))) * two_pow e
           in if x < 0 then - m else m))"

text \<open>\<open>int(x)\<close>, \<open>math.Round\<close>, and the remainder of Go.\<close>

definition trunc_int :: "rat \<Rightarrow> int" where
  "trunc_int x = (if x < 0 then - \<lfloor>- x\<rfloor> else \<lfloor>x\<rfloor>)"

definition math_Round :: "rat \<Rightarrow> int" where
  "math_Round x = (if x < 0 then - \<lfloor>- x + 1 / 2\<rfloor> else \<lfloor>x + 1 / 2\<rfloor>)"

definition go_rem :: "int \<Rightarrow> int \<Rightarrow> int" where
  "go_rem a b = (if a < 0 then - ((- a) mod b) else a mod b)"

section \<open>Rounding\<close>

lemma two_pow_eq: "two_pow e = 2 powi e"
  by (simp add: two_pow_def power_int_def inverse_eq_divide power_one_over)

lemma bit_len_bounds: "0 < n \<Longrightarrow> 2 ^ (bit_len n - 1) \<le> n \<and> n < 2 ^ bit_len n"
proof (induction n rule: bit_len.induct)
  case (1 n)
  show ?case
  proof (cases "n = 1")
    case True
    then show ?thesis by (simp add: bit_len.simps [of "Suc 0"] bit_len.simps [of 0])
  next
    case False
    then have pos: "0 < n div 2" using 1(2) by simp
    then have IH: "2 ^ (bit_len (n div 2) - 1) \<le> n div 2" "n div 2 < 2 ^ bit_len (n div 2)" using 1 by simp_all
    have "bit_len (n div 2) \<noteq> 0" using pos bit_len.simps [of "n div 2"] by simp
    then obtain k where k: "bit_len (n div 2) = Suc k" by (cases "bit_len (n div 2)") auto
    have "bit_len n = Suc (Suc k)" using 1(2) k by (simp add: bit_len.simps [of n])
    then show ?thesis using IH k by simp linarith
  qed
qed

lemma fl_exp_bounds:
  assumes "0 < x"
  shows "x < 2 powi (fl_exp x + 53)" "fl_exp x = - 1074 \<or> 2 powi (fl_exp x + 52) \<le> x" "- 1074 \<le> fl_exp x"
proof -
  obtain p q where pq: "quotient_of x = (p, q)" by fastforce
  have q: "0 < q" using quotient_of_denom_pos [OF pq] .
  have x: "x = of_int p / of_int q" using quotient_of_div [OF pq] .
  have p: "0 < p" using assms q unfolding x by (simp add: zero_less_divide_iff)
  define bp bq where "bp = bit_len (nat p)" and "bq = bit_len (nat q)"
  define e where "e = int bp - int bq - 53"
  have P: "(2 :: nat) ^ (bp - 1) \<le> nat p" "nat p < 2 ^ bp" and Q: "(2 :: nat) ^ (bq - 1) \<le> nat q" "nat q < 2 ^ bq"
    using bit_len_bounds [of "nat p"] bit_len_bounds [of "nat q"] p q by (simp_all add: bp_def bq_def)
  have b1: "1 \<le> bp" "1 \<le> bq" using P(2) Q(2) p q by (cases bp; cases bq; simp)+
  have real: "(2 :: rat) powi (int bp - 1) \<le> of_int p" "of_int p < (2 :: rat) powi int bp"
    "(2 :: rat) powi (int bq - 1) \<le> of_int q" "of_int q < (2 :: rat) powi int bq"
  proof -
    have *: "of_nat (nat z) = (of_int z :: rat)" if "0 < z" for z using that by simp
    have "(2 :: rat) ^ (bp - 1) \<le> of_int p" "of_int p < (2 :: rat) ^ bp" "(2 :: rat) ^ (bq - 1) \<le> of_int q" "of_int q < (2 :: rat) ^ bq"
      using P Q p q * [OF p, symmetric] * [OF q, symmetric] of_nat_le_iff [where 'a = rat] of_nat_less_iff [where 'a = rat]
      by (metis of_nat_numeral of_nat_power)+
    moreover have "(2 :: rat) powi (int b - 1) = 2 ^ (b - 1)" if "1 \<le> b" for b
      using that by (simp add: power_int_def nat_diff_distrib')
    ultimately show "(2 :: rat) powi (int bp - 1) \<le> of_int p" "of_int p < (2 :: rat) powi int bp"
      "(2 :: rat) powi (int bq - 1) \<le> of_int q" "of_int q < (2 :: rat) powi int bq" using b1 by simp_all
  qed
  have "x < 2 powi int bp / 2 powi (int bq - 1)"
    unfolding x by (rule frac_less) (use real q p in \<open>auto intro: less_imp_le\<close>)
  moreover have "(2 :: rat) powi int bp / 2 powi (int bq - 1) = 2 powi (e + 54)"
    by (subst power_int_diff [symmetric]) (simp_all add: e_def algebra_simps)
  ultimately have hi: "x < 2 powi (e + 54)" by simp
  have "2 powi (int bp - 1) / 2 powi int bq \<le> x"
    unfolding x by (rule frac_le) (use real q p in \<open>auto intro: less_imp_le\<close>)
  moreover have "(2 :: rat) powi (int bp - 1) / 2 powi int bq = 2 powi (e + 52)"
    by (subst power_int_diff [symmetric]) (simp_all add: e_def algebra_simps)
  ultimately have lo: "2 powi (e + 52) \<le> x" by simp
  define e1 where "e1 = (if 2 powi (e + 53) \<le> x then e + 1 else e)"
  have cond: "x * two_pow (- e) \<ge> 2 ^ 53 \<longleftrightarrow> 2 powi (e + 53) \<le> x"
    by (simp add: two_pow_eq power_int_add power_int_minus field_simps)
  have fe: "fl_exp x = max (- 1074) e1"
    using cond by (simp add: fl_exp_def pq e1_def e_def bp_def bq_def Let_def)
  have 1: "x < 2 powi (e1 + 53)" using hi by (auto simp: e1_def add.commute [of e] add.assoc)
  have 2: "2 powi (e1 + 52) \<le> x" using lo by (auto simp: e1_def add.assoc)
  have "(2 :: rat) powi (e1 + 53) \<le> 2 powi (fl_exp x + 53)" unfolding fe by (intro power_int_increasing) auto
  then show "x < 2 powi (fl_exp x + 53)" using 1 by linarith
  show "fl_exp x = - 1074 \<or> 2 powi (fl_exp x + 52) \<le> x" unfolding fe using 2 by (cases "e1 \<le> - 1074") (auto simp: max_def)
  show "- 1074 \<le> fl_exp x" unfolding fe by simp
qed

lemma round_even_int [simp]: "round_even (of_int n) = n"
  by (simp add: round_even_def)

lemma round_even_error: "\<bar>of_int (round_even x) - x\<bar> \<le> 1 / 2"
proof -
  have "of_int \<lfloor>x\<rfloor> \<le> x" "x < of_int \<lfloor>x\<rfloor> + 1" by linarith+
  then show ?thesis by (auto simp: round_even_def Let_def abs_le_iff)
qed

lemma round_even_le: "x \<le> of_int n \<Longrightarrow> round_even x \<le> n"
  using round_even_error [of x] by (cases "x = of_int n") (auto simp: round_even_def Let_def, linarith+)

lemma round_even_ge: "of_int n \<le> x \<Longrightarrow> n \<le> round_even x"
  by (auto simp: round_even_def Let_def) linarith+

text \<open>A positive value: its exponent, and the rounded mantissa.\<close>

lemma fl64_pos: "0 < x \<Longrightarrow> fl64 x = of_int (round_even (x * 2 powi (- fl_exp x))) * 2 powi fl_exp x"
  by (simp add: fl64_def two_pow_eq Let_def)

lemma fl64_0 [simp]: "fl64 0 = 0"
  by (simp add: fl64_def)

lemma scale_back: "m * 2 powi (- e) * 2 powi e = (m :: rat)"
  by (simp add: power_int_minus)

lemma fl_exp_le:
  assumes "0 < x" "x < 2 powi k" "- 1021 \<le> k"
  shows "fl_exp x \<le> k - 53"
proof (cases "fl_exp x = - 1074")
  case False
  then have "(2 :: rat) powi (fl_exp x + 52) < 2 powi k" using fl_exp_bounds(2) [OF assms(1)] assms(2) by linarith
  then have "fl_exp x + 52 < k" by (metis linorder_not_less one_le_numeral power_int_increasing)
  then show ?thesis by simp
qed (use assms(3) in simp)

lemma fl64_error:
  assumes "0 \<le> x" "x < 2 powi k" "- 1021 \<le> k"
  shows "\<bar>fl64 x - x\<bar> \<le> 2 powi (k - 54)"
proof (cases "x = 0")
  case False
  then have x: "0 < x" using assms(1) by simp
  define e where "e = fl_exp x"
  define y where "y = x * 2 powi (- e)"
  have "fl64 x - x = (of_int (round_even y) - y) * 2 powi e"
    using scale_back [of x e] by (simp add: fl64_pos [OF x] y_def e_def left_diff_distrib)
  then have "\<bar>fl64 x - x\<bar> \<le> 1 / 2 * 2 powi e"
    using round_even_error [of y] by (simp add: abs_mult mult_right_mono)
  also have "\<dots> = 2 powi (e - 1)" by (simp add: power_int_diff)
  also have "\<dots> \<le> 2 powi (k - 54)"
    using fl_exp_le [OF x assms(2,3)] by (intro power_int_increasing) (auto simp: e_def)
  finally show ?thesis .
qed simp

text \<open>Integers below \<open>2\<^sup>53\<close> are exact and rounding does not cross them.\<close>

lemma int_scaled: "e \<le> 0 \<Longrightarrow> \<exists>m. of_int n * 2 powi (- e) = (of_int m :: rat)"
  by (intro exI [of _ "n * 2 ^ nat (- e)"]) (simp add: power_int_def)

lemma fl64_between:
  assumes "of_int a \<le> x" "x \<le> of_int b" "0 \<le> a" "b < 2 ^ 53"
  shows "of_int a \<le> fl64 x" "fl64 x \<le> of_int b"
proof -
  have "of_int a \<le> fl64 x \<and> fl64 x \<le> of_int b"
  proof (cases "x = 0")
    case False
    then have x: "0 < x" using assms(1,3) by (metis of_int_0_le_iff order_le_less order_le_less_trans)
    define e where "e = fl_exp x"
    have "of_int b < (of_int (2 ^ 53) :: rat)" using assms(4) by (simp only: of_int_less_iff)
    then have "x < 2 powi 53" using assms(2) by simp
    then have e: "e \<le> 0" using fl_exp_le [OF x, of 53] by (simp add: e_def)
    obtain m n where m: "of_int a * 2 powi (- e) = (of_int m :: rat)" and n: "of_int b * 2 powi (- e) = (of_int n :: rat)"
      using int_scaled [OF e] by metis
    have "of_int m \<le> x * 2 powi (- e)" "x * 2 powi (- e) \<le> of_int n"
      unfolding m [symmetric] n [symmetric] using assms(1,2) by (simp_all add: mult_right_mono)
    then have "m \<le> round_even (x * 2 powi (- e))" "round_even (x * 2 powi (- e)) \<le> n"
      by (auto intro: round_even_ge round_even_le)
    then have "(of_int m :: rat) * 2 powi e \<le> fl64 x" "fl64 x \<le> of_int n * 2 powi e"
      unfolding fl64_pos [OF x] e_def [symmetric] by (simp_all add: mult_right_mono)
    then show ?thesis unfolding m [symmetric] n [symmetric] scale_back by simp
  qed (use assms in simp)
  then show "of_int a \<le> fl64 x" "fl64 x \<le> of_int b" by simp_all
qed

lemma fl64_int: "0 \<le> n \<Longrightarrow> n < 2 ^ 53 \<Longrightarrow> fl64 (of_int n) = of_int n"
  using fl64_between [of n "of_int n" n] by simp

lemma fl64_nat: "n < 2 ^ 53 \<Longrightarrow> fl64 (of_nat n) = of_nat n"
  using fl64_int [of "int n"] by simp

lemma fl64_1 [simp]: "fl64 1 = 1"
  using fl64_int [of 1] by simp

lemma fl64_nonneg: "0 \<le> x \<Longrightarrow> x \<le> of_int b \<Longrightarrow> b < 2 ^ 53 \<Longrightarrow> 0 \<le> fl64 x"
  using fl64_between(1) [of 0 x b] by simp

lemma fl64_unit: "0 \<le> x \<Longrightarrow> x \<le> 1 \<Longrightarrow> 0 \<le> fl64 x \<and> fl64 x \<le> 1"
  using fl64_between [of 0 x 1] by simp

lemma trunc_int_range:
  assumes "of_int a \<le> x" "x < of_int b + 1" "0 \<le> a"
  shows "a \<le> trunc_int x" "trunc_int x \<le> b"
proof -
  have "0 \<le> x" using assms(1,3) by (metis of_int_0_le_iff order_trans)
  then show "a \<le> trunc_int x" "trunc_int x \<le> b" using assms by (auto simp: trunc_int_def le_floor_iff floor_le_iff)
qed

end
