(* ===== verification/MiniMessage.thy ===== *)
theory MiniMessage
  imports Mini_Tags Go_Fl64
begin

text \<open>
  The MiniMessage parser (\<open>minimessage/minimessage.go\<close>), second half: colours and transforms, the
  renderer and \<open>Parse\<close>. The types of the component package are datatypes of what the code builds;
  \<open>None\<close> as the result of an operation is a run-time panic of the Go code.
\<close>

unbundle bit_operations_syntax

section \<open>Colours\<close>

definition rgb_int :: "int \<Rightarrow> int \<Rightarrow> int \<Rightarrow> int" where
  "rgb_int r g b = push_bit 16 r OR push_bit 8 g OR b"

definition interpolate_channel :: "nat \<Rightarrow> nat \<Rightarrow> rat \<Rightarrow> int" where
  "interpolate_channel a b t =
    trunc_int (fl64 (fl64 (of_nat (a div 256) * fl64 (1 - t)) + fl64 (of_nat (b div 256) * t))) mod 256"

definition interpolate :: "mm_env \<Rightarrow> mm_color \<Rightarrow> mm_color \<Rightarrow> rat \<Rightarrow> mm_color" where
  "interpolate E a b t =
    (case mx_RGBA E a of (ar, ag, ab) \<Rightarrow> case mx_RGBA E b of (br, bg, bb) \<Rightarrow>
       mx_HexInt E (rgb_int (interpolate_channel ar br t) (interpolate_channel ag bg t) (interpolate_channel ab bb t)))"

definition gradientColor :: "mm_env \<Rightarrow> mm_color list \<Rightarrow> int \<Rightarrow> int \<Rightarrow> mm_color" where
  "gradientColor E colors index tot =
    (if colors = [] then mx_White E
     else if length colors = 1 \<or> tot \<le> 1 then hd colors
     else
       (let pos = fl64 (fl64 (fl64 (of_int index) / fl64 (of_int (tot - 1))) * fl64 (of_nat (length colors - 1)));
            left = \<lfloor>pos\<rfloor>; right = left + 1
        in if right \<ge> int (length colors) then colors ! (length colors - 1)
           else interpolate E (colors ! nat left) (colors ! nat right) (fl64 (pos - of_int left))))"

definition hsvToRGB :: "rat \<Rightarrow> rat \<Rightarrow> rat \<Rightarrow> int \<times> int \<times> int" where
  "hsvToRGB h s v =
    (let i = trunc_int (fl64 (h * 6));
         f = fl64 (fl64 (h * 6) - of_int i);
         p = fl64 (v * fl64 (1 - s));
         q = fl64 (v * fl64 (1 - fl64 (f * s)));
         t = fl64 (v * fl64 (1 - fl64 (fl64 (1 - f) * s)));
         m = go_rem i 6;
         (r, g, b) = (if m = 0 then (v, t, p) else if m = 1 then (q, v, p) else if m = 2 then (p, v, t)
                      else if m = 3 then (p, q, v) else if m = 4 then (t, p, v) else (v, p, q))
     in (trunc_int (fl64 (r * 255)), trunc_int (fl64 (g * 255)), trunc_int (fl64 (b * 255))))"

definition rainbowColor :: "mm_env \<Rightarrow> int \<Rightarrow> int \<Rightarrow> mm_color" where
  "rainbowColor E index tot =
    (if tot \<le> 1 then mx_Red E
     else (case hsvToRGB (fl64 (fl64 (of_int index) / fl64 (of_int tot))) 1 1 of (r, g, b) \<Rightarrow>
       mx_HexInt E (rgb_int r g b)))"

text \<open>The phase of a transition: the last argument that is a number, clamped to -1..1; 0 when there is none.\<close>

fun last_float :: "mm_env \<Rightarrow> string list \<Rightarrow> go_float option" where
  "last_float E [] = None"
| "last_float E (a # r) = (case last_float E r of Some v \<Rightarrow> Some v | None \<Rightarrow> mx_ParseFloat E a)"

definition transitionIndex :: "mm_env \<Rightarrow> nat \<Rightarrow> go_float option \<Rightarrow> int" where
  "transitionIndex E n phase =
    (let round_phase = (\<lambda>p. math_Round (fl64 (fl64 (fl64 (p + 1) / 2) * fl64 (of_nat (n - 1)))))
     in case phase of
          None \<Rightarrow> round_phase 0
        | Some (Finite v) \<Rightarrow> round_phase (max (- 1) (min 1 v))
        | Some PosInf \<Rightarrow> round_phase 1
        | Some NegInf \<Rightarrow> round_phase (- 1)
        | Some NotANumber \<Rightarrow> mx_int_NaN E)"

definition transitionColor :: "mm_env \<Rightarrow> mm_color list \<Rightarrow> string list \<Rightarrow> mm_color" where
  "transitionColor E colors args =
    (let index0 = transitionIndex E (length colors) (last_float E args);
         index1 = (if index0 < 0 then 0 else index0);
         index2 = (if index1 \<ge> int (length colors) then int (length colors) - 1 else index1)
     in colors ! nat index2)"

definition parseColor :: "mm_env \<Rightarrow> string \<Rightarrow> mm_color option" where
  "parseColor E value0 =
    (let value = replaceAll ''grey'' ''gray'' (strings_ToLower (mx_lower E) (strings_TrimSpace value0))
     in if hasPrefix value ''#'' then mx_Hex E value else mx_Names E value)"

definition parseColors :: "mm_env \<Rightarrow> string list \<Rightarrow> mm_color list" where
  "parseColors E args = List.map_filter (parseColor E) args"

definition parseColorTag :: "mm_env \<Rightarrow> string \<Rightarrow> string list \<Rightarrow> mm_color option" where
  "parseColorTag E name args =
    (if name = ''color'' \<or> name = ''colour'' \<or> name = ''c'' then (if args = [] then None else parseColor E (hd args))
     else parseColor E name)"

section \<open>Components\<close>

text \<open>
  What the code builds with the component package: a style keeps the calls of \<open>SetDecoration\<close> in order, an
  event is the constructor that was called.
\<close>

datatype mm_decoration = Bold | Italic | Underlined | Strikethrough | Obfuscated

datatype mm_click = OpenUrl string | OpenFile string | RunCommand string | SuggestCommand string | ChangePage string
  | CopyToClipboard string | ShowDialog string | CustomEvent string "string list"

datatype mm_component = MText string mm_style "mm_component list" | MTranslation string mm_style "mm_component list"
  and mm_style = Style (st_Color: "mm_color option") (st_decorations: "(mm_decoration \<times> bool) list") (st_Font: "string option")
     (st_Insertion: "string option") (st_ClickEvent: "mm_click option") (st_HoverEvent: "mm_hover option")
  and mm_hover = ShowText mm_component | ShowItem string int | ShowEntity string "byte list" "mm_component option"

definition no_style :: mm_style where "no_style = Style None [] None None None None"

primrec set_Color :: "mm_color \<Rightarrow> mm_style \<Rightarrow> mm_style" where
  "set_Color x (Style c d f i k h) = Style (Some x) d f i k h"

primrec SetDecoration :: "mm_decoration \<Rightarrow> bool \<Rightarrow> mm_style \<Rightarrow> mm_style" where
  "SetDecoration x b (Style c d f i k h) = Style c (d @ [(x, b)]) f i k h"

primrec set_Font :: "string \<Rightarrow> mm_style \<Rightarrow> mm_style" where
  "set_Font x (Style c d f i k h) = Style c d (Some x) i k h"

primrec set_Insertion :: "string \<Rightarrow> mm_style \<Rightarrow> mm_style" where
  "set_Insertion x (Style c d f i k h) = Style c d f (Some x) k h"

primrec set_ClickEvent :: "mm_click \<Rightarrow> mm_style \<Rightarrow> mm_style" where
  "set_ClickEvent x (Style c d f i k h) = Style c d f i (Some x) h"

primrec set_HoverEvent :: "mm_hover \<Rightarrow> mm_style \<Rightarrow> mm_style" where
  "set_HoverEvent x (Style c d f i k h) = Style c d f i k (Some x)"

definition textWithStyle :: "string \<Rightarrow> mm_style \<Rightarrow> mm_component" where
  "textWithStyle value style = MText value style []"

definition decoration :: "string \<Rightarrow> mm_decoration option" where
  "decoration name =
    (if name \<in> {''bold'', ''b''} then Some Bold
     else if name \<in> {''italic'', ''em'', ''i''} then Some Italic
     else if name \<in> {''underlined'', ''underline'', ''u''} then Some Underlined
     else if name \<in> {''strikethrough'', ''st''} then Some Strikethrough
     else if name \<in> {''obfuscated'', ''obf''} then Some Obfuscated
     else None)"

definition clickEvent :: "mm_env \<Rightarrow> string \<Rightarrow> string \<Rightarrow> mm_click option" where
  "clickEvent E action value =
    (let a = strings_ToLower (mx_lower E) action in
     if a = ''open_url'' then Some (OpenUrl value)
     else if a = ''open_file'' then Some (OpenFile value)
     else if a = ''run_command'' then Some (RunCommand value)
     else if a = ''suggest_command'' then Some (SuggestCommand value)
     else if a = ''change_page'' then Some (ChangePage value)
     else if a = ''copy_to_clipboard'' then Some (CopyToClipboard value)
     else if a = ''show_dialog'' then Some (ShowDialog value)
     else if a = ''custom'' then
       (case splitArgs value of Some (p # ps) \<Rightarrow> Some (CustomEvent p ps) | _ \<Rightarrow> None)
     else None)"

definition parseMiniMessageKey :: "mm_env \<Rightarrow> string \<Rightarrow> string option" where
  "parseMiniMessageKey E value =
    mx_key E (if CHR '':'' \<in> set value then value else mx_MinecraftNamespace E @ '':'' @ value)"

definition showItemHover :: "mm_env \<Rightarrow> string \<Rightarrow> mm_hover option" where
  "showItemHover E value =
    (case splitArgs value of
       Some (p # ps) \<Rightarrow>
         (case parseMiniMessageKey E p of
            None \<Rightarrow> None
          | Some k \<Rightarrow> Some (ShowItem k (case ps of c # _ \<Rightarrow> (case parseInt64 c of Inr n \<Rightarrow> n | Inl _ \<Rightarrow> 1) | [] \<Rightarrow> 1)))
     | _ \<Rightarrow> None)"

text \<open>The result is a panic, no event, or the event; \<open>P\<close> is \<open>ParseOrText\<close>.\<close>

definition showEntityHover :: "mm_env \<Rightarrow> (string \<Rightarrow> mm_component option) \<Rightarrow> string \<Rightarrow> mm_hover option option" where
  "showEntityHover E P value =
    (case splitArgs value of
       Some (p # u # ps) \<Rightarrow>
         (case parseMiniMessageKey E p of
            None \<Rightarrow> Some None
          | Some k \<Rightarrow>
              (case mx_uuid E u of
                 None \<Rightarrow> Some None
               | Some uid \<Rightarrow>
                   (case ps of [] \<Rightarrow> Some (Some (ShowEntity k uid None))
                    | n # _ \<Rightarrow> map_option (\<lambda>c. Some (ShowEntity k uid (Some c))) (P n))))
     | _ \<Rightarrow> Some None)"

section \<open>The renderer\<close>

text \<open>\<open>transform\<close>: the total and the colour function; its index is threaded through the renderer.\<close>

datatype mm_fill = Gradient "mm_color list" | Rainbow bool

record mm_transform =
  tx_total :: int
  tx_fill :: mm_fill

definition tx_color :: "mm_env \<Rightarrow> mm_fill \<Rightarrow> int \<Rightarrow> int \<Rightarrow> mm_color" where
  "tx_color E fill i tot =
    (case fill of
       Gradient colors \<Rightarrow> gradientColor E colors i tot
     | Rainbow reverse \<Rightarrow> rainbowColor E (if reverse then tot - i - 1 else i) tot)"

fun colored_runes :: "mm_env \<Rightarrow> mm_style \<Rightarrow> mm_transform \<Rightarrow> int \<Rightarrow> nat list \<Rightarrow> mm_component list" where
  "colored_runes E style tx i [] = []"
| "colored_runes E style tx i (r # rs) =
    textWithStyle (encodeRune r) (set_Color (tx_color E (tx_fill tx) i (tx_total tx)) style)
      # colored_runes E style tx (i + 1) rs"

definition renderText :: "mm_env \<Rightarrow> string \<Rightarrow> mm_style \<Rightarrow> mm_transform option \<Rightarrow> int \<Rightarrow> mm_component list \<times> int" where
  "renderText E value style tx i =
    (if value = '''' then ([], i)
     else case tx of
       None \<Rightarrow> ([textWithStyle value style], i)
     | Some x \<Rightarrow>
         if tx_total x \<le> 1 then ([textWithStyle value style], i)
         else (colored_runes E style x i (runes value), i + int (length (runes value))))"

text \<open>An element without visible text counts as one rune.\<close>

fun visibleRunes :: "mm_node list \<Rightarrow> nat"
  and visible_node :: "mm_node \<Rightarrow> nat" where
  "visibleRunes ns = (let tot = sum_list (map visible_node ns) in if tot = 0 then 1 else tot)"
| "visible_node (Node txt g ns) = (if txt \<noteq> '''' then length (runes txt) else visibleRunes ns)"

definition literal_text :: "mm_tag \<Rightarrow> string" where
  "literal_text g = ''<'' @ tg_literal g @ ''>''"

text \<open>Several texts parsed in turn; the first panic ends the program.\<close>

fun parse_all :: "(string \<Rightarrow> mm_component option) \<Rightarrow> string list \<Rightarrow> mm_component list option" where
  "parse_all P [] = Some []"
| "parse_all P (a # r) = (case P a of None \<Rightarrow> None | Some c \<Rightarrow> map_option ((#) c) (parse_all P r))"

definition renderTranslation :: "(string \<Rightarrow> mm_component option) \<Rightarrow> mm_tag \<Rightarrow> mm_style \<Rightarrow> mm_component option" where
  "renderTranslation P g style =
    (if tg_args g = [] then Some (textWithStyle (literal_text g) style)
     else
       (let withStart = (if tagBase (tg_name g) \<in> {''lang_or'', ''tr_or'', ''translate_or''} then 2 else 1)
        in if length (tg_args g) < withStart then None
           else map_option (MTranslation (hd (tg_args g)) style) (parse_all P (drop withStart (tg_args g)))))"

text \<open>The cases of \<open>applyStyleTag\<close>: a panic, a tag that is not known, or the style.\<close>

definition hoverStyle :: "mm_env \<Rightarrow> (string \<Rightarrow> mm_component option) \<Rightarrow> string \<Rightarrow> string \<Rightarrow> mm_style \<Rightarrow> mm_style option" where
  "hoverStyle E P action value next_style =
    (let a = strings_ToLower (mx_lower E) action in
     if a = ''show_text'' then map_option (\<lambda>c. set_HoverEvent (ShowText c) next_style) (P value)
     else if a = ''show_item'' then
       Some (case showItemHover E value of Some h \<Rightarrow> set_HoverEvent h next_style | None \<Rightarrow> next_style)
     else if a = ''show_entity'' then
       map_option (\<lambda>e. case e of Some h \<Rightarrow> set_HoverEvent h next_style | None \<Rightarrow> next_style) (showEntityHover E P value)
     else Some next_style)"

definition otherStyle :: "mm_env \<Rightarrow> (string \<Rightarrow> mm_component option) \<Rightarrow> string \<Rightarrow> string list \<Rightarrow> mm_style \<Rightarrow> mm_style option option" where
  "otherStyle E P name args style =
    (if name = ''font'' then
       Some (case args of [] \<Rightarrow> None | a # _ \<Rightarrow> map_option (\<lambda>k. set_Font k style) (parseMiniMessageKey E a))
     else if name = ''insert'' \<or> name = ''insertion'' then
       Some (case args of [] \<Rightarrow> None | a # _ \<Rightarrow> Some (set_Insertion a style))
     else if name = ''click'' then
       Some (if length args < 2 then None
             else Some (case clickEvent E (hd args) (join_colon (tl args)) of Some c \<Rightarrow> set_ClickEvent c style | None \<Rightarrow> style))
     else if name = ''hover'' then
       (if length args < 2 then Some None else map_option Some (hoverStyle E P (hd args) (join_colon (tl args)) style))
     else Some None)"

definition applyStyleTag :: "mm_env \<Rightarrow> (string \<Rightarrow> mm_component option) \<Rightarrow> mm_tag \<Rightarrow> mm_style \<Rightarrow> mm_style option option" where
  "applyStyleTag E P g style =
    (let name = tagBase (tg_name g); args = tg_args g in
     if hasPrefix name ''!'' then Some (map_option (\<lambda>d. SetDecoration d False style) (decoration (trimPrefix name ''!'')))
     else case parseColorTag E name args of
       Some c \<Rightarrow> Some (Some (set_Color c style))
     | None \<Rightarrow>
         (case decoration name of
            Some d \<Rightarrow> Some (Some (SetDecoration d (\<not> (args \<noteq> [] \<and> equalFold_false (hd args))) style))
          | None \<Rightarrow> otherStyle E P name args style))"

text \<open>
  \<open>renderTag\<close>: the style it returns in the code is nil on every path, so only the components and the index
  remain; what a tag becomes comes first.
\<close>

datatype mm_render = Emit string | Translate | Children mm_style "mm_transform option" bool

definition tag_render :: "mm_env \<Rightarrow> (string \<Rightarrow> mm_component option) \<Rightarrow> mm_tag \<Rightarrow> mm_node list \<Rightarrow> mm_style
    \<Rightarrow> mm_transform option \<Rightarrow> mm_render option" where
  "tag_render E P g ns style tx =
    (let name = tagBase (tg_name g) in
     if name \<in> {''br'', ''newline''} then Some (Emit [char_of (10 :: nat)])
     else if name \<in> {''lang'', ''tr'', ''translate'', ''lang_or'', ''tr_or'', ''translate_or''} then Some Translate
     else if name \<in> {''key'', ''keybind'', ''selector'', ''score'', ''nbt'', ''sprite'', ''head''} then
       Some (Emit (literal_text g))
     else if name = ''gradient'' then
       (let colors = parseColors E (tg_args g);
            colors' = (if length colors < 2 then [mx_White E, mx_Aqua E] else colors)
        in Some (Children style (Some \<lparr>tx_total = int (visibleRunes ns), tx_fill = Gradient colors'\<rparr>) True))
     else if name = ''transition'' then
       (let colors = parseColors E (tg_args g)
        in if colors = [] then Some (Children style tx False)
           else Some (Children (set_Color (transitionColor E colors (tg_args g)) style) tx False))
     else if name = ''rainbow'' \<or> name = ''pride'' then
       Some (Children style (Some \<lparr>tx_total = int (visibleRunes ns),
         tx_fill = Rainbow (list_ex (\<lambda>a. CHR ''!'' \<in> set a) (tg_args g))\<rparr>) True)
     else (case applyStyleTag E P g style of
         None \<Rightarrow> None
       | Some None \<Rightarrow> Some (Emit (literal_text g))
       | Some (Some st) \<Rightarrow> Some (Children st tx False)))"

fun renderNodes :: "mm_env \<Rightarrow> (string \<Rightarrow> mm_component option) \<Rightarrow> mm_node list \<Rightarrow> mm_style \<Rightarrow> mm_transform option \<Rightarrow> int
    \<Rightarrow> (mm_component list \<times> mm_style \<times> int) option"
  and renderTag :: "mm_env \<Rightarrow> (string \<Rightarrow> mm_component option) \<Rightarrow> mm_tag \<Rightarrow> mm_node list \<Rightarrow> mm_style \<Rightarrow> mm_transform option \<Rightarrow> int
    \<Rightarrow> (mm_component list \<times> int) option" where
  "renderNodes E P [] current tx i = Some ([], current, i)"
| "renderNodes E P (Node txt g ns # rest) current tx i =
    (if txt \<noteq> '''' then
       (case renderText E txt current tx i of (out, i1) \<Rightarrow>
          map_option (\<lambda>(more, st, i2). (out @ more, st, i2)) (renderNodes E P rest current tx i1))
     else if tg_name g = ''reset'' then renderNodes E P rest no_style tx i
     else (case renderTag E P g ns current tx i of
         None \<Rightarrow> None
       | Some (out, i1) \<Rightarrow>
           map_option (\<lambda>(more, st, i2). (out @ more, st, i2)) (renderNodes E P rest current tx i1)))"
| "renderTag E P g ns style tx i =
    (case tag_render E P g ns style tx of
       None \<Rightarrow> None
     | Some (Emit t) \<Rightarrow> Some (renderText E t style tx i)
     | Some Translate \<Rightarrow> map_option (\<lambda>c. ([c], i)) (renderTranslation P g style)
     | Some (Children st tx' local) \<Rightarrow>
         (case renderNodes E P ns st tx' (if local then 0 else i) of
            None \<Rightarrow> None
          | Some (out, _, i1) \<Rightarrow> Some (out, if local then i else i1)))"

definition compact :: "mm_component list \<Rightarrow> mm_component" where
  "compact parts = (case parts of [] \<Rightarrow> MText [] no_style [] | [c] \<Rightarrow> c | _ \<Rightarrow> MText [] no_style parts)"

section \<open>Parse\<close>

text \<open>
  \<open>parseNodes\<close> never fails, so \<open>Parse\<close> never returns an error and \<open>ParseOrText\<close> is \<open>Parse\<close>. The code is
  recursive through the arguments of tags: the fuel is one more than the brackets of the input.
\<close>

definition parse_with :: "mm_env \<Rightarrow> (string \<Rightarrow> mm_component option) \<Rightarrow> string \<Rightarrow> mm_component option" where
  "parse_with E P s =
    map_option (\<lambda>(out, _, _). compact out) (renderNodes E P (fst (parseNodes E [] [] s)) no_style None 0)"

primrec parse_fuel :: "nat \<Rightarrow> mm_env \<Rightarrow> string \<Rightarrow> mm_component option" where
  "parse_fuel 0 E s = None"
| "parse_fuel (Suc n) E s = parse_with E (parse_fuel n E) s"

definition mm_Parse :: "mm_env \<Rightarrow> string \<Rightarrow> mm_component option" where
  "mm_Parse E s = parse_fuel (Suc (opens s)) E s"

text \<open>\<open>ParseMiniMessage\<close> of \<open>text.go\<close> recovers: a panic is an error.\<close>

definition ParseMiniMessage :: "mm_env \<Rightarrow> string \<Rightarrow> mm_component result" where
  "ParseMiniMessage E s = (case mm_Parse E s of Some c \<Rightarrow> Inr c | None \<Rightarrow> Inl (Errorf ''parse minimessage: %v'' [FS ''runtime error: slice bounds out of range [2:1]'']))"

section \<open>The recursion through arguments ends\<close>

text \<open>Two parsers that agree on texts with fewer than \<open>n\<close> brackets render tags below \<open>n\<close> the same way.\<close>

definition parsers_agree :: "nat \<Rightarrow> (string \<Rightarrow> 'a) \<Rightarrow> (string \<Rightarrow> 'a) \<Rightarrow> bool" where
  "parsers_agree n P Q \<longleftrightarrow> (\<forall>s. opens s < n \<longrightarrow> P s = Q s)"

lemma parsers_agreeD: "parsers_agree n P Q \<Longrightarrow> opens s < n \<Longrightarrow> P s = Q s"
  by (simp add: parsers_agree_def)

lemma opens_join_colon: "opens (join_colon as) = sum_list (map opens as)"
  by (induction as rule: join_colon.induct) auto

lemma opens_arg: "a \<in> set as \<Longrightarrow> opens a \<le> sum_list (map opens as)"
  by (induction as) auto

lemma opens_tl: "opens (join_colon (tl as)) \<le> sum_list (map opens as)"
  by (cases as) (simp_all add: opens_join_colon)

lemma parse_all_cong: "\<forall>a \<in> set as. P a = Q a \<Longrightarrow> parse_all P as = parse_all Q as"
  by (induction as) (auto split: option.split)

lemma renderTranslation_cong:
  assumes "parsers_agree n P Q" "args_below n g"
  shows "renderTranslation P g style = renderTranslation Q g style"
proof -
  have "parse_all P (drop k (tg_args g)) = parse_all Q (drop k (tg_args g))" for k
    using assms opens_arg [of _ "tg_args g"] in_set_dropD [of _ k "tg_args g"]
    by (intro parse_all_cong) (fastforce simp: parsers_agree_def args_below_def)
  then show ?thesis by (simp add: renderTranslation_def Let_def)
qed

lemma showEntityHover_cong:
  assumes "parsers_agree n P Q" "opens value < n"
  shows "showEntityHover E P value = showEntityHover E Q value"
proof -
  have "P x = Q x" if "splitArgs value = Some (p # u # x # xs)" for p u x xs
    using opens_splitArgs [OF that] assms by (intro parsers_agreeD [of n]) auto
  then show ?thesis by (auto simp: showEntityHover_def split: option.splits list.splits)
qed

lemma tag_render_cong:
  assumes "parsers_agree n P Q" "args_below n g"
  shows "tag_render E P g ns style tx = tag_render E Q g ns style tx"
proof -
  have "hoverStyle E P a (join_colon (tl (tg_args g))) style = hoverStyle E Q a (join_colon (tl (tg_args g))) style"
    if "\<not> length (tg_args g) < 2" for a
  proof -
    have less: "opens (join_colon (tl (tg_args g))) < n"
      using assms(2) that opens_tl [of "tg_args g"] by (auto simp: args_below_def)
    show ?thesis using showEntityHover_cong [OF assms(1) less] parsers_agreeD [OF assms(1) less] by (simp add: hoverStyle_def Let_def)
  qed
  then have "otherStyle E P name (tg_args g) style = otherStyle E Q name (tg_args g) style" for name
    by (simp add: otherStyle_def)
  then have "applyStyleTag E P g style = applyStyleTag E Q g style" by (simp add: applyStyleTag_def Let_def split: option.split)
  then show ?thesis by (simp only: tag_render_def)
qed

lemma render_cong:
  "parsers_agree n P Q \<Longrightarrow> list_all (args_below n) (nodes_tags ns) \<Longrightarrow>
    renderNodes E P ns current tx i = renderNodes E Q ns current tx i"
  "parsers_agree n P Q \<Longrightarrow> args_below n g \<Longrightarrow> list_all (args_below n) (nodes_tags ns) \<Longrightarrow>
    renderTag E P g ns current tx i = renderTag E Q g ns current tx i"
proof (induction E P ns current tx i and E P g ns current tx i rule: renderNodes_renderTag.induct)
  case (2 E P w g ns rest current tx i)
  then show ?case by (auto split: prod.split option.split)
next
  case (3 E P g ns style tx i)
  then show ?case
    using tag_render_cong [OF 3(2,3), of E ns style tx] renderTranslation_cong [OF 3(2,3), of style]
    by (auto split: option.split mm_render.split)
qed simp

lemma parse_with_cong: "parsers_agree (opens s) P Q \<Longrightarrow> parse_with E P s = parse_with E Q s"
  using render_cong(1) parseNodes_tags unfolding parse_with_def by metis

lemma parse_fuel_enough:
  "opens s < m \<Longrightarrow> opens s < n \<Longrightarrow> parse_fuel m E s = parse_fuel n E s"
proof (induction "opens s" arbitrary: s m n rule: less_induct)
  case less
  obtain m' n' where mn: "m = Suc m'" "n = Suc n'" using less.prems by (cases m; cases n) auto
  have "parse_fuel m' E t = parse_fuel n' E t" if "opens t < opens s" for t
    by (rule less.hyps) (use that less.prems mn in linarith)+
  then have "parsers_agree (opens s) (parse_fuel m' E) (parse_fuel n' E)" by (simp add: parsers_agree_def)
  then show ?case unfolding mn parse_fuel.simps by (rule parse_with_cong)
qed

text \<open>\<open>Parse\<close> satisfies the recursion of the code, whatever the depth: no fuel is left in it.\<close>

lemma mm_Parse_unfold: "mm_Parse E s = parse_with E (mm_Parse E) s"
proof -
  have "parse_fuel (opens s) E t = mm_Parse E t" if "opens t < opens s" for t
    unfolding mm_Parse_def by (rule parse_fuel_enough) (use that in simp_all)
  then have "parsers_agree (opens s) (parse_fuel (opens s) E) (mm_Parse E)" by (simp add: parsers_agree_def)
  then have "parse_with E (parse_fuel (opens s) E) s = parse_with E (mm_Parse E) s" by (rule parse_with_cong)
  then show ?thesis by (simp add: mm_Parse_def [of E s])
qed

section \<open>Colours stay colours\<close>

text \<open>An interpolated channel lies between the two channels, but for one unit lost to rounding and truncation.\<close>

lemma convex_between:
  fixes a b t :: rat
  assumes "0 \<le> t" "t \<le> 1"
  shows "min a b \<le> a * (1 - t) + b * t" "a * (1 - t) + b * t \<le> max a b"
proof -
  have "min a b * (1 - t) + min a b * t \<le> a * (1 - t) + b * t" "a * (1 - t) + b * t \<le> max a b * (1 - t) + max a b * t"
    using assms by (intro add_mono mult_right_mono; simp)+
  then show "min a b \<le> a * (1 - t) + b * t" "a * (1 - t) + b * t \<le> max a b" by (simp_all add: algebra_simps)
qed

lemma channel_value:
  fixes a b :: nat and t :: rat
  assumes "a < 256" "b < 256" "0 \<le> t" "t \<le> 1"
  defines "y \<equiv> fl64 (fl64 (of_nat a * fl64 (1 - t)) + fl64 (of_nat b * t))"
  shows "of_nat (min a b) - 1 < y" "y < of_nat (max a b) + 1" "0 \<le> y"
proof -
  define u where "u = fl64 (1 - t)"
  define v w where "v = fl64 (of_nat a * u)" and "w = fl64 (of_nat b * t)"
  have u: "0 \<le> u" "u \<le> 1" using fl64_unit [of "1 - t"] assms(3,4) by (simp_all add: u_def)
  have du: "\<bar>u - (1 - t)\<bar> \<le> 2 powi (- 53)" using fl64_error [of "1 - t" 1] assms(3,4) by (simp add: u_def)
  have prod: "0 \<le> of_nat c * z \<and> of_nat c * z \<le> 255" if "c < 256" "0 \<le> z" "z \<le> 1" for c and z :: rat
  proof -
    have "of_nat c * z \<le> of_nat c * 1" using that by (intro mult_left_mono) auto
    moreover have "of_nat c \<le> (255 :: rat)" using that(1) of_nat_le_iff [of c 255, where ?'a = rat] by simp
    ultimately show ?thesis using that by simp
  qed
  have au: "0 \<le> of_nat a * u" "of_nat a * u \<le> 255" and bt: "0 \<le> of_nat b * t" "of_nat b * t \<le> 255"
    using prod [OF assms(1) u] prod [OF assms(2-4)] by blast+
  have dv: "\<bar>v - of_nat a * u\<bar> \<le> 2 powi (- 46)" and dw: "\<bar>w - of_nat b * t\<bar> \<le> 2 powi (- 46)"
    using fl64_error [of "of_nat a * u" 8] fl64_error [of "of_nat b * t" 8] au bt by (simp_all add: v_def w_def)
  have vw: "0 \<le> v" "v \<le> 255" "0 \<le> w" "w \<le> 255"
    using fl64_between [of 0 "of_nat a * u" 255] fl64_between [of 0 "of_nat b * t" 255] au bt by (simp_all add: v_def w_def)
  have y: "y = fl64 (v + w)" by (simp add: y_def v_def w_def u_def)
  have dy: "\<bar>y - (v + w)\<bar> \<le> 2 powi (- 45)" using fl64_error [of "v + w" 9] vw by (simp add: y)
  have "\<bar>of_nat a * u - of_nat a * (1 - t)\<bar> \<le> 255 * 2 powi (- 53)"
  proof -
    have "\<bar>of_nat a * u - of_nat a * (1 - t)\<bar> = of_nat a * \<bar>u - (1 - t)\<bar>"
      unfolding right_diff_distrib [symmetric] by (simp add: abs_mult)
    also have "\<dots> \<le> 255 * 2 powi (- 53)"
      using du assms(1) of_nat_le_iff [of a 255, where ?'a = rat] by (intro mult_mono) auto
    finally show ?thesis .
  qed
  moreover have "(2 :: rat) powi (- 53) * 255 < 1 / 4" "(2 :: rat) powi (- 46) < 1 / 8" "(2 :: rat) powi (- 45) < 1 / 4"
    by (simp_all add: power_int_def power_one_over)
  ultimately have "\<bar>y - (of_nat a * (1 - t) + of_nat b * t)\<bar> < 1" using dv dw dy by linarith
  moreover have "of_nat (min a b) \<le> of_nat a * (1 - t) + of_nat b * t" "of_nat a * (1 - t) + of_nat b * t \<le> (of_nat (max a b) :: rat)"
    using convex_between [OF assms(3,4), of "of_nat a" "of_nat b"] by (simp_all add: of_nat_min of_nat_max)
  ultimately show "of_nat (min a b) - 1 < y" "y < of_nat (max a b) + 1" by linarith+
  show "0 \<le> y" using fl64_between [of 0 "v + w" 510] vw by (simp add: y)
qed

lemma interpolate_channel_between:
  assumes "a < 65536" "b < 65536" "0 \<le> t" "t \<le> 1"
  shows "int (min (a div 256) (b div 256)) - 1 \<le> interpolate_channel a b t"
    "interpolate_channel a b t \<le> int (max (a div 256) (b div 256))" "0 \<le> interpolate_channel a b t"
proof -
  let ?a = "a div 256" and ?b = "b div 256"
  define y where "y = fl64 (fl64 (of_nat ?a * fl64 (1 - t)) + fl64 (of_nat ?b * t))"
  have ab: "?a < 256" "?b < 256" using assms(1,2) by auto
  note v = channel_value [OF ab assms(3,4), folded y_def]
  have hi: "trunc_int y \<le> int (max ?a ?b)"
    by (rule trunc_int_range(2) [of 0]) (use v(2,3) in simp_all)
  have nn: "0 \<le> trunc_int y" using v(3) by (simp add: trunc_int_def)
  have lo: "int (min ?a ?b) - 1 \<le> trunc_int y"
  proof (cases "min ?a ?b = 0")
    case False
    have "of_int (int (min ?a ?b) - 1) \<le> y" using v(1) by simp
    then show ?thesis using trunc_int_range(1) [of "int (min ?a ?b) - 1" y "int (max ?a ?b)"] v(2) False by simp
  qed (use nn in simp)
  have "trunc_int y mod 256 = trunc_int y" using nn hi ab by (intro mod_pos_pos_trivial) auto
  then show "int (min ?a ?b) - 1 \<le> interpolate_channel a b t"
    "interpolate_channel a b t \<le> int (max ?a ?b)" "0 \<le> interpolate_channel a b t"
    using lo hi nn by (simp_all add: interpolate_channel_def y_def)
qed

lemma interpolate_channel_start: "a < 65536 \<Longrightarrow> interpolate_channel a b 0 = int (a div 256)"
  using fl64_nat [of "a div 256"] by (simp add: interpolate_channel_def trunc_int_def)

text \<open>A gradient: the first colour, the last colour, and in between two neighbours interpolated.\<close>

definition gradient_pos :: "nat \<Rightarrow> int \<Rightarrow> int \<Rightarrow> rat" where
  "gradient_pos n index tot = fl64 (fl64 (fl64 (of_int index) / fl64 (of_int (tot - 1))) * fl64 (of_nat (n - 1)))"

lemma gradientColor_pos:
  assumes "2 \<le> length colors" "1 < tot"
  shows "gradientColor E colors index tot =
    (let left = \<lfloor>gradient_pos (length colors) index tot\<rfloor> in
     if left + 1 \<ge> int (length colors) then last colors
     else interpolate E (colors ! nat left) (colors ! nat (left + 1)) (fl64 (gradient_pos (length colors) index tot - of_int left)))"
  using assms by (auto simp: gradientColor_def gradient_pos_def Let_def last_conv_nth)

lemma gradient_pos_ends:
  assumes "2 \<le> n" "n < 2 ^ 53" "1 < tot" "tot < 2 ^ 53"
  shows "gradient_pos n 0 tot = 0" "gradient_pos n (tot - 1) tot = of_nat (n - 1)"
proof -
  show "gradient_pos n 0 tot = 0" by (simp add: gradient_pos_def)
  have "fl64 (of_int (tot - 1)) = of_int (tot - 1)" using assms by (intro fl64_int) auto
  moreover have "fl64 (of_nat (n - 1)) = of_nat (n - 1)" using assms by (intro fl64_nat) auto
  ultimately show "gradient_pos n (tot - 1) tot = of_nat (n - 1)" using assms(3) by (simp add: gradient_pos_def)
qed

lemma gradient_pos_range:
  assumes "2 \<le> n" "n < 2 ^ 53" "1 < tot" "tot < 2 ^ 53" "0 \<le> index" "index < tot"
  shows "0 \<le> gradient_pos n index tot" "gradient_pos n index tot \<le> of_nat (n - 1)"
proof -
  have i: "fl64 (of_int index) = of_int index" "fl64 (of_int (tot - 1)) = of_int (tot - 1)" "fl64 (of_nat (n - 1)) = of_nat (n - 1)"
    using assms by (intro fl64_int fl64_nat; simp)+
  define q where "q = fl64 (of_int index / of_int (tot - 1))"
  have it: "0 \<le> (of_int index :: rat)" "of_int index \<le> (of_int (tot - 1) :: rat)" "0 < (of_int (tot - 1) :: rat)"
    using assms of_int_le_iff [of index "tot - 1", where ?'a = rat] of_int_less_iff [of 1 tot, where ?'a = rat] by simp_all
  then have "0 \<le> of_int index / (of_int (tot - 1) :: rat)" "of_int index / (of_int (tot - 1) :: rat) \<le> 1"
    by (simp, subst divide_le_eq_1_pos, simp_all)
  then have q: "0 \<le> q" "q \<le> 1" using fl64_unit unfolding q_def by blast+
  have "0 \<le> q * of_nat (n - 1)" "q * of_nat (n - 1) \<le> of_int (int (n - 1))"
    using q mult_right_mono [of q 1 "of_nat (n - 1)"] by simp_all
  then have "0 \<le> fl64 (q * of_nat (n - 1))" "fl64 (q * of_nat (n - 1)) \<le> of_int (int (n - 1))"
    using fl64_between [of 0 "q * of_nat (n - 1)" "int (n - 1)"] assms(1,2) by simp_all
  then show "0 \<le> gradient_pos n index tot" "gradient_pos n index tot \<le> of_nat (n - 1)"
    unfolding gradient_pos_def i q_def by simp_all
qed

definition rgb_of :: "mm_env \<Rightarrow> mm_color \<Rightarrow> mm_color" where
  "rgb_of E c = (case mx_RGBA E c of (r, g, b) \<Rightarrow> mx_HexInt E (rgb_int (int (r div 256)) (int (g div 256)) (int (b div 256))))"

definition rgba_ok :: "mm_env \<Rightarrow> mm_color \<Rightarrow> bool" where
  "rgba_ok E c \<longleftrightarrow> (case mx_RGBA E c of (r, g, b) \<Rightarrow> r < 65536 \<and> g < 65536 \<and> b < 65536)"

lemma gradient_first:
  assumes "2 \<le> length colors" "length colors < 2 ^ 53" "1 < tot" "tot < 2 ^ 53" "rgba_ok E (hd colors)"
  shows "gradientColor E colors 0 tot = rgb_of E (hd colors)"
proof -
  have "colors ! 0 = hd colors" using assms(1) by (cases colors) auto
  then show ?thesis
    using assms(1,5) gradientColor_pos [OF assms(1,3), of E 0] gradient_pos_ends(1) [OF assms(1-4)]
    by (auto simp: interpolate_def rgb_of_def rgba_ok_def interpolate_channel_start split: prod.splits)
qed

lemma gradient_last:
  assumes "2 \<le> length colors" "length colors < 2 ^ 53" "1 < tot" "tot < 2 ^ 53"
  shows "gradientColor E colors (tot - 1) tot = last colors"
  using assms(1) gradientColor_pos [OF assms(1,3), of E "tot - 1"] gradient_pos_ends(2) [OF assms]
  by (simp add: Let_def of_nat_diff)

lemma gradient_inside:
  assumes "2 \<le> length colors" "length colors < 2 ^ 53" "1 < tot" "tot < 2 ^ 53" "0 \<le> index" "index < tot"
  shows "gradientColor E colors index tot = last colors \<or>
    (\<exists>k t. Suc k < length colors \<and> 0 \<le> t \<and> t \<le> 1 \<and>
       gradientColor E colors index tot = interpolate E (colors ! k) (colors ! Suc k) t)"
proof -
  define p where "p = gradient_pos (length colors) index tot"
  have p: "0 \<le> p" using gradient_pos_range [OF assms] by (simp add: p_def)
  show ?thesis
  proof (cases "\<lfloor>p\<rfloor> + 1 \<ge> int (length colors)")
    case False
    have "0 \<le> \<lfloor>p\<rfloor>" using p by simp
    moreover from this have "Suc (nat \<lfloor>p\<rfloor>) < length colors" using False by linarith
    moreover have "0 \<le> p - of_int \<lfloor>p\<rfloor>" "p - of_int \<lfloor>p\<rfloor> \<le> 1" by linarith+
    ultimately show ?thesis
      using False gradientColor_pos [OF assms(1,3), of E index, folded p_def] fl64_unit [of "p - of_int \<lfloor>p\<rfloor>"]
      by (intro disjI2 exI [of _ "nat \<lfloor>p\<rfloor>"] exI [of _ "fl64 (p - of_int \<lfloor>p\<rfloor>)"]) (auto simp: Let_def nat_add_distrib)
  qed (use gradientColor_pos [OF assms(1,3), of E index, folded p_def] in \<open>simp add: Let_def\<close>)
qed

text \<open>The rainbow: a hue that is not negative gives three bytes; a negative one need not.\<close>

lemma unit_byte: "0 \<le> x \<Longrightarrow> x \<le> 1 \<Longrightarrow> 0 \<le> trunc_int (fl64 (x * 255)) \<and> trunc_int (fl64 (x * 255)) \<le> 255"
  using fl64_between [of 0 "x * 255" 255] trunc_int_range [of 0 "fl64 (x * 255)" 255] by simp

lemma hsvToRGB_bytes:
  assumes "0 \<le> h" "h \<le> 2 ^ 40" "hsvToRGB h 1 1 = (r, g, b)"
  shows "0 \<le> r \<and> r \<le> 255 \<and> 0 \<le> g \<and> g \<le> 255 \<and> 0 \<le> b \<and> b \<le> 255"
proof -
  define h6 i f where "h6 = fl64 (h * 6)" and "i = trunc_int h6" and "f = fl64 (h6 - of_int i)"
  have "0 \<le> h6" using fl64_nonneg [of "h * 6" "2 ^ 43"] assms(1,2) by (simp add: h6_def)
  then have "0 \<le> h6 - of_int i" "h6 - of_int i \<le> 1" by (auto simp: i_def trunc_int_def) linarith
  then have f: "0 \<le> f" "f \<le> 1" using fl64_unit [of "h6 - of_int i"] by (simp_all add: f_def)
  define q t where "q = fl64 (fl64 (1 - fl64 f))" and "t = fl64 (fl64 (1 - fl64 (fl64 (1 - f))))"
  have flip: "0 \<le> fl64 (1 - x) \<and> fl64 (1 - x) \<le> 1" if "0 \<le> x \<and> x \<le> 1" for x
    using fl64_unit [of "1 - x"] that by simp
  have "0 \<le> fl64 (1 - fl64 f) \<and> fl64 (1 - fl64 f) \<le> 1" "0 \<le> fl64 (1 - fl64 (fl64 (1 - f))) \<and> fl64 (1 - fl64 (fl64 (1 - f))) \<le> 1"
    by (intro flip fl64_unit; use f flip [of f] in blast)+
  then have q: "0 \<le> q" "q \<le> 1" and t: "0 \<le> t" "t \<le> 1"
    unfolding q_def t_def by (simp_all add: fl64_unit)
  have "hsvToRGB h 1 1 = (let m = go_rem i 6;
      (r, g, b) = (if m = 0 then (1, t, 0) else if m = 1 then (q, 1, 0) else if m = 2 then (0, 1, t)
                   else if m = 3 then (0, q, 1) else if m = 4 then (t, 0, 1) else (1, 0, q))
     in (trunc_int (fl64 (r * 255)), trunc_int (fl64 (g * 255)), trunc_int (fl64 (b * 255))))"
    by (simp add: hsvToRGB_def h6_def [symmetric] i_def [symmetric] f_def [symmetric] q_def t_def Let_def)
  then show ?thesis
    using assms(3) unit_byte [OF q] unit_byte [OF t] unit_byte [of 0] unit_byte [of 1]
    by (simp add: Let_def split: if_splits)
qed

lemma rainbow_bytes:
  assumes "0 \<le> index" "index < 2 ^ 40" "1 < tot" "tot < 2 ^ 53"
  shows "\<exists>r g b. rainbowColor E index tot = mx_HexInt E (rgb_int r g b) \<and>
    0 \<le> r \<and> r \<le> 255 \<and> 0 \<le> g \<and> g \<le> 255 \<and> 0 \<le> b \<and> b \<le> 255"
proof -
  have i: "fl64 (of_int index) = of_int index" "fl64 (of_int tot) = of_int tot" using assms by (intro fl64_int; simp)+
  have t1: "(1 :: rat) \<le> of_int tot" using assms(3) of_int_le_iff [of 1 tot, where ?'a = rat] by simp
  have "of_int index \<le> (of_int (2 ^ 40) :: rat)" using assms(2) by (simp only: of_int_le_iff)
  then have "0 \<le> of_int index / (of_int tot :: rat)" "of_int index / (of_int tot :: rat) \<le> of_int (2 ^ 40)"
    using assms(1) t1 mult_left_mono [OF t1, of "2 ^ 40"] by (simp, simp add: divide_le_eq)
  then have "0 \<le> fl64 (of_int index / of_int tot)" "fl64 (of_int index / of_int tot) \<le> 2 ^ 40"
    using fl64_between [of 0 "of_int index / of_int tot" "2 ^ 40"] by simp_all
  then show ?thesis using hsvToRGB_bytes assms(3)
    by (cases "hsvToRGB (fl64 (of_int index / of_int tot)) 1 1") (fastforce simp: rainbowColor_def i)
qed

lemma rainbow_overflow: "hsvToRGB (- 1 / 4) 1 1 = (255, 0, 382)"
  by code_simp

section \<open>What is rendered\<close>

text \<open>The content of a component and its style.\<close>

primrec content_of :: "mm_component \<Rightarrow> string" where
  "content_of (MText s st cs) = s"
| "content_of (MTranslation s st cs) = []"

primrec style_of :: "mm_component \<Rightarrow> mm_style" where
  "style_of (MText s st cs) = st"
| "style_of (MTranslation s st cs) = st"

lemma colored_runes_length [simp]: "length (colored_runes E st x i rs) = length rs"
  by (induction rs arbitrary: i) auto

lemma colored_runes_nth:
  "k < length rs \<Longrightarrow> colored_runes E st x i rs ! k =
    MText (encodeRune (rs ! k)) (set_Color (tx_color E (tx_fill x) (i + int k) (tx_total x)) st) []"
  by (induction rs arbitrary: i k) (auto simp: nth_Cons textWithStyle_def algebra_simps split: nat.split)

lemma colored_runes_content: "concat (map content_of (colored_runes E st x i rs)) = concat (map encodeRune rs)"
  by (induction rs arbitrary: i) (auto simp: textWithStyle_def)

lemma runes_pos: "s \<noteq> [] \<Longrightarrow> 0 < length (runes s)"
  by (simp add: runes.simps [of s])

text \<open>Whatever the colours, rendering a text writes its runes and counts them.\<close>

lemma renderText_content:
  assumes "valid_utf8 s" "renderText E s st tx i = (out, j)"
  shows "concat (map content_of out) = s" "i \<le> j"
  using assms concat_runes [OF assms(1)] colored_runes_content
  by (auto simp: renderText_def textWithStyle_def split: if_splits option.splits)

definition mm_keywords :: "string list" where
  "mm_keywords = selfClosingNames @ [''gradient'', ''transition'', ''rainbow'', ''pride'', ''font'', ''insert'', ''insertion'',
     ''click'', ''hover'', ''color'', ''colour'', ''c'']"

lemma simple_bang: "simple_name n \<Longrightarrow> \<not> hasPrefix n ''!''"
  by (cases n) (auto simp: simple_name_def simple_char_def Let_def)

lemma tag_render_plain:
  assumes "simple_name n" "n \<notin> set mm_keywords"
  shows "tag_render E P (plain_tag n) ns style tx = Some (case parseColor E n of
      Some c \<Rightarrow> Children (set_Color c style) tx False
    | None \<Rightarrow> (case decoration n of Some d \<Rightarrow> Children (SetDecoration d True style) tx False
               | None \<Rightarrow> Emit (''<'' @ n @ ''>'')))"
proof -
  have k: "n \<noteq> ''gradient''" "n \<noteq> ''transition''" "n \<noteq> ''rainbow''" "n \<noteq> ''pride''" "n \<noteq> ''font''" "n \<noteq> ''insert''"
    "n \<noteq> ''insertion''" "n \<noteq> ''click''" "n \<noteq> ''hover''" "n \<noteq> ''color''" "n \<noteq> ''colour''" "n \<noteq> ''c''"
    and sc: "n \<notin> set selfClosingNames"
    using assms(2) by (auto simp: mm_keywords_def)
  have apply_st: "applyStyleTag E P (plain_tag n) style = Some (case parseColor E n of
      Some c \<Rightarrow> Some (set_Color c style)
    | None \<Rightarrow> map_option (\<lambda>d. SetDecoration d True style) (decoration n))"
    using k simple_nameD(9) [OF assms(1)] simple_bang [OF assms(1)]
    by (simp add: applyStyleTag_def plain_tag_def parseColorTag_def otherStyle_def split: option.split)
  have "n \<notin> {''br'', ''newline''}" "n \<notin> {''lang'', ''tr'', ''translate'', ''lang_or'', ''tr_or'', ''translate_or''}"
    "n \<notin> {''key'', ''keybind'', ''selector'', ''score'', ''nbt'', ''sprite'', ''head''}"
    using sc by (auto simp: selfClosingNames_def)
  moreover have "tagBase (tg_name (plain_tag n)) = n" using simple_nameD(9) [OF assms(1)] by (simp add: plain_tag_def)
  moreover have "literal_text (plain_tag n) = ''<'' @ n @ ''>''" by (simp add: literal_text_def plain_tag_def)
  ultimately show ?thesis
    unfolding tag_render_def Let_def using k apply_st by (simp split: option.split)
qed

lemma renderNodes_text:
  "s \<noteq> [] \<Longrightarrow> renderNodes E P [TextNode s] st None i = Some ([MText s st []], st, i)"
  by (simp add: renderText_def textWithStyle_def)

lemma mm_Parse_escape:
  assumes "valid_utf8 s"
  shows "mm_Parse E (mm_escape s) = Some (MText s no_style [])"
proof -
  have "parseNodes E [] [] (mm_escape s) = (flush_text s, [])"
    using parseNodes_escaped [OF assms, of E "[]" "[]" "[]"] by (simp add: parseNodes_end)
  then show ?thesis
    using renderNodes_text [of s]
    by (cases "s = []") (simp_all add: mm_Parse_unfold [of E "mm_escape s"] mm_Parse_unfold [of E "[]"] parse_with_def flush_text_def compact_def)
qed

lemma mm_Parse_element:
  assumes "simple_name n" "n \<notin> set mm_keywords" "valid_utf8 s" "s \<noteq> []"
  shows "mm_Parse E (element n (mm_escape s)) = Some (case parseColor E n of
      Some c \<Rightarrow> MText s (set_Color c no_style) []
    | None \<Rightarrow> (case decoration n of Some d \<Rightarrow> MText s (SetDecoration d True no_style) []
               | None \<Rightarrow> MText (''<'' @ n @ ''>'') no_style []))"
proof -
  have sc: "\<not> isSelfClosingTag n" "n \<noteq> ''reset''"
    using assms(2) simple_nameD(9) [OF assms(1)] by (auto simp: mm_keywords_def isSelfClosingTag_def selfClosingNames_def)
  have nodes: "parseNodes E [] [] (element n (mm_escape s)) = ([TagNode (plain_tag n) [TextNode s]], [])"
    using parseNodes_element [OF assms(1) sc(1) assms(3), of E "[]" "[]" "[]"] assms(4)
    by (simp add: parseNodes_end flush_text_def)
  have "tg_name (plain_tag n) = n" by (simp add: plain_tag_def)
  then show ?thesis
    using sc(2) renderNodes_text [OF assms(4)] tag_render_plain [OF assms(1,2)]
    by (simp add: mm_Parse_unfold [of E "element n (mm_escape s)"] parse_with_def nodes renderText_def textWithStyle_def
        compact_def split: option.split)
qed

lemma renderTag_gradient:
  assumes "tagBase (tg_name g) = ''gradient''" "2 \<le> length (parseColors E (tg_args g))" "1 < length (runes s)"
  shows "renderTag E P g [TextNode s] st tx i =
    Some (colored_runes E st \<lparr>tx_total = int (length (runes s)), tx_fill = Gradient (parseColors E (tg_args g))\<rparr> 0 (runes s), i)"
proof -
  have s: "s \<noteq> []" using assms(3) by auto
  have "visibleRunes [TextNode s] = length (runes s)" using s assms(3) by (auto simp: Let_def)
  then have "tag_render E P g [TextNode s] st tx = Some (Children st
      (Some \<lparr>tx_total = int (length (runes s)), tx_fill = Gradient (parseColors E (tg_args g))\<rparr>) True)"
    using assms(1,2) by (simp add: tag_render_def Let_def)
  then show ?thesis using s assms(3) by (simp add: renderText_def)
qed

lemma gradient_rendered:
  assumes "tagBase (tg_name g) = ''gradient''" "2 \<le> length (parseColors E (tg_args g))"
    "length (parseColors E (tg_args g)) < 2 ^ 53" "valid_utf8 s" "1 < length (runes s)" "length (runes s) < 2 ^ 53"
    "rgba_ok E (hd (parseColors E (tg_args g)))"
  shows "\<exists>out. renderTag E P g [TextNode s] st tx i = Some (out, i) \<and> length out = length (runes s)
    \<and> concat (map content_of out) = s
    \<and> st_Color (style_of (hd out)) = Some (rgb_of E (hd (parseColors E (tg_args g))))
    \<and> st_Color (style_of (last out)) = Some (last (parseColors E (tg_args g)))"
proof -
  define cs n where "cs = parseColors E (tg_args g)" and "n = length (runes s)"
  define out where "out = colored_runes E st \<lparr>tx_total = int n, tx_fill = Gradient cs\<rparr> 0 (runes s)"
  have n: "1 < int n" "int n < 2 ^ 53" using assms(5,6) by (simp_all add: n_def)
  have color: "st_Color (style_of (out ! k)) = Some (gradientColor E cs (int k) (int n))" if "k < n" for k
    using that by (cases st) (simp add: out_def colored_runes_nth n_def tx_color_def)
  have len: "length out = n" by (simp add: out_def n_def)
  then have "out \<noteq> []" using n(1) by auto
  then have ends: "hd out = out ! 0" "last out = out ! (n - 1)" by (simp_all add: hd_conv_nth last_conv_nth len)
  have "gradientColor E cs (int (n - 1)) (int n) = last cs"
    using gradient_last [of cs "int n" E] assms(2,3) n by (simp add: cs_def of_nat_diff)
  then have "st_Color (style_of (last out)) = Some (last cs)" using color [of "n - 1"] n(1) ends by simp
  moreover have "st_Color (style_of (hd out)) = Some (rgb_of E (hd cs))"
    using color [of 0] gradient_first [of cs "int n" E] assms(2,3,7) n ends by (simp add: cs_def)
  moreover have "concat (map content_of out) = s"
    using colored_runes_content concat_runes [OF assms(4)] by (simp add: out_def)
  moreover have "renderTag E P g [TextNode s] st tx i = Some (out, i)"
    using renderTag_gradient [OF assms(1,2,5)] by (simp add: out_def cs_def n_def)
  ultimately show ?thesis using len by (auto simp: cs_def n_def)
qed

lemma gradient_bytes:
  assumes "2 \<le> length colors" "length colors < 2 ^ 53" "1 < tot" "tot < 2 ^ 53" "0 \<le> index" "index < tot"
    "\<forall>c \<in> set colors. rgba_ok E c"
  shows "gradientColor E colors index tot = last colors \<or>
    (\<exists>r g b. gradientColor E colors index tot = mx_HexInt E (rgb_int r g b) \<and>
       0 \<le> r \<and> r \<le> 255 \<and> 0 \<le> g \<and> g \<le> 255 \<and> 0 \<le> b \<and> b \<le> 255)"
proof (cases "gradientColor E colors index tot = last colors")
  case False
  then obtain k t where k: "Suc k < length colors" "0 \<le> t" "t \<le> 1"
    "gradientColor E colors index tot = interpolate E (colors ! k) (colors ! Suc k) t"
    using gradient_inside [OF assms(1-6), of E] by blast
  obtain r g b r' g' b' where c: "mx_RGBA E (colors ! k) = (r, g, b)" "mx_RGBA E (colors ! Suc k) = (r', g', b')"
    by (cases "mx_RGBA E (colors ! k)"; cases "mx_RGBA E (colors ! Suc k)") auto
  have "rgba_ok E (colors ! k)" "rgba_ok E (colors ! Suc k)" using assms(7) k(1) by simp_all
  then have lim: "r < 65536" "g < 65536" "b < 65536" "r' < 65536" "g' < 65536" "b' < 65536" using c by (simp_all add: rgba_ok_def)
  have byte: "0 \<le> interpolate_channel x y t \<and> interpolate_channel x y t \<le> 255" if "x < 65536" "y < 65536" for x y
    using interpolate_channel_between [OF that k(2,3)] that by (auto simp: max_def split: if_splits)
  have "gradientColor E colors index tot =
    mx_HexInt E (rgb_int (interpolate_channel r r' t) (interpolate_channel g g' t) (interpolate_channel b b' t))"
    by (simp add: k(4) interpolate_def c)
  then show ?thesis using byte lim by blast
qed simp

lemma lang_or_panics: "mm_Parse E ''<lang_or:x>'' = None"
proof -
  have "parseNodes E [] [] ''<lang_or:x>'' =
    ([TagNode \<lparr>tg_name = ''lang_or'', tg_args = [''x''], tg_literal = ''lang_or:x''\<rparr> []], [])"
    by code_simp
  then show ?thesis
    by (simp add: mm_Parse_unfold [of E "''<lang_or:x>''"] parse_with_def tag_render_def tagBase_def renderTranslation_def)
qed

end
