(* ===== verification/Limbgo_Main.thy ===== *)
theory Limbgo_Main
  imports Config Schematic_Load Router Adapters
begin

text \<open>
  The program itself (\<open>cmd/limbgo/main.go\<close>): from a configuration file to the world, the router and the
  server it runs, and the exit status. Reading files, gzip, JSON and NBT decoding are parameters.
\<close>

record startup =
  su_readFile :: "string \<Rightarrow> byte list result"
  su_openFile :: "string \<Rightarrow> byte list result"
  su_config :: "byte list \<Rightarrow> fileConfig result"
  su_openGzip :: "byte list \<Rightarrow> go_error option"
  su_decodeNBT :: "bool \<Rightarrow> byte list \<Rightarrow> spongeSchematic result"
  su_minimessage :: "string \<Rightarrow> component result"
  su_modernRecords :: "byte list \<Rightarrow> (string \<times> modernProtocolConfigRecord) list result"
  su_unzip :: "byte list \<Rightarrow> zipFile list result"
  su_registryProtocol :: "byte list \<Rightarrow> encodedProtocolData result"
  su_registryData :: "byte list \<Rightarrow> encodedData result"

record started =
  go_server :: server
  go_router :: router
  go_limiter :: "rateLimiter option"

section \<open>Loading the parts\<close>

text \<open>Decoding a schematic may panic: \<open>None\<close>.\<close>

definition schematic_LoadFile :: "startup \<Rightarrow> string \<Rightarrow> options \<Rightarrow> memoryWorld result option" where
  "schematic_LoadFile su file opts = (case su_openFile su file of
      Inl e \<Rightarrow> Some (Inl e)
    | Inr raw \<Rightarrow> schematic_Load (su_openGzip su) (su_decodeNBT su) raw opts)"

definition loadWorld :: "startup \<Rightarrow> fileConfig \<Rightarrow> memoryWorld result option" where
  "loadWorld su cfg =
    (if fc_Schematic cfg = '''' then
       (let dimension = (if dimensionConfig_Empty (fc_Dimension cfg) then zero_dimension else fileConfig_Dimension cfg 256) in
        Some (Inr (defaultWorldWithDimension (fc_WorldID cfg) dimension)))
     else
       schematic_LoadFile su (fc_Schematic cfg)
         \<lparr>sg_WorldID = fc_WorldID cfg,
          sg_Dimension = (if dimensionConfig_Empty (fc_Dimension cfg) then zero_dimension else fileConfig_Dimension cfg 0)\<rparr>)"

definition LoadModernProtocolsFile :: "startup \<Rightarrow> string \<Rightarrow> modernProtocols result" where
  "LoadModernProtocolsFile su file = bindR (su_readFile su file) (loadModernProtocolConfigs (su_modernRecords su))"

text \<open>A part with an empty path is left to the router's default.\<close>

definition optional_file :: "string \<Rightarrow> (string \<Rightarrow> 'a result) \<Rightarrow> 'a option result" where
  "optional_file file load = (if file = '''' then Inr None else bindR (load file) (\<lambda>x. Inr (Some x)))"

definition main_router :: "fileConfig \<Rightarrow> component \<Rightarrow> modernProtocols option \<Rightarrow> registryData option \<Rightarrow> router" where
  "main_router cfg motd modern registry =
    \<lparr>rt_Description = fs_Description (fc_Status cfg), rt_MOTD = Some motd, rt_StatusProvider = None,
     rt_VersionName = fs_VersionName (fc_Status cfg), rt_VersionProtocol = fs_VersionProtocol (fc_Status cfg),
     rt_MaxPlayers = fs_MaxPlayers (fc_Status cfg), rt_OnlinePlayers = fs_OnlinePlayers (fc_Status cfg),
     rt_SamplePlayers = fs_SamplePlayers (fc_Status cfg), rt_HidePlayers = fs_HidePlayers (fc_Status cfg),
     rt_Favicon = fs_Favicon (fc_Status cfg), rt_EnforcesSecureChat = fs_EnforcesSecureChat (fc_Status cfg),
     rt_PreviewsChat = fs_PreviewsChat (fc_Status cfg), rt_PreventsChatReports = fs_PreventsChatReports (fc_Status cfg),
     rt_ModernProtocols = modern, rt_RegistryData = registry, rt_RegistryDataSource = None, rt_ProtocolPolicy = None,
     rt_LoginMode = fa_Mode (fc_Auth cfg), rt_LoginPolicy = None, rt_LoginDecisionPolicy = None,
     rt_SessionVerifier = None, rt_YggdrasilBaseURL = fa_YggdrasilBaseURL (fc_Auth cfg),
     rt_OnlineServerID = fa_OnlineServerID (fc_Auth cfg)\<rparr>"

definition main_server_config :: "fileConfig \<Rightarrow> world \<Rightarrow> serverConfig" where
  "main_server_config cfg w =
    \<lparr>scf_Addr = fc_Listen cfg, scf_ProtocolRouter = True, scf_JoinResolver = None,
     scf_Worlds = Some (static_world [(w_ID w, w)]), scf_SpawnResolver = Some (StaticSpawn (config_SpawnTarget cfg)),
     scf_Events = Some (funcs_handler no_funcs), scf_ProxyProtocol = config_ProxyProtocol (fc_ProxyProtocol cfg)\<rparr>"

section \<open>Start and exit\<close>

text \<open>The first error ends the start; what follows a loaded world:\<close>

definition main_parts :: "startup \<Rightarrow> fileConfig \<Rightarrow> memoryWorld \<Rightarrow> started result" where
  "main_parts su cfg w =
    bindR (config_Component (su_minimessage su) (fc_Status cfg)) (\<lambda>motd.
    bindR (optional_file (fc_ModernProtocols cfg) (LoadModernProtocolsFile su)) (\<lambda>modern.
    bindR (optional_file (fc_RegistryData cfg) (\<lambda>file.
      loadFile (su_unzip su) (su_registryProtocol su) (su_registryData su) (su_readFile su file))) (\<lambda>registry.
    bindR (NewServer (main_server_config cfg (memory_world w))) (\<lambda>s.
      Inr \<lparr>go_server = s, go_router = main_router cfg motd modern registry,
           go_limiter = config_RateLimiter (fs_RateLimit (fc_Status cfg))\<rparr>))))"

definition main_start :: "startup \<Rightarrow> string \<Rightarrow> started result option" where
  "main_start su file = (case LoadFileConfig (su_readFile su) (su_config su) file of
      Inl e \<Rightarrow> Some (Inl e)
    | Inr cfg \<Rightarrow> (case loadWorld su cfg of
          None \<Rightarrow> None
        | Some (Inl e) \<Rightarrow> Some (Inl e)
        | Some (Inr w) \<Rightarrow> Some (main_parts su cfg w)))"

text \<open>
  Which of the two the program waits for came first: \<open>ListenAndServe\<close> returned, or a signal was caught
  and \<open>Shutdown\<close> returned. The exit status of a panic is 2.
\<close>

datatype ending = ServeReturned "go_error option" | ShutdownReturned "go_error option"

fun ending_error :: "ending \<Rightarrow> go_error option" where
  "ending_error (ServeReturned e) = e"
| "ending_error (ShutdownReturned e) = e"

definition main_exit :: "startup \<Rightarrow> string \<Rightarrow> (started \<Rightarrow> ending) \<Rightarrow> nat" where
  "main_exit su file run = (case main_start su file of
      None \<Rightarrow> 2
    | Some (Inl e) \<Rightarrow> 1
    | Some (Inr m) \<Rightarrow> (if ending_error (run m) = None then 0 else 1))"

section \<open>The world of a start\<close>

text \<open>A built world has the configured id.\<close>

lemma buildWorld_id: "buildWorld data opts = Some (Inr w) \<Longrightarrow> sg_WorldID opts \<noteq> '''' \<Longrightarrow> mw_WorldID w = sg_WorldID opts"
  by (auto simp: buildWorld_def Let_def split: if_splits option.splits sum.splits)

lemma schematic_Load_id: "schematic_Load g d raw opts = Some (Inr w) \<Longrightarrow> sg_WorldID opts \<noteq> '''' \<Longrightarrow> mw_WorldID w = sg_WorldID opts"
  using buildWorld_id by (auto simp: schematic_Load_def split: if_splits option.splits sum.splits)

lemma defaultWorldWithDimension_id: "i \<noteq> '''' \<Longrightarrow> mw_WorldID (defaultWorldWithDimension i d) = i"
  by (simp add: defaultWorldWithDimension_def Let_def)

lemma loadWorld_id:
  assumes "loadWorld su cfg = Some (Inr w)" "fc_WorldID cfg \<noteq> ''''"
  shows "w_ID (memory_world w) = fc_WorldID cfg"
  using assms by (auto simp: loadWorld_def schematic_LoadFile_def memory_world_def defaultWorldWithDimension_id Let_def
      dest: schematic_Load_id split: if_splits sum.splits)

text \<open>The blocks of the default world: one of bedrock, whatever the dimension.\<close>

lemma local_index_origin: "local_index 0 64 0 = 0"
  by (simp add: local_index_def)

lemma default_world_blocks:
  "block_at (w_Chunk (memory_world (defaultWorldWithDimension i d))) x y z =
    (if x div 16 = 0 \<and> y div 16 = 4 \<and> z div 16 = 0 then Some (if (x, y, z) = (0, 64, 0) then 1 else 0) else None)"
proof (cases "x div 16 = 0 \<and> y div 16 = 4 \<and> z div 16 = 0")
  case True
  then have "local_index x y z = 0 \<longleftrightarrow> (x, y, z) = (0, 64, 0)"
    using local_index_position [of x 0 y 64 z 0] local_index_origin by simp
  moreover have "local_index x y z < 4096" by (rule local_index_less)
  ultimately show ?thesis using True
    by (auto simp: block_at_def memory_world_def defaultWorldWithDimension_def Let_def
        DefaultBedrockY_def go_div_nonneg nth_list_update)
next
  case False
  then show ?thesis
    by (auto simp: block_at_def memory_world_def defaultWorldWithDimension_def Let_def
        DefaultBedrockY_def go_div_nonneg)
qed

section \<open>What a start gives every player\<close>

lemma main_start_Inr:
  assumes "main_start su file = Some (Inr m)"
  obtains cfg w where "LoadFileConfig (su_readFile su) (su_config su) file = Inr cfg"
    "loadWorld su cfg = Some (Inr w)" "NewServer (main_server_config cfg (memory_world w)) = Inr (go_server m)"
  using assms by (auto simp: main_start_def main_parts_def bindR_Inr_conv split: sum.splits option.splits)

lemma LoadFileConfig_complete: "LoadFileConfig r u file = Inr cfg \<Longrightarrow> config_complete cfg"
  using config_defaults_complete by (auto simp: LoadFileConfig_def bindR_Inr_conv)

lemma main_server_cfg:
  assumes "NewServer (main_server_config cfg w) = Inr s" "fc_Listen cfg \<noteq> ''''"
  shows "srv_cfg s = main_server_config cfg w"
  using assms by (auto simp: NewServer_def Let_def bindR_Inr_conv main_server_config_def split: if_splits)

lemma main_resolves:
  assumes "srv_cfg s = main_server_config cfg w" "fc_SpawnWorld cfg \<noteq> ''''"
  shows "server_ResolveJoin s pl =
    (if fc_SpawnWorld cfg = w_ID w then Inr \<lparr>jt_World = Some w, jt_Spawn = config_SpawnTarget cfg\<rparr>
     else Inl ErrWorldNotFound, s)"
  using assms by (simp add: server_ResolveJoin_def resolve_target_def main_server_config_def StaticSpawn_def static_world_def
      config_SpawnTarget_def normalizeJoinTarget_def releases_def)

lemma started_serves:
  assumes "main_start su file = Some (Inr m)"
  shows "\<exists>cfg w. LoadFileConfig (su_readFile su) (su_config su) file = Inr cfg
    \<and> loadWorld su cfg = Some (Inr w) \<and> w_ID (memory_world w) = fc_WorldID cfg
    \<and> (\<forall>pl. server_ResolveJoin (go_server m) pl =
         (if fc_SpawnWorld cfg = fc_WorldID cfg
          then Inr \<lparr>jt_World = Some (memory_world w), jt_Spawn = config_SpawnTarget cfg\<rparr>
          else Inl ErrWorldNotFound, go_server m))"
proof -
  obtain cfg w where c: "LoadFileConfig (su_readFile su) (su_config su) file = Inr cfg"
    "loadWorld su cfg = Some (Inr w)" "NewServer (main_server_config cfg (memory_world w)) = Inr (go_server m)"
    by (rule main_start_Inr [OF assms])
  have k: "fc_Listen cfg \<noteq> ''''" "fc_WorldID cfg \<noteq> ''''" "fc_SpawnWorld cfg \<noteq> ''''"
    using LoadFileConfig_complete [OF c(1)] by (simp_all add: config_complete_def)
  have i: "w_ID (memory_world w) = fc_WorldID cfg" by (rule loadWorld_id [OF c(2) k(2)])
  from main_resolves [OF main_server_cfg [OF c(3) k(1)] k(3)] c(1,2) i show ?thesis by auto
qed

text \<open>The defaults of a configuration that names neither schematic nor spawn.\<close>

lemma default_spawn_filled:
  assumes "fc_Schematic c = ''''" "spawn_unset c"
  shows "config_SpawnTarget (config_defaults c) = defaultSpawn (fc_WorldID (config_defaults c))"
    "fc_SpawnWorld (config_defaults c) = fc_WorldID (config_defaults c)"
proof -
  let ?c = "default_spawnWorld (default_worldID (default_maxPlayers (default_description (default_listen c))))"
  have "fc_Schematic ?c = ''''" "spawn_unset ?c" "fc_WorldID ?c \<noteq> ''''"
    using assms by (simp_all add: default_defs spawn_unset_def)
  then show "config_SpawnTarget (config_defaults c) = defaultSpawn (fc_WorldID (config_defaults c))"
    "fc_SpawnWorld (config_defaults c) = fc_WorldID (config_defaults c)"
    by (simp_all add: config_defaults_def default_spawn_def config_SpawnTarget_def defaultSpawn_def Let_def)
qed

text \<open>A spawn with one non-zero part, or a schematic, is taken as it is.\<close>

lemma spawn_taken:
  assumes "fc_Schematic c \<noteq> '''' \<or> \<not> spawn_unset c"
  shows "fc_SpawnPos (config_defaults c) = fc_SpawnPos c" "fc_SpawnLook (config_defaults c) = fc_SpawnLook c"
    "fc_SpawnMode (config_defaults c) = fc_SpawnMode c"
  using assms by (auto simp: config_defaults_def default_spawn_def default_defs spawn_unset_def)

text \<open>A configuration that names no file, text to parse or PROXY protocol starts.\<close>

lemma NewServer_plain:
  assumes "\<not> fp_Enabled (fc_ProxyProtocol cfg)" "\<not> fp_Required (fc_ProxyProtocol cfg)"
  shows "\<exists>s. NewServer (main_server_config cfg w) = Inr s"
  using assms by (simp add: NewServer_def Let_def main_server_config_def config_ProxyProtocol_def newProxyProtocolRuntime_def)

lemma config_Component_plain: "fs_MOTDMiniMessage cfg = '''' \<Longrightarrow> \<exists>motd. config_Component parse cfg = Inr motd"
  by (simp add: config_Component_def)

lemma plain_starts:
  assumes "LoadFileConfig (su_readFile su) (su_config su) file = Inr cfg"
    "fc_Schematic cfg = ''''" "fc_ModernProtocols cfg = ''''" "fc_RegistryData cfg = ''''"
    "fs_MOTDMiniMessage (fc_Status cfg) = ''''" "\<not> fp_Enabled (fc_ProxyProtocol cfg)" "\<not> fp_Required (fc_ProxyProtocol cfg)"
  shows "\<exists>m. main_start su file = Some (Inr m)"
proof -
  obtain w where w: "loadWorld su cfg = Some (Inr w)" using assms(2) by (simp add: loadWorld_def Let_def)
  obtain motd where m: "config_Component (su_minimessage su) (fc_Status cfg) = Inr motd"
    using config_Component_plain [OF assms(5)] by blast
  obtain s where "NewServer (main_server_config cfg (memory_world w)) = Inr s"
    using NewServer_plain [OF assms(6,7)] by blast
  with assms(1,3,4) w m show ?thesis by (simp add: main_start_def main_parts_def optional_file_def)
qed

lemma default_deployed:
  assumes "main_start su file = Some (Inr m)" "su_readFile su file = Inr bs" "su_config su bs = Inr c"
    "fc_Schematic c = ''''" "spawn_unset c"
  shows "\<exists>w spawn. (\<forall>pl. server_ResolveJoin (go_server m) pl = (Inr \<lparr>jt_World = Some w, jt_Spawn = spawn\<rparr>, go_server m))
    \<and> sp_Position spawn = \<lparr>v_X = 0, v_Y = f64_65, v_Z = 0\<rparr> \<and> sp_GameMode spawn = GameModeAdventure
    \<and> map bs_Name (w_BlockPalette w) = [''minecraft:air'', ''minecraft:bedrock'']
    \<and> (\<forall>x y z. block_at (w_Chunk w) x y z =
         (if x div 16 = 0 \<and> y div 16 = 4 \<and> z div 16 = 0 then Some (if (x, y, z) = (0, 64, 0) then 1 else 0) else None))"
proof -
  have load: "LoadFileConfig (su_readFile su) (su_config su) file = Inr (config_defaults c)"
    using assms(2,3) by (simp add: LoadFileConfig_def)
  obtain d where "loadWorld su (config_defaults c) = Some (Inr (defaultWorldWithDimension (fc_WorldID (config_defaults c)) d))"
    using assms(4) by (simp add: loadWorld_def config_defaults_keeps Let_def)
  with started_serves [OF assms(1)] load default_spawn_filled [OF assms(4,5)]
  have "server_ResolveJoin (go_server m) pl =
      (Inr \<lparr>jt_World = Some (memory_world (defaultWorldWithDimension (fc_WorldID (config_defaults c)) d)),
            jt_Spawn = defaultSpawn (fc_WorldID (config_defaults c))\<rparr>, go_server m)" for pl
    by auto
  moreover have "sp_Position (defaultSpawn i) = \<lparr>v_X = 0, v_Y = f64_65, v_Z = 0\<rparr>"
    "sp_GameMode (defaultSpawn i) = GameModeAdventure"
    "map bs_Name (w_BlockPalette (memory_world (defaultWorldWithDimension i d))) = [''minecraft:air'', ''minecraft:bedrock'']" for i
    by (simp_all add: defaultSpawn_def Let_def memory_world_def defaultWorldWithDimension_def)
  ultimately show ?thesis using default_world_blocks by blast
qed

end
