(* ===== verification/Samples.thy ===== *)
theory Samples
  imports Status_Router Play_Events Server Schematic_Load Dimension_Sent Releases Chunk_Decode Adapters Dialog
    MiniMessage Limbgo_Main
begin

text \<open>
  Concrete parameters and inputs for the witnesses: an environment with the 775 packet table, a
  one-block world, a player, and connections that already hold what a client sends.
\<close>

text \<open>A small table for protocol 47: the packets its join flow cannot do without.\<close>

definition sample_packets_47 :: versionPackets where
  "sample_packets_47 = \<lparr>vp_MinecraftVersion = ''1.8'', vp_Protocol = 47, vp_Entries = [
     mk_entry StateLogin ToClient ''success'' 2, mk_entry StatePlay ToClient ''login'' 1,
     mk_entry StatePlay ToClient ''spawn_position'' 5, mk_entry StatePlay ToClient ''position'' 8,
     mk_entry StatePlay ToClient ''map_chunk'' 33, mk_entry StatePlay ToServer ''chat'' 1]\<rparr>"

definition sample_env :: env where
  "sample_env = \<lparr>ev_packets = with_775 [47 \<mapsto> sample_packets_47],
     ev_blocks = (\<lambda>p. Some (\<lambda>n. if n = ''bedrock'' then Some 85 else if n = ''air'' then Some 0 else None)),
     ev_marshal = (\<lambda>flags c. Inr (bytes_of ''{}'')), ev_jsonDecode = (\<lambda>bs. Inr (JObj [])),
     ev_jsonMarshal = (\<lambda>v. Inr (bytes_of ''{}'')),
     ev_uuidString = (\<lambda>bs. dashed bs), ev_uuidParse = (\<lambda>s. writeUUID s),
     ev_sha1 = (\<lambda>bs. replicate 20 0), ev_md5 = (\<lambda>bs. replicate 16 0), ev_pick = hd\<rparr>"

definition sample_player :: player where
  "sample_player = OfflineLoginPlayer (\<lambda>_. replicate 16 0)
     \<lparr>lr_Username = ''Steve'', lr_ClaimedUUID = '''', lr_ProtocolVersion = 775,
      lr_RemoteAddr = None, lr_RequestedHost = ''h''\<rparr>"

definition sample_conn :: "byte list \<Rightarrow> conn" where
  "sample_conn d = \<lparr>c_reader = Stream [] [d] EOF, c_out = [], c_script = [], c_closed = False, c_enc = None\<rparr>"

definition sample_world :: world where
  "sample_world = memory_world (defaultWorld ''w'')"

definition sample_handler :: handler where
  "sample_handler = \<lparr>hd_handle = (\<lambda>_ _. Call (Disconnect None) (\<lambda>_. Return None)), hd_resourcePacks = True\<rparr>"

definition sample_services :: services where
  "sample_services = \<lparr>sv_ResolveJoin = None, sv_ResolveSpawn = (\<lambda>_. Inr (defaultSpawn ''w'')),
     sv_World = (\<lambda>_. Inr sample_world), sv_Events = Some sample_handler\<rparr>"

definition sample_cfg :: modernProtocolConfig where
  "sample_cfg = modern_config_of 775 (the (map_of modern_records ''775''))"

lemma pick_ok_sample: "pick_ok sample_env"
  by (simp add: pick_ok_def sample_env_def)

lemma live_sample [simp]: "live (sample_conn d)"
  by (simp add: live_def sample_conn_def)

lemma flat_sample [simp]: "flat (c_reader (sample_conn d)) = d"
  by (simp add: sample_conn_def flat_def)

definition sample_start :: playState where
  "sample_start = play_init sample_handler sample_player (newPlayAdapter 775) (sample_conn [])"

lemma sample_disconnect_step:
  "play_step sample_env sample_handler sample_start (LApi (Disconnect None))
    (sample_start\<lparr>py_session := snd (api_call sample_env (Disconnect None) (py_session sample_start)),
       py_phase := Running (Return None)\<rparr>)"
  using play_step.api [of sample_start "Disconnect None" "\<lambda>_. Return None" sample_env
      "fst (api_call sample_env (Disconnect None) (py_session sample_start))"
      "snd (api_call sample_env (Disconnect None) (py_session sample_start))" sample_handler]
  by (simp add: sample_start_def play_init_def sample_handler_def)

lemma sample_disconnect:
  "path (play_step sample_env sample_handler) sample_start [LApi (Disconnect None)]
    (sample_start\<lparr>py_session := snd (api_call sample_env (Disconnect None) (py_session sample_start)),
       py_phase := Running (Return None)\<rparr>)"
  by (rule path_single) (rule sample_disconnect_step)

lemma sample_join: "resolveJoin sample_services pl = Inr (sample_world, defaultSpawn ''w'')"
  by (simp add: resolveJoin_def sample_services_def defaultSpawn_def)

lemma sample_ids47: "ids47 sample_env protocol47"
  by (simp add: ids47_def has_id_def sample_env_def packet_ID_def packet_lookup_def with_775_def
    sample_packets_47_def protocol47_def)

lemma sample_server_ids:
  "serverID sample_env sample_cfg StateConfiguration ''finish_configuration'' = Some 3"
  "serverID sample_env sample_cfg StateConfiguration ''settings'' = Some 0"
  "serverID sample_env sample_cfg StateLogin ''login_acknowledged'' = Some 3"
  by code_simp+

lemma sample_packet_ok [simp]: "packet_ok (mk_packet 0 [])" "packet_ok (mk_packet 3 [])"
  by code_simp+

lemma sample_ignorable: "isIgnorableConfigurationServerboundPacket sample_env sample_cfg 0"
  using sample_server_ids(2)
  by (auto simp: isIgnorableConfigurationServerboundPacket_def ignorable_names_def)

definition sample_rd :: registryData where
  "sample_rd = \<lparr>rd_registries = [775 \<mapsto> []], rd_tags = Map.empty, rd_codecs = Map.empty, rd_dimensions = Map.empty\<rparr>"

lemma sample_modern_ids: "ids_modern sample_env (packetProtocol sample_cfg)"
  by code_simp

lemma sample_chunk: "\<not> isl (spawn_chunk sample_world (defaultSpawn ''w''))"
  by code_simp

lemma sample_success: "\<not> isl (loginSuccessModern_data sample_player sample_cfg)"
  by code_simp

lemma sample_registries: "\<not> Option.is_none (registry_packets sample_env sample_world sample_cfg sample_rd)"
  by code_simp

lemma not_isl_obtain: "\<not> isl r \<Longrightarrow> \<exists>x. r = Inr x"
  by (cases r) simp_all

lemma empty_palette: "buildLocalPaletteModern blocks palette None p = [0]"
  by (simp add: buildLocalPaletteModern_def)

definition sample_section :: chunkSection where
  "sample_section = \<lparr>cs_Y = 0, cs_BlockStateIDs = [0..<17], cs_BiomeIDs = []\<rparr>"

definition sample_blocks :: blockTable where
  "sample_blocks = (\<lambda>p. Some (\<lambda>n. Some (length n)))"

definition sample_palette :: "blockState list" where
  "sample_palette = map (\<lambda>i. \<lparr>bs_Name = replicate i CHR ''a'', bs_Properties = []\<rparr>) [0..<17]"

lemma sample_local: "buildLocalPaletteModern sample_blocks sample_palette (Some sample_section) 340 = [0..<17]"
  by code_simp

lemma sample_section_length: "length (cs_BlockStateIDs sample_section) \<le> 4096"
  by (simp add: sample_section_def)

lemma sample_frames: "packetFrame (mk_packet 0 []) = [1, 0]" "packetFrame (mk_packet 3 [7]) = [2, 3, 7]"
  "packet_ok (mk_packet 0 [])" "packet_ok (mk_packet 3 [7])"
  by code_simp+

definition sample_exchange :: "string \<Rightarrow> (string \<times> string) list \<Rightarrow> httpResponse result" where
  "sample_exchange url query = Inr \<lparr>ht_StatusCode = 200, ht_Body = Inr \<lparr>hj_ID = replicate 32 CHR ''a'',
     hj_Name = ''Steve'', hj_Properties = []\<rparr>\<rparr>"

definition sample_proof :: sessionProof where
  "sample_proof = \<lparr>pf_Username = ''Steve'', pf_ServerID = ''x'', pf_RemoteIP = '''', pf_ProtocolVersion = 775,
     pf_RequestedHost = ''h''\<rparr>"

definition sample_pack :: resourcePack where
  "sample_pack = \<lparr>rp_ID = dashed (replicate 16 7), rp_URL = ''u'', rp_Hash = '''', rp_Required = False, rp_Prompt = None\<rparr>"

section \<open>Router inputs\<close>

text \<open>A router that serves 775 only, with an accepting verifier and a key exchange in the clear.\<close>

definition sample_crypto :: loginCrypto where
  "sample_crypto = \<lparr>lx_publicKey = Inr [1], lx_token = Inr [2], lx_decrypt = Inr,
     lx_cipher = (\<lambda>secret. Inr (\<lambda>iv. iv))\<rparr>"

definition sample_outside :: outside where
  "sample_outside = \<lparr>ou_crypto = sample_crypto, ou_exchange = sample_exchange, ou_defaultRegistry = Inr sample_rd\<rparr>"

definition sample_router :: router where
  "sample_router = \<lparr>rt_Description = ''hello'', rt_MOTD = None, rt_StatusProvider = None, rt_VersionName = '''',
     rt_VersionProtocol = 0, rt_MaxPlayers = 0, rt_OnlinePlayers = 0, rt_SamplePlayers = [],
     rt_HidePlayers = False, rt_Favicon = '''', rt_EnforcesSecureChat = None, rt_PreviewsChat = None,
     rt_PreventsChatReports = None, rt_ModernProtocols = Some [(775, sample_cfg)],
     rt_RegistryData = Some sample_rd, rt_RegistryDataSource = None, rt_ProtocolPolicy = None,
     rt_LoginMode = '''', rt_LoginPolicy = None, rt_LoginDecisionPolicy = None, rt_SessionVerifier = None,
     rt_YggdrasilBaseURL = '''', rt_OnlineServerID = ''''\<rparr>"

definition sample_handshake :: "int \<Rightarrow> handshakeInfo" where
  "sample_handshake next' = \<lparr>hi_ProtocolVersion = 775, hi_Address = ''h'', hi_Port = 25565, hi_NextState = next'\<rparr>"

definition sample_request :: loginRequest where
  "sample_request = login_request None (sample_handshake 2) ''Steve'' ''''"

definition sample_auth_conn :: conn where
  "sample_auth_conn = sample_conn (packetFrame (mk_packet 1 (writeLoginByteArray [3] @ writeLoginByteArray [2])))"

lemma sample_online_login: "\<not> isl (fst (login_player sample_env sample_outside sample_router (sample_handshake 2) 775
    sample_request \<lparr>ld_Mode = LoginModeOnline, ld_Profile = None\<rparr> sample_auth_conn))"
  by code_simp

lemma sample_decision: "resolveLoginDecision sample_router req = Inr \<lparr>ld_Mode = LoginModeOffline, ld_Profile = None\<rparr>"
  by (simp add: resolveLoginDecision_def sample_router_def)

lemma fresh_sample [simp]: "sbuf (c_reader (sample_conn d)) = []"
  by (simp add: sample_conn_def)

section \<open>A server run\<close>

definition sample_resolver :: joinResolver where
  "sample_resolver = \<lparr>jr_ResolveJoin = (\<lambda>_. Inr \<lparr>jt_World = Some sample_world, jt_Spawn = defaultSpawn ''''\<rparr>),
     jr_ReleaseJoin = Some (\<lambda>_ _. None)\<rparr>"

definition sample_proxy :: proxyProtocolConfig where
  "sample_proxy = \<lparr>px_Enabled = True, px_Required = False, px_TrustedProxies = [],
     px_RestrictTrustedProxies = False, px_ReadHeaderTimeout = 0\<rparr>"

definition sample_serverConfig :: serverConfig where
  "sample_serverConfig = \<lparr>scf_Addr = '''', scf_ProtocolRouter = True, scf_JoinResolver = Some sample_resolver,
     scf_Worlds = None, scf_SpawnResolver = None, scf_Events = None, scf_ProxyProtocol = sample_proxy\<rparr>"

definition sample_server :: server where
  "sample_server = projr (NewServer sample_serverConfig)"

definition sample_run :: serverRun where
  "sample_run = \<lparr>run_server = sample_server, run_listening = False, run_accepted = None, run_phase = Map.empty,
     run_addr = Map.empty, run_connClosed = {}, run_toClose = {}, run_resolved = {#}, run_replaced = {#}, run_released = {#}\<rparr>"

lemma sample_NewServer: "NewServer sample_serverConfig = Inr sample_server"
proof -
  have "\<not> isl (newProxyProtocolRuntime sample_proxy)" by code_simp
  then have "\<not> isl (NewServer sample_serverConfig)"
    by (cases "newProxyProtocolRuntime sample_proxy") (simp_all add: NewServer_def sample_serverConfig_def)
  then show ?thesis by (simp add: sample_server_def)
qed

lemma sample_server_init: "server_init sample_serverConfig sample_run"
  using sample_NewServer by (simp add: server_init_def sample_run_def)

text \<open>The server listens, accepts a connection, whose handler resolves a join, and is shut down.\<close>

definition sample_up :: serverRun where
  "sample_up = sample_run\<lparr>run_server := sample_server\<lparr>srv_listener := True\<rparr>, run_listening := True\<rparr>"

definition sample_served :: serverRun where
  "sample_served = sample_up\<lparr>run_server := sample_server\<lparr>srv_listener := True, srv_conns := {7}\<rparr>,
     run_addr := [7 \<mapsto> None], run_phase := [7 \<mapsto> Serving]\<rparr>"

definition sample_joined :: serverRun where
  "sample_joined = sample_served\<lparr>run_server := snd (server_ResolveJoin (run_server sample_served) sample_player),
     run_resolved := recorded (run_server sample_served) sample_player,
     run_replaced := overwritten (run_server sample_served) sample_player\<rparr>"

definition sample_down :: serverRun where
  "sample_down = sample_joined\<lparr>run_server := (run_server sample_joined)\<lparr>srv_closed := True\<rparr>, run_toClose := {7}\<rparr>"

lemma sample_server_facts: "srv_closed sample_server = False" "srv_conns sample_server = {}" "srv_listener sample_server = False"
  using NewServer_fresh [OF sample_NewServer] by simp_all

lemma sample_joined_server:
  "srv_closed (run_server sample_joined) = False" "srv_conns (run_server sample_joined) = {7}"
  "run_toClose sample_joined = {}"
  using ResolveJoin_frame [of "run_server sample_served" sample_player, OF surjective_pairing]
  by (simp_all add: sample_joined_def sample_served_def sample_up_def sample_run_def sample_server_facts)

lemma sample_server_path:
  "path server_step sample_run [LServe, LAccepted 7 None, LTrack, LResolve 7 sample_player, LShutdown] sample_down"
proof (rule path.path_Cons, rule_tac [2] path.path_Cons, rule_tac [3] path.path_Cons, rule_tac [4] path.path_Cons,
    rule_tac [5] path.path_Cons, rule_tac [6] path.path_Nil)
  show "server_step sample_run LServe sample_up"
    using server_step.serve [of sample_run "sample_server\<lparr>srv_listener := True\<rparr>"]
    by (simp add: sample_up_def sample_run_def serve_start_def sample_server_facts)
  let ?a = "sample_up\<lparr>run_accepted := Some 7, run_addr := [7 \<mapsto> None]\<rparr>"
  show "server_step sample_up (LAccepted 7 None) ?a"
    using server_step.accepted [of sample_up 7 None] by (simp add: sample_up_def sample_run_def)
  show "server_step ?a LTrack sample_served"
    using server_step.track [of ?a 7 False "sample_server\<lparr>srv_listener := True, srv_conns := {7}\<rparr>"]
    by (simp add: sample_served_def sample_up_def sample_run_def trackConn_def sample_server_facts)
  show "server_step sample_served (LResolve 7 sample_player) sample_joined"
    using server_step.resolve [of sample_served 7 sample_player]
    by (cases "server_ResolveJoin (run_server sample_served) sample_player")
      (simp add: sample_joined_def sample_served_def sample_up_def sample_run_def sample_player_def
        OfflineLoginPlayer_def OfflineLoginPlayerWithProfile_def)
  show "server_step sample_joined LShutdown sample_down"
    using server_step.shutdown [of sample_joined "{7}" "(run_server sample_joined)\<lparr>srv_closed := True\<rparr>"]
    by (simp add: sample_down_def shutdown_mark_def sample_joined_server)
qed


section \<open>A header through a wrapped connection\<close>

definition sample_raw :: "byte list \<Rightarrow> rawConn" where
  "sample_raw d = \<lparr>rc_stream = Stream [] [d] EOF, rc_remote = ''10.0.0.1:5'', rc_local = ''l'', rc_deadline = 0,
     rc_writeDeadline = 0, rc_setDeadline = None\<rparr>"

definition sample_client :: tcpAddr where
  "sample_client = \<lparr>ta_IP = as16 [1, 2, 3, 4], ta_Port = 9\<rparr>"

definition sample_v2 :: "byte list" where
  "sample_v2 = v2_header 1 0x11 (v2_body 4 sample_client sample_client)"

lemma sample_endpoint [simp]: "endpoint_ok 4 sample_client"
  unfolding endpoint_ok_def sample_client_def by (auto intro: exI [of _ "[1, 2, 3, 4]"])

lemma sample_wrapped: "\<exists>pc. WrapProxyProtocolConn sample_proxy (sample_raw d) = Inr (Inr pc)"
  by (simp add: WrapProxyProtocolConn_def newProxyProtocolRuntime_def proxy_wrap_def sample_proxy_def Let_def)

lemma sample_v2_reads: "\<exists>s. readProxyProtocolHeader (rc_stream (sample_raw (sample_v2 @ rest)))
    = (Inr (Some sample_client, Some sample_client, True), s) \<and> flat s = rest"
proof -
  have "length (v2_body 4 sample_client sample_client) = 12" by code_simp
  then have l: "length (v2_body 4 sample_client sample_client) < 65536" by simp
  have f: "flat (rc_stream (sample_raw (sample_v2 @ rest))) = v2_header 1 0x11 (v2_body 4 sample_client sample_client) @ rest"
    by (simp add: sample_raw_def sample_v2_def flat_def)
  show ?thesis using readProxyProtocolHeader_v2 [OF f l] parse_v2_v4 [of sample_client sample_client "[]"] by auto
qed

section \<open>Texts and dialogs\<close>

text \<open>Two colours, packed as red, green and blue bytes; \<open>RGBA\<close> repeats each byte.\<close>

definition sample_mm :: mm_env where
  "sample_mm = \<lparr>mx_lower = id, mx_Hex = (\<lambda>_. None),
     mx_Names = (\<lambda>s. if s = ''red'' then Some 0xFF0000 else if s = ''blue'' then Some 0xFF else None),
     mx_White = 0xFFFFFF, mx_Aqua = 0x55FFFF, mx_Red = 0xFF0000,
     mx_RGBA = (\<lambda>c. (c div 65536 mod 256 * 257, c div 256 mod 256 * 257, c mod 256 * 257)), mx_HexInt = nat,
     mx_MinecraftNamespace = ''minecraft'', mx_key = Some, mx_uuid = (\<lambda>_. None), mx_ParseFloat = (\<lambda>_. None),
     mx_int_NaN = 0\<rparr>"

definition sample_gradient :: mm_tag where
  "sample_gradient = \<lparr>tg_name = ''gradient'', tg_args = [''red'', ''blue''], tg_literal = ''gradient:red:blue''\<rparr>"

lemma sample_parseColors [simp]: "parseColors sample_mm [''red'', ''blue''] = [0xFF0000, 0xFF]"
proof -
  have n: "simple_name ''red''" "simple_name ''blue''" by (simp_all add: simple_name_def simple_char_def)
  have r: "replaceAll ''grey'' ''gray'' ''red'' = ''red''" "replaceAll ''grey'' ''gray'' ''blue'' = ''blue''"
    by (simp_all add: replaceAll.simps)
  have "parseColor sample_mm ''red'' = Some 0xFF0000" "parseColor sample_mm ''blue'' = Some 0xFF"
    by (simp_all add: parseColor_def simple_nameD [OF n(1)] simple_nameD [OF n(2)] r) (simp_all add: sample_mm_def)
  then show ?thesis by (simp add: parseColors_def List.map_filter_simps)
qed

lemma sample_rgba: "rgba_ok sample_mm c"
proof -
  have "n mod 256 * 257 < 65536" for n :: nat using mod_less_divisor [of 256 n] by linarith
  then show ?thesis by (simp add: rgba_ok_def sample_mm_def)
qed

lemma sample_abc: "valid_utf8 ''abc''" "runes ''abc'' = [97, 98, 99]"
  by (simp_all add: valid_utf8.simps runes.simps decodeRune_ascii RuneError_def)

text \<open>A notice without a title: one field, and its JSON as the parameters give it.\<close>

definition sample_spec :: json_spec where
  "sample_spec = \<lparr>js_float = (\<lambda>_. ''0''), js_component = (\<lambda>_. JStr ''hi''), js_other = (\<lambda>_. JNull), js_raw = (\<lambda>_. JNull)\<rparr>"

definition sample_common :: dialogCommon where
  "sample_common = \<lparr>cm_Title = Some (TextC ''hi''), cm_ExternalTitle = None, cm_Body = [], cm_Inputs = [],
     cm_CanCloseWithEscape = None, cm_Pause = None, cm_AfterAction = ''''\<rparr>"

definition sample_dialog :: fields where
  "sample_dialog = dialog_Notice sample_common no_button"

definition dialog_env :: env where
  "dialog_env = sample_env\<lparr>ev_jsonDecode := (\<lambda>bs. Inr (value_json sample_spec (DRaw (Some sample_dialog))))\<rparr>"

lemma dialog_env_facts:
  "clientID dialog_env (newPlayAdapter 775) ''show_dialog'' = Some 140" "common_ok sample_spec sample_common"
  "button_ok sample_spec no_button" "raw_MarshalJSON dialog_env r = Inr (bytes_of ''{}'')"
  "ev_jsonDecode dialog_env bs = Inr (value_json sample_spec (DRaw (Some (dialog_Notice sample_common no_button))))"
  "nbt_depth (NCompound (client_fields sample_spec (dialog_Notice sample_common no_button))) \<le> 9"
proof -
  show "clientID dialog_env (newPlayAdapter 775) ''show_dialog'' = Some 140"
    by code_simp
  show "common_ok sample_spec sample_common" "button_ok sample_spec no_button"
    by (simp_all add: common_ok_def sample_common_def button_ok_def no_button_def rich_ok_def raws_ok_def text_ok_def
        to_valid_def sample_spec_def is_int64_def)
  show "raw_MarshalJSON dialog_env r = Inr (bytes_of ''{}'')"
    "ev_jsonDecode dialog_env bs = Inr (value_json sample_spec (DRaw (Some (dialog_Notice sample_common no_button))))"
    by (simp_all add: raw_MarshalJSON_def dialog_env_def sample_env_def sample_dialog_def)
  show "nbt_depth (NCompound (client_fields sample_spec (dialog_Notice sample_common no_button))) \<le> 9"
    by (simp add: client_fields_def dialog_Notice_def button_raw_def no_button_def common_apply_def sample_common_def typed_def
        put_some_def put_list_def put_text_def put_raw_def value_json_def sample_spec_def)
qed

section \<open>A conversation\<close>

definition quiet_handler :: handler where
  "quiet_handler = \<lparr>hd_handle = (\<lambda>_ _. Return None), hd_resourcePacks = False\<rparr>"

lemma sample_names: "names_apart sample_env (newPlayAdapter 775)"
  by (rule names_apart_ids) code_simp

lemma sample_play_ids:
  "packet_ID (ev_packets sample_env) 775 StatePlay ToServer ''chat_message'' = Some 9"
  "packet_ID (ev_packets sample_env) 775 StatePlay ToServer ''chat_command'' = Some 7"
  by code_simp+

section \<open>A chunk with one section\<close>

definition sample_high_chunk :: chunk where
  "sample_high_chunk = \<lparr>ch_X = 0, ch_Z = 0, ch_MinY = 0, ch_Sections = [\<lparr>cs_Y = 3, cs_BlockStateIDs = [1, 2], cs_BiomeIDs = []\<rparr>]\<rparr>"

definition sample_palette_world :: world where
  "sample_palette_world = sample_world\<lparr>w_BlockPalette := sample_palette\<rparr>"

lemma sample_few_states: "few_states sample_blocks 340 (w_BlockPalette sample_palette_world) sample_high_chunk"
proof -
  have "buildLocalPaletteModern sample_blocks sample_palette (Some \<lparr>cs_Y = 3, cs_BlockStateIDs = [1, 2], cs_BiomeIDs = []\<rparr>) 340 = [0, 1, 2]"
    by code_simp
  then show ?thesis by (simp add: few_states_def sample_high_chunk_def sample_palette_world_def)
qed

section \<open>A start of the program\<close>

text \<open>The empty configuration \<open>{}\<close>: every field absent. No file but the configuration is read.\<close>

definition empty_config :: fileConfig where
  "empty_config = \<lparr>fc_Listen = '''',
     fc_Status = \<lparr>fs_Description = '''', fs_MOTD = '''', fs_MOTDMiniMessage = '''', fs_VersionName = '''',
       fs_VersionProtocol = 0, fs_MaxPlayers = 0, fs_OnlinePlayers = 0, fs_SamplePlayers = [], fs_HidePlayers = False,
       fs_Favicon = '''', fs_EnforcesSecureChat = None, fs_PreviewsChat = None, fs_PreventsChatReports = None,
       fs_RateLimit = \<lparr>fr_Enabled = None, fr_Requests = 0, fr_WindowMillis = 0\<rparr>\<rparr>,
     fc_Auth = \<lparr>fa_Mode = '''', fa_YggdrasilBaseURL = '''', fa_OnlineServerID = ''''\<rparr>,
     fc_ProxyProtocol = \<lparr>fp_Enabled = False, fp_Required = False, fp_TrustedProxies = [],
       fp_RestrictTrustedProxies = False, fp_ReadHeaderTimeoutMillis = 0\<rparr>,
     fc_ModernProtocols = '''', fc_RegistryData = '''', fc_WorldID = '''', fc_Schematic = '''',
     fc_Dimension = \<lparr>dc_Environment = '''', dc_Name = '''', dc_MinY = None, dc_Height = None, dc_LogicalHeight = None,
       dc_Natural = None, dc_HasSkylight = None, dc_HasCeiling = None, dc_UltraWarm = None, dc_AmbientLight = None,
       dc_FixedTime = None, dc_TimeOfDay = None, dc_WorldAge = None, dc_CoordinateScale = None, dc_Effects = ''''\<rparr>,
     fc_SpawnWorld = '''', fc_SpawnPos = \<lparr>v_X = 0, v_Y = 0, v_Z = 0\<rparr>, fc_SpawnLook = \<lparr>rot_Yaw = 0, rot_Pitch = 0\<rparr>,
     fc_SpawnMode = 0\<rparr>"

definition sample_startup :: "fileConfig \<Rightarrow> startup" where
  "sample_startup c = \<lparr>su_readFile = (\<lambda>file. if file = ''limbgo.json'' then Inr (bytes_of ''{}'') else Inl (Errorf ''not found'' [])),
     su_openFile = (\<lambda>file. Inl (Errorf ''not found'' [])), su_config = (\<lambda>bs. Inr c), su_openGzip = (\<lambda>bs. None),
     su_decodeNBT = (\<lambda>gz bs. Inl (Errorf ''no NBT'' [])), su_minimessage = (\<lambda>s. Inr (TextC s)),
     su_modernRecords = (\<lambda>bs. Inr []), su_unzip = (\<lambda>bs. Inr []),
     su_registryProtocol = (\<lambda>bs. Inl (Errorf ''no JSON'' [])), su_registryData = (\<lambda>bs. Inl (Errorf ''no JSON'' []))\<rparr>"

lemma sample_startup_loads:
  "LoadFileConfig (su_readFile (sample_startup c)) (su_config (sample_startup c)) ''limbgo.json'' = Inr (config_defaults c)"
  by (simp add: sample_startup_def LoadFileConfig_def)

lemma empty_config_spawn: "fc_Schematic empty_config = ''''" "spawn_unset empty_config"
  by (simp add: empty_config_def, code_simp)

lemma config_defaults_MOTD: "fs_MOTDMiniMessage (fc_Status (config_defaults c)) = fs_MOTDMiniMessage (fc_Status c)"
  by (simp add: config_defaults_def default_spawn_frame default_defs)

lemma sample_starts: "\<exists>m. main_start (sample_startup empty_config) ''limbgo.json'' = Some (Inr m)"
  by (rule plain_starts [OF sample_startup_loads]) (simp_all add: config_defaults_keeps config_defaults_MOTD, simp_all add: empty_config_def)

end
