(* ===== verification/Spec2Isabelle.thy ===== *)
theory Spec2Isabelle
  imports Samples
begin

text \<open>
A model of limbgo, a Minecraft limbo server in Go: it accepts connections of every client
  version from 1.8 to 26.1, logs the player in, sends the packets that put the client into a
  one-chunk world, and then serves chat, titles, dialogs, resource packs and transfers to the
  application's event handler until the connection ends.

  Parts and theories. Each theory models the files it names; definitions keep the Go names, with
  a prefix per record for its fields.

    \<^item> \<open>Prelude\<close>: errors as values, Go's integers and wrap-around, byte order, segmented input
      streams, the locale \<open>codec\<close> (writer and reader of one format), actions with state and
      error, the locale \<open>state_machine\<close>. \<open>Go_Net\<close>, \<open>Go_Number\<close>, \<open>Go_Float\<close>, \<open>Base64\<close>: the
      standard library functions the code calls.
    \<^item> \<open>Wire\<close> (internal/protocol/wire): VarInts, numbers, strings, positions, packet frames. Its
      writers and readers interpret \<open>codec\<close>. \<open>Cfb8\<close> is the stream cipher of session_auth.go,
      \<open>Net_IO\<close> the connection.
    \<^item> \<open>Rate_Limit\<close> (rate_limit.go), \<open>World\<close> (world.go, types.go), \<open>Packet_Id\<close>
      (protocol/packetid), \<open>Block_State\<close> (protocol/blockstate), \<open>Registry_Data\<close>
      (protocol/registrydata).
    \<^item> \<open>Nbt\<close>, \<open>Json_Nbt\<close> (modern_nbt.go and the JSON conversion of play_events.go), \<open>Palette\<close>,
      \<open>Chunk_Data\<close> (sections, chunks, light, dimension types), \<open>Chunk_Decode\<close> (what a client reads of
      the chunk bodies up to protocol 756), \<open>Protocol_Config\<close> (the protocol tables), \<open>Env\<close>, \<open>Player\<close>
      (text.go, session_auth.go).
    \<^item> \<open>Login\<close>, \<open>Policy\<close>, \<open>Status\<close>, \<open>Router\<close>, \<open>Status_Router\<close> (session_auth.go,
      protocol_policy.go, status.go, limbo/router.go, status/router.go): from the first byte of a
      connection to the status document, the rejection or the join flow.
    \<^item> \<open>Go_IP\<close>, \<open>Proxy_Protocol\<close> (proxy_protocol.go): addresses, trusted networks, both header
      formats and the connection that reads one. \<open>Server\<close> (server.go): join bookkeeping and the
      life of connections as a step relation of its critical sections.
    \<^item> \<open>Schematic\<close>, \<open>Schematic_Load\<close> (world/schematic/load.go): a Sponge schematic becomes a world.
      \<open>Config\<close> (config.go): the defaults and settings of the configuration file; \<open>Dimension_Sent\<close>: what a
      client learns of the configured dimension. \<open>Versions\<close> (protocol/versions): the release tables;
      \<open>Releases\<close>: which join flow the router runs for each of them.
    \<^item> \<open>Go_Text\<close> (UTF-8, white space, case), \<open>Go_Fl64\<close> (rounding of float64). \<open>Mini_Tags\<close>, \<open>MiniMessage\<close>
      (minimessage/minimessage.go, text.go): from text to a tree of tags, and from it to components.
      \<open>Dialog\<close> (dialog/dialog.go): the dialog builders and what a client reads of a dialog.
    \<^item> \<open>Adapters\<close> (events.go, types.go, registrydata.go, store.go): handlers made of functions, static
      resolvers, the embedded registry data. \<open>Limbgo_Main\<close> (cmd/limbgo/main.go): the program, from the
      configuration file to the world, the router and the server.
    \<^item> \<open>Play_Packets\<close>, \<open>Play_Session\<close>, \<open>Play_Steps\<close> (play_events.go): the packet writers, the
      session with its event loop, and the same with the keep-alive goroutine, other goroutines of the
      application and the context as a step relation. \<open>Play_Events\<close>: the actions of a client, the packets
      it sends for them and the conversation an application should see. \<open>Join_Packets\<close>, \<open>Join_Flows\<close> (protocol47.go to protocol766.go): what each
      protocol sends until play starts. \<open>Samples\<close>: inputs for the witnesses.

  State and operations. A connection is a record of the reader in use, the buffers written so
  far, a script of write errors and the cipher; an operation on it is a function from the
  connection to a result and the connection. Writers into a buffer are the bytes they append.
  A Go function that returns an error returns a sum, and every early return is a branch. The
  methods of the play session hold one lock, so each is one step of \<open>play_step\<close>; the keep-alive
  goroutine looks whether the session is closed in one step and sends in another. An event
  handler gives for every event and every moment of the session (its packets so far) an arbitrary
  program of API calls, so it may keep state of its own.

  What the lemmas show. Wire: every reader inverts its writer on any segmentation of the input.
  Play: the loop holds the conversation its client's actions stand for and is a run of the step
  relation, whose invariants hold on every interleaving. Join: the exact packet sequence of a flow,
  and a flow for every release. Encryption: both directions are CFB8 under the shared secret, on any
  cuts. Palette, chunks, NBT: what a client decodes, including the
  aliasing of palettes with more than sixteen states. Router: who may log in, what a status client
  reads. Proxy: only trusted headers change an address. Server: no join is lost, clean-up ends.
  Registry data: an exported archive is read
  back. Schematics: every block is where the file puts it. MiniMessage: parsing ends, escaped text reads
  back, an element styles its text, gradients stay colours. Dialogs: the client reads the fields that were set. The limiter: the bounded map decides as the unbounded one.

  Bounds and fuel. Loops are recursive functions with measures; the play and configuration loops
  end because each packet takes at least one byte of the finite input. The NBT decoder has its
  nesting depth as fuel, with \<open>nbt_depth\<close> of the value enough. MiniMessage parses the arguments of a
  tag again; the opening brackets of the input bound the depth, and \<open>mm_Parse\<close> satisfies the equation
  without fuel. Float arithmetic is exact rational arithmetic rounded to 53 bits, without overflow.

  Parameters. The generated packet and block tables, the component codec, JSON and zip decoding,
  UUID parsing, hashes and block ciphers are arguments (record \<open>env\<close>, or of the definition);
  the iteration order of a Go map is the order of an association list or the choice \<open>ev_pick\<close>. The
  colour, key and component packages of MiniMessage are record \<open>mm_env\<close> and free constructors. Reading
  files, gzip, NBT decoding of schematics, RSA, HTTP and the clock are arguments too. The outcome of
  \<open>SetReadDeadline\<close> on a raw connection is a field of it.

  Not modelled. The generated packet and block tables (data, 40000 lines of the source; the lookups that
  use them are modelled for any table), the build-time generators under tools/, flags and signals, logging,
  contexts except where they end a loop, the third-party libraries, and running out of memory: a
  schematic may ask for a palette or block array no machine has, which here is a long list. The identifiers
  \<open>strings.ToLower\<close> is applied to are lowered as ASCII. In the server's step relation a player carries the
  address of its connection, as the limbo router gives it, and one goroutine accepts connections. The component list of the manifest names these parts.
\<close>

section \<open>The play phase\<close>



text \<open>C2: Under every interleaving of callbacks, keep-alive ticks, reads and cancellation the session
  keeps its player and adapter, a closed session has a closed connection, and the remembered
  resource packs stay a map of named packs whose last id is one of them.\<close>

theorem play_every_interleaving:
  assumes "path (play_step E h) (play_init h pl ad c) ls x" "pick_ok E"
  shows "session_inv (py_session x) \<and> ss_player (py_session x) = pl \<and> ss_adapter (py_session x) = ad"
proof -
  have "play_inv E pl ad x"
    by (rule play.inv_reachable [OF _ assms(1)]) blast
  with assms(2) show ?thesis by (simp add: play_inv_def)
qed

theorem play_every_interleaving_witness:
  "session_inv (py_session (sample_start\<lparr>py_session :=
       snd (api_call sample_env (Disconnect None) (py_session sample_start)), py_phase := Running (Return None)\<rparr>))"
  using play_every_interleaving [OF sample_disconnect [unfolded sample_start_def] pick_ok_sample]
  by (simp only: sample_start_def)

text \<open>C3: After a Disconnect call the session is closed and no byte follows what that call itself
  sent, whatever callbacks, keep-alives and reads come after it.\<close>

theorem disconnect_is_final:
  assumes "path (play_step E h) x (LApi (Disconnect reason) # ls) z"
  shows "\<exists>y. play_step E h x (LApi (Disconnect reason)) y
    \<and> c_out (ss_conn (py_session z)) = c_out (ss_conn (py_session y))
    \<and> c_closed (ss_conn (py_session z)) \<and> ss_closed (py_session y)"
proof -
  from assms obtain y where y: "play_step E h x (LApi (Disconnect reason)) y" "path (play_step E h) y ls z"
    by (auto simp: path_Cons_iff)
  have c: "c_closed (ss_conn (py_session y)) \<and> ss_closed (py_session y)"
    by (rule play_step_apiE [OF y(1)]) (auto split: prod.splits)
  then have "sent_and_closed (c_out (ss_conn (py_session y))) z"
    by (intro closed_play.inv_path [OF y(2)]) (simp add: sent_and_closed_def)
  with c y(1) show ?thesis by (auto simp: sent_and_closed_def)
qed

theorem disconnect_is_final_witness:
  "c_closed (ss_conn (py_session (sample_start\<lparr>py_session :=
       snd (api_call sample_env (Disconnect None) (py_session sample_start)), py_phase := Running (Return None)\<rparr>)))"
  using disconnect_is_final [OF sample_disconnect] by blast

section \<open>The router\<close>

text \<open>C4: Whoever gets past the login either logged in offline by the operator's decision, with
  nothing read or written, or completed the encryption exchange and is the player the session
  verifier confirmed for the secret and key of this very exchange; only hybrid mode lets an
  unconfirmed player continue, and only over the encrypted connection as the offline player of
  that name.\<close>

theorem login_identity:
  assumes "login_player E ou r info pp req d c = (Inr pl, c')"
  shows "if ld_Mode d = LoginModeOffline
    then pl = offlineLoginPlayer E req (ld_Profile d) \<and> c' = c
    else ld_Mode d \<in> {LoginModeOnline, LoginModeHybrid} \<and> \<not> Option.is_none (c_enc c')
      \<and> (verified_by E ou r req pl (c_enc c')
         \<or> ld_Mode d = LoginModeHybrid \<and> pl = OfflineLoginPlayer (ev_md5 E) req)"
  using login_player_Inr [OF assms] login_player_offline [of d E ou r info pp req c] assms
  by (auto simp: Option.is_none_def)

theorem login_identity_witness:
  "\<exists>pl c'. login_player sample_env sample_outside sample_router (sample_handshake 2) 775 sample_request
      \<lparr>ld_Mode = LoginModeOnline, ld_Profile = None\<rparr> sample_auth_conn = (Inr pl, c')
    \<and> verified_by sample_env sample_outside sample_router sample_request pl (c_enc c')"
proof -
  obtain pl c' where l: "login_player sample_env sample_outside sample_router (sample_handshake 2) 775 sample_request
      \<lparr>ld_Mode = LoginModeOnline, ld_Profile = None\<rparr> sample_auth_conn = (Inr pl, c')"
    using not_isl_obtain [OF sample_online_login] by (metis prod.collapse)
  then show ?thesis using login_identity [OF l] by (simp add: login_modes)
qed

text \<open>C5: A client whose protocol the policy refuses is never asked to log in: it gets exactly the
  disconnect with the reason the rejection carries, or nothing at all for any other error, and
  the connection ends with the policy's error.\<close>

theorem policy_rejection:
  assumes "login_config r (hi_ProtocolVersion info) = Inr (pp, modern)" "live c"
    "rt_ProtocolPolicy r = Some policy" "policy (policy_request remote info) = Some err"
  shows "serveLogin E ou r sv remote info c = (Inl err,
    case ProtocolRejection err of
      None \<Rightarrow> c
    | Some reason \<Rightarrow> (case login_disconnect_packet E pp reason of
        Inl _ \<Rightarrow> c | Inr p \<Rightarrow> put_out [packetFrame p] c))"
  by (rule serveLogin_stops [OF assms(1)]) (rule allowProtocol_outcome [OF assms(3,4,2)])

theorem policy_rejection_witness:
  "\<exists>c. serveLogin sample_env sample_outside
      (sample_router\<lparr>rt_ProtocolPolicy := Some (ProtocolRangePolicy 47 340 None)\<rparr>) sample_services None
      (sample_handshake 2) (sample_conn [])
    = (Inl (RejectProtocolText ''Unsupported client protocol 775''), c) \<and> length (c_out c) = 1"
proof -
  let ?r = "sample_router\<lparr>rt_ProtocolPolicy := Some (ProtocolRangePolicy 47 340 None)\<rparr>"
  have cfg: "login_config ?r (hi_ProtocolVersion (sample_handshake 2)) = Inr (775, Some sample_cfg)" by code_simp
  have pol: "rt_ProtocolPolicy ?r = Some (ProtocolRangePolicy 47 340 None)" by simp
  have err: "ProtocolRangePolicy 47 340 None (policy_request None (sample_handshake 2))
    = Some (RejectProtocolText ''Unsupported client protocol 775'')" by code_simp
  show ?thesis
    using policy_rejection [OF cfg live_sample pol err, of sample_env sample_outside sample_services "[]"]
    by (auto simp: login_disconnect_packet_def limbgo_MarshalComponentJSON_def sample_env_def
        put_out_def sample_conn_def)
qed

text \<open>C6: A whole server-list ping: after the handshake and the request the client gets the status
  document of its protocol and then its own ping payload back; when the rate limiter refuses its
  address it gets nothing and the connection ends without error, the limiter advancing in both
  cases.\<close>

theorem status_exchange:
  assumes "live c" "sbuf (c_reader c) = []" "handshake_ok h" "hi_NextState h = stateStatus"
    "hs = mk_packet 0 (client_handshake h)" "ping = mk_packet 1 echo" "packet_ok hs" "packet_ok ping"
    "flat (c_reader c) = packetFrame hs @ packetFrame (mk_packet 0 []) @ packetFrame ping @ rest"
    "router_status r remote h = Inr st" "MarshalStatusJSON E st (hi_ProtocolVersion h) = Inr js"
  shows "ServeConn E ou r sv limiter remote now c = (let (ok, limiter') = allowStatus limiter remote now in
    if ok then ((Inr (), put_out [packetFrame (mk_packet 0 (writeString (string_of js))), packetFrame ping]
        (skip (length (packetFrame hs @ packetFrame (mk_packet 0 []) @ packetFrame ping)) c)), limiter')
    else ((Inr (), skip (length (packetFrame hs @ packetFrame (mk_packet 0 []))) c), limiter'))"
proof -
  let ?c1 = "skip (length (packetFrame hs)) c"
  let ?c2 = "skip (length (packetFrame (mk_packet 0 []))) ?c1"
  have h: "read_handshake c = (Inr h, ?c1)"
    using read_handshake_client [OF assms(2,3), of "packetFrame (mk_packet 0 []) @ packetFrame ping @ rest"] assms(5,7,9)
    by simp
  have s: "serveStatus E r limiter remote now h ?c1
    = (let (ok, limiter') = allowStatus limiter remote now
       in if ok then (answer_status E (router_status r remote h) (hi_ProtocolVersion h) ?c2, limiter')
          else ((Inr (), ?c2), limiter'))"
    using serveStatus_request [of ?c1 "[]" "packetFrame ping @ rest"] assms(9)
    by (simp add: Let_def split: prod.split)
  have a: "answer_status E (router_status r remote h) (hi_ProtocolVersion h) ?c2 = (Inr (), put_out
      [packetFrame (mk_packet 0 (writeString (string_of js))), packetFrame (mk_packet 1 echo)]
      (skip (length (packetFrame (mk_packet 1 echo))) ?c2))"
    using assms by (intro answer_status_exchange [OF _ assms(10,11), of _ _ rest]) simp_all
  show ?thesis using h s a assms(4,6) by (simp add: ServeConn_def stateStatus_def add.assoc split: prod.splits)
qed

theorem status_exchange_witness:
  "c_out (snd (fst (ServeConn sample_env sample_outside sample_router sample_services None None 0
      (sample_conn (packetFrame (mk_packet 0 (client_handshake (sample_handshake 1))) @
        packetFrame (mk_packet 0 []) @ packetFrame (mk_packet 1 [9]) @ [])))))
    = [packetFrame (mk_packet 0 (writeString ''{}'')), packetFrame (mk_packet 1 [9])]"
proof -
  obtain st where st: "router_status sample_router None (sample_handshake 1) = Inr st"
    by (simp add: router_status_def sample_router_def)
  have js: "MarshalStatusJSON sample_env st (hi_ProtocolVersion (sample_handshake 1)) = Inr (bytes_of ''{}'')"
    by (simp add: MarshalStatusJSON_def limbgo_MarshalComponentJSON_def sample_env_def Let_def)
  have ok: "handshake_ok (sample_handshake 1)" "hi_NextState (sample_handshake 1) = stateStatus"
    "packet_ok (mk_packet 0 (client_handshake (sample_handshake 1)))" "packet_ok (mk_packet 1 [9])"
    by code_simp+
  show ?thesis
    using status_exchange [OF live_sample _ ok(1,2) refl refl ok(3,4) flat_sample st js,
      where ou = sample_outside and sv = sample_services and limiter = None and now = 0 and rest = "[]"]
    by (simp add: allowStatus_def allow_def fresh_sample put_out_def) (simp add: sample_conn_def)
qed

text \<open>C7: An offline login end to end: the handshake and the login start a client sends (with its
  signature block and UUID where the version has them) are read back, and the flow of the
  client's protocol runs with the player of that name, on the connection just after the login
  start, with nothing written before.\<close>

theorem offline_login_reaches_flow:
  assumes "sbuf (c_reader c) = []" "handshake_ok h" "hi_NextState h = stateLogin"
    "hs = mk_packet 0 (client_handshake h)" "packet_ok hs"
    "login_config r (hi_ProtocolVersion h) = Inr (pp, modern)" "rt_ProtocolPolicy r = None"
    "packet_ID (ev_packets E) pp StateLogin ToServer ''login_start'' = Some i"
    "string_ok 16 name" "name \<noteq> ''''" "signature_ok sig" "uuid_ok (ll_uuidMode (loginStartLayoutFor modern)) u"
    "ls = mk_packet i (client_login_start (loginStartLayoutFor modern) name sig u)" "packet_ok ls"
    "flat (c_reader c) = packetFrame hs @ packetFrame ls @ rest"
    "req = login_request remote h name (case u of None \<Rightarrow> '''' | Some raw \<Rightarrow> ev_uuidString E raw)"
    "resolveLoginDecision r req = Inr d" "ld_Mode d = LoginModeOffline"
  shows "ServeConn E ou r sv limiter remote now c =
    (serve_flow E ou r sv (hi_ProtocolVersion h) modern (offlineLoginPlayer E req (ld_Profile d))
       (skip (length (packetFrame hs @ packetFrame ls)) c), limiter)"
proof -
  let ?c1 = "skip (length (packetFrame hs)) c"
  have h: "read_handshake c = (Inr h, ?c1)"
    using read_handshake_client [OF assms(1,2)] assms(4,5,15) by simp
  have "flat (c_reader ?c1) = packetFrame ls @ rest" using assms(15) by simp
  then have l: "read_login_start E remote h pp modern ?c1 = (Inr req, skip (length (packetFrame ls)) ?c1)"
    using read_login_start_client [OF assms(8-14)] assms(16) by simp
  show ?thesis using h l assms(3,6,7,17,18)
    by (simp add: ServeConn_def stateStatus_def stateLogin_def serveLogin_def allowProtocol_None
        bindE_def liftE_def retE_def login_player_offline add.commute)
qed

theorem offline_login_reaches_flow_witness:
  "\<exists>c'. ServeConn sample_env sample_outside sample_router sample_services None None 0
      (sample_conn (packetFrame (mk_packet 0 (client_handshake (sample_handshake 2))) @
        packetFrame (mk_packet 0 (client_login_start (loginStartLayoutFor (Some sample_cfg)) ''Steve'' None
          (Some (replicate 16 7)))) @ []))
    = (serve_flow sample_env sample_outside sample_router sample_services 775 (Some sample_cfg)
        (OfflineLoginPlayer (ev_md5 sample_env)
          (login_request None (sample_handshake 2) ''Steve'' (dashed (replicate 16 7)))) c', None)"
proof -
  have ok: "handshake_ok (sample_handshake 2)" "hi_NextState (sample_handshake 2) = stateLogin"
    "packet_ok (mk_packet 0 (client_handshake (sample_handshake 2)))"
    "login_config sample_router (hi_ProtocolVersion (sample_handshake 2)) = Inr (775, Some sample_cfg)"
    "packet_ID (ev_packets sample_env) 775 StateLogin ToServer ''login_start'' = Some 0"
    "string_ok 16 ''Steve''" "uuid_ok (ll_uuidMode (loginStartLayoutFor (Some sample_cfg))) (Some (replicate 16 7))"
    "packet_ok (mk_packet 0 (client_login_start (loginStartLayoutFor (Some sample_cfg)) ''Steve'' None
          (Some (replicate 16 7))))"
    by code_simp+
  have r: "rt_ProtocolPolicy sample_router = None" by (simp add: sample_router_def)
  have n: "''Steve'' \<noteq> ''''" "signature_ok None" "ld_Mode \<lparr>ld_Mode = LoginModeOffline, ld_Profile = None\<rparr> = LoginModeOffline"
    by (simp_all add: signature_ok_def)
  show ?thesis
    using offline_login_reaches_flow [OF fresh_sample ok(1,2) refl ok(3,4) r ok(5,6) n(1,2) ok(7) refl ok(8)
      flat_sample refl sample_decision n(3), where ou = sample_outside and sv = sample_services and limiter = None and now = 0 and rest = "[]" and remote = None]
    by (auto simp: offlineLoginPlayer_def sample_handshake_def sample_env_def)
qed

text \<open>C8: A login start of any layout the modern table has (name, the 1.19 signature block, an
  optional or required UUID) is read back exactly, and a handshake with its trailing bytes is.\<close>

theorem login_start_reads_back:
  assumes "string_ok 16 name" "name \<noteq> ''''" "signature_ok sig" "uuid_ok (ll_uuidMode l) u" "handshake_ok h"
  shows "readLoginStart E (client_login_start l name sig u) l
      = Inr (name, case u of None \<Rightarrow> '''' | Some raw \<Rightarrow> ev_uuidString E raw)
    \<and> readHandshake (client_handshake h @ rest) = Inr h"
  using readLoginStart_client [OF assms(1-4)] readHandshake_client [OF assms(5)] by blast

theorem login_start_reads_back_witness:
  "readLoginStart sample_env (client_login_start \<lparr>ll_signature = True, ll_uuidMode = loginStartUUIDRequired\<rparr>
      ''Steve'' (Some (5, [1], [2])) (Some (replicate 16 7))) \<lparr>ll_signature = True, ll_uuidMode = loginStartUUIDRequired\<rparr>
    = Inr (''Steve'', dashed (replicate 16 7))"
proof -
  have h: "handshake_ok (sample_handshake 2)" "string_ok 16 ''Steve''" by code_simp+
  then show ?thesis
    using login_start_reads_back [of "''Steve''" "Some (5, [1], [2])" "\<lparr>ll_signature = True, ll_uuidMode = loginStartUUIDRequired\<rparr>"
        "Some (replicate 16 7)" "sample_handshake 2" sample_env]
    by (simp add: signature_ok_def uuid_ok_def is_int64_def sample_env_def)
qed

text \<open>C9: The status-only router behaves exactly as the limbo router with the same settings on every
  connection that is not a login: same reads, writes, errors and limiter.\<close>

theorem status_router_agrees:
  assumes "\<forall>info c1. read_handshake c = (Inr info, c1) \<longrightarrow> hi_NextState info \<noteq> stateLogin"
  shows "status_ServeConn E (status_part r) limiter remote now c = ServeConn E ou r sv limiter remote now c"
  using assms by (intro status_ServeConn_part) blast

theorem status_router_agrees_witness:
  "status_ServeConn sample_env (status_part sample_router) None None 0 (sample_conn [])
    = ServeConn sample_env sample_outside sample_router sample_services None None 0 (sample_conn [])"
proof -
  have "isl (fst (read_handshake (sample_conn [])))" by code_simp
  then show ?thesis by (intro status_router_agrees) auto
qed

text \<open>C10: The JSON document of a status is the marshalled description under its key and, key by key,
  exactly the configured values with their defaults: the version name limbgo, the client's own
  protocol, at least one player slot, the description limbgo; the optional keys are there
  exactly when set, the players unless hidden, and an entry of the raw map replaces the built-in
  value of its key.\<close>

theorem status_document:
  "\<exists>doc. MarshalStatusJSON E st protocol
      = bindR (limbgo_MarshalComponentJSON E protocol
          (Some (case stt_Description st of None \<Rightarrow> TextC ''limbgo'' | Some c \<Rightarrow> c)))
        (\<lambda>d. ev_jsonMarshal E (VObj (doc d)))
    \<and> (\<forall>d. distinct (map fst (doc d)) \<and> (\<forall>k. map_of (doc d) k = (case map_of (rev (stt_Raw st)) k of Some v \<Rightarrow> Some v | None \<Rightarrow>
        if k = ''version'' then Some (VObj
          [(''name'', VStr (if stt_VersionName st = '''' then ''limbgo'' else stt_VersionName st)),
           (''protocol'', VInt (if stt_Protocol st = 0 then protocol else stt_Protocol st))])
        else if k = ''description'' then Some (VRaw d)
        else if k = ''players'' then (if stt_HidePlayers st then None else Some (VObj (
          [(''max'', VInt (if 0 < stt_MaxPlayers st then stt_MaxPlayers st else 1)),
           (''online'', VInt (stt_OnlinePlayers st))] @
          (if stt_SamplePlayers st = [] then [] else [(''sample'', VArr (map (\<lambda>p.
            VObj [(''name'', VStr (sm_Name p)), (''id'', VStr (sm_ID p))]) (stt_SamplePlayers st)))]))))
        else if k = ''favicon'' then (if stt_Favicon st = '''' then None else Some (VStr (stt_Favicon st)))
        else if k = ''enforcesSecureChat'' then map_option VBool (stt_EnforcesSecureChat st)
        else if k = ''previewsChat'' then map_option VBool (stt_PreviewsChat st)
        else if k = ''preventsChatReports'' then map_option VBool (stt_PreventsChatReports st)
        else None)))"
proof (intro exI conjI allI)
  let ?doc = "status_payload (StatusWithDefaults st protocol '''' 1)"
  show "MarshalStatusJSON E st protocol
      = bindR (limbgo_MarshalComponentJSON E protocol
          (Some (case stt_Description st of None \<Rightarrow> TextC ''limbgo'' | Some c \<Rightarrow> c)))
        (\<lambda>d. ev_jsonMarshal E (VObj (?doc d)))"
    by (cases "stt_Description st") (simp_all add: MarshalStatusJSON_def Let_def)
qed (simp_all only: distinct_status_payload map_of_status_payload builtin_value_def players_value_def sample_value_def [abs_def]
    StatusWithDefaults_fields if_cancel)

section \<open>The PROXY protocol and the server\<close>

text \<open>C11: Only a trusted upstream can change the reported client address: when a wrapped connection
  reports another address than its own, the configuration trusts the upstream and the address is
  the source of the PROXY header at the start of its stream.\<close>

theorem proxy_address_trusted:
  assumes "WrapProxyProtocolConn cfg conn = Inr (Inr pc)" "fst (proxy_RemoteAddr now pc) \<noteq> rc_remote conn"
  shows "config_trusts cfg (rc_remote conn)
    \<and> (\<exists>a d. fst (readProxyProtocolHeader (rc_stream conn)) = Inr (Some a, d, True)
        \<and> fst (proxy_RemoteAddr now pc) = tcpString a)"
proof -
  obtain rt where rt: "newProxyProtocolRuntime cfg = Inr rt" "proxy_wrap rt conn = Inr (Inr pc)"
    using assms(1) by (auto simp: WrapProxyProtocolConn_def bindR_Inr_conv)
  then have "px_Enabled cfg \<or> px_Required cfg"
    by (auto simp: newProxyProtocolRuntime_def proxy_wrap_def split: if_splits)
  from newProxyProtocolRuntime_trusts [OF rt(1) this, of "rc_remote conn"]
  show ?thesis using proxy_RemoteAddr_source [OF rt(2) assms(2)] fresh_wrapped [OF rt(2)] by simp
qed

theorem proxy_address_trusted_witness:
  "\<exists>pc. WrapProxyProtocolConn sample_proxy (sample_raw sample_v2) = Inr (Inr pc)
    \<and> fst (proxy_RemoteAddr 0 pc) = tcpString sample_client"
proof -
  obtain pc where w: "WrapProxyProtocolConn sample_proxy (sample_raw sample_v2) = Inr (Inr pc)" using sample_wrapped by blast
  obtain s where r: "readProxyProtocolHeader (rc_stream (sample_raw sample_v2))
      = (Inr (Some sample_client, Some sample_client, True), s)"
    using sample_v2_reads [of "[]"] by auto
  have "fst (proxy_RemoteAddr 0 pc) \<noteq> ''10.0.0.1:5''"
  proof -
    have "fst (proxy_RemoteAddr 0 (projr (projr (WrapProxyProtocolConn sample_proxy (sample_raw sample_v2))))) \<noteq> ''10.0.0.1:5''"
      by code_simp
    then show ?thesis by (simp add: w)
  qed
  then show ?thesis using w r proxy_address_trusted [OF w, of 0] by (auto simp: sample_raw_def)
qed

text \<open>C12: With IPv4 networks a.b.c.d/n as the trusted proxies, the runtime built from the
  configuration trusts exactly the upstreams whose address agrees with one of them in its first
  n bits; and a connection is turned away at once exactly when the header is required, a list is
  in force and the upstream is not trusted.\<close>

theorem trusted_network_prefix:
  assumes "px_Enabled cfg \<or> px_Required cfg" "px_TrustedProxies cfg = v4_networks nets"
    "\<forall>(p, n) \<in> set nets. length p = 4 \<and> n \<le> 32"
  shows "\<exists>rt. newProxyProtocolRuntime cfg = Inr rt
    \<and> (\<forall>q port. length q = 4 \<longrightarrow> 0 \<le> port \<longrightarrow> trusts rt (tcpString \<lparr>ta_IP = as16 q, ta_Port = port\<rparr>)
          = (\<exists>(p, n) \<in> set nets. \<forall>i < n. addr_bit p i = addr_bit q i))
    \<and> (\<forall>conn. (\<exists>e. proxy_wrap rt conn = Inl e)
          \<longleftrightarrow> px_Required cfg \<and> (nets \<noteq> [] \<or> px_RestrictTrustedProxies cfg) \<and> \<not> trusts rt (rc_remote conn))"
proof -
  obtain ns where ns: "parse_trusted (v4_networks nets) = Inr ns" "ns = [] \<longleftrightarrow> nets = []"
    "\<And>q. length q = 4 \<Longrightarrow> list_ex (\<lambda>n. net_contains n (as16 q)) ns
          = (\<exists>(p, n) \<in> set nets. \<forall>i < n. addr_bit p i = addr_bit q i)"
    using parse_v4_networks [OF assms(3)] by blast
  with assms(1,2) obtain rt where rt: "newProxyProtocolRuntime cfg = Inr rt" "pr_trusted rt = ns"
    "pr_required rt = px_Required cfg" "pr_hasTrustedList rt = (px_RestrictTrustedProxies cfg \<or> ns \<noteq> [])"
    "pr_enabled rt"
    by (auto simp: newProxyProtocolRuntime_def Let_def)
  then show ?thesis using ns(2)
    by (intro exI [of _ rt]) (auto simp: trusts_v4 ns(3) proxy_wrap_def Let_def split: if_splits)
qed

theorem trusted_network_prefix_witness:
  "\<exists>rt. newProxyProtocolRuntime (sample_proxy\<lparr>px_TrustedProxies := [''10.0.0.0/8'']\<rparr>) = Inr rt
    \<and> trusts rt ''10.1.2.3:5'' \<and> \<not> trusts rt ''11.1.2.3:5''"
proof -
  have t: "[''10.0.0.0/8''] = v4_networks [([10, 0, 0, 0], 8)]"
    "''10.1.2.3:5'' = tcpString \<lparr>ta_IP = as16 [10, 1, 2, 3], ta_Port = 5\<rparr>"
    "''11.1.2.3:5'' = tcpString \<lparr>ta_IP = as16 [11, 1, 2, 3], ta_Port = 5\<rparr>" by code_simp+
  have b: "\<forall>i < 8. addr_bit [10, 0, 0, 0] i = addr_bit [10, 1, 2, 3] i"
    "\<not> (\<forall>i < 8. addr_bit [10, 0, 0, 0] i = addr_bit [11, 1, 2, 3] i)" by code_simp+
  obtain rt where rt: "newProxyProtocolRuntime (sample_proxy\<lparr>px_TrustedProxies := v4_networks [([10, 0, 0, 0], 8)]\<rparr>) = Inr rt"
    "\<And>q port. length q = 4 \<Longrightarrow> 0 \<le> port \<Longrightarrow> trusts rt (tcpString \<lparr>ta_IP = as16 q, ta_Port = port\<rparr>)
          = (\<forall>i < 8. addr_bit [10, 0, 0, 0] i = addr_bit q i)"
    using trusted_network_prefix [of "sample_proxy\<lparr>px_TrustedProxies := v4_networks [([10, 0, 0, 0], 8)]\<rparr>" "[([10, 0, 0, 0], 8)]"]
    by (auto simp: sample_proxy_def)
  show ?thesis unfolding t using rt(1) rt(2) [of "[10, 1, 2, 3]" 5] rt(2) [of "[11, 1, 2, 3]" 5] b by auto
qed

text \<open>C13: A version 2 header for two IPv4 or IPv6 endpoints, with any further fields behind them, is
  read back as these endpoints, over any segmentation of the input, and the reader stops right
  behind the header.\<close>

theorem proxy_headers_read:
  assumes "endpoint_ok len src" "endpoint_ok len dst" "(len, family) \<in> {(4, 0x11), (16, 0x21)}"
    "length tlv < 65000"
    "flat s = v2_header 1 family (v2_body len src dst @ tlv) @ rest"
  shows "\<exists>s'. readProxyProtocolHeader s = (Inr (Some src, Some dst, True), s') \<and> flat s' = rest \<and> serr s' = serr s"
proof -
  have "length (v2_body len src dst) \<le> 36" using assms(1-3)
    by (auto simp: v2_body_def endpoint_bytes_def be16_def endpoint_ok_def as16_def v4InV6Prefix_def)
  then have "length (v2_body len src dst @ tlv) < 65536" using assms(4) by simp
  from readProxyProtocolHeader_v2 [OF assms(5) this] show ?thesis
    using assms(1-3) parse_v2_v4 [of src dst tlv] parse_v2_v6 [of src dst tlv] by auto
qed

theorem proxy_headers_read_witness:
  "\<exists>s'. readProxyProtocolHeader (rc_stream (sample_raw (sample_v2 @ [5])))
    = (Inr (Some sample_client, Some sample_client, True), s') \<and> flat s' = [5]"
  using proxy_headers_read [of 4 sample_client sample_client "0x11" "[]" "rc_stream (sample_raw (sample_v2 @ [5]))" "[5]"]
  by (auto simp: sample_raw_def sample_v2_def flat_def)

text \<open>C14: What becomes of a wrapped connection on its first use, whatever read deadlines were set on
  it before: its error is the one of the header, or of a missing or untrusted one, the bytes
  behind the header are what is left to read, and the last of those deadlines is in force again;
  when the deadline for the header cannot be set that error is returned and nothing is read;
  asking again changes nothing.\<close>

theorem proxy_connection:
  assumes "newProxyProtocolRuntime cfg = Inr rt" "proxy_wrap rt conn = Inr (Inr fresh)" "rc_deadline conn = 0"
    "readProxyProtocolHeader (rc_stream conn) = (res, s')" "pc = set_deadlines ts fresh"
  shows "\<exists>pc' err. ensureHeader now pc = (err, pc') \<and> (\<forall>later. ensureHeader later pc' = (err, pc'))
    \<and> (if rc_setDeadline conn \<noteq> None \<and> 0 \<le> px_ReadHeaderTimeout cfg
       then err = rc_setDeadline conn \<and> pc_raw pc' = pc_raw pc
       else err = header_outcome (px_Required cfg) (\<not> pr_hasTrustedList rt \<or> trusts rt (rc_remote conn)) res
         \<and> rc_stream (pc_raw pc') = s'
         \<and> rc_deadline (pc_raw pc') = (if ts = [] \<or> rc_setDeadline conn \<noteq> None then 0 else last ts))"
proof -
  note fresh = fresh_wrapped [OF assms(2)] and w = wrapped_timeout [OF assms(1,2)]
  obtain err pc' where e: "ensureHeader now pc = (err, pc')" by fastforce
  have pc: "\<not> pc_once pc" "rc_stream (pc_raw pc) = rc_stream conn" "rc_setDeadline (pc_raw pc) = rc_setDeadline conn"
    "pc_required pc = px_Required cfg" "pc_trusted pc = (\<not> pr_hasTrustedList rt \<or> trusts rt (rc_remote conn))"
    "0 < pc_headerTimeout pc \<longleftrightarrow> 0 \<le> px_ReadHeaderTimeout cfg" "pc_readDeadline pc = (if ts = [] then 0 else last ts)"
    "rc_deadline (pc_raw pc) = (if ts = [] \<or> rc_setDeadline conn \<noteq> None then 0 else last ts)"
    using fresh w assms(3,5) by (simp_all add: set_deadlines_fields)
  show ?thesis
  proof (cases "rc_setDeadline conn \<noteq> None \<and> 0 \<le> px_ReadHeaderTimeout cfg")
    case True
    then obtain x where x: "rc_setDeadline (pc_raw pc) = Some x" using pc by auto
    with ensureHeader_no_deadline [OF pc(1) x, of now] pc True e ensureHeader_once [OF e] show ?thesis by auto
  next
    case False
    have "readProxyProtocolHeader (rc_stream (pc_raw pc)) = (res, s')" using assms(4) pc by simp
    moreover have "rc_setDeadline (pc_raw pc) = None \<or> \<not> 0 < pc_headerTimeout pc" using False pc by auto
    ultimately show ?thesis using ensureHeader_outcome [OF pc(1), of res s' now] pc e ensureHeader_once [OF e] False by auto
  qed
qed

theorem proxy_connection_witness:
  "\<exists>rt fresh pc'. newProxyProtocolRuntime sample_proxy = Inr rt \<and> proxy_wrap rt (sample_raw sample_v2) = Inr (Inr fresh)
    \<and> ensureHeader 0 (set_deadlines [3, 7] fresh) = (None, pc') \<and> rc_deadline (pc_raw pc') = 7"
proof -
  obtain rt fresh where w: "newProxyProtocolRuntime sample_proxy = Inr rt" "proxy_wrap rt (sample_raw sample_v2) = Inr (Inr fresh)"
    using sample_wrapped [of sample_v2] by (auto simp: WrapProxyProtocolConn_def bindR_Inr_conv)
  have "\<not> pr_hasTrustedList rt" using w(1) by (auto simp: newProxyProtocolRuntime_def sample_proxy_def Let_def)
  moreover obtain s where r: "readProxyProtocolHeader (rc_stream (sample_raw sample_v2))
      = (Inr (Some sample_client, Some sample_client, True), s)"
    using sample_v2_reads [of "[]"] by auto
  moreover have "rc_deadline (sample_raw sample_v2) = 0" "rc_setDeadline (sample_raw sample_v2) = None"
    by (simp_all add: sample_raw_def)
  ultimately show ?thesis using w proxy_connection [OF w _ r refl, of 0 "[3, 7]"]
    by (auto simp: header_outcome_def)
qed

text \<open>C15: Under every interleaving of accepting, resolving, releasing and shutting down, each
  recorded join is held, being released, released once or replaced, every held join belongs to a
  handler that will still release it, and after Shutdown every served connection is closed or
  about to be.\<close>

theorem server_every_interleaving:
  assumes "server_init cfg x0" "path server_step x0 ls x"
  shows "run_resolved x = run_released x + run_replaced x + map_values (srv_joins (run_server x))
      + map_values (releasing (run_phase x))
    \<and> (\<forall>k j. srv_joins (run_server x) k = Some j \<longrightarrow>
        releases (srv_cfg (run_server x)) \<and> owned (run_phase x) (run_addr x) k)
    \<and> srv_conns (run_server x) \<subseteq> dom (run_phase x)
    \<and> (srv_closed (run_server x) \<longrightarrow> (\<forall>i. run_phase x i = Some Serving \<longrightarrow> i \<in> run_connClosed x \<union> run_toClose x))"
proof -
  have "server_inv x" by (rule server_run.inv_reachable [OF assms])
  then have "ids_inv x" "closing_inv x" "joins_inv x" "count_inv x" by (simp_all add: server_inv_def)
  moreover from this have "srv_closed (run_server x) \<longrightarrow>
      (\<forall>i. run_phase x i = Some Serving \<longrightarrow> i \<in> run_connClosed x \<union> run_toClose x)"
    unfolding closing_inv_def by blast
  ultimately show ?thesis unfolding ids_inv_def joins_inv_def count_inv_def by blast
qed

theorem server_every_interleaving_witness:
  "run_resolved sample_down = run_released sample_down + run_replaced sample_down
      + map_values (srv_joins (run_server sample_down)) + map_values (releasing (run_phase sample_down))
    \<and> 7 \<in> run_connClosed sample_down \<union> run_toClose sample_down"
proof -
  have "run_phase sample_down 7 = Some Serving" "srv_closed (run_server sample_down)"
    by (simp_all add: sample_down_def sample_joined_def sample_served_def)
  with server_every_interleaving [OF sample_server_init sample_server_path] show ?thesis by blast
qed

text \<open>C16: Once handlers only return and clean up they take at most four steps each; when no such step
  is left no join or tracked connection is, every recorded join was released once or replaced,
  and every connection handed to a handler or rejected is closed.\<close>

theorem handlers_terminate:
  assumes "server_init cfg x0" "path server_step x0 ls x" "path server_step x ms y" "list_all cleanup ms"
  shows "length ms \<le> 4 * card (dom (run_phase x))
    \<and> ((\<exists>l z. cleanup l \<and> server_step y l z)
      \<or> run_phase y = Map.empty \<and> srv_joins (run_server y) = Map.empty \<and> srv_conns (run_server y) = {}
        \<and> run_resolved y = run_released y + run_replaced y
        \<and> dom (run_addr y) \<subseteq> set_option (run_accepted y) \<union> run_connClosed y)"
proof -
  have x: "server_inv x" by (rule server_run.inv_reachable [OF assms(1,2)])
  then have y: "server_inv y" by (rule server_run.inv_path [OF assms(3)])
  have "length ms \<le> 4 * card (dom (run_phase x))"
    using cleanup_bounded [OF assms(3) x assms(4)] work_bound [of x] x by (simp add: server_inv_def ids_inv_def)
  then show ?thesis using cleanup_enabled [OF y] server_idle [OF y] by (cases "run_phase y = Map.empty") fastforce+
qed

theorem handlers_terminate_witness:
  "\<exists>l z. cleanup l \<and> server_step sample_down l z"
  using handlers_terminate [OF sample_server_init sample_server_path path.path_Nil]
  by (auto simp: sample_down_def sample_joined_def sample_served_def)

section \<open>Worlds, configuration and versions\<close>

text \<open>C17: A schematic whose palette numbers its states 0 to n - 1 and whose block data holds one
  VarInt per position loads, and the loaded world has at every position of the schematic the
  block of that position, its palette id naming the parsed state.\<close>

theorem schematic_reads_back:
  assumes "0 < W" "0 < H" "0 < L" "set (map snd input) = {0..<int n}" "n < 2147483648"
    "\<forall>p \<in> set (positions W H L). f p < n"
    "data = \<lparr>sg_Version = v, sg_Width = W, sg_Height = H, sg_Length = L, sg_Palette = input,
      sg_BlockData = concat (map (\<lambda>p. writeVarInt (int (f p))) (positions W H L))\<rparr>"
    "length (sg_BlockData data) < 2147483648"
  shows "\<exists>w. buildWorld data opts = Some (Inr w) \<and>
    (\<forall>x y z. in_box W H L (x, y, z) \<longrightarrow> block_at (w_Chunk (memory_world w)) x y z = Some (f (x, y, z))
       \<and> (\<exists>raw. (raw, int (f (x, y, z))) \<in> set input \<and> w_BlockPalette (memory_world w) ! f (x, y, z) = parseBlockState raw))"
  using buildWorld_written [OF assms(1-6), of data opts] assms(7,8) by (simp add: memory_world_def)

theorem schematic_reads_back_witness:
  "\<exists>w. buildWorld \<lparr>sg_Version = 2, sg_Width = 2, sg_Height = 1, sg_Length = 1, sg_Palette = [(''air'', 0), (''stone'', 1)],
      sg_BlockData = [0, 1]\<rparr> \<lparr>sg_WorldID = '''', sg_Dimension = zero_dimension\<rparr> = Some (Inr w)
    \<and> block_at (w_Chunk (memory_world w)) 1 0 0 = Some 1"
proof -
  have d: "concat (map (\<lambda>p. writeVarInt (int (nat (fst p)))) (positions 2 1 1)) = [0, 1]" by code_simp
  have p: "\<forall>p \<in> set (positions 2 1 1). nat (fst p) < 2" by (auto simp: set_positions)
  have i: "set (map snd [(''air'', 0), (''stone'', 1)]) = {0..<int 2}" by auto
  from schematic_reads_back [where W = 2 and H = 1 and L = 1 and n = 2 and f = "\<lambda>p. nat (fst p)"
      and input = "[(''air'', 0), (''stone'', 1)]" and v = 2 and opts = "\<lparr>sg_WorldID = '''', sg_Dimension = zero_dimension\<rparr>",
      OF _ _ _ i _ p refl, unfolded d]
  obtain w where "buildWorld \<lparr>sg_Version = 2, sg_Width = 2, sg_Height = 1, sg_Length = 1, sg_Palette = [(''air'', 0), (''stone'', 1)],
      sg_BlockData = [0, 1]\<rparr> \<lparr>sg_WorldID = '''', sg_Dimension = zero_dimension\<rparr> = Some (Inr w)"
    "\<forall>x y z. in_box 2 1 1 (x, y, z) \<longrightarrow> block_at (w_Chunk (memory_world w)) x y z = Some (nat (fst (x, y, z)))"
    by auto
  then show ?thesis by (intro exI [of _ w]) (simp add: in_box_def)
qed

text \<open>C18: Loading any decoded schematic ends with a world or an error, never with a run-time panic,
  except when the dimensions are positive, no palette id is negative and one is the largest
  int32: the palette length then overflows.\<close>

theorem schematic_panics:
  assumes "\<forall>i \<in> set (map snd (sg_Palette data)). is_int32 i" "length (sg_BlockData data) < 2147483648"
  shows "buildWorld data opts = None \<longleftrightarrow> 0 < sg_Width data \<and> 0 < sg_Height data \<and> 0 < sg_Length data
    \<and> (\<forall>i \<in> set (map snd (sg_Palette data)). 0 \<le> i) \<and> 2147483647 \<in> set (map snd (sg_Palette data))"
  by (rule buildWorld_panics [OF assms])

theorem schematic_panics_witness:
  "\<forall>opts. buildWorld \<lparr>sg_Version = 2, sg_Width = 1, sg_Height = 1, sg_Length = 1, sg_Palette = [(''air'', 2147483647)],
     sg_BlockData = []\<rparr> opts = None"
  by (intro allI, subst schematic_panics) (simp_all add: is_int32_def)

text \<open>C19: A start of the program that succeeds gives a server that serves the configured world: it
  has the configured id, and every player's join resolves to it with the configured spawn,
  unless the spawn names another world, when every join fails.\<close>

theorem started_program_serves:
  assumes "main_start su file = Some (Inr m)"
  shows "\<exists>cfg w. LoadFileConfig (su_readFile su) (su_config su) file = Inr cfg
    \<and> loadWorld su cfg = Some (Inr w) \<and> w_ID (memory_world w) = fc_WorldID cfg
    \<and> (\<forall>pl. server_ResolveJoin (go_server m) pl =
         (if fc_SpawnWorld cfg = fc_WorldID cfg
          then Inr \<lparr>jt_World = Some (memory_world w), jt_Spawn = config_SpawnTarget cfg\<rparr>
          else Inl ErrWorldNotFound, go_server m))"
  by (rule started_serves [OF assms])

theorem started_program_serves_witness:
  "\<exists>m w. main_start (sample_startup empty_config) ''limbgo.json'' = Some (Inr m)
    \<and> w_ID (memory_world w) = fc_WorldID (config_defaults empty_config)
    \<and> (\<forall>pl. server_ResolveJoin (go_server m) pl =
         (if fc_SpawnWorld (config_defaults empty_config) = fc_WorldID (config_defaults empty_config)
          then Inr \<lparr>jt_World = Some (memory_world w), jt_Spawn = config_SpawnTarget (config_defaults empty_config)\<rparr>
          else Inl ErrWorldNotFound, go_server m))"
proof -
  obtain m where "main_start (sample_startup empty_config) ''limbgo.json'' = Some (Inr m)" using sample_starts by blast
  with started_program_serves [OF this] show ?thesis unfolding sample_startup_loads by blast
qed

text \<open>C20: A program started on a configuration that names neither a schematic nor a spawn lets every
  player join, at (0, 65, 0) in adventure mode; the only block that is not air is the bedrock
  below, at (0, 64, 0).\<close>

theorem default_deployment:
  assumes "main_start su file = Some (Inr m)" "su_readFile su file = Inr bs" "su_config su bs = Inr c"
    "fc_Schematic c = ''''" "spawn_unset c"
  shows "\<exists>w spawn. (\<forall>pl. server_ResolveJoin (go_server m) pl = (Inr \<lparr>jt_World = Some w, jt_Spawn = spawn\<rparr>, go_server m))
    \<and> sp_Position spawn = \<lparr>v_X = 0, v_Y = f64_65, v_Z = 0\<rparr> \<and> sp_GameMode spawn = GameModeAdventure
    \<and> map bs_Name (w_BlockPalette w) = [''minecraft:air'', ''minecraft:bedrock'']
    \<and> (\<forall>x y z. block_at (w_Chunk w) x y z =
         (if x div 16 = 0 \<and> y div 16 = 4 \<and> z div 16 = 0 then Some (if (x, y, z) = (0, 64, 0) then 1 else 0) else None))"
  by (rule default_deployed [OF assms])

theorem default_deployment_witness:
  "\<exists>m w spawn. main_start (sample_startup empty_config) ''limbgo.json'' = Some (Inr m)
    \<and> (\<forall>pl. server_ResolveJoin (go_server m) pl = (Inr \<lparr>jt_World = Some w, jt_Spawn = spawn\<rparr>, go_server m))
    \<and> block_at (w_Chunk w) 0 64 0 = Some 1 \<and> block_at (w_Chunk w) 0 65 0 = Some 0"
proof -
  obtain m where m: "main_start (sample_startup empty_config) ''limbgo.json'' = Some (Inr m)" using sample_starts by blast
  have r: "su_readFile (sample_startup empty_config) ''limbgo.json'' = Inr (bytes_of ''{}'')"
    "su_config (sample_startup empty_config) (bytes_of ''{}'') = Inr empty_config" by (simp_all add: sample_startup_def)
  show ?thesis using default_deployment [OF m r empty_config_spawn] m by fastforce
qed



text \<open>C22: With the built-in table, the router serves the protocol of every known release except
  1.7.10 by the flow of its era, with the configuration of that very protocol: 1.8, up to
  1.12.1, 1.12.2, 1.13 to 1.15.2, 1.16 to 1.17.1, and the modern flows with the configuration
  phase from 1.20.2 on.\<close>

theorem every_release_has_a_flow:
  assumes "rt_ModernProtocols r = None" "p \<in> set versions_Protocols - {5}"
  shows "\<exists>pp modern. login_config r p = Inr (pp, modern) \<and>
    (if p = 47 then serve_flow E ou r sv p modern pl = serveProtocol47 E sv pl
     else if p = 340 then serve_flow E ou r sv p modern pl = serveProtocol340 E sv pl
     else if p < 340 then \<exists>cfg. lc_protocol cfg = p \<and>
       serve_flow E ou r sv p modern pl = serveLegacyProtocol E sv pl cfg
     else if p \<le> 578 then \<exists>cfg. fc_protocol cfg = p \<and>
       serve_flow E ou r sv p modern pl = serveFlatProtocol E sv pl cfg
     else if p \<le> 756 then \<exists>cfg. cc_protocol cfg = p \<and> serve_flow E ou r sv p modern pl
       = bindE (liftE (router_registryData ou r)) (serveCodecProtocol E sv pl cfg)
     else \<exists>cfg. mc_protocol cfg = p \<and> serve_flow E ou r sv p modern pl
       = bindE (liftE (router_registryData ou r)) (\<lambda>rd.
           if p \<le> 763 then serveModernPreConfigurationProtocol E sv pl cfg rd else serveModernProtocol E sv pl cfg rd))"
proof -
  obtain configs where "router_modernProtocols r = Inr configs" by (rule default_table [OF assms(1)])
  then obtain pp modern where lc: "login_config r p = Inr (pp, modern)"
    by (cases "configFor configs p"; cases "p = 47 \<or> p = 340") (auto simp: login_config_def protocol47_def protocol340_def)
  then have f: "serve_flow E ou r sv p modern pl = flow_of E ou r sv p pl" by (simp add: flow_of_def result_simps)
  note flow = flow_of_default [OF assms(1), of p E ou sv pl]
  consider "p = 47" | "p = 340" | "p \<in> legacy_protocols" | "p \<in> flat_protocols" | "p \<in> codec_protocols" | "p \<in> {757..775}"
    using assms(2) served_protocols [of p] by blast
  then show ?thesis
  proof cases
    case 3
    with flow(3) flow_ranges(1) [OF 3] show ?thesis by (intro exI [of _ pp] exI [of _ modern]) (simp add: lc f)
  next
    case 4
    with flow(4) flow_ranges(2) [OF 4] show ?thesis by (intro exI [of _ pp] exI [of _ modern]) (simp add: lc f)
  next
    case 5
    with flow(5) flow_ranges(3) [OF 5] show ?thesis by (intro exI [of _ pp] exI [of _ modern]) (simp add: lc f)
  next
    case 6
    with flow(6) show ?thesis by (intro exI [of _ pp] exI [of _ modern]) (simp add: lc f)
  qed (use lc f flow(1,2) in auto)
qed

theorem every_release_has_a_flow_witness:
  "\<exists>pp modern cfg. login_config (sample_router\<lparr>rt_ModernProtocols := None\<rparr>) 775 = Inr (pp, modern) \<and> mc_protocol cfg = 775
    \<and> serve_flow sample_env sample_outside (sample_router\<lparr>rt_ModernProtocols := None\<rparr>) sample_services 775 modern sample_player
      = bindE (liftE (router_registryData sample_outside (sample_router\<lparr>rt_ModernProtocols := None\<rparr>)))
          (serveModernProtocol sample_env sample_services sample_player cfg)"
proof -
  have "775 \<in> set versions_Protocols - {5}" by (simp add: release_protocols)
  from every_release_has_a_flow [OF _ this, of "sample_router\<lparr>rt_ModernProtocols := None\<rparr>" sample_env sample_outside
      sample_services sample_player] show ?thesis by auto
qed

section \<open>Texts and dialogs\<close>

text \<open>C23: Parsing MiniMessage ends for every input, however texts are nested in tag arguments: Parse
  satisfies the recursion of the code without fuel, and any fuel above the number of opening
  brackets gives its result.\<close>

theorem minimessage_total:
  "mm_Parse E s = parse_with E (mm_Parse E) s \<and> parse_fuel (Suc (opens s) + n) E s = mm_Parse E s
    \<and> snd (parseNodes E [] [] s) = []"
  using mm_Parse_unfold [of E s] parse_fuel_enough [of s "Suc (opens s) + n" "Suc (opens s)" E] parseNodes_all_read [of E "[]" s]
  by (simp add: mm_Parse_def)

text \<open>C24: Text with every bracket and backslash escaped is parsed back to exactly that text, without
  style, for any valid UTF-8.\<close>

theorem minimessage_escape_reads_back:
  assumes "valid_utf8 s"
  shows "mm_Parse E (mm_escape s) = Some (MText s no_style [])"
  by (rule mm_Parse_escape [OF assms])

theorem minimessage_escape_reads_back_witness:
  "mm_Parse sample_mm (mm_escape ''a<b'') = Some (MText ''a<b'' no_style [])"
  by (rule minimessage_escape_reads_back) (simp add: valid_utf8.simps decodeRune_ascii RuneError_def)

text \<open>C25: An element with a plain name around escaped text: a colour or a decoration styles exactly
  that text; with any other name only the opening tag is shown and the text inside is lost.\<close>

theorem minimessage_element:
  assumes "simple_name n" "n \<notin> set mm_keywords" "valid_utf8 s" "s \<noteq> []"
  shows "mm_Parse E (element n (mm_escape s)) = Some (case parseColor E n of
      Some c \<Rightarrow> MText s (set_Color c no_style) []
    | None \<Rightarrow> (case decoration n of Some d \<Rightarrow> MText s (SetDecoration d True no_style) []
               | None \<Rightarrow> MText (''<'' @ n @ ''>'') no_style []))"
  by (rule mm_Parse_element [OF assms])

theorem minimessage_element_witness:
  "mm_Parse sample_mm (element ''b'' (mm_escape ''abc'')) = Some (case parseColor sample_mm ''b'' of
      Some c \<Rightarrow> MText ''abc'' (set_Color c no_style) []
    | None \<Rightarrow> (case decoration ''b'' of Some d \<Rightarrow> MText ''abc'' (SetDecoration d True no_style) []
               | None \<Rightarrow> MText (''<'' @ ''b'' @ ''>'') no_style []))"
  by (rule minimessage_element)
    (simp_all add: simple_name_def simple_char_def mm_keywords_def selfClosingNames_def sample_abc)

text \<open>C26: A gradient over a text shows every rune once, in order, the first in the first colour and
  the last in the last, and leaves the index of an enclosing transform alone.\<close>

theorem gradient_text:
  assumes "tagBase (tg_name g) = ''gradient''" "2 \<le> length (parseColors E (tg_args g))"
    "length (parseColors E (tg_args g)) < 2 ^ 53" "valid_utf8 s" "1 < length (runes s)" "length (runes s) < 2 ^ 53"
    "rgba_ok E (hd (parseColors E (tg_args g)))"
  shows "\<exists>out. renderTag E P g [TextNode s] st tx i = Some (out, i) \<and> length out = length (runes s)
    \<and> concat (map content_of out) = s
    \<and> st_Color (style_of (hd out)) = Some (rgb_of E (hd (parseColors E (tg_args g))))
    \<and> st_Color (style_of (last out)) = Some (last (parseColors E (tg_args g)))"
  using gradient_rendered [OF assms] .

theorem gradient_text_witness:
  "\<exists>out. renderTag sample_mm (\<lambda>_. None) sample_gradient [TextNode ''abc''] no_style None 0 = Some (out, 0)
    \<and> length out = length (runes ''abc'') \<and> concat (map content_of out) = ''abc''
    \<and> st_Color (style_of (hd out)) = Some (rgb_of sample_mm (hd (parseColors sample_mm (tg_args sample_gradient))))
    \<and> st_Color (style_of (last out)) = Some (last (parseColors sample_mm (tg_args sample_gradient)))"
  by (rule gradient_text) (simp_all add: sample_gradient_def sample_abc sample_rgba tagBase_def)

text \<open>C27: A notice built from parts within range is sent as one show_dialog packet whose NBT a client
  decodes to exactly its fields: the type, the action if there is one, and the shared fields
  that are set.\<close>

theorem dialog_read_by_client:
  assumes "clientID E ad ''show_dialog'' = Some i" "common_ok S c" "button_ok S b"
    "raw_MarshalJSON E (Some (dialog_Notice c b)) = Inr bs"
    "ev_jsonDecode E bs = Inr (value_json S (DRaw (Some (dialog_Notice c b))))"
    "nbt_depth (NCompound (client_fields S (dialog_Notice c b))) \<le> fuel"
  shows "(\<exists>out. sends (writeShowDialog E ad (Some (raw_MarshalJSON E (Some (dialog_Notice c b))))) [mk_packet i (writeVarInt 0 @ out)]
      \<and> d_anonymous fuel out = Some (NCompound (client_fields S (dialog_Notice c b)), []))
    \<and> map_of (dialog_Notice c b) k =
      (if k = ''type'' then Some (DStr ''minecraft:notice'')
       else if k = ''action'' then map_option (\<lambda>r. DRaw (Some r)) (button_raw b)
       else common_field c k)"
  using dialog_sent [OF assms(1,4,5) Notice_ok [OF assms(2,3)] assms(6)] Notice_fields by blast

theorem dialog_read_by_client_witness:
  "(\<exists>out. sends (writeShowDialog dialog_env (newPlayAdapter 775) (Some (raw_MarshalJSON dialog_env (Some (dialog_Notice sample_common no_button)))))
        [mk_packet 140 (writeVarInt 0 @ out)]
      \<and> d_anonymous 9 out = Some (NCompound (client_fields sample_spec (dialog_Notice sample_common no_button)), []))
    \<and> map_of (dialog_Notice sample_common no_button) ''title'' =
      (if ''title'' = ''type'' then Some (DStr ''minecraft:notice'')
       else if ''title'' = ''action'' then map_option (\<lambda>r. DRaw (Some r)) (button_raw no_button)
       else common_field sample_common ''title'')"
  by (rule dialog_read_by_client [where bs = "bytes_of ''{}''"]) (use dialog_env_facts in simp_all)

section \<open>Joins, data and wire formats\<close>

text \<open>C28: For a client that acknowledges the login and, after any number of ignorable packets,
  finishes the configuration, the modern flow sends exactly success, registries, tags,
  finish_configuration, login, position, time and view packets and the chunk batch, in this
  order, consumes exactly the client packets read, and hands the connection to the play loop.\<close>

theorem modern_join_wire:
  fixes c :: conn
  assumes ids: "ids_modern E (packetProtocol cfg)" and live: "live c"
    and join: "resolveJoin sv pl = Inr (wrld, spawn)" and chunk: "spawn_chunk wrld spawn = Inr chnk"
    and uuid: "loginSuccessModern_data pl cfg = Inr success"
    and regs: "registry_packets E wrld cfg rd = Some regs"
    and ack: "packet_ok ack" "serverID E cfg StateLogin ''login_acknowledged'' = Some (pkt_id ack)"
    and fin: "packet_ok fin" "serverID E cfg StateConfiguration ''finish_configuration'' = Some (pkt_id fin)"
    and skipped: "\<forall>p \<in> set ps. packet_ok p \<and> pkt_id p \<noteq> pkt_id fin
      \<and> isIgnorableConfigurationServerboundPacket E cfg (pkt_id p)"
    and input: "flat (c_reader c) = packetFrame ack @ concat (map packetFrame ps) @ packetFrame fin @ rest"
  shows "\<exists>n. serveModernProtocol E sv pl cfg rd c = serve_play E sv pl (newModernPlayAdapter cfg)
      (put_out (map packetFrame (join_modern E wrld spawn cfg rd regs success chnk)) (skip n c))
    \<and> flat (c_reader (skip n c)) = rest"
  by (rule serveModernProtocol_sends [OF assms])

theorem modern_join_wire_witness:
  "\<exists>n ps rest. serveModernProtocol sample_env sample_services sample_player sample_cfg sample_rd
      (sample_conn (packetFrame (mk_packet 3 []) @ packetFrame (mk_packet 3 [])))
    = serve_play sample_env sample_services sample_player (newModernPlayAdapter sample_cfg)
      (put_out ps (skip n (sample_conn (packetFrame (mk_packet 3 []) @ packetFrame (mk_packet 3 [])))))"
proof -
  obtain chnk success regs where "spawn_chunk sample_world (defaultSpawn ''w'') = Inr chnk"
    "loginSuccessModern_data sample_player sample_cfg = Inr success"
    "registry_packets sample_env sample_world sample_cfg sample_rd = Some regs"
    using sample_chunk sample_success sample_registries
    by (auto dest!: not_isl_obtain simp: Option.is_none_def)
  from modern_join_wire [OF sample_modern_ids live_sample sample_join this, of "mk_packet 3 []" "mk_packet 3 []" "[]" _ "[]"]
  show ?thesis by (simp add: sample_server_ids) blast
qed

text \<open>C29: The 1.8 flow sends success, login, spawn position, position and time, then the map chunk of
  the spawn chunk and goes on to play; without a spawn chunk it stops with that error after
  exactly those packets.\<close>

theorem serveProtocol47_wire:
  assumes ids: "ids47 E protocol47" and live: "live c" and join: "resolveJoin sv pl = Inr (wrld, spawn)"
  shows "serveProtocol47 E sv pl c = (case spawn_chunk wrld spawn of
      Inl e \<Rightarrow> (Inl e, put_out (map packetFrame (join47 E pl wrld spawn)) c)
    | Inr chnk \<Rightarrow> seqE [newBufReader, serve_play E sv pl (newPlayAdapter protocol47)]
        (put_out (map packetFrame (join47 E pl wrld spawn @
           [named E protocol47 StatePlay ''map_chunk'' (mapChunk47_data E wrld chnk)])) c))"
  using serveProtocol47_sends [OF assms] serveProtocol47_no_chunk [OF assms]
  by (simp split: sum.split)

theorem serveProtocol47_wire_witness:
  "c_out (snd (serveProtocol47 sample_env (sample_services\<lparr>sv_Events := None\<rparr>) sample_player (sample_conn []))) \<noteq> []"
  using serveProtocol47_wire [OF sample_ids47 live_sample, of "sample_services\<lparr>sv_Events := None\<rparr>" sample_player sample_world "defaultSpawn ''w''" "[]"]
  by (simp add: resolveJoin_def sample_services_def defaultSpawn_def join47_def newBufReader_def
     serve_play_def servePlayEvents_def new_session_def split: sum.splits)

text \<open>C30: Waiting for the end of the configuration skips any number of ignorable packets, succeeds on
  finish_configuration and names the id of any other packet in its error, having consumed
  exactly the packets read.\<close>

theorem finish_configuration_wait:
  assumes "\<forall>p \<in> set ps. packet_ok p \<and> pkt_id p \<noteq> i \<and> isIgnorableConfigurationServerboundPacket E cfg (pkt_id p)"
    "packet_ok q" "pkt_id q = i \<or> \<not> isIgnorableConfigurationServerboundPacket E cfg (pkt_id q)"
    "serverID E cfg StateConfiguration ''finish_configuration'' = Some i"
    "flat (c_reader c) = concat (map packetFrame ps) @ packetFrame q @ rest"
  shows "waitForFinishConfigurationModern E cfg c =
    (if pkt_id q = i then Inr ()
     else Inl (Errorf ''expected finish_configuration packet %d, got %d'' [FD i, FD (pkt_id q)]),
     skip (length (concat (map packetFrame ps) @ packetFrame q)) c)"
  by (simp only: waitForFinishConfigurationModern_def assms(4) option.case wait_finish_frames [OF assms(1,2,3,5)])

theorem finish_configuration_wait_witness:
  "fst (waitForFinishConfigurationModern sample_env sample_cfg
     (sample_conn (packetFrame (mk_packet 0 []) @ packetFrame (mk_packet 3 [])))) = Inr ()"
  using finish_configuration_wait [of "[mk_packet 0 []]" 3 sample_env sample_cfg "mk_packet 3 []"
    "sample_conn (packetFrame (mk_packet 0 []) @ packetFrame (mk_packet 3 []))" "[]"]
  by (simp add: sample_server_ids sample_ignorable)



text \<open>C32: With more than 16 distinct states in a section the fixed 4-bit indices alias: what the
  client decodes differs from the section (a bug of the writer).\<close>

theorem seventeen_states_alias:
  assumes "flat s = writeBlockStates766 blocks palette (Some sec) p fx @ rest"
    "\<forall>x \<in> set (buildLocalPaletteModern blocks palette (Some sec) p). x < 2 ^ 31"
    "length (buildLocalPaletteModern blocks palette (Some sec) p) < 2 ^ 31"
    "length (cs_BlockStateIDs sec) \<le> 4096"
    "16 < length (buildLocalPaletteModern blocks palette (Some sec) p)"
  shows "\<exists>pl s'. readPaletted fx s = Inr (pl, s')
    \<and> decodeBlocks pl \<noteq> map int (section_states blocks p palette (Some sec))"
proof -
  let ?local = "buildLocalPaletteModern blocks palette (Some sec) p"
  let ?longs = "packSectionPaletteIndicesModern blocks palette (Some sec) (index_by_state ?local) p"
  obtain i where i: "i < 4096" "?local ! nibble ?longs i \<noteq> section_state blocks p palette (Some sec) i"
    using pack_aliases [OF refl assms(4,5)] by blast
  have "nibble ?longs i < 16" by (simp add: nibble_pack [OF i(1)])
  with assms(5) have "map int ?local ! nibble ?longs i = int (?local ! nibble ?longs i)" by simp
  with i have "decodeBlocks (map int ?local, map sint ?longs) ! i
      \<noteq> map int (section_states blocks p palette (Some sec)) ! i"
    unfolding decodeBlocks_write by (simp add: section_states_def)
  with readPaletted_write [OF assms(1,2,3)] show ?thesis by metis
qed

theorem seventeen_states_alias_witness:
  "\<exists>pl s'. readPaletted False (bytes_reader (writeBlockStates766 sample_blocks sample_palette (Some sample_section) 340 False)) = Inr (pl, s')
    \<and> decodeBlocks pl \<noteq> map int (section_states sample_blocks 340 sample_palette (Some sample_section))"
proof (rule seventeen_states_alias)
  show "flat (bytes_reader (writeBlockStates766 sample_blocks sample_palette (Some sample_section) 340 False))
      = writeBlockStates766 sample_blocks sample_palette (Some sample_section) 340 False @ []" by simp
qed (simp_all add: sample_local sample_section_length)



text \<open>C34: Whatever sequence of nbtWriter calls builds an anonymous compound (all scalar methods,
  string lists, long arrays, nested compounds), within the sizes NBT can carry, decoding the
  bytes gives the compound of those fields and leaves what follows.\<close>

theorem nbt_reads_back:
  assumes "wf_nbt (NCompound (map call_field cs))" "nbt_depth (NCompound (map call_field cs)) \<le> fuel"
  shows "d_anonymous fuel (w_anonymousCompound (concat (map run_call cs)) @ rest)
    = Some (NCompound (map call_field cs), rest)"
  unfolding run_calls_anonymous by (rule d_anonymous_anonymous [OF assms])

theorem nbt_reads_back_witness:
  "d_anonymous 2 (w_anonymousCompound (w_int ''a'' 5 @ w_compound ''b'' []) @ [7])
    = Some (NCompound [(''a'', NInt 5), (''b'', NCompound [])], [7])"
  using nbt_reads_back [of "[WInt ''a'' 5, WCompound ''b'' []]" 2 "[7]"] by simp

text \<open>C35: Loading an archive with one exported file per protocol (base64 values, file named after the
  protocol) gives every protocol exactly its own registries, tags and dimension codec.\<close>

theorem registry_archive_loads:
  assumes "distinct (map fst xs)" "xs \<noteq> []"
    "\<forall>(p, x) \<in> set xs. is_int32 p \<and> unmarshal (raw p) = Inr (encode_protocol p x)"
    "unzip archive = Inr (map (\<lambda>(p, x). zip_entry p (raw p)) xs)"
    "(p, rs, ts, cdc) \<in> set xs"
  shows "\<exists>d. loadZipBytes unzip unmarshal archive = Inr d \<and> registries d p = nonempty rs
    \<and> tags d p = nonempty ts \<and> dimensionCodec d p = nonempty cdc"
  using assms by (rule loadZipBytes_archive)

theorem registry_archive_loads_witness:
  "\<exists>d. loadZipBytes (\<lambda>_. Inr [zip_entry 765 []]) (\<lambda>_. Inr (encode_protocol 765 ([], [], [1, 2]))) [] = Inr d
    \<and> dimensionCodec d 765 = Some [1, 2]"
  using registry_archive_loads [of "[(765, [], [], [1, 2])]" "\<lambda>_. Inr (encode_protocol 765 ([], [], [1, 2]))" "\<lambda>_. []"
    "\<lambda>_. Inr [zip_entry 765 []]" "[]" 765 "[]" "[]" "[1, 2]"]
  by (auto simp: is_int32_def nonempty_def)

text \<open>C36: Every int32 written as a VarInt is read back from any stream, however it is segmented,
  consuming exactly VarIntLen bytes, which is the written length and between 1 and 5.\<close>

theorem varint_roundtrip:
  assumes "is_int32 v" "flat s = writeVarInt v @ rest"
  shows "readVarInt s = Inr (v, advance (varIntLen v) s) \<and> length (writeVarInt v) = varIntLen v
    \<and> 1 \<le> varIntLen v \<and> varIntLen v \<le> 5"
  using readVarInt_writeVarInt [OF assms] writeVarInt_length_bounds by (simp add: varIntLen_writeVarInt)

theorem varint_roundtrip_witness:
  "fst (projr (readVarInt (bytes_reader (writeVarInt (- 1) @ [9])))) = - 1"
  using varint_roundtrip [of "- 1" "bytes_reader (writeVarInt (- 1) @ [9])" "[9]"] by (simp add: is_int32_def)

text \<open>C37: Packets written one after the other are read back in order and complete, however the bytes
  are split between buffer and network segments.\<close>

theorem packet_stream_roundtrip:
  assumes "\<forall>p \<in> set ps. packet_ok p" "buf @ concat segs = concat (map packetFrame ps) @ rest"
  shows "\<exists>s. read_n (\<lambda>r. readPacket r 0) (length ps) (Stream buf segs e) = Inr (ps, s) \<and> flat s = rest"
proof -
  let ?s = "Stream buf segs e"
  have "flat ?s = concat (map packetFrame ps) @ rest" using assms(2) by (simp add: flat_def)
  then show ?thesis using wire_packet.read_n_enc [OF assms(1), of ?s rest] by simp
qed

theorem packet_stream_roundtrip_witness:
  "\<exists>s. read_n (\<lambda>r. readPacket r 0) 2 (Stream [] [[1], [0, 2, 3], [7, 9]] EOF) = Inr ([mk_packet 0 [], mk_packet 3 [7]], s)
    \<and> flat s = [9]"
  using packet_stream_roundtrip [of "[mk_packet 0 [], mk_packet 3 [7]]" "[]" "[[1], [0, 2, 3], [7, 9]]" "[9]" EOF]
  by (simp add: sample_frames numeral_2_eq_2 del: read_n.simps)

text \<open>C38: After the switch to encryption the server reads what the client encrypted, in the segments
  it arrives in, and what the server writes from then on is the CFB8 ciphertext of it under the
  shared secret (every byte mixed with the encrypted register of the bytes before it), which the
  client decrypts to the same bytes with one decrypter called on any pieces the ciphertext is
  cut into.\<close>

theorem encrypted_connection:
  assumes "newEncryptedConn X secret c = Inr c'" "lx_cipher X secret = Inr block" "secret \<noteq> []"
    "\<not> c_closed c" "c_script c = []"
    "concat (ssegs (c_reader c)) = concat (cfb8.encr_all (newCFB8 block secret True) received)"
    "wire = concat (drop (length (c_out c)) (c_out (snd (seqE (map connWrite sent) c'))))" "concat cuts = wire"
  shows "flat (c_reader c') = concat received
    \<and> map length (ssegs (c_reader c')) = map length (ssegs (c_reader c))
    \<and> length wire = length (concat sent)
    \<and> (\<forall>i < length wire. wire ! i = concat sent ! i XOR hd (block (take (length secret) (drop i (secret @ wire)))))
    \<and> concat (decrypt_segs (newCFB8 block secret False) cuts) = concat sent"
proof -
  let ?k = "newCFB8 block secret True"
  have c': "\<not> c_closed c'" "c_script c' = []" "c_enc c' = Some ?k" "c_out c' = c_out c"
    "ssegs (c_reader c') = decrypt_segs (newCFB8 block secret False) (ssegs (c_reader c))"
    using assms(1,2,4,5) by (auto simp: newEncryptedConn_def)
  obtain k' where w: "seqE (map connWrite sent) c'
      = (Inr (), c'\<lparr>c_enc := Some k', c_out := c_out c' @ cfb8.encr_all ?k sent\<rparr>)"
    using encrypted_writes [OF c'(1-3)] by blast
  then have wire: "wire = concat (cfb8.encr_all ?k sent)" "wire = fst (xorKeyStream ?k (concat sent))"
    using assms(7) c'(4) by (simp_all add: encr_all_concat)
  have "wire ! i = concat sent ! i XOR hd (block (take (length secret) (drop i (secret @ wire))))" if "i < length wire" for i
    using cfb8_nth [of ?k i "concat sent"] assms(3) that wire(2) by (simp add: newCFB8_def)
  moreover have "length wire = length (concat sent)" by (simp add: wire(2))
  moreover have "concat (decrypt_segs (newCFB8 block secret False) cuts) = concat sent"
    by (rule decrypt_segs_cuts) (simp only: assms(8) wire(1))
  moreover have "map length (ssegs (c_reader c')) = map length (ssegs (c_reader c))" by (simp only: c'(5) length_decrypt_segs)
  ultimately show ?thesis using newEncryptedConn_reads [OF assms(2,1,6)] by blast
qed

theorem encrypted_connection_witness:
  "\<exists>c'. newEncryptedConn sample_crypto [1, 2, 3] (sample_conn [6, 6]) = Inr c' \<and> flat (c_reader c') = [7, 4]
    \<and> concat (decrypt_segs (newCFB8 (\<lambda>iv. iv) [1, 2, 3] False)
        (map (\<lambda>b. [b]) (concat (c_out (snd (seqE (map connWrite [[9], [8, 7]]) c'))))))= [9, 8, 7]"
proof -
  let ?c = "sample_conn [6, 6]"
  have l: "lx_cipher sample_crypto [1, 2, 3] = Inr (\<lambda>iv. iv)" by (simp add: sample_crypto_def)
  then obtain c' where n: "newEncryptedConn sample_crypto [1, 2, 3] ?c = Inr c'" by (simp add: newEncryptedConn_def)
  have d: "concat (ssegs (c_reader ?c)) = concat (cfb8.encr_all (newCFB8 (\<lambda>iv. iv) [1, 2, 3] True) [[7], [4]])"
    unfolding encr_all_concat by code_simp
  have o': "c_out ?c = []" "\<not> c_closed ?c" "c_script ?c = []" by (simp_all add: sample_conn_def)
  have m: "concat (map (\<lambda>b. [b]) bs) = bs" for bs :: "byte list" by (induction bs) simp_all
  let ?sent = "[[9], [8, 7]] :: byte list list"
  have "flat (c_reader c') = concat [[7], [4]] \<and> concat (decrypt_segs (newCFB8 (\<lambda>iv. iv) [1, 2, 3] False)
      (map (\<lambda>b. [b]) (concat (drop (length (c_out ?c)) (c_out (snd (seqE (map connWrite ?sent) c'))))))) = concat ?sent"
    using encrypted_connection [OF n l _ o'(2,3) d refl m, of ?sent] by blast
  with n show ?thesis by (simp add: o' del: seqE.simps)
qed

text \<open>C39: On requests in time order the limiter decides exactly as the specification that never
  evicts an entry: the clean-up of the bounded map changes no decision.\<close>

theorem limiter_refines_spec:
  assumes "sorted (t # map snd rs)"
  shows "fst (allow_run (newRateLimiter cfg) rs)
    = spec_run (rl_requests (newRateLimiter cfg)) (rl_window (newRateLimiter cfg)) (\<lambda>_. \<lparr>rl_count = 0, rl_reset = 0\<rparr>) rs"
proof (rule allow_run_spec [OF limiter_inv_new _ assms])
  show "agree t (entry_of (rl_entries (newRateLimiter cfg))) (\<lambda>_. \<lparr>rl_count = 0, rl_reset = 0\<rparr>)"
    by (simp add: agree_def newRateLimiter_def entry_of_def)
qed

theorem limiter_refines_spec_witness:
  "fst (allow_run (newRateLimiter \<lparr>cfg_requests = 1, cfg_window = 10\<rparr>) [(''a'', 1), (''a'', 5), (''a'', 11)])
    = [True, False, True]"
  using limiter_refines_spec [of 0 "[(''a'', 1), (''a'', 5), (''a'', 11)]" "\<lparr>cfg_requests = 1, cfg_window = 10\<rparr>"]
  by (simp add: newRateLimiter_def spec_allow_def current_entry_def)

text \<open>C40: The embedded modern protocol table loads, has exactly the protocols 757 to 775, each with
  resolved aliases and a known UUID mode, and none of them is also served by the legacy, flat or
  codec flows.\<close>

theorem modern_table_loads:
  "\<exists>configs. load_modern_records modern_records [] = Inr configs
    \<and> distinct (supportedProtocols configs) \<and> set (supportedProtocols configs) = {757..775}
    \<and> (\<forall>p. case configFor configs p of
        None \<Rightarrow> \<not> (757 \<le> p \<and> p \<le> 775)
      | Some cfg \<Rightarrow> 757 \<le> p \<and> p \<le> 775 \<and> modern_ok p cfg \<and> legacyProtocolConfigFor p = None
          \<and> flatProtocolConfigFor p = None \<and> codecProtocolConfigFor p = None)"
proof -
  obtain configs where c: "load_modern_records modern_records [] = Inr configs"
    using modern_records_load by blast
  have d: "set (supportedProtocols configs) = {757..775}"
    using load_modern_records_dom [OF c] unfolding modern_keys_set by (simp add: supportedProtocols_def)
  have "case configFor configs p of None \<Rightarrow> \<not> (757 \<le> p \<and> p \<le> 775)
      | Some cfg \<Rightarrow> 757 \<le> p \<and> p \<le> 775 \<and> modern_ok p cfg \<and> legacyProtocolConfigFor p = None
          \<and> flatProtocolConfigFor p = None \<and> codecProtocolConfigFor p = None" for p
  proof (cases "configFor configs p")
    case None
    then have "p \<notin> {757..775}" unfolding configFor_None_iff d .
    then show ?thesis using None by simp
  next
    case (Some cfg)
    then have "\<not> configFor configs p = None" by simp
    then have "757 \<le> p" "p \<le> 775" unfolding configFor_None_iff d by simp_all
    moreover have "modern_ok p cfg"
      using load_modern_records_ok [OF c _ Some] by (simp add: configFor_def)
    ultimately show ?thesis
      using Some by (simp add: legacyProtocolConfigFor_def flatProtocolConfigFor_def codecProtocolConfigFor_def)
  qed
  moreover have "distinct (supportedProtocols configs)"
    using load_modern_records_distinct [OF c] by (simp add: supportedProtocols_def)
  ultimately show ?thesis using c d by blast
qed

section \<open>Further results\<close>

text \<open>The server id sent to the session server is the SHA-1 digest of server id, secret and public key
  read as a signed big-endian number and printed in hexadecimal, as vanilla clients compute it.\<close>

theorem session_server_id:
  assumes "sha1 (bytes_of sid @ secret @ key) = digest" "digest \<noteq> []"
  shows "hexInt (minecraftSessionServerID sha1 sid secret key)
    = (let v = bigSetBytes digest; m = 256 ^ length digest in if m \<le> 2 * v then v - m else v)
    \<and> 0 \<le> bigSetBytes digest \<and> bigSetBytes digest < 256 ^ length digest"
proof -
  obtain b bs where d: "digest = b # bs" using assms(2) by (cases digest) auto
  show ?thesis
    using minecraftSessionServerID_signed [of sha1 sid secret key b bs] bigSetBytes_bounds [of digest] assms(1) d by simp
qed

theorem session_server_id_witness:
  "hexInt (minecraftSessionServerID (\<lambda>_. [0xFF, 0xFE]) ''x'' [] []) = - 2"
  using session_server_id [of "\<lambda>_. [0xFF, 0xFE]" "''x''" "[]" "[]" "[0xFF, 0xFE]"] by (simp add: bigSetBytes_def)

text \<open>The list of supported protocols in the disconnect text names ranges that are separated by gaps
  and cover exactly the protocols given.\<close>

theorem protocol_ranges_cover:
  assumes "sorted ps" "\<forall>p \<in> set ps. is_int32 p"
  shows "formatProtocolRanges ps = joinStrings '', '' (map (\<lambda>(a, b). formatProtocolRange a b) (protocol_ranges ps))
    \<and> separated (protocol_ranges ps) \<and> (\<Union>(a, b) \<in> set (protocol_ranges ps). {a..b}) = set ps"
proof (cases ps)
  case Nil
  then show ?thesis by (simp add: formatProtocolRanges_def protocol_ranges_def)
next
  case (Cons p qs)
  then have s: "sorted (p # qs)" "\<forall>x \<in> set (p # qs). is_int32 x" using assms by auto
  show ?thesis
    using format_loop_ranges [OF s, of p] ranges_loop_separated [OF order_refl s(1)] ranges_loop_cover [OF order_refl s(1)] Cons
    by (simp add: formatProtocolRanges_def protocol_ranges_def)
qed

theorem protocol_ranges_cover_witness:
  "formatProtocolRanges [47, 340, 757, 758] = ''47, 340, 757-758''"
proof -
  have "joinStrings '', '' (map (\<lambda>(a, b). formatProtocolRange a b) (protocol_ranges [47, 340, 757, 758]))
      = ''47, 340, 757-758''" by code_simp
  then show ?thesis using protocol_ranges_cover [of "[47, 340, 757, 758]"] by (simp add: is_int32_def)
qed

text \<open>A version 1 line within the length limit, with its addresses in any notation ParseIP accepts, is
  read back as its two endpoints, and the reader stops right behind the line.\<close>

theorem proxy_line_read:
  assumes "family \<in> {''TCP4'', ''TCP6''}" "parseIP h1 = Some a1" "parseIP h2 = Some a2"
    "0 \<le> p1" "p1 < 65536" "0 \<le> p2" "p2 < 65536" "length (v1_endpoints family h1 h2 p1 p2) \<le> 107"
    "flat s = bytes_of (v1_endpoints family h1 h2 p1 p2) @ rest"
  shows "\<exists>s'. readProxyProtocolHeader s
    = (Inr (Some \<lparr>ta_IP = a1, ta_Port = p1\<rparr>, Some \<lparr>ta_IP = a2, ta_Port = p2\<rparr>, True), s') \<and> flat s' = rest"
proof -
  have "list_all plain_char family" using assms(1) by (auto simp: plain_char_def)
  moreover have "list_all (list_all plain_char) [h1, h2, itoa p1, itoa p2]"
    using parseIP_plain assms itoa_plain by simp
  ultimately show ?thesis
    using readProxyProtocolHeader_v1 [OF assms(9), of family "[h1, h2, itoa p1, itoa p2]"] parse_v1_line_endpoints [OF assms(1-8)]
    by (auto simp: v1_endpoints_def)
qed

theorem proxy_line_read_witness:
  "\<exists>s'. readProxyProtocolHeader (bytes_reader (bytes_of (v1_endpoints ''TCP4'' (v4String [1, 2, 3, 4]) (v4String [5, 6, 7, 8]) 9 10)))
    = (Inr (Some \<lparr>ta_IP = as16 [1, 2, 3, 4], ta_Port = 9\<rparr>, Some \<lparr>ta_IP = as16 [5, 6, 7, 8], ta_Port = 10\<rparr>, True), s') \<and> flat s' = []"
proof (rule proxy_line_read)
  show "length (v1_endpoints ''TCP4'' (v4String [1, 2, 3, 4]) (v4String [5, 6, 7, 8]) 9 10) \<le> 107" by code_simp
qed (simp_all add: parseIP_v4String bytes_reader_def flat_def)

text \<open>The defaults fill every required field of any decoded configuration, a second pass changes
  nothing, and authentication, proxy, dimension and schematic settings are left as they are.\<close>

theorem config_defaults_settled:
  "config_complete (config_defaults c) \<and> config_defaults (config_defaults c) = config_defaults c
    \<and> fc_Auth (config_defaults c) = fc_Auth c \<and> fc_ProxyProtocol (config_defaults c) = fc_ProxyProtocol c
    \<and> fc_Dimension (config_defaults c) = fc_Dimension c \<and> fc_Schematic (config_defaults c) = fc_Schematic c"
  using config_defaults_complete [of c] config_defaults_id [of "config_defaults c"] config_defaults_keeps [of c] by simp

text \<open>Looking up a protocol gives exactly the releases with it in release order, the override
  included, and the protocol list is ascending and complete.\<close>

theorem version_tables_agree:
  "lookupProtocol p = filter (\<lambda>v. ver_Protocol v = p) versions_All
    \<and> set versions_Protocols = ver_Protocol ` set versions_All \<and> sorted_wrt (<) versions_Protocols
    \<and> sorted (map ver_Protocol versions_All)"
  using lookupProtocol_filter versions_Protocols_set releases_ascending by simp

text \<open>Inside a gradient each colour is the last one, or is made of three channels that are bytes:
  rounding in float64 never makes a channel overflow.\<close>

theorem gradient_stays_in_bytes:
  assumes "2 \<le> length colors" "length colors < 2 ^ 53" "1 < tot" "tot < 2 ^ 53" "0 \<le> index" "index < tot"
    "\<forall>c \<in> set colors. rgba_ok E c"
  shows "gradientColor E colors index tot = last colors \<or>
    (\<exists>r g b. gradientColor E colors index tot = mx_HexInt E (rgb_int r g b) \<and>
       0 \<le> r \<and> r \<le> 255 \<and> 0 \<le> g \<and> g \<le> 255 \<and> 0 \<le> b \<and> b \<le> 255)"
  using gradient_bytes [OF assms] .

theorem gradient_stays_in_bytes_witness:
  "gradientColor sample_mm [0xFF0000, 0xFF] 1 3 = last [0xFF0000, 0xFF] \<or>
    (\<exists>r g b. gradientColor sample_mm [0xFF0000, 0xFF] 1 3 = mx_HexInt sample_mm (rgb_int r g b) \<and>
       0 \<le> r \<and> r \<le> 255 \<and> 0 \<le> g \<and> g \<le> 255 \<and> 0 \<le> b \<and> b \<le> 255)"
  by (rule gradient_stays_in_bytes) (simp_all add: sample_rgba)

text \<open>The 1.8 body has the blocks of each present section and three arrays of half a byte per block
  behind them, then the biomes; a client expects two such arrays.\<close>

theorem chunk47_length:
  "length (encodeChunkData47 blocks palette chnk (section_mask chnk) protocol)
     = (2 * 4096 + 3 * 2048) * length (present chnk) + 256"
proof -
  have "length (writeShort v) = 2" for v by simp
  then have "length (concat (map f xs)) = n * length xs" if "\<And>x. length (f x) = n" for f :: "nat \<Rightarrow> byte list" and xs n
    using that by (induction xs) simp_all
  note l = this
  show ?thesis
    by (simp add: encodeChunkData47_def present_def over_mask_section_mask Let_def l [where n = 14336] l [where n = 2]
      del: upt_conv_Cons)
qed

text \<open>The NBT made of a component JSON value within range decodes to the tree of that JSON value:
  booleans as bytes, numbers as int or float, homogeneous lists, objects as compounds.\<close>

theorem json_to_nbt:
  assumes "ev_jsonDecode E d = Inr v" "json_ok v" "nbt_depth (tree_of v) \<le> fuel"
  shows "\<exists>bs. componentJSONToAnonymousNBT (ev_jsonDecode E) d = Inr bs \<and> d_anonymous fuel bs = Some (tree_of v, [])"
  using writeAnonymousJSONNBT_decodes [OF assms(2,3)] assms(1) by (simp add: componentJSONToAnonymousNBT_def)

theorem json_to_nbt_witness:
  "\<exists>bs. componentJSONToAnonymousNBT (ev_jsonDecode sample_env) [] = Inr bs \<and> d_anonymous 1 bs = Some (tree_of (JObj []), [])"
  by (rule json_to_nbt) (simp_all add: sample_env_def)

text \<open>The dimension type sent to a modern client is NBT that decodes to the compound of the dimension
  fields.\<close>

theorem dimension_type_reads_back:
  assumes "length (dm_Effects d) < 65536"
  shows "d_anonymous 3 (dimensionTypeNBT d @ rest) = Some (NCompound (dimension_fields d), rest)"
  by (rule dimensionTypeNBT_decodes [OF assms])

theorem dimension_type_reads_back_witness:
  "d_anonymous 3 (dimensionTypeNBT (dimensionPreset DimensionNether 256) @ [1])
    = Some (NCompound (dimension_fields (dimensionPreset DimensionNether 256)), [1])"
  by (rule dimension_type_reads_back) (simp add: dimensionPreset_def environment_defs Let_def)

text \<open>A successful update of the registry store is what is read afterwards; a nil update or a zip that
  fails to load leaves the snapshot as it was.\<close>

theorem registry_store_snapshot:
  "store_registryData (snd (store_update (Some d) st)) = Inr d
    \<and> snd (store_update None st) = st \<and> snd (store_updateZip (Inl e) st) = st
    \<and> store_registryData (snd (store_updateZip (Inr d) st)) = Inr d"
  by (simp add: store_update_def store_updateZip_def store_registryData_def)

text \<open>Five bytes with the continuation bit are rejected as too long, whatever follows.\<close>

theorem varint_overlong_rejected:
  assumes "\<forall>b \<in> set bs. b AND 0x80 \<noteq> 0" "length bs = 5" "flat s = bs @ rest"
  shows "readVarInt s = Inl (Errorf ''minecraft varint exceeds %d bytes'' [FD 5])"
  by (rule readVarInt_overlong [OF assms(1,3,2)])

theorem varint_overlong_rejected_witness:
  "readVarInt (bytes_reader (replicate 5 0xff @ [0])) = Inl (Errorf ''minecraft varint exceeds %d bytes'' [FD 5])"
  by (rule varint_overlong_rejected [of "replicate 5 0xff"]) simp_all

text \<open>A frame of length zero gives io.EOF, which the play loop takes for a closed connection: the
  session ends without an error (a malformed packet is not reported).\<close>

theorem empty_frame_ends_session:
  assumes "flat (c_reader (ss_conn s)) = 0 # rest"
  shows "fst (play_loop E h k s) = None"
proof -
  have "readPacket (c_reader (ss_conn s)) 0 = Inl EOF" by (rule readPacket_empty_frame [OF assms])
  then show ?thesis
    by (subst play_loop.simps) (simp add: session_read_def connReadPacket_def isClosedPlayConnError_def)
qed

theorem empty_frame_ends_session_witness:
  "fst (play_loop sample_env sample_handler 1 (new_session (sample_conn [0, 5]) sample_player (newPlayAdapter 775))) = None"
  by (rule empty_frame_ends_session) (simp add: new_session_def)

text \<open>Positions within 26/12/26 bits survive packing; the client unpacks the same signed coordinates
  from the eight bytes.\<close>

theorem position_roundtrip:
  assumes "- (2 ^ 25) \<le> x" "x < 2 ^ 25" "- (2 ^ 11) \<le> y" "y < 2 ^ 11" "- (2 ^ 25) \<le> z" "z < 2 ^ 25"
  shows "\<exists>w. writePosition x y z = put_be 8 w \<and> unpackPosition w = (x, y, z)"
  using unpack_packPosition [OF assms] by (auto simp: writePosition_def writeLong_def)

theorem position_roundtrip_witness:
  "\<exists>w. writePosition (- 33554432) 2047 (- 1) = put_be 8 w \<and> unpackPosition w = (- 33554432, 2047, - 1)"
  by (rule position_roundtrip) simp_all

text \<open>Within one window an address is granted exactly the smaller of the configured number and the
  number of its requests, whatever other addresses do in between.\<close>

theorem limiter_window_grants:
  assumes "limiter_inv l" "expired t (entry_of (rl_entries l) k)" "0 < t" "0 < rl_window l" "0 \<le> rl_requests l"
    "sorted (t # map snd rs)" "\<forall>(_, u) \<in> set rs. u < t + rl_window l"
  shows "granted k rs (fst (allow_run l rs)) = min (rl_requests l) (asked k rs)"
proof -
  have "fst (allow_run l rs) = spec_run (rl_requests l) (rl_window l) (entry_of (rl_entries l)) rs"
    by (rule allow_run_spec [OF assms(1) _ assms(6)]) (simp add: agree_def)
  with assms(2-7) show ?thesis by (simp only: granted_fresh_window [of t])
qed

theorem limiter_window_grants_witness:
  "granted ''a'' [(''a'', 1), (''a'', 5)] (fst (allow_run (newRateLimiter \<lparr>cfg_requests = 1, cfg_window = 10\<rparr>) [(''a'', 1), (''a'', 5)])) = 1"
  using limiter_window_grants [of "newRateLimiter \<lparr>cfg_requests = 1, cfg_window = 10\<rparr>" 1 "''a''" "[(''a'', 1), (''a'', 5)]"]
  by (simp add: newRateLimiter_def expired_def entry_of_def limiter_inv_def)

text \<open>Normalising a dimension fills in every field the protocol writers rely on, and normalising again
  changes nothing.\<close>

theorem dimension_normalised:
  "dimension_complete (normalizeDimension d h)
    \<and> normalizeDimension (normalizeDimension d h) h' = normalizeDimension d h"
  by (simp add: normalizeDimension_complete)

text \<open>The offline UUID is a string writeUUID accepts; its 16 bytes are the MD5 of OfflinePlayer:name
  with version 3 and the RFC variant stamped in.\<close>

theorem offline_uuid_version3:
  assumes "length (md5 (bytes_of (''OfflinePlayer:'' @ username))) = 16"
  shows "\<exists>u. writeUUID (OfflineUUID md5 username) = Inr u \<and> length u = 16
    \<and> drop_bit 4 (u ! 6) = 3 \<and> drop_bit 6 (u ! 8) = 2
    \<and> (\<forall>i < 16. i \<noteq> 6 \<longrightarrow> i \<noteq> 8 \<longrightarrow> u ! i = md5 (bytes_of (''OfflinePlayer:'' @ username)) ! i)"
  using assms by (intro exI [of _ "stamp_uuid 0x30 (md5 (bytes_of (''OfflinePlayer:'' @ username)))"])
    (auto simp: OfflineUUID_writes stamp_uuid_bits)

theorem offline_uuid_version3_witness:
  "\<exists>u. writeUUID (OfflineUUID (\<lambda>_. replicate 16 0xff) ''Steve'') = Inr u \<and> drop_bit 4 (u ! 6) = 3"
  using offline_uuid_version3 [of "\<lambda>_. replicate 16 0xff" "''Steve''"] by auto

text \<open>A verified profile comes only from a 2xx answer (not 204) of the configured session server to
  the query with this name, server id and, if given, address; it has a name and an id, and its
  source is Mojang exactly when no custom base URL was configured.\<close>

theorem session_verification_sound:
  assumes "VerifySession exchange (NewYggdrasilVerifier base) prf = Inr profile"
  shows "\<exists>res payload. exchange (yv_baseURL (NewYggdrasilVerifier base) @ ''/session/minecraft/hasJoined'')
        ([(''username'', pf_Username prf), (''serverId'', pf_ServerID prf)] @
         (if pf_RemoteIP prf \<noteq> '''' then [(''ip'', pf_RemoteIP prf)] else [])) = Inr res
    \<and> 200 \<le> ht_StatusCode res \<and> ht_StatusCode res < 300 \<and> ht_StatusCode res \<noteq> 204
    \<and> ht_Body res = Inr payload \<and> vf_Name profile = hj_Name payload \<and> vf_Name profile \<noteq> ''''
    \<and> vf_UUID profile \<noteq> '''' \<and> vf_Verified profile
    \<and> (vf_Source profile = AuthSourceMojang \<longleftrightarrow> (\<forall>c \<in> set base. c = CHR ''/''))"
  using VerifySession_Inr [OF assms] unfolding NewYggdrasilVerifier_source [of base, symmetric]
  by fastforce

theorem session_verification_sound_witness:
  "\<exists>profile. VerifySession sample_exchange (NewYggdrasilVerifier '''') sample_proof = Inr profile
   \<and> vf_Source profile = AuthSourceMojang"
proof -
  have "\<not> isl (VerifySession sample_exchange (NewYggdrasilVerifier '''') sample_proof)" by code_simp
  then obtain profile where v: "VerifySession sample_exchange (NewYggdrasilVerifier '''') sample_proof = Inr profile"
    by (cases "VerifySession sample_exchange (NewYggdrasilVerifier '''') sample_proof") auto
  from session_verification_sound [OF this] have "vf_Source profile = AuthSourceMojang" by auto
  with v show ?thesis by blast
qed

text \<open>Where a session does not advertise a capability, the operation answers with
  ErrUnsupportedCapability and sends nothing.\<close>

theorem capabilities_honest:
  "(sc_ActionBar (sessionCapabilities_of E ad) \<or> answers_unsupported (writeActionBar E ad msg))
   \<and> (sc_StoreCookie (sessionCapabilities_of E ad) \<or> answers_unsupported (writeStoreCookie E ad key value))
   \<and> (sc_Transfer (sessionCapabilities_of E ad) \<or> answers_unsupported (writeTransfer E ad host port))
   \<and> (sc_Disconnect (sessionCapabilities_of E ad) \<or> answers_unsupported (writeKickDisconnect E ad msg))
   \<and> (sc_Title (sessionCapabilities_of E ad) \<or> answers_unsupported (writeClearTitle E ad reset)
       \<or> hasClientboundPlayPacket E ad ''clear_titles'')"
  using capability_unsupported [of E ad] unfolding hasClientboundPlayPacket_def by blast

text \<open>Where the protocol has the packet, a transfer is sent exactly for a nonempty host and a port in
  1..65535 and fails otherwise.\<close>

theorem transfer_bounds:
  assumes "clientID E ad ''transfer'' = Some i"
  shows "if host \<noteq> '''' \<and> 1 \<le> port \<and> port \<le> 65535
    then sends (writeTransfer E ad host port) [mk_packet i (writeString host @ writeVarInt port)]
    else \<exists>e. writeTransfer E ad host port = failE e"
  using writeTransfer_sends [OF assms] writeTransfer_fails [of host port E ad] by force

theorem transfer_bounds_witness:
  "sends (writeTransfer sample_env (newPlayAdapter 775) ''h'' 25565)
    [mk_packet 129 (writeString ''h'' @ writeVarInt 25565)]"
proof -
  have "clientID sample_env (newPlayAdapter 775) ''transfer'' = Some 129" by code_simp
  from transfer_bounds [OF this, of "''h''" 25565] show ?thesis by simp
qed

text \<open>A chat packet calls the handler once: with a command event without its slash if the text starts
  with one, with a chat event otherwise.\<close>

theorem chat_dispatch:
  assumes "isServerboundPlayPacket E (ss_adapter s) i ''chat''" "string_ok 256 msg"
  shows "handlePlayPacket E h k (mk_packet i (writeString msg @ rest)) s = run_prog E (hd_handle h k
    (if hasPrefix msg ''/'' then CommandEvent (ss_player s) (trimPrefix msg ''/'') (pa_protocol (ss_adapter s))
     else ChatEvent (ss_player s) msg (pa_protocol (ss_adapter s)))) s"
  using assms wire_string.dec_bytes [of 256 msg rest]
  by (simp add: handlePlayPacket_def packet_event_def readFirstPacketString_def Let_def)

theorem chat_dispatch_witness:
  "handlePlayPacket sample_env sample_handler 1 (mk_packet 1 (writeString ''/spawn''))
      (new_session (sample_conn []) sample_player (newPlayAdapter 47))
    = run_prog sample_env (hd_handle sample_handler 1 (CommandEvent sample_player ''spawn'' 47))
      (new_session (sample_conn []) sample_player (newPlayAdapter 47))"
proof -
  have "isServerboundPlayPacket sample_env (newPlayAdapter 47) 1 ''chat''" "string_ok 256 ''/spawn''" by code_simp+
  then show ?thesis
    using chat_dispatch [of sample_env "new_session (sample_conn []) sample_player (newPlayAdapter 47)" 1 "''/spawn''" sample_handler 1 "[]"]
    by (simp add: new_session_def trimPrefix_def newPlayAdapter_def)
qed

text \<open>After a resource pack was added, the answer of a client that echoes the id it was sent is
  resolved to that pack and its own id, with the status decoded.\<close>

theorem resource_pack_response_names_pack:
  assumes "api_call E (AddResourcePack pack) s = (Inr (), s')" "hasModernResourcePackID E (ss_adapter s)"
    "pa_protocol (ss_adapter s) \<noteq> protocol47" "length raw = 16" "is_int32 status"
    "ev_uuidString E raw = resourcePackProtocolUUID E (rp_ID pack)" "ev_uuidString E raw \<noteq> ''''"
  shows "readResourcePackResponse E s' (raw @ writeVarInt status) = Inr \<lparr>rr_Player = ss_player s,
    rr_ID = rp_ID pack, rr_Pack = Some pack, rr_Status = resourcePackStatus status,
    rr_StatusCode = status, rr_Protocol = pa_protocol (ss_adapter s)\<rparr>"
proof -
  obtain u s1 where o: "on_conn (writeResourcePack E (ss_adapter s) pack) s = (Inr u, s1)"
    and s': "s' = rememberResourcePack E pack s1"
    using assms(1) by (auto split: prod.splits sum.splits)
  have k: "ss_player s1 = ss_player s" "ss_adapter s1 = ss_adapter s"
    using on_conn_session_le [OF o] by (simp_all add: only_writes_intros session_le_def)
  have r: "readFull 16 (bytes_reader (raw @ writeVarInt status)) = Inr (raw, bytes_reader (writeVarInt status))"
    using assms(4) by (simp add: readFull_append [of _ raw "writeVarInt status"])
  have v: "readVarInt (bytes_reader (writeVarInt status)) = Inr (status, bytes_reader [])"
    by (rule varint.dec_bytes_all [OF assms(5)])
  have "map_of (ss_resourcePackProtocolIDs s') (ev_uuidString E raw) = Some (rp_ID pack)"
    "map_of (ss_resourcePacks s') (rp_ID pack) = Some pack"
    by (simp_all add: s' rememberResourcePack_def Let_def update_conv' assms(6))
  moreover have "ss_adapter s' = ss_adapter s" "ss_player s' = ss_player s"
    using k by (simp_all add: s' rememberResourcePack_def Let_def)
  ultimately show ?thesis using assms(2,3,7)
    by (simp add: readResourcePackResponse_def Let_def readPacketUUID_def r v remaining_def)
qed

theorem resource_pack_response_names_pack_witness:
  "\<exists>s' ev. readResourcePackResponse sample_env s' (replicate 16 7 @ writeVarInt 3) = Inr ev
    \<and> rr_Pack ev = Some sample_pack \<and> rr_Status ev = ''accepted''"
proof -
  let ?s = "new_session (sample_conn []) sample_player (newPlayAdapter 775)"
  have "\<not> isl (fst (api_call sample_env (AddResourcePack sample_pack) ?s))" by code_simp
  then obtain s' where s': "api_call sample_env (AddResourcePack sample_pack) ?s = (Inr (), s')"
    by (cases "api_call sample_env (AddResourcePack sample_pack) ?s"; cases "fst (api_call sample_env (AddResourcePack sample_pack) ?s)") auto
  have e: "hasModernResourcePackID sample_env (ss_adapter ?s)" "pa_protocol (ss_adapter ?s) \<noteq> protocol47"
    "ev_uuidString sample_env (replicate 16 7) = resourcePackProtocolUUID sample_env (rp_ID sample_pack)"
    "ev_uuidString sample_env (replicate 16 7) \<noteq> ''''" "is_int32 3" by code_simp+
  show ?thesis
    by (intro exI conjI, rule resource_pack_response_names_pack [OF s' e(1,2) _ e(5,3,4)])
      (simp_all add: resourcePackStatus_def)
qed

text \<open>A translation with a fallback tag and a single argument panics in the parser; ParseMiniMessage
  turns that into an error.\<close>

theorem lang_or_panics_text:
  "\<exists>e. ParseMiniMessage E ''<lang_or:x>'' = Inl e"
  by (simp add: ParseMiniMessage_def lang_or_panics)

text \<open>A reversed rainbow past its counted runes gets a negative hue, and a blue channel above 255.\<close>

theorem reversed_rainbow_overflows:
  "hsvToRGB (- 1 / 4) 1 1 = (255, 0, 382)"
  by (rule rainbow_overflow)

text \<open>A rainbow colour at an index that is not negative is made of three bytes.\<close>

theorem rainbow_stays_in_bytes:
  assumes "0 \<le> index" "index < 2 ^ 40" "1 < tot" "tot < 2 ^ 53"
  shows "\<exists>r g b. rainbowColor E index tot = mx_HexInt E (rgb_int r g b) \<and>
    0 \<le> r \<and> r \<le> 255 \<and> 0 \<le> g \<and> g \<le> 255 \<and> 0 \<le> b \<and> b \<le> 255"
  by (rule rainbow_bytes [OF assms])

text \<open>A server with a static join gives every player the same world and its named spawn, and records
  nothing.\<close>

theorem static_join_serves:
  assumes "scf_JoinResolver (srv_cfg s) = Some (StaticJoin (Some w) spawn)"
  shows "server_ResolveJoin s pl = (Inr \<lparr>jt_World = Some w, jt_Spawn = named_spawn w spawn\<rparr>, s)
    \<and> server_ResolveSpawn s pl = (Inr (named_spawn w spawn), s)"
  using static_join_resolves [OF assms] by blast

text \<open>A configuration that sets only the game mode or the look keeps its position as it is, so an
  omitted position is (0, 0, 0), and the bedrock of the default world does not move with a
  configured position.\<close>

theorem spawn_parts_block_default:
  assumes "fc_SpawnMode c \<noteq> 0 \<or> \<not> f32_is_0 (rot_Yaw (fc_SpawnLook c)) \<or> \<not> f32_is_0 (rot_Pitch (fc_SpawnLook c))"
  shows "fc_SpawnPos (config_defaults c) = fc_SpawnPos c \<and> fc_SpawnLook (config_defaults c) = fc_SpawnLook c
    \<and> fc_SpawnMode (config_defaults c) = fc_SpawnMode c
    \<and> block_at (w_Chunk (memory_world (defaultWorldWithDimension i d))) 0 64 0 = Some 1"
  using spawn_taken [of c] assms by (auto simp: spawn_unset_def default_world_blocks)

theorem spawn_parts_block_default_witness:
  "fc_SpawnPos (config_defaults (empty_config\<lparr>fc_SpawnMode := 2\<rparr>)) = \<lparr>v_X = 0, v_Y = 0, v_Z = 0\<rparr>"
  using spawn_parts_block_default [of "empty_config\<lparr>fc_SpawnMode := 2\<rparr>"] by (simp add: empty_config_def)

end
